(* ===== verification/Prelude.thy ===== *)
theory Prelude
  imports "HOL-Library.Sublist"
begin

text \<open>
  Vocabulary shared by every component: byte strings and the operations of Go's packages
  strings, strconv and errors that the sources use, error values, and the stage
  combinator in which the HTTP handlers are written.
\<close>

named_theorems go_string "characteristic facts of the string operations"
named_theorems stage_simps "evaluation of one stage"

type_synonym bytes = string

section \<open>Errors\<close>

text \<open>
  Go errors as values. A plain error carries its message; an error built with the verb
  w of fmt.Errorf wraps its cause, so that errors.Is finds the two context errors below it.
\<close>

datatype go_error = Canceled | DeadlineExceeded | Err string | Wrap string go_error

fun err_is_canceled :: "go_error \<Rightarrow> bool" where
  "err_is_canceled Canceled = True"
| "err_is_canceled (Wrap m e) = err_is_canceled e"
| "err_is_canceled e = False"

fun err_is_deadline :: "go_error \<Rightarrow> bool" where
  "err_is_deadline DeadlineExceeded = True"
| "err_is_deadline (Wrap m e) = err_is_deadline e"
| "err_is_deadline e = False"

text \<open>The method Error of an error; a wrapping error is written \<open>message: cause\<close>.\<close>

fun err_text :: "go_error \<Rightarrow> string" where
  "err_text Canceled = ''context canceled''"
| "err_text DeadlineExceeded = ''context deadline exceeded''"
| "err_text (Err m) = m"
| "err_text (Wrap m e) = m @ '': '' @ err_text e"

lemma canceled_not_deadline: "err_is_canceled e \<Longrightarrow> \<not> err_is_deadline e"
  by (induction e) auto

type_synonym 'a res = "go_error + 'a"

fun bind_res :: "'a res \<Rightarrow> ('a \<Rightarrow> 'b res) \<Rightarrow> 'b res" where
  "bind_res (Inl e) f = Inl e"
| "bind_res (Inr x) f = f x"

lemma bind_res_Inr_iff: "bind_res r f = Inr y \<longleftrightarrow> (\<exists>x. r = Inr x \<and> f x = Inr y)"
  by (cases r) auto

section \<open>Strings\<close>

definition has_prefix :: "string \<Rightarrow> string \<Rightarrow> bool" where
  "has_prefix s p = (take (length p) s = p)"

definition trim_prefix :: "string \<Rightarrow> string \<Rightarrow> string" where
  "trim_prefix s p = (if has_prefix s p then drop (length p) s else s)"

definition has_suffix :: "string \<Rightarrow> string \<Rightarrow> bool" where
  "has_suffix s p = (length p \<le> length s \<and> drop (length s - length p) s = p)"

definition trim_suffix :: "string \<Rightarrow> string \<Rightarrow> string" where
  "trim_suffix s p = (if has_suffix s p then take (length s - length p) s else s)"

text \<open>strings.Split with a separator of one byte: never the empty list.\<close>

fun split_on :: "char \<Rightarrow> string \<Rightarrow> string list" where
  "split_on c [] = [[]]"
| "split_on c (x # xs) =
     (if x = c then [] # split_on c xs
      else (case split_on c xs of [] \<Rightarrow> [[x]] | w # ws \<Rightarrow> (x # w) # ws))"

fun join :: "string \<Rightarrow> string list \<Rightarrow> string" where
  "join sep [] = []"
| "join sep [x] = x"
| "join sep (x # y # xs) = x @ sep @ join sep (y # xs)"

text \<open>strings.Index: the first position of a substring.\<close>

fun index_of :: "string \<Rightarrow> string \<Rightarrow> nat option" where
  "index_of [] p = (if p = [] then Some 0 else None)"
| "index_of (x # xs) p =
     (if has_prefix (x # xs) p then Some 0 else map_option Suc (index_of xs p))"

definition contains :: "string \<Rightarrow> string \<Rightarrow> bool" where
  "contains s p = (index_of s p \<noteq> None)"

text \<open>
  strings.Replace with count \<open>-1\<close>, for a non-empty old string: occurrences are replaced
  from the left and do not overlap. \<open>replace_first\<close> is the count \<open>1\<close>.
\<close>

function replace_all :: "string \<Rightarrow> string \<Rightarrow> string \<Rightarrow> string" where
  "replace_all s old new =
     (if s = [] \<or> old = [] then s
      else if has_prefix s old then new @ replace_all (drop (length old) s) old new
      else hd s # replace_all (tl s) old new)"
  by pat_completeness auto
termination
  by (relation "measure (\<lambda>(s, old, new). length s)") auto

declare replace_all.simps [simp del]

fun replace_first :: "string \<Rightarrow> string \<Rightarrow> string \<Rightarrow> string" where
  "replace_first [] old new = (if old = [] then new else [])"
| "replace_first (x # xs) old new =
     (if has_prefix (x # xs) old then new @ drop (length old) (x # xs)
      else x # replace_first xs old new)"

text \<open>strconv.Itoa of a natural number, and the digits strconv.Atoi reads.\<close>

definition digit_char :: "nat \<Rightarrow> char" where
  "digit_char d = char_of (48 + d)"

function itoa :: "nat \<Rightarrow> string" where
  "itoa n = (if n < 10 then [digit_char n] else itoa (n div 10) @ [digit_char (n mod 10)])"
  by pat_completeness auto
termination
  by (relation "measure id") auto

declare itoa.simps [simp del]

lemma itoa_nonempty: "itoa n \<noteq> []"
  by (simp add: itoa.simps [of n])

definition itoa_int :: "int \<Rightarrow> string" where
  "itoa_int i = (if i < 0 then CHR ''-'' # itoa (nat (- i)) else itoa (nat i))"

definition is_digit :: "char \<Rightarrow> bool" where
  "is_digit c = (48 \<le> (of_char c :: nat) \<and> (of_char c :: nat) \<le> 57)"

definition digit_val :: "char \<Rightarrow> nat" where
  "digit_val c = of_char c - 48"

definition digits_val :: "string \<Rightarrow> nat" where
  "digits_val s = foldl (\<lambda>acc c. 10 * acc + digit_val c) 0 s"

section \<open>Paths\<close>

text \<open>path.Clean and path.Join: the lexical normal form of a slash-separated path.\<close>

fun clean_push :: "bool \<Rightarrow> string list \<Rightarrow> string \<Rightarrow> string list" where
  "clean_push rooted out w =
     (if w = [] \<or> w = ''.'' then out
      else if w = ''..'' then
        (case out of
           [] \<Rightarrow> (if rooted then [] else [''..''])
         | d # ds \<Rightarrow> (if d = ''..'' then ''..'' # out else ds))
      else w # out)"

definition path_clean :: "string \<Rightarrow> string" where
  "path_clean p =
     (let rooted = has_prefix p ''/'';
          out = rev (foldl (clean_push rooted) [] (split_on (CHR ''/'') p)) in
      if rooted then CHR ''/'' # join ''/'' out
      else if out = [] then ''.'' else join ''/'' out)"

definition path_join :: "string list \<Rightarrow> string" where
  "path_join es =
     (let es' = filter (\<lambda>e. e \<noteq> []) es in
      if es' = [] then [] else path_clean (join ''/'' es'))"

section \<open>Header names\<close>

definition ascii_upper :: "char \<Rightarrow> char" where
  "ascii_upper c =
     (let n = (of_char c :: nat) in if 97 \<le> n \<and> n \<le> 122 then char_of (n - 32) else c)"

definition ascii_lower :: "char \<Rightarrow> char" where
  "ascii_lower c =
     (let n = (of_char c :: nat) in if 65 \<le> n \<and> n \<le> 90 then char_of (n + 32) else c)"

text \<open>
  strings.ToUpper as far as a comparison with an ASCII text sees it: beside the ASCII
  letters, the dotless i and the long s (two bytes each in UTF-8) have an upper case in
  ASCII; the upper case of every other character stays outside ASCII.
\<close>

fun to_upper :: "string \<Rightarrow> string" where
  "to_upper (a # b # cs) =
     (if of_char a = (196 :: nat) \<and> of_char b = (177 :: nat) then CHR ''I'' # to_upper cs
      else if of_char a = (197 :: nat) \<and> of_char b = (191 :: nat) then CHR ''S'' # to_upper cs
      else ascii_upper a # to_upper (b # cs))"
| "to_upper [a] = [ascii_upper a]"
| "to_upper [] = []"

text \<open>
  textproto.CanonicalMIMEHeaderKey on names of token characters: upper case at the start
  and after a hyphen, lower case elsewhere.
\<close>

fun canonical_from :: "bool \<Rightarrow> string \<Rightarrow> string" where
  "canonical_from up [] = []"
| "canonical_from up (c # cs) =
     (if up then ascii_upper c else ascii_lower c) # canonical_from (c = CHR ''-'') cs"

definition canonical_key :: "string \<Rightarrow> string" where
  "canonical_key s = canonical_from True s"

section \<open>Lists without repetitions\<close>

text \<open>The specification of every loop of the program that drops repeated entries.\<close>

fun keep_first :: "'a list \<Rightarrow> 'a list" where
  "keep_first [] = []"
| "keep_first (x # xs) = x # filter (\<lambda>y. y \<noteq> x) (keep_first xs)"

lemma set_keep_first [simp]: "set (keep_first xs) = set xs"
  by (induction xs) auto

lemma distinct_keep_first [simp]: "distinct (keep_first xs)"
  by (induction xs) auto

lemma keep_first_distinct: "distinct xs \<Longrightarrow> keep_first xs = xs"
  by (induction xs) (auto intro: filter_True)

lemma filter_keep_first: "filter P (keep_first xs) = keep_first (filter P xs)"
proof (induction xs)
  case (Cons x xs)
  have "filter P (filter (\<lambda>y. y \<noteq> x) (keep_first xs))
      = filter (\<lambda>y. y \<noteq> x) (filter P (keep_first xs))"
    by (simp add: conj_commute)
  moreover have "\<not> P x \<Longrightarrow> filter (\<lambda>y. y \<noteq> x) (filter P (keep_first xs)) = filter P (keep_first xs)"
    by (rule filter_True) auto
  ultimately show ?case using Cons by (auto simp del: filter_filter)
qed simp

lemma keep_first_snoc:
  "keep_first (xs @ [x]) = (if x \<in> set xs then keep_first xs else keep_first xs @ [x])"
  by (induction xs) auto

lemma subseq_keep_first: "subseq (keep_first xs) xs"
proof (induction xs)
  case (Cons x xs)
  have "subseq (filter (\<lambda>y. y \<noteq> x) (keep_first xs)) (keep_first xs)"
    by (rule subseq_filter_left)
  with Cons have "subseq (filter (\<lambda>y. y \<noteq> x) (keep_first xs)) xs"
    using subseq_order.order_trans by blast
  then show ?case by simp
qed simp

text \<open>
  The contract the callers of such a loop rely on. It fixes neither which occurrence of an
  entry is kept nor how; the order is that of the given list.
\<close>

locale deduplicator =
  fixes dedup :: "'a list \<Rightarrow> 'a list"
  assumes distinct_dedup: "distinct (dedup xs)"
    and set_dedup: "set (dedup xs) = set xs"
    and subseq_dedup: "subseq (dedup xs) xs"
begin

lemma length_dedup: "length (dedup xs) = card (set xs)"
  using distinct_card [OF distinct_dedup [of xs]] by (simp add: set_dedup)

lemma dedup_distinct: "distinct xs \<Longrightarrow> dedup xs = xs"
  using subseq_dedup [of xs] length_dedup [of xs]
  by (simp add: distinct_card subseq_same_length)

lemma dedup_idem: "dedup (dedup xs) = dedup xs"
  by (simp add: dedup_distinct distinct_dedup)

lemma dedup_unchanged_iff: "dedup xs = xs \<longleftrightarrow> distinct xs"
  using distinct_dedup [of xs] by (auto simp: dedup_distinct)

end

section \<open>Panics\<close>

text \<open>
  The outcome of code that may panic (a nil dereference, an index out of range), and the
  dereference of a pointer that may be nil.
\<close>

datatype 'a outcome = Panicked string | Returned 'a

fun bind_out :: "'a outcome \<Rightarrow> ('a \<Rightarrow> 'b outcome) \<Rightarrow> 'b outcome" where
  "bind_out (Panicked m) f = Panicked m"
| "bind_out (Returned x) f = f x"

fun deref :: "'a option \<Rightarrow> 'a outcome" where
  "deref None = Panicked ''nil pointer dereference''"
| "deref (Some x) = Returned x"

text \<open>The slice expression \<open>data[lo:hi]\<close> on data that has no spare capacity.\<close>

definition go_slice :: "'a list \<Rightarrow> int \<Rightarrow> int \<Rightarrow> 'a list outcome" where
  "go_slice data lo hi =
     (if 0 \<le> lo \<and> lo \<le> hi \<and> hi \<le> int (length data)
      then Returned (take (nat (hi - lo)) (drop (nat lo) data))
      else Panicked ''slice bounds out of range'')"

lemma bind_out_Returned_iff:
  "bind_out r f = Returned y \<longleftrightarrow> (\<exists>x. r = Returned x \<and> f x = Returned y)"
  by (cases r) auto

section \<open>Code with early returns\<close>

text \<open>
  A function body is a list of stages over its state: \<open>Inl\<close> is a return, \<open>Inr\<close> falls
  through to the next stage.
\<close>

type_synonym 's stage = "'s \<Rightarrow> 's + 's"

fun run_stages :: "'s stage list \<Rightarrow> 's \<Rightarrow> 's" where
  "run_stages [] s = s"
| "run_stages (f # fs) s = (case f s of Inl s' \<Rightarrow> s' | Inr s' \<Rightarrow> run_stages fs s')"

definition stage_state :: "'s + 's \<Rightarrow> 's" where
  "stage_state r = (case r of Inl s \<Rightarrow> s | Inr s \<Rightarrow> s)"

lemma stage_state_simps [simp]: "stage_state (Inl s) = s" "stage_state (Inr s) = s"
  by (simp_all add: stage_state_def)

definition preserves :: "('s \<Rightarrow> bool) \<Rightarrow> 's stage \<Rightarrow> bool" where
  "preserves P f = (\<forall>s. P s \<longrightarrow> P (stage_state (f s)))"

lemma preservesI: "(\<And>s. P s \<Longrightarrow> P (stage_state (f s))) \<Longrightarrow> preserves P f"
  by (simp add: preserves_def)

text \<open>An invariant of every stage is an invariant of the body.\<close>

lemma run_stages_invariant:
  "\<forall>f \<in> set fs. preserves P f \<Longrightarrow> P s \<Longrightarrow> P (run_stages fs s)"
proof (induction fs arbitrary: s)
  case (Cons f fs)
  then have "P (stage_state (f s))" by (simp add: preserves_def)
  with Cons show ?case by (cases "f s") auto
qed simp

text \<open>
  Partial correctness of a body: \<open>stage_triple P f Q R\<close> says that a stage started in \<open>P\<close>
  falls through in \<open>Q\<close> or returns in \<open>R\<close>; \<open>body_triple P fs R\<close> that a body started in
  \<open>P\<close> ends in \<open>R\<close>.
\<close>

definition stage_triple ::
    "('s \<Rightarrow> bool) \<Rightarrow> 's stage \<Rightarrow> ('s \<Rightarrow> bool) \<Rightarrow> ('s \<Rightarrow> bool) \<Rightarrow> bool" where
  "stage_triple P f Q R =
     (\<forall>s. P s \<longrightarrow> (case f s of Inl s' \<Rightarrow> R s' | Inr s' \<Rightarrow> Q s'))"

definition body_triple :: "('s \<Rightarrow> bool) \<Rightarrow> 's stage list \<Rightarrow> ('s \<Rightarrow> bool) \<Rightarrow> bool" where
  "body_triple P fs R = (\<forall>s. P s \<longrightarrow> R (run_stages fs s))"

lemma stage_tripleI:
  "(\<And>s. P s \<Longrightarrow> (case f s of Inl s' \<Rightarrow> R s' | Inr s' \<Rightarrow> Q s')) \<Longrightarrow> stage_triple P f Q R"
  by (simp add: stage_triple_def)

lemma body_Nil: "(\<And>s. P s \<Longrightarrow> R s) \<Longrightarrow> body_triple P [] R"
  by (simp add: body_triple_def)

lemma body_Cons:
  "stage_triple P f Q R \<Longrightarrow> body_triple Q fs R \<Longrightarrow> body_triple P (f # fs) R"
  by (fastforce simp: body_triple_def stage_triple_def split: sum.splits)

lemma body_weaken: "body_triple P fs R \<Longrightarrow> (\<And>s. P' s \<Longrightarrow> P s) \<Longrightarrow> body_triple P' fs R"
  by (simp add: body_triple_def)

lemma triple_preserves: "preserves I f \<Longrightarrow> stage_triple I f I I"
  by (fastforce simp: preserves_def stage_triple_def split: sum.split)

lemma stage_triple_post:
  "stage_triple P f Q R \<Longrightarrow> (\<And>s. R s \<Longrightarrow> R' s) \<Longrightarrow> stage_triple P f Q R'"
  by (fastforce simp: stage_triple_def split: sum.splits)

lemma body_preserves: "\<forall>f \<in> set fs. preserves I f \<Longrightarrow> body_triple I fs I"
  by (simp add: body_triple_def run_stages_invariant)

lemma body_post: "body_triple P fs R \<Longrightarrow> (\<And>s. R s \<Longrightarrow> R' s) \<Longrightarrow> body_triple P fs R'"
  by (simp add: body_triple_def)

lemma body_tripleD: "body_triple P fs R \<Longrightarrow> P s \<Longrightarrow> R (run_stages fs s)"
  by (simp add: body_triple_def)

section \<open>Integers and durations\<close>

text \<open>The value of a 64-bit signed operation, and a time.Second in nanoseconds.\<close>

definition wrap64 :: "int \<Rightarrow> int" where
  "wrap64 i = (i + 2 ^ 63) mod 2 ^ 64 - 2 ^ 63"

definition second :: int where
  "second = 1000000000"

lemma wrap64_bounds: "- (2 ^ 63) \<le> wrap64 i \<and> wrap64 i < 2 ^ 63"
  by (simp add: wrap64_def pos_mod_bound)

lemma wrap64_id: "- (2 ^ 63) \<le> i \<Longrightarrow> i < 2 ^ 63 \<Longrightarrow> wrap64 i = i"
  by (simp add: wrap64_def)

end
