(* ===== verification/Manifest.thy ===== *)
theory Manifest
  imports Prelude
begin

text \<open>
  pkg/manifest and the part of pkg/v2wundergraphapi it calls: the list of API dependencies
  of a project, its file, and the grouping of the resolved APIs by organisation that the
  integrations template is rendered from. \<open>'d\<close> is the type of file contents; the JSON codec
  of the manifest file is a parameter.
\<close>

section \<open>The API client\<close>

record placeholder =
  ph_name :: string
  ph_optional :: bool

record api_dependency =
  ad_organization :: string
  ad_name :: string
  ad_keywords :: "string list"
  ad_short :: string
  ad_markdown :: string
  ad_repository :: string
  ad_sdk_version :: string
  ad_definition :: bytes
  ad_public :: bool
  ad_placeholders :: "placeholder list"

text \<open>A response: its status and what reading its body gives.\<close>

type_synonym api_response = "nat \<times> bytes res"

definition quoted :: "string \<Rightarrow> string" where
  "quoted s = [CHR 0x27] @ s @ [CHR 0x27]"

definition GetApiDependency ::
    "(string \<Rightarrow> api_response res) \<Rightarrow> (bytes \<Rightarrow> api_dependency res) \<Rightarrow> (bytes \<Rightarrow> string) \<Rightarrow> string \<Rightarrow>
     api_dependency res" where
  "GetApiDependency do decode decode_error dep =
     (case do (''/v1/apis/'' @ dep) of
        Inl err \<Rightarrow> Inl (Wrap (''could not fetch api dependency '' @ quoted dep) err)
      | Inr (status, body) \<Rightarrow>
          (if status \<noteq> 200 then
             Inl (Err (''could not fetch api '' @ quoted dep @ '', error: '' @
               (case body of Inl _ \<Rightarrow> [] | Inr b \<Rightarrow> decode_error b)))
           else
             (case body of
                Inl err \<Rightarrow> Inl (Wrap (''could not read api dependency '' @ quoted dep) err)
              | Inr content \<Rightarrow>
                  (case decode content of
                     Inl err \<Rightarrow> Inl (Wrap (''could not decode api dependency '' @ quoted dep) err)
                   | Inr dependency \<Rightarrow> Inr dependency))))"

section \<open>The manifest and its file\<close>

text \<open>A nil slice of dependencies is \<open>None\<close>: \<open>RenderIntegrationsTemplate\<close> tells it from an empty one.\<close>

record manifest =
  mf_deps :: "string list option"
  mf_changes :: bool

definition New :: manifest where
  "New = \<lparr>mf_deps = None, mf_changes = False\<rparr>"

definition deps :: "manifest \<Rightarrow> string list" where
  "deps m = (case mf_deps m of None \<Rightarrow> [] | Some ds \<Rightarrow> ds)"

record 'd disk =
  dk_file :: "'d option"
  dk_read_error :: "go_error option"
  dk_write_error :: "go_error option"

text \<open>
  The JSON codec: \<open>cd_encode\<close> prints the exported fields, \<open>cd_decode\<close> reads a text into a
  manifest that may hold dependencies already, and may fail after having changed them.
\<close>

record 'd codec =
  cd_encode :: "string list option \<Rightarrow> 'd res"
  cd_decode :: "'d \<Rightarrow> string list option \<Rightarrow> string list option \<times> go_error option"

section \<open>Duplicates\<close>

definition find_other :: "'a list \<Rightarrow> nat \<Rightarrow> nat option" where
  "find_other ds i = find (\<lambda>j. j \<noteq> i \<and> ds ! i = ds ! j) [0..<length ds]"

fun find_duplicate :: "'a list \<Rightarrow> nat list \<Rightarrow> nat option" where
  "find_duplicate ds [] = None"
| "find_duplicate ds (i # is) =
     (case find_other ds i of Some j \<Rightarrow> Some j | None \<Rightarrow> find_duplicate ds is)"

lemma find_other_Some:
  "find_other ds i = Some j \<Longrightarrow> j < length ds \<and> j \<noteq> i \<and> ds ! i = ds ! j"
  by (auto simp: find_other_def find_Some_iff)

lemma find_other_None:
  "find_other ds i = None \<longleftrightarrow> (\<forall>j < length ds. j \<noteq> i \<longrightarrow> ds ! i \<noteq> ds ! j)"
  by (auto simp: find_other_def find_None_iff)

lemma find_duplicate_Some:
  "find_duplicate ds is = Some j \<Longrightarrow>
    \<exists>pre i post. is = pre @ i # post \<and> (\<forall>k \<in> set pre. find_other ds k = None)
      \<and> find_other ds i = Some j"
proof (induction "is")
  case (Cons k ks)
  show ?case
  proof (cases "find_other ds k")
    case None
    with Cons obtain pre i post where "ks = pre @ i # post"
      "\<forall>k \<in> set pre. find_other ds k = None" "find_other ds i = Some j" by auto
    with None show ?thesis
      by (intro exI [of _ "k # pre"] exI [of _ i] exI [of _ post]) simp
  next
    case (Some j')
    with Cons.prems show ?thesis by (intro exI [of _ "[]"]) simp
  qed
qed simp

function removeDuplicates :: "'a list \<Rightarrow> bool \<Rightarrow> 'a list \<times> bool" where
  "removeDuplicates ds changes =
     (case find_duplicate ds [0..<length ds] of
        None \<Rightarrow> (ds, changes)
      | Some j \<Rightarrow> removeDuplicates (take j ds @ drop (Suc j) ds) True)"
  by pat_completeness auto
termination
  by (relation "measure (\<lambda>(ds, changes). length ds)")
    (auto dest!: find_duplicate_Some find_other_Some)

declare removeDuplicates.simps [simp del]

lemma find_duplicate_None: "find_duplicate ds is = None \<longleftrightarrow> (\<forall>i \<in> set is. find_other ds i = None)"
  by (induction "is") (auto split: option.splits)

lemma no_duplicate_distinct: "find_duplicate ds [0..<length ds] = None \<longleftrightarrow> distinct ds"
  by (auto simp: find_duplicate_None find_other_None distinct_conv_nth)

text \<open>The pair found first consists of an entry and a later one.\<close>

lemma duplicate_is_later:
  assumes "find_duplicate ds [0..<length ds] = Some j"
  shows "j < length ds \<and> ds ! j \<in> set (take j ds)"
proof -
  obtain pre i post where split: "[0..<length ds] = pre @ i # post"
    and pre: "\<forall>k \<in> set pre. find_other ds k = None" and i: "find_other ds i = Some j"
    using find_duplicate_Some [OF assms] by blast
  from find_other_Some [OF i] have j: "j < length ds" "j \<noteq> i" "ds ! i = ds ! j" by auto
  have len: "length pre < length ds" using arg_cong [OF split, of length] by simp
  have i_eq: "i = length pre"
    using arg_cong [OF split, of "\<lambda>xs. xs ! length pre"] len by simp
  have "pre = take (length pre) [0..<length ds]" by (subst split) simp
  then have pre_eq: "pre = [0..<i]" using len i_eq by (simp add: take_upt)
  have "\<not> j < i"
  proof
    assume "j < i"
    then have "find_other ds j = None" using pre pre_eq by simp
    moreover have "i < length ds" using len i_eq by simp
    ultimately show False using j \<open>j < i\<close> by (auto simp: find_other_None)
  qed
  with j have "i < j" by simp
  with j show ?thesis by (metis in_set_conv_nth length_take min.absorb4 nth_take)
qed

lemma keep_first_append:
  "keep_first (xs @ ys) = keep_first xs @ filter (\<lambda>y. y \<notin> set xs) (keep_first ys)"
  by (induction xs) (auto intro: filter_cong)

lemma keep_first_remove:
  assumes "x \<in> set xs"
  shows "keep_first (xs @ x # ys) = keep_first (xs @ ys)"
proof -
  have "filter (\<lambda>y. y \<notin> set xs) (keep_first (x # ys)) = filter (\<lambda>y. y \<notin> set xs) (keep_first ys)"
    using assms by (auto intro: filter_cong)
  then show ?thesis by (simp only: keep_first_append)
qed

lemma keep_first_without_duplicate:
  assumes "find_duplicate ds [0..<length ds] = Some j"
  shows "keep_first (take j ds @ drop (Suc j) ds) = keep_first ds"
proof -
  from duplicate_is_later [OF assms] have j: "j < length ds" "ds ! j \<in> set (take j ds)" by auto
  then have "ds = take j ds @ ds ! j # drop (Suc j) ds" by (simp add: id_take_nth_drop)
  with keep_first_remove [OF j(2), of "drop (Suc j) ds"] show ?thesis by simp
qed

lemma removeDuplicates_eq:
  "removeDuplicates ds changes = (keep_first ds, changes \<or> \<not> distinct ds)"
proof (induction ds changes rule: removeDuplicates.induct)
  case (1 ds changes)
  show ?case
  proof (cases "find_duplicate ds [0..<length ds]")
    case None
    then have d: "distinct ds" by (simp only: no_duplicate_distinct)
    show ?thesis
      by (subst removeDuplicates.simps) (simp only: None option.case, simp add: d keep_first_distinct)
  next
    case (Some j)
    then have "\<not> distinct ds" by (simp flip: no_duplicate_distinct)
    with Some 1 show ?thesis
      by (simp add: removeDuplicates.simps [of ds] keep_first_without_duplicate)
  qed
qed

interpretation manifest_dedup: deduplicator "\<lambda>ds. fst (removeDuplicates ds c)" for c
  by unfold_locales (simp_all add: removeDuplicates_eq subseq_keep_first)

section \<open>Operations\<close>

definition dedup_manifest :: "manifest \<Rightarrow> manifest" where
  "dedup_manifest m =
     (case mf_deps m of
        None \<Rightarrow> m
      | Some ds \<Rightarrow>
          (let (ds', changes) = removeDuplicates ds (mf_changes m) in
           m\<lparr>mf_deps := Some ds', mf_changes := changes\<rparr>))"

definition Load :: "'d codec \<Rightarrow> 'd disk \<Rightarrow> manifest \<Rightarrow> manifest \<times> go_error option" where
  "Load cd dk m =
     (case dk_file dk of
        None \<Rightarrow> (m, None)
      | Some content \<Rightarrow>
          (case dk_read_error dk of
             Some err \<Rightarrow> (m, Some err)
           | None \<Rightarrow>
               (let (ds, err) = cd_decode cd content (mf_deps m); m' = m\<lparr>mf_deps := ds\<rparr> in
                case err of
                  Some e \<Rightarrow> (m', Some e)
                | None \<Rightarrow> (dedup_manifest m', None))))"

definition Save :: "'d codec \<Rightarrow> 'd disk \<Rightarrow> manifest \<Rightarrow> 'd disk \<times> go_error option" where
  "Save cd dk m =
     (case cd_encode cd (mf_deps m) of
        Inl err \<Rightarrow> (dk, Some err)
      | Inr content \<Rightarrow>
          (case dk_write_error dk of
             Some err \<Rightarrow> (dk, Some err)
           | None \<Rightarrow> (dk\<lparr>dk_file := Some content\<rparr>, None)))"

definition PersistChanges :: "'d codec \<Rightarrow> 'd disk \<Rightarrow> manifest \<Rightarrow> 'd disk \<times> go_error option" where
  "PersistChanges cd dk m = (if \<not> mf_changes m then (dk, None) else Save cd dk m)"

text \<open>append to a nil slice gives a nil slice when nothing is appended.\<close>

definition append_deps :: "string list option \<Rightarrow> string list \<Rightarrow> string list option" where
  "append_deps ds new =
     (case ds of None \<Rightarrow> (if new = [] then None else Some new) | Some ds \<Rightarrow> Some (ds @ new))"

definition AddDependencies ::
    "'d codec \<Rightarrow> 'd disk \<Rightarrow> manifest \<Rightarrow> string list \<Rightarrow> manifest \<times> go_error option" where
  "AddDependencies cd dk m new =
     (case Load cd dk m of
        (m', Some err) \<Rightarrow> (m', Some err)
      | (m', None) \<Rightarrow>
          (let m'' = dedup_manifest (m'\<lparr>mf_deps := append_deps (mf_deps m') new\<rparr>) in
           (m''\<lparr>mf_changes := True\<rparr>, None)))"

fun remove_first :: "string \<Rightarrow> string list \<Rightarrow> string list option" where
  "remove_first x [] = None"
| "remove_first x (d # ds) =
     (if d = x then Some ds else map_option (Cons d) (remove_first x ds))"

fun remove_loop :: "manifest \<Rightarrow> string list \<Rightarrow> manifest" where
  "remove_loop m [] = m"
| "remove_loop m (x # xs) =
     (case remove_first x (deps m) of
        None \<Rightarrow> remove_loop m xs
      | Some ds \<Rightarrow> remove_loop (m\<lparr>mf_deps := Some ds, mf_changes := True\<rparr>) xs)"

definition RemoveDependencies ::
    "'d codec \<Rightarrow> 'd disk \<Rightarrow> manifest \<Rightarrow> string list \<Rightarrow> manifest \<times> go_error option" where
  "RemoveDependencies cd dk m names =
     (case Load cd dk m of
        (m', Some err) \<Rightarrow> (m', Some err)
      | (m', None) \<Rightarrow> (remove_loop m' names, None))"

section \<open>Rendering the integrations\<close>

record api_entry =
  ae_name :: string
  ae_has_variables :: bool
  ae_variables_optional :: bool
  ae_dependency :: api_dependency
  ae_raw :: string

record org =
  or_name :: string
  or_apis :: "api_entry list"

definition api_entry_of :: "string \<Rightarrow> api_dependency \<Rightarrow> api_entry" where
  "api_entry_of raw d =
     \<lparr>ae_name = ad_name d, ae_has_variables = (0 < length (ad_placeholders d)),
      ae_variables_optional = (\<forall>v \<in> set (ad_placeholders d). ph_optional v),
      ae_dependency = d, ae_raw = raw\<rparr>"

fun add_to_org :: "org list \<Rightarrow> string \<Rightarrow> api_entry \<Rightarrow> org list option" where
  "add_to_org [] name a = None"
| "add_to_org (g # gs) name a =
     (if or_name g = name then Some (g\<lparr>or_apis := or_apis g @ [a]\<rparr> # gs)
      else map_option (Cons g) (add_to_org gs name a))"

text \<open>\<open>marshal\<close> prints a dependency as JSON; a dependency that it fails on is skipped.\<close>

fun group_apis :: "(api_dependency \<Rightarrow> string res) \<Rightarrow> org list \<Rightarrow> api_dependency list \<Rightarrow> org list" where
  "group_apis marshal gs [] = gs"
| "group_apis marshal gs (d # ds) =
     (case marshal d of
        Inl err \<Rightarrow> group_apis marshal gs ds
      | Inr raw \<Rightarrow>
          (let a = api_entry_of raw d in
           case add_to_org gs (ad_organization d) a of
             Some gs' \<Rightarrow> group_apis marshal gs' ds
           | None \<Rightarrow>
               group_apis marshal (gs @ [\<lparr>or_name = ad_organization d, or_apis = [a]\<rparr>]) ds))"

text \<open>\<open>template\<close> is the execution of the integrations template on the grouped data.\<close>

definition renderIntegrations ::
    "(api_dependency \<Rightarrow> string res) \<Rightarrow> (org list \<Rightarrow> bytes res) \<Rightarrow> api_dependency list \<Rightarrow> bytes res" where
  "renderIntegrations marshal template ds = template (group_apis marshal [] ds)"

text \<open>Dependencies that cannot be fetched are skipped.\<close>

fun fetch_dependencies :: "(string \<Rightarrow> api_dependency res) \<Rightarrow> string list \<Rightarrow> api_dependency list" where
  "fetch_dependencies get [] = []"
| "fetch_dependencies get (x # xs) =
     (case get x of
        Inl err \<Rightarrow> fetch_dependencies get xs
      | Inr d \<Rightarrow> d # fetch_dependencies get xs)"

definition RenderIntegrationsTemplate ::
    "'d codec \<Rightarrow> 'd disk \<Rightarrow> (string \<Rightarrow> api_dependency res) \<Rightarrow> (api_dependency \<Rightarrow> string res) \<Rightarrow>
     (org list \<Rightarrow> bytes res) \<Rightarrow> manifest \<Rightarrow> manifest \<times> bytes res" where
  "RenderIntegrationsTemplate cd dk get marshal template m =
     (case (if mf_deps m = None then Load cd dk m else (m, None)) of
        (m', Some err) \<Rightarrow> (m', Inl err)
      | (m', None) \<Rightarrow>
          (m', renderIntegrations marshal template (fetch_dependencies get (deps m'))))"

definition escapeApiJSON :: "string \<Rightarrow> string" where
  "escapeApiJSON json =
     (let b = [CHR 0x5C]; q = [CHR 0x27]; dq = [CHR 0x22];
          out = replace_all json q (b @ q);
          out = replace_all out dq (b @ dq);
          out = replace_all out (b @ ''n'') (b @ b @ ''n'');
          out = replace_all out (b @ ''t'') (b @ b @ ''t'');
          out = replace_all out (b @ ''r'') (b @ b @ ''r'') in
      out)"

section \<open>Facts\<close>

lemma dedup_manifest_simps:
  "mf_deps (dedup_manifest m) = map_option keep_first (mf_deps m)"
  "mf_changes (dedup_manifest m) = (mf_changes m \<or> \<not> distinct (deps m))"
  by (auto simp: dedup_manifest_def removeDuplicates_eq deps_def split: option.splits)

lemma distinct_deps_dedup: "distinct (deps (dedup_manifest m))"
  by (simp add: deps_def dedup_manifest_simps split: option.split)

lemma remove_first_eq:
  "remove_first x ds = (if x \<in> set ds then Some (remove1 x ds) else None)"
  by (induction ds) auto

lemma remove_loop_deps:
  "distinct (deps m) \<Longrightarrow> deps (remove_loop m xs) = filter (\<lambda>d. d \<notin> set xs) (deps m)"
proof (induction xs arbitrary: m)
  case (Cons x xs)
  show ?case
  proof (cases "x \<in> set (deps m)")
    case True
    let ?m = "m\<lparr>mf_deps := Some (remove1 x (deps m)), mf_changes := True\<rparr>"
    have "deps ?m = filter (\<lambda>d. d \<noteq> x) (deps m)"
      using Cons.prems
      by (auto simp: deps_def distinct_remove1_removeAll removeAll_filter_not_eq intro!: filter_cong)
    moreover have "deps (remove_loop ?m xs) = filter (\<lambda>d. d \<notin> set xs) (deps ?m)"
      using Cons by (intro Cons.IH) (simp add: deps_def split: option.splits)
    ultimately show ?thesis using True by (simp add: remove_first_eq conj_commute)
  next
    case False
    with Cons have "deps (remove_loop m (x # xs)) = filter (\<lambda>d. d \<notin> set xs) (deps m)"
      by (simp add: remove_first_eq)
    also have "\<dots> = filter (\<lambda>d. d \<notin> set (x # xs)) (deps m)"
      using False by (auto intro: filter_cong)
    finally show ?thesis .
  qed
qed simp

lemma add_to_org_None: "add_to_org gs name a = None \<longleftrightarrow> name \<notin> or_name ` set gs"
  by (induction gs) auto

lemma add_to_org_Some:
  "add_to_org gs name a = Some gs' \<Longrightarrow>
    \<exists>pre g post. gs = pre @ g # post \<and> or_name g = name \<and> name \<notin> or_name ` set pre
      \<and> gs' = pre @ g\<lparr>or_apis := or_apis g @ [a]\<rparr> # post"
proof (induction gs arbitrary: gs')
  case (Cons h gs)
  show ?case
  proof (cases "or_name h = name")
    case True
    with Cons.prems show ?thesis by (intro exI [of _ "[]"]) auto
  next
    case False
    with Cons obtain pre g post gs'' where "gs = pre @ g # post" "or_name g = name"
      "name \<notin> or_name ` set pre" "gs' = h # gs''" "gs'' = pre @ g\<lparr>or_apis := or_apis g @ [a]\<rparr> # post"
      by (auto split: if_splits)
    with False show ?thesis
      by (intro exI [of _ "h # pre"] exI [of _ g] exI [of _ post]) auto
  qed
qed simp

text \<open>The entries of the dependencies that can be printed, in order, and those of one organisation.\<close>

fun printed :: "(api_dependency \<Rightarrow> string res) \<Rightarrow> api_dependency list \<Rightarrow> api_entry list" where
  "printed marshal [] = []"
| "printed marshal (d # ds) =
     (case marshal d of Inl err \<Rightarrow> printed marshal ds
      | Inr raw \<Rightarrow> api_entry_of raw d # printed marshal ds)"

definition of_org :: "string \<Rightarrow> api_entry list \<Rightarrow> api_entry list" where
  "of_org name as = filter (\<lambda>a. ad_organization (ae_dependency a) = name) as"

text \<open>What the loop maintains: \<open>as\<close> are the entries grouped so far.\<close>

definition grouped :: "api_entry list \<Rightarrow> org list \<Rightarrow> bool" where
  "grouped as gs = (distinct (map or_name gs)
     \<and> or_name ` set gs = (\<lambda>a. ad_organization (ae_dependency a)) ` set as
     \<and> (\<forall>g \<in> set gs. or_apis g = of_org (or_name g) as))"

lemma dependency_api_entry_of [simp]: "ae_dependency (api_entry_of raw d) = d"
  by (simp add: api_entry_of_def)

lemma of_org_snoc:
  "of_org name (as @ [a]) = of_org name as @ (if ad_organization (ae_dependency a) = name then [a] else [])"
  by (simp add: of_org_def)

lemma grouped_new_org:
  assumes "grouped as gs" "ad_organization (ae_dependency a) \<notin> or_name ` set gs"
  shows "grouped (as @ [a]) (gs @ [\<lparr>or_name = ad_organization (ae_dependency a), or_apis = [a]\<rparr>])"
proof -
  have "of_org (ad_organization (ae_dependency a)) as = []"
  proof -
    have "ad_organization (ae_dependency a) \<notin> (\<lambda>a. ad_organization (ae_dependency a)) ` set as"
      using assms unfolding grouped_def by metis
    then have "\<forall>b \<in> set as. ad_organization (ae_dependency b) \<noteq> ad_organization (ae_dependency a)"
      by (metis image_eqI)
    then show ?thesis by (simp only: of_org_def filter_empty_conv simp_thms)
  qed
  moreover have "\<forall>g \<in> set gs. ad_organization (ae_dependency a) \<noteq> or_name g"
    using assms(2) by (metis imageI)
  ultimately show ?thesis using assms by (simp add: grouped_def of_org_snoc)
qed

lemma grouped_old_org:
  assumes "grouped as (pre @ g # post)" "or_name g = ad_organization (ae_dependency a)"
  shows "grouped (as @ [a]) (pre @ g\<lparr>or_apis := or_apis g @ [a]\<rparr> # post)"
proof -
  let ?gs = "pre @ g # post" and ?gs' = "pre @ g\<lparr>or_apis := or_apis g @ [a]\<rparr> # post"
  have names: "map or_name ?gs' = map or_name ?gs" by simp
  then have name_set: "or_name ` set ?gs' = or_name ` set ?gs" by (metis set_map)
  have other: "or_name g \<notin> or_name ` (set pre \<union> set post)"
    using assms(1) by (auto simp: grouped_def)
  have "or_apis h = of_org (or_name h) (as @ [a])" if "h \<in> set ?gs'" for h
  proof (cases "h \<in> set pre \<union> set post")
    case True
    then have "or_name h \<noteq> ad_organization (ae_dependency a)" using other assms(2) by (metis imageI)
    moreover have "or_apis h = of_org (or_name h) as"
      using True assms(1) by (auto simp: grouped_def)
    ultimately show ?thesis by (simp add: of_org_snoc)
  next
    case False
    with that assms show ?thesis by (auto simp: grouped_def of_org_snoc)
  qed
  moreover have "or_name ` set ?gs' = (\<lambda>a. ad_organization (ae_dependency a)) ` set (as @ [a])"
    using name_set assms by (auto simp: grouped_def)
  ultimately show ?thesis
    using names assms(1) unfolding grouped_def by metis
qed

lemma group_apis_grouped:
  "grouped as gs \<Longrightarrow> grouped (as @ printed marshal ds) (group_apis marshal gs ds)"
proof (induction ds arbitrary: as gs)
  case (Cons d ds)
  show ?case
  proof (cases "marshal d")
    case (Inr raw)
    let ?a = "api_entry_of raw d"
    show ?thesis
    proof (cases "add_to_org gs (ad_organization d) ?a")
      case None
      then have "grouped (as @ [?a]) (gs @ [\<lparr>or_name = ad_organization d, or_apis = [?a]\<rparr>])"
        using grouped_new_org [of as gs ?a] Cons.prems by (simp add: add_to_org_None)
      from Cons.IH [OF this] Inr None show ?thesis by simp
    next
      case (Some gs')
      from add_to_org_Some [OF this] Cons.prems have "grouped (as @ [?a]) gs'"
        using grouped_old_org [where a = ?a] by fastforce
      from Cons.IH [OF this] Inr Some show ?thesis by simp
    qed
  qed (use Cons in simp)
qed simp

section \<open>Properties\<close>

text \<open>\<open>removeDuplicates\<close> terminates with the dependencies in the order of their first
  occurrence, each once, and records a change exactly when it dropped one.\<close>

theorem removeDuplicates_spec:
  "removeDuplicates ds changes = (keep_first ds, if distinct ds then changes else True)
   \<and> (fst (removeDuplicates ds changes) = ds \<longleftrightarrow> distinct ds)"
  using manifest_dedup.dedup_unchanged_iff [where c = changes and xs = ds]
  using manifest_dedup.dedup_unchanged_iff [where c = changes and xs = ds]
  by (simp add: removeDuplicates_eq)

text \<open>C15: dependencies that were added and persisted are found by the next command: a new
  manifest that loads the written file holds the old dependencies followed by the new ones,
  each once, and has no change of its own to persist. The codec is assumed to read back
  what it printed.\<close>

theorem add_persist_load:
  assumes codec: "\<And>ds content old. cd_encode cd ds = Inr content \<Longrightarrow> cd_decode cd content old = (ds, None)"
    and add: "AddDependencies cd dk m new = (m', None)"
    and persist: "PersistChanges cd dk m' = (dk', None)"
    and readable: "dk_read_error dk = None"
  shows "\<exists>m0. Load cd dk m = (m0, None)
    \<and> deps m' = keep_first (deps m0 @ new)
    \<and> Load cd dk' New = (\<lparr>mf_deps = mf_deps m', mf_changes = False\<rparr>, None)"
proof -
  obtain m0 where m0: "Load cd dk m = (m0, None)"
    and m': "m' = (dedup_manifest (m0\<lparr>mf_deps := append_deps (mf_deps m0) new\<rparr>))\<lparr>mf_changes := True\<rparr>"
    using add by (auto simp: AddDependencies_def Let_def split: prod.splits option.splits)
  have deps': "deps m' = keep_first (deps m0 @ new)"
    by (auto simp: m' deps_def dedup_manifest_simps append_deps_def split: option.splits)
  obtain content where content: "cd_encode cd (mf_deps m') = Inr content"
    "dk' = dk\<lparr>dk_file := Some content\<rparr>"
    using persist by (auto simp: PersistChanges_def Save_def m' split: sum.splits option.splits)
  let ?m = "\<lparr>mf_deps = mf_deps m', mf_changes = False\<rparr>"
  have distinct: "distinct (deps ?m)"
    using distinct_deps_dedup by (simp add: m' deps_def)
  then have "dedup_manifest ?m = ?m"
    by (intro manifest.equality)
      (auto simp: dedup_manifest_simps deps_def keep_first_distinct split: option.splits)
  then have "Load cd dk' New = (?m, None)"
    using codec [OF content(1)] content(2) readable by (simp add: Load_def New_def)
  with m0 deps' show ?thesis by blast
qed

definition plain_codec :: "string list option codec" where
  "plain_codec = \<lparr>cd_encode = Inr, cd_decode = (\<lambda>content old. (content, None))\<rparr>"

theorem add_persist_load_witness:
  "Load plain_codec
     \<lparr>dk_file = Some (Some [''spacex/spacex'', ''twilio/twilio'']), dk_read_error = None,
      dk_write_error = None\<rparr> New
   = (\<lparr>mf_deps = Some [''spacex/spacex'', ''twilio/twilio''], mf_changes = False\<rparr>, None)"
proof -
  let ?dk = "\<lparr>dk_file = None, dk_read_error = None, dk_write_error = None\<rparr> :: string list option disk"
  let ?m' = "\<lparr>mf_deps = Some [''spacex/spacex'', ''twilio/twilio''], mf_changes = True\<rparr>"
  have "AddDependencies plain_codec ?dk New [''spacex/spacex'', ''twilio/twilio'', ''spacex/spacex'']
      = (?m', None)"
    by (simp add: AddDependencies_def Load_def New_def append_deps_def dedup_manifest_def
        removeDuplicates_eq)
  moreover have "PersistChanges plain_codec ?dk ?m' = (?dk\<lparr>dk_file := Some (mf_deps ?m')\<rparr>, None)"
    by (simp add: PersistChanges_def Save_def plain_codec_def)
  ultimately show ?thesis
    using add_persist_load [of plain_codec ?dk New _ ?m'] by (fastforce simp: plain_codec_def)
qed

text \<open>\<open>RemoveDependencies\<close> on a manifest whose file can be loaded removes every named
  dependency and keeps all others in their order.\<close>

theorem RemoveDependencies_spec:
  assumes "RemoveDependencies cd dk m names = (m', None)" "dk_file dk = Some content"
  shows "\<exists>m0. Load cd dk m = (m0, None) \<and> deps m' = filter (\<lambda>d. d \<notin> set names) (deps m0)"
proof -
  obtain m0 where m0: "Load cd dk m = (m0, None)" and m': "m' = remove_loop m0 names"
    using assms(1) by (auto simp: RemoveDependencies_def split: prod.splits option.splits)
  have "distinct (deps m0)"
    using m0 assms(2) distinct_deps_dedup
    by (auto simp: Load_def Let_def split: option.splits prod.splits)
  with m0 m' show ?thesis by (simp add: remove_loop_deps)
qed

theorem RemoveDependencies_spec_witness:
  "deps (fst (RemoveDependencies plain_codec
      \<lparr>dk_file = Some (Some [''a'', ''b'', ''a'', ''c'']), dk_read_error = None, dk_write_error = None\<rparr>
      New [''a'', ''x''])) = [''b'', ''c'']"
proof -
  let ?dk = "\<lparr>dk_file = Some (Some [''a'', ''b'', ''a'', ''c'']), dk_read_error = None,
    dk_write_error = None\<rparr> :: string list option disk"
  have load: "Load plain_codec ?dk New = (\<lparr>mf_deps = Some [''a'', ''b'', ''c''], mf_changes = True\<rparr>, None)"
    by (simp add: Load_def New_def plain_codec_def dedup_manifest_def removeDuplicates_eq)
  then obtain m' where m': "RemoveDependencies plain_codec ?dk New [''a'', ''x''] = (m', None)"
    by (simp add: RemoveDependencies_def)
  from RemoveDependencies_spec [OF m'] load m' show ?thesis by (auto simp: deps_def)
qed

text \<open>the grouping behind the integrations template loses and invents nothing: every
  organisation occurs once, only organisations of a printable dependency occur, and each
  holds exactly the entries of its dependencies, in their order.\<close>

theorem group_apis_spec:
  "distinct (map or_name (group_apis marshal [] ds))
   \<and> or_name ` set (group_apis marshal [] ds)
       = (\<lambda>a. ad_organization (ae_dependency a)) ` set (printed marshal ds)
   \<and> map or_apis (group_apis marshal [] ds)
       = map (\<lambda>g. of_org (or_name g) (printed marshal ds)) (group_apis marshal [] ds)"
  using group_apis_grouped [of "[]" "[]" marshal ds] by (simp add: grouped_def)

end
