(* ===== verification/GoHttp.thy ===== *)
theory GoHttp
  imports Prelude
begin

text \<open>
  What the handlers use of Go's net/http: requests, and response writers whose head is
  sent once, by the first WriteHeader or Write. Beside it stands the authenticated user
  (User of pkg/authentication/authentication.go), which the handlers find in the context of
  the request. A json.RawMessage is an option: the code tells a nil one from an empty one.
\<close>

section \<open>The user\<close>

record user =
  us_provider :: string
  us_provider_id :: string
  us_email :: string
  us_email_verified :: bool
  us_name :: string
  us_first_name :: string
  us_last_name :: string
  us_nick_name :: string
  us_description :: string
  us_user_id :: string
  us_avatar :: string
  us_location :: string
  us_custom_claims :: "bytes option"
  us_custom_attributes :: "string list"
  us_roles :: "string list"
  us_expires_at :: int
  us_etag :: string
  us_from_cookie :: bool
  us_access_token :: "bytes option"
  us_raw_access_token :: string
  us_id_token :: "bytes option"
  us_raw_id_token :: string

definition zero_user :: user where
  "zero_user =
     \<lparr>us_provider = [], us_provider_id = [], us_email = [], us_email_verified = False,
      us_name = [], us_first_name = [], us_last_name = [], us_nick_name = [],
      us_description = [], us_user_id = [], us_avatar = [], us_location = [],
      us_custom_claims = None, us_custom_attributes = [], us_roles = [], us_expires_at = 0,
      us_etag = [], us_from_cookie = False, us_access_token = None, us_raw_access_token = [],
      us_id_token = None, us_raw_id_token = []\<rparr>"

section \<open>Headers\<close>

text \<open>http.Header: values by key; an absent key has no values. Get and Set canonicalise the key.\<close>

type_synonym header = "string \<Rightarrow> string list"

definition header_get :: "header \<Rightarrow> string \<Rightarrow> string" where
  "header_get h k = (case h (canonical_key k) of [] \<Rightarrow> [] | v # _ \<Rightarrow> v)"

definition header_set :: "string \<Rightarrow> string \<Rightarrow> header \<Rightarrow> header" where
  "header_set k v h = h(canonical_key k := [v])"

definition header_add :: "string \<Rightarrow> string \<Rightarrow> header \<Rightarrow> header" where
  "header_add k v h = h(canonical_key k := h (canonical_key k) @ [v])"

definition header_del :: "string \<Rightarrow> header \<Rightarrow> header" where
  "header_del k h = h(canonical_key k := [])"

definition no_header :: header where
  "no_header = (\<lambda>_. [])"

lemma header_get_set [simp]: "header_get (header_set k v h) k = v"
  by (simp add: header_get_def header_set_def)

lemma header_get_set_other:
  "canonical_key k \<noteq> canonical_key k' \<Longrightarrow> header_get (header_set k v h) k' = header_get h k'"
  by (simp add: header_get_def header_set_def)

section \<open>Requests\<close>

record request =
  rq_method :: string
  rq_uri :: string
  rq_path :: string
  rq_query :: "(string \<times> string) list"
  rq_header :: header
  rq_host :: string
  rq_tls :: bool
  rq_cookies :: "(string \<times> string) list"
  rq_body :: "bytes res"
  rq_user :: "user option"

definition empty_request :: request where
  "empty_request =
     \<lparr>rq_method = ''GET'', rq_uri = ''/'', rq_path = ''/'', rq_query = [], rq_header = no_header,
      rq_host = [], rq_tls = False, rq_cookies = [], rq_body = Inr [], rq_user = None\<rparr>"

text \<open>url.Values.Get and Has on the parsed query, and Request.Cookie.\<close>

definition query_get :: "request \<Rightarrow> string \<Rightarrow> string" where
  "query_get r k = (case map_of (rq_query r) k of None \<Rightarrow> [] | Some v \<Rightarrow> v)"

definition query_has :: "request \<Rightarrow> string \<Rightarrow> bool" where
  "query_has r k = (map_of (rq_query r) k \<noteq> None)"

definition request_cookie :: "request \<Rightarrow> string \<Rightarrow> string res" where
  "request_cookie r name =
     (case map_of (rq_cookies r) name of
        None \<Rightarrow> Inl (Err ''http: named cookie not present'')
      | Some v \<Rightarrow> Inr v)"

section \<open>Response writers\<close>

datatype same_site = SameSiteStrict | SameSiteLax

record cookie =
  ck_name :: string
  ck_value :: string
  ck_path :: string
  ck_domain :: string
  ck_max_age :: int
  ck_secure :: bool
  ck_http_only :: bool
  ck_same_site :: same_site

text \<open>
  The header being built, with the cookies set so far, the head as it was sent (status,
  header and cookies) once it was, the bytes of the body, and the number of flushes.
\<close>

record writer =
  w_header :: header
  w_cookies :: "cookie list"
  w_sent :: "(nat \<times> header \<times> cookie list) option"
  w_body :: bytes
  w_flushes :: nat

definition new_writer :: writer where
  "new_writer = \<lparr>w_header = no_header, w_cookies = [], w_sent = None, w_body = [], w_flushes = 0\<rparr>"

definition set_header :: "string \<Rightarrow> string \<Rightarrow> writer \<Rightarrow> writer" where
  "set_header k v w = w\<lparr>w_header := header_set k v (w_header w)\<rparr>"

text \<open>Assignment to the map itself, which does not canonicalise the key.\<close>

definition set_raw_header :: "string \<Rightarrow> string \<Rightarrow> writer \<Rightarrow> writer" where
  "set_raw_header k v w = w\<lparr>w_header := (w_header w)(k := [v])\<rparr>"

definition set_cookie :: "cookie \<Rightarrow> writer \<Rightarrow> writer" where
  "set_cookie c w = w\<lparr>w_cookies := w_cookies w @ [c]\<rparr>"

definition write_header :: "nat \<Rightarrow> writer \<Rightarrow> writer" where
  "write_header st w =
     (case w_sent w of
        Some _ \<Rightarrow> w
      | None \<Rightarrow> w\<lparr>w_sent := Some (st, w_header w, w_cookies w)\<rparr>)"

definition sent_status :: "writer \<Rightarrow> nat option" where
  "sent_status w = map_option fst (w_sent w)"

definition body_allowed :: "nat \<Rightarrow> bool" where
  "body_allowed st = (\<not> (100 \<le> st \<and> st \<le> 199) \<and> st \<noteq> 204 \<and> st \<noteq> 304)"

definition w_write :: "bytes \<Rightarrow> writer \<Rightarrow> writer" where
  "w_write b w =
     (let w' = write_header 200 w in
      if (case sent_status w' of None \<Rightarrow> True | Some st \<Rightarrow> body_allowed st)
      then w'\<lparr>w_body := w_body w' @ b\<rparr> else w')"

definition flush :: "writer \<Rightarrow> writer" where
  "flush w = (let w' = write_header 200 w in w'\<lparr>w_flushes := w_flushes w' + 1\<rparr>)"

definition http_error :: "string \<Rightarrow> nat \<Rightarrow> writer \<Rightarrow> writer" where
  "http_error msg code w =
     w_write (msg @ [CHR 0x0A])
       (write_header code
         (set_header ''X-Content-Type-Options'' ''nosniff''
           (set_header ''Content-Type'' ''text/plain; charset=utf-8'' w)))"

definition not_found :: "writer \<Rightarrow> writer" where
  "not_found w = http_error ''404 page not found'' 404 w"

text \<open>http.Redirect to an absolute URL: the body it writes for GET is left out.\<close>

definition http_redirect :: "string \<Rightarrow> nat \<Rightarrow> writer \<Rightarrow> writer" where
  "http_redirect url code w = write_header code (set_header ''Location'' url w)"

text \<open>What the client sees once the handler has returned.\<close>

definition response_status :: "writer \<Rightarrow> nat" where
  "response_status w = (case w_sent w of None \<Rightarrow> 200 | Some (st, _, _) \<Rightarrow> st)"

definition response_header :: "writer \<Rightarrow> header" where
  "response_header w = (case w_sent w of None \<Rightarrow> w_header w | Some (_, h, _) \<Rightarrow> h)"

definition response_cookies :: "writer \<Rightarrow> cookie list" where
  "response_cookies w = (case w_sent w of None \<Rightarrow> w_cookies w | Some (_, _, cs) \<Rightarrow> cs)"

section \<open>Facts\<close>

lemma write_header_fields [simp]:
  "w_header (write_header st w) = w_header w"
  "w_cookies (write_header st w) = w_cookies w"
  "w_body (write_header st w) = w_body w"
  "w_flushes (write_header st w) = w_flushes w"
  by (simp_all add: write_header_def split: option.splits)

lemma write_header_sent:
  "w_sent (write_header st w)
     = (case w_sent w of Some s \<Rightarrow> Some s | None \<Rightarrow> Some (st, w_header w, w_cookies w))"
  by (simp add: write_header_def split: option.splits)

lemma set_header_fields [simp]:
  "w_sent (set_header k v w) = w_sent w"
  "w_cookies (set_header k v w) = w_cookies w"
  "w_body (set_header k v w) = w_body w"
  "w_flushes (set_header k v w) = w_flushes w"
  "w_header (set_header k v w) = header_set k v (w_header w)"
  by (simp_all add: set_header_def)

lemma set_raw_header_fields [simp]:
  "w_sent (set_raw_header k v w) = w_sent w"
  "w_cookies (set_raw_header k v w) = w_cookies w"
  "w_body (set_raw_header k v w) = w_body w"
  "w_header (set_raw_header k v w) = (w_header w)(k := [v])"
  by (simp_all add: set_raw_header_def)

lemma set_cookie_fields [simp]:
  "w_sent (set_cookie c w) = w_sent w"
  "w_header (set_cookie c w) = w_header w"
  "w_body (set_cookie c w) = w_body w"
  "w_cookies (set_cookie c w) = w_cookies w @ [c]"
  by (simp_all add: set_cookie_def)

lemma write_sent: "w_sent (w_write b w) = w_sent (write_header 200 w)"
  by (simp add: w_write_def Let_def)

lemma write_body:
  "w_body (w_write b w)
     = (if body_allowed (response_status w) then w_body w @ b else w_body w)"
  by (cases "w_sent w")
    (auto simp: w_write_def Let_def sent_status_def response_status_def write_header_sent
      body_allowed_def split: prod.splits)

text \<open>The head that was sent is final, whatever the handler does afterwards.\<close>

lemma write_header_final: "w_sent w = Some s \<Longrightarrow> write_header st w = w"
  by (simp add: write_header_def)

lemma write_final: "w_sent w = Some s \<Longrightarrow> w_sent (w_write b w) = Some s"
  by (simp add: write_sent write_header_final)

lemma http_error_fresh:
  assumes "w_sent w = None"
  shows "response_status (http_error msg code w) = code"
    and "response_cookies (http_error msg code w) = w_cookies w"
    and "w_body (http_error msg code w)
      = (if body_allowed code then w_body w @ msg @ [CHR 0x0A] else w_body w)"
  using assms
  by (simp_all add: http_error_def response_status_def response_cookies_def write_sent
      write_header_sent write_body)

lemma http_error_final:
  "w_sent w = Some s \<Longrightarrow> w_sent (http_error msg code w) = Some s"
  by (simp add: http_error_def write_sent write_header_sent)

end
