(* ===== verification/Wgpb.thy ===== *)
theory Wgpb
  imports Prelude
begin

text \<open>
  The messages of pkg/wgpb that the program is configured with, field for field, as records
  and datatypes. A pointer to a message is an option (\<open>None\<close> is the nil pointer), a
  repeated field a list, a map an association list; int64 fields are \<open>int\<close>, and the code
  that converts or multiplies one writes the wrap-around out. Only the fields are modelled,
  not the generated descriptors and accessors.
\<close>

section \<open>Configuration variables\<close>

datatype variable_kind = STATIC_VARIABLE | ENV_VARIABLE | PLACEHOLDER_VARIABLE

record config_var =
  cv_kind :: variable_kind
  cv_static :: string
  cv_env_name :: string
  cv_env_default :: string
  cv_placeholder :: string

type_synonym cvar = "config_var option"

definition static_var :: "string \<Rightarrow> cvar" where
  "static_var s = Some \<lparr>cv_kind = STATIC_VARIABLE, cv_static = s, cv_env_name = [],
     cv_env_default = [], cv_placeholder = []\<rparr>"

section \<open>Authentication\<close>

record auth_hooks =
  ah_post_auth :: bool
  ah_mut_post_auth :: bool
  ah_revalidate :: bool
  ah_post_logout :: bool

record oidc_param =
  oq_name :: cvar
  oq_value :: cvar

record github_provider =
  gh_client_id :: cvar
  gh_client_secret :: cvar

record oidc_provider =
  oi_issuer :: cvar
  oi_client_id :: cvar
  oi_client_secret :: cvar
  oi_query :: "oidc_param list"

datatype provider_kind = ProviderGithub | ProviderOIDC

record auth_provider =
  ap_id :: string
  ap_kind :: provider_kind
  ap_github :: "github_provider option"
  ap_oidc :: "oidc_provider option"

record jwks_provider =
  jw_url :: cvar
  jw_json :: cvar
  jw_user_info :: cvar
  jw_ttl :: int

record jwks_auth =
  ja_providers :: "jwks_provider list"

record cookie_auth =
  ca_providers :: "auth_provider list"
  ca_redirect_uris :: "cvar list"
  ca_redirect_regexes :: "cvar list"
  ca_hash_key :: cvar
  ca_block_key :: cvar
  ca_csrf_secret :: cvar

record auth_config =
  ac_cookie :: "cookie_auth option"
  ac_hooks :: "auth_hooks option"
  ac_jwks :: "jwks_auth option"

section \<open>Caches\<close>

datatype cache_kind = NO_CACHE | IN_MEMORY_CACHE | REDIS_CACHE

record in_memory_config =
  im_max_size :: int

record redis_config =
  rd_url_env :: string

record cache_config =
  cc_kind :: cache_kind
  cc_in_memory :: "in_memory_config option"
  cc_redis :: "redis_config option"

section \<open>Operations\<close>

datatype op_type = QUERY | MUTATION | SUBSCRIPTION

datatype transformation_kind = GET_TRANSFORMATION

record get_transformation =
  gt_from :: "string list"
  gt_to :: "string list"

record transformation =
  tr_kind :: transformation_kind
  tr_depth :: int
  tr_get :: "get_transformation option"

datatype inject_kind = INJECT_UUID | INJECT_DATE_TIME | INJECT_ENV

record inject_variable =
  iv_name :: string
  iv_kind :: inject_kind
  iv_format :: string
  iv_env :: string

record variables_config =
  vc_inject :: "inject_variable list"

record mock_hook =
  mh_enable :: bool
  mh_interval :: int

record op_hooks =
  oh_pre :: bool
  oh_post :: bool
  oh_mut_pre :: bool
  oh_mut_post :: bool
  oh_mock :: "mock_hook option"
  oh_on_request :: bool
  oh_on_response :: bool
  oh_custom :: bool

record role_config =
  rc_require_all :: "string list"
  rc_require_any :: "string list"
  rc_deny_all :: "string list"
  rc_deny_any :: "string list"

datatype claim = EMAIL | EMAIL_VERIFIED | NAME | NICKNAME | LOCATION | PROVIDER | USERID

record claim_config =
  cl_variable :: string
  cl_claim :: claim

record authorization_config =
  az_claims :: "claim_config list"
  az_roles :: "role_config option"

record live_query_config =
  lq_enable :: bool
  lq_interval :: int

record op_auth_config =
  oa_required :: bool

record op_cache_config =
  oc_enable :: bool
  oc_max_age :: int
  oc_public :: bool
  oc_swr :: int

record operation =
  op_name :: string
  op_content :: string
  op_kind :: op_type
  op_variables_schema :: string
  op_response_schema :: string
  op_cache :: "op_cache_config option"
  op_auth :: "op_auth_config option"
  op_live :: "live_query_config option"
  op_authz :: "authorization_config option"
  op_hooks_cfg :: "op_hooks option"
  op_variables :: "variables_config option"
  op_internal :: bool
  op_interp_schema :: string
  op_transformations :: "transformation list"

section \<open>The engine configuration\<close>

datatype ds_kind =
    DS_STATIC | DS_REST | DS_GRAPHQL | DS_POSTGRESQL | DS_MYSQL | DS_SQLSERVER
  | DS_MONGODB | DS_SQLITE

datatype http_method = HTTP_GET | HTTP_POST | HTTP_PUT | HTTP_DELETE | HTTP_OPTIONS

record http_header =
  hh_values :: "cvar list"

record url_query =
  uq_name :: string
  uq_value :: string

record mtls_config =
  mt_key :: cvar
  mt_cert :: cvar
  mt_insecure :: bool

datatype signing_method = HS256

datatype upstream_kind = UPSTREAM_JWT | UPSTREAM_JWT_EXCHANGE

record jwt_upstream =
  ju_secret :: cvar
  ju_method :: signing_method

record jwt_exchange =
  jx_secret :: cvar
  jx_method :: signing_method
  jx_endpoint :: cvar

record upstream_auth =
  ua_kind :: upstream_kind
  ua_jwt :: "jwt_upstream option"
  ua_exchange :: "jwt_exchange option"

record fetch_config =
  fc_url :: cvar
  fc_method :: http_method
  fc_header :: "(string \<times> http_header) list"
  fc_body :: cvar
  fc_query :: "url_query list"
  fc_upstream :: "upstream_auth option"
  fc_url_encode :: bool
  fc_mtls :: "mtls_config option"
  fc_base_url :: cvar
  fc_path :: cvar

record rest_subscription =
  rs_enabled :: bool
  rs_interval :: int
  rs_skip_same :: bool

record status_mapping =
  sm_code :: int
  sm_type :: string
  sm_inject :: bool

record rest_ds =
  rest_fetch :: "fetch_config option"
  rest_subscription :: "rest_subscription option"
  rest_mappings :: "status_mapping list"
  rest_default_type :: string

record graphql_subscription =
  gs_enabled :: bool
  gs_url :: cvar
  gs_sse :: bool

record graphql_federation =
  gf_enabled :: bool
  gf_sdl :: string

record graphql_hooks =
  gk_ws_init :: bool

record graphql_ds =
  gd_fetch :: "fetch_config option"
  gd_subscription :: "graphql_subscription option"
  gd_federation :: "graphql_federation option"
  gd_schema :: string
  gd_hooks :: "graphql_hooks option"

record single_type_field =
  st_type :: string
  st_field :: string

record database_ds =
  db_url :: cvar
  db_prisma :: string
  db_graphql :: string
  db_close_timeout :: int
  db_json_fields :: "single_type_field list"
  db_json_inputs :: "string list"

record static_ds =
  sd_data :: cvar

record type_field =
  tf_type :: string
  tf_fields :: "string list"

record directive_config =
  dc_name :: string
  dc_rename :: string

record datasource =
  ds_kind :: ds_kind
  ds_root_nodes :: "type_field list"
  ds_child_nodes :: "type_field list"
  ds_override_alias :: bool
  ds_rest :: "rest_ds option"
  ds_graphql :: "graphql_ds option"
  ds_static :: "static_ds option"
  ds_database :: "database_ds option"
  ds_directives :: "directive_config list"
  ds_timeout_seconds :: int
  ds_id :: string

datatype argument_source = OBJECT_FIELD | FIELD_ARGUMENT
datatype argument_render = RENDER_DEFAULT | RENDER_GRAPHQL_VALUE | RENDER_ARRAY_CSV

record argument_config =
  ag_name :: string
  ag_source :: argument_source
  ag_path :: "string list"
  ag_render :: argument_render

record field_config =
  fd_type :: string
  fd_field :: string
  fd_disable_mapping :: bool
  fd_path :: "string list"
  fd_args :: "argument_config list"
  fd_requires :: "string list"
  fd_unescape :: bool

record type_config =
  tc_name :: string
  tc_rename :: string

record engine_config =
  ec_flush :: int
  ec_datasources :: "datasource list"
  ec_fields :: "field_config list"
  ec_schema :: string
  ec_types :: "type_config list"

section \<open>The API and the node\<close>

record cors_config =
  co_origins :: "cvar list"
  co_methods :: "string list"
  co_headers :: "string list"
  co_exposed :: "string list"
  co_max_age :: int
  co_credentials :: bool

record s3_config =
  s3_name :: string
  s3_endpoint :: cvar
  s3_access_key :: cvar
  s3_secret_key :: cvar
  s3_bucket :: cvar
  s3_location :: cvar
  s3_ssl :: bool

datatype verifier_kind = HMAC_SHA256

record webhook_verifier =
  wv_kind :: verifier_kind
  wv_secret :: cvar
  wv_header :: string
  wv_header_prefix :: string

record webhook_config =
  wh_name :: string
  wh_file_path :: string
  wh_verifier :: "webhook_verifier option"

record listener_options =
  lo_host :: cvar
  lo_port :: cvar

record node_logging =
  nl_level :: cvar

record node_options =
  no_node_url :: cvar
  no_public_url :: cvar
  no_listen :: "listener_options option"
  no_logger :: "node_logging option"
  no_default_timeout :: int

record server_logging =
  sl_level :: cvar

record server_options =
  so_server_url :: cvar
  so_listen :: "listener_options option"
  so_logger :: "server_logging option"

record user_api =
  ud_engine :: "engine_config option"
  ud_enable_graphql :: bool
  ud_operations :: "operation list"
  ud_cors :: "cors_config option"
  ud_auth :: "auth_config option"
  ud_s3 :: "s3_config list"
  ud_hosts :: "cvar list"
  ud_webhooks :: "webhook_config list"
  ud_server :: "server_options option"
  ud_node :: "node_options option"

record wg_config =
  wg_api :: "user_api option"
  wg_api_id :: string
  wg_deployment_name :: string
  wg_environment_ids :: "string list"
  wg_api_name :: string
  wg_enable_graphql :: bool

end
