(* ===== verification/AccessControl.thy ===== *)
theory AccessControl
  imports GoHttp Wgpb
begin

text \<open>
  The access decisions of pkg/authentication/authentication.go: the role rules of an
  operation, the validation of redirect URIs, the requirement of a user and the choice of
  the CSRF protection. A handler maps a request and a response writer to the writer it
  leaves; compiled regular expressions are a parameter.
\<close>

type_synonym handler = "request \<Rightarrow> writer \<Rightarrow> writer"
type_synonym middleware = "handler \<Rightarrow> handler"

section \<open>Roles\<close>

record rbac_enforcer =
  rb_has_rules :: bool
  rb_require_all :: "string list"
  rb_require_any :: "string list"
  rb_deny_all :: "string list"
  rb_deny_any :: "string list"
  rb_has_require_all :: bool
  rb_has_require_any :: bool
  rb_has_deny_all :: bool
  rb_has_deny_any :: bool

definition NewRBACEnforcer :: "operation \<Rightarrow> rbac_enforcer outcome" where
  "NewRBACEnforcer operation =
     bind_out (deref (op_authz operation)) (\<lambda>authz.
     bind_out (deref (az_roles authz)) (\<lambda>rc.
       Returned
        (if length (rc_require_all rc) = 0 \<and> length (rc_require_any rc) = 0
            \<and> length (rc_deny_all rc) = 0 \<and> length (rc_deny_any rc) = 0
         then \<lparr>rb_has_rules = False, rb_require_all = [], rb_require_any = [], rb_deny_all = [],
               rb_deny_any = [], rb_has_require_all = False, rb_has_require_any = False,
               rb_has_deny_all = False, rb_has_deny_any = False\<rparr>
         else \<lparr>rb_has_rules = True, rb_require_all = rc_require_all rc,
               rb_require_any = rc_require_any rc, rb_deny_all = rc_deny_all rc,
               rb_deny_any = rc_deny_any rc,
               rb_has_require_all = (length (rc_require_all rc) \<noteq> 0),
               rb_has_require_any = (length (rc_require_any rc) \<noteq> 0),
               rb_has_deny_all = (length (rc_deny_all rc) \<noteq> 0),
               rb_has_deny_any = (length (rc_deny_any rc) \<noteq> 0)\<rparr>)))"

fun containsOne :: "string list \<Rightarrow> string \<Rightarrow> bool" where
  "containsOne [] one = False"
| "containsOne (x # xs) one = (if x = one then True else containsOne xs one)"

fun all_contained :: "string list \<Rightarrow> string list \<Rightarrow> bool" where
  "all_contained roles [] = True"
| "all_contained roles (m # ms) =
     (if \<not> containsOne roles m then False else all_contained roles ms)"

fun any_contained :: "string list \<Rightarrow> string list \<Rightarrow> bool" where
  "any_contained roles [] = False"
| "any_contained roles (m # ms) =
     (if containsOne roles m then True else any_contained roles ms)"

definition enforceRequireMatchAll :: "rbac_enforcer \<Rightarrow> user \<Rightarrow> bool" where
  "enforceRequireMatchAll e user =
     (if \<not> rb_has_require_all e then True else all_contained (us_roles user) (rb_require_all e))"

definition enforceRequireMatchAny :: "rbac_enforcer \<Rightarrow> user \<Rightarrow> bool" where
  "enforceRequireMatchAny e user =
     (if \<not> rb_has_require_any e then True else any_contained (us_roles user) (rb_require_any e))"

definition enforceDenyMatchAll :: "rbac_enforcer \<Rightarrow> user \<Rightarrow> bool" where
  "enforceDenyMatchAll e user =
     (if \<not> rb_has_deny_all e then True else \<not> all_contained (us_roles user) (rb_deny_all e))"

definition enforceDenyMatchAny :: "rbac_enforcer \<Rightarrow> user \<Rightarrow> bool" where
  "enforceDenyMatchAny e user =
     (if \<not> rb_has_deny_any e then True else \<not> any_contained (us_roles user) (rb_deny_any e))"

definition Enforce :: "rbac_enforcer \<Rightarrow> request \<Rightarrow> bool" where
  "Enforce e r =
     (if \<not> rb_has_rules e then True
      else
        (case rq_user r of
           None \<Rightarrow> False
         | Some user \<Rightarrow>
             if \<not> enforceRequireMatchAll e user then False
             else if \<not> enforceRequireMatchAny e user then False
             else if \<not> enforceDenyMatchAll e user then False
             else if \<not> enforceDenyMatchAny e user then False
             else True))"

lemma containsOne_iff: "containsOne xs x \<longleftrightarrow> x \<in> set xs"
  by (induction xs) auto

lemma all_contained_iff: "all_contained roles ms \<longleftrightarrow> set ms \<subseteq> set roles"
  by (induction ms) (auto simp: containsOne_iff)

lemma any_contained_iff: "any_contained roles ms \<longleftrightarrow> set ms \<inter> set roles \<noteq> {}"
  by (induction ms) (auto simp: containsOne_iff)

text \<open>The meaning of a role configuration, on sets of roles.\<close>

definition roles_permitted :: "role_config \<Rightarrow> string set \<Rightarrow> bool" where
  "roles_permitted rc roles =
     (set (rc_require_all rc) \<subseteq> roles
      \<and> (rc_require_any rc = [] \<or> set (rc_require_any rc) \<inter> roles \<noteq> {})
      \<and> (rc_deny_all rc = [] \<or> \<not> set (rc_deny_all rc) \<subseteq> roles)
      \<and> set (rc_deny_any rc) \<inter> roles = {})"

definition no_role_rules :: "role_config \<Rightarrow> bool" where
  "no_role_rules rc = (rc_require_all rc = [] \<and> rc_require_any rc = []
     \<and> rc_deny_all rc = [] \<and> rc_deny_any rc = [])"

section \<open>Redirect URIs\<close>

text \<open>A compiled regular expression, as the texts it matches.\<close>

type_synonym regex = "string \<Rightarrow> bool"

record redirect_validator =
  rv_strings :: "string list"
  rv_regexes :: "regex list"

definition other_slash :: "string \<Rightarrow> string" where
  "other_slash str = (if has_suffix str ''/'' then trim_suffix str ''/'' else str @ ''/'')"

fun compile_all :: "(string \<Rightarrow> regex option) \<Rightarrow> string list \<Rightarrow> regex list" where
  "compile_all compile [] = []"
| "compile_all compile (uri # uris) =
     (case compile uri of
        Some m \<Rightarrow> m # compile_all compile uris
      | None \<Rightarrow> compile_all compile uris)"

fun string_matchers :: "string list \<Rightarrow> string list" where
  "string_matchers [] = []"
| "string_matchers (str # strs) = str # other_slash str # string_matchers strs"

definition NewRedirectValidator ::
    "(string \<Rightarrow> regex option) \<Rightarrow> string list \<Rightarrow> string list \<Rightarrow> redirect_validator" where
  "NewRedirectValidator compile matchString matchRegex =
     \<lparr>rv_strings = string_matchers matchString, rv_regexes = compile_all compile matchRegex\<rparr>"

definition authorized_uri :: "redirect_validator \<Rightarrow> string \<Rightarrow> string \<times> bool" where
  "authorized_uri v redirectURI =
     (if redirectURI = [] then ([], False)
      else if \<exists>s \<in> set (rv_strings v). s = redirectURI then (redirectURI, True)
      else if \<exists>m \<in> set (rv_regexes v). m redirectURI then (redirectURI, True)
      else (redirectURI, False))"

definition GetValidatedRedirectURI :: "redirect_validator \<Rightarrow> request \<Rightarrow> string \<times> bool" where
  "GetValidatedRedirectURI v r =
     (let redirectURI = query_get r ''redirect_uri'' in
      if redirectURI = [] then
        (case request_cookie r ''success_redirect_uri'' of
           Inl _ \<Rightarrow> ([], False)
         | Inr c \<Rightarrow> authorized_uri v c)
      else authorized_uri v redirectURI)"

definition ValidateRedirectURIQueryParameter :: "redirect_validator \<Rightarrow> middleware" where
  "ValidateRedirectURIQueryParameter v next1 r w =
     (if snd (GetValidatedRedirectURI v r) then next1 r w
      else http_error ''invalid redirect uri'' 400 w)"

definition RedirectAlreadyAuthenticatedUsers :: "redirect_validator \<Rightarrow> middleware" where
  "RedirectAlreadyAuthenticatedUsers v next1 r w =
     (case rq_user r of
        None \<Rightarrow> next1 r w
      | Some user \<Rightarrow>
          (let (redirectURI, authorized) = GetValidatedRedirectURI v r in
           if authorized then http_redirect redirectURI 307 w else next1 r w))"

section \<open>Cookie domains\<close>

text \<open>sanitizeDomain cuts the host at the first colon; removeSubdomain drops the first label.\<close>

definition sanitizeDomain :: "string \<Rightarrow> string" where
  "sanitizeDomain domain =
     (case index_of domain '':'' of None \<Rightarrow> domain | Some i \<Rightarrow> take i domain)"

definition removeSubdomain :: "string \<Rightarrow> string" where
  "removeSubdomain domain =
     (let parts = split_on (CHR ''.'') domain in
      if length parts < 3 then domain else join ''.'' (tl parts))"

definition cookie_domain :: "string \<Rightarrow> string" where
  "cookie_domain host = removeSubdomain (sanitizeDomain host)"

definition reset_cookie :: "request \<Rightarrow> bool \<Rightarrow> string \<Rightarrow> cookie" where
  "reset_cookie r secure name =
     \<lparr>ck_name = name, ck_value = [], ck_path = ''/'', ck_domain = cookie_domain (rq_host r),
      ck_max_age = -1, ck_secure = secure, ck_http_only = True, ck_same_site = SameSiteStrict\<rparr>"

definition resetUserCookies :: "request \<Rightarrow> bool \<Rightarrow> writer \<Rightarrow> writer" where
  "resetUserCookies r secure w =
     foldl (\<lambda>w name. set_cookie (reset_cookie r secure name) w) w [''user'', ''id'']"

section \<open>CSRF and the requirement of a user\<close>

text \<open>The settings given to gorilla/csrf, whose protecting handler is a parameter.\<close>

record csrf_options =
  cs_path :: string
  cs_domain :: string
  cs_cookie :: string
  cs_header :: string
  cs_http_only :: bool
  cs_secure :: bool
  cs_same_site :: same_site

type_synonym csrf_lib = "bytes \<Rightarrow> csrf_options \<Rightarrow> handler \<Rightarrow> middleware"

definition CSRFErrorHandler :: "bool \<Rightarrow> handler" where
  "CSRFErrorHandler insecure r w =
     http_error ''forbidden'' 403 (resetUserCookies r (\<not> insecure) w)"

definition NewCSRFMw :: "csrf_lib \<Rightarrow> bytes \<Rightarrow> bool \<Rightarrow> middleware" where
  "NewCSRFMw protect secret insecure unprotected r w =
     (case rq_user r of
        None \<Rightarrow> unprotected r w
      | Some user \<Rightarrow>
          (if us_from_cookie user then
             protect secret
               \<lparr>cs_path = ''/'', cs_domain = cookie_domain (rq_host r), cs_cookie = ''csrf'',
                cs_header = ''X-CSRF-Token'', cs_http_only = True, cs_secure = (\<not> insecure),
                cs_same_site = SameSiteStrict\<rparr>
               (CSRFErrorHandler insecure) unprotected r w
           else unprotected r w))"

definition RequiresAuthentication :: middleware where
  "RequiresAuthentication next1 r w =
     (case rq_user r of None \<Rightarrow> write_header 401 w | Some _ \<Rightarrow> next1 r w)"

section \<open>Middlewares that guard a handler\<close>

text \<open>
  The contract of a guarding middleware: it lets a request that meets its condition through
  unchanged and answers every other one itself, without the guarded handler.
\<close>

locale guard_middleware =
  fixes mw :: middleware
    and allowed :: "request \<Rightarrow> bool"
  assumes lets_through: "allowed r \<Longrightarrow> mw next1 r w = next1 r w"
    and keeps_out: "\<not> allowed r \<Longrightarrow> mw next1 r w = mw next2 r w"
begin

lemma refused_independent: "\<not> allowed r \<Longrightarrow> mw next1 r w = mw (\<lambda>_ _. w) r w"
  using keeps_out by blast

lemma guards_twice: "mw (mw next1) r w = mw next1 r w"
  by (cases "allowed r") (use lets_through keeps_out in metis)+

lemma same_on_allowed:
  "(\<And>r w. allowed r \<Longrightarrow> next1 r w = next2 r w) \<Longrightarrow> mw next1 = mw next2"
  by (intro ext) (metis lets_through keeps_out)

end

interpretation requires_user: guard_middleware RequiresAuthentication "\<lambda>r. rq_user r \<noteq> None"
  by unfold_locales (auto simp: RequiresAuthentication_def)

interpretation redirect_guard: guard_middleware "ValidateRedirectURIQueryParameter v"
    "\<lambda>r. snd (GetValidatedRedirectURI v r)" for v
  by unfold_locales (auto simp: ValidateRedirectURIQueryParameter_def)

text \<open>Two guards in a row, in either order, let through what both allow.\<close>

lemma guards_commute:
  assumes "guard_middleware m1 a1" "guard_middleware m2 a2" "a1 r" "a2 r"
  shows "m1 (m2 next1) r w = m2 (m1 next1) r w"
  using assms by (metis guard_middleware.lets_through)

section \<open>Facts\<close>

lemma set_string_matchers: "set (string_matchers ss) = set ss \<union> other_slash ` set ss"
  by (induction ss) auto

lemma has_suffix_append: "has_suffix (xs @ ys) ys"
  by (simp add: has_suffix_def)

lemma trim_suffix_append [simp]: "trim_suffix (xs @ ys) ys = xs"
  by (simp add: trim_suffix_def has_suffix_def)

lemma has_suffix_iff: "has_suffix s p \<longleftrightarrow> (\<exists>u. s = u @ p)"
  by (metis append_take_drop_id has_suffix_append has_suffix_def)

text \<open>The two matchers made of a string are the texts that differ from it by at most one final slash.\<close>

lemma other_slash_iff:
  "s \<in> {str, other_slash str} \<longleftrightarrow> s = str \<or> s = str @ ''/'' \<and> \<not> has_suffix str ''/'' \<or> str = s @ ''/''"
  by (auto simp: other_slash_def has_suffix_iff)

lemma set_compile_all: "set (compile_all compile us) = {m. \<exists>u \<in> set us. compile u = Some m}"
  by (induction us) (auto split: option.splits)

lemma authorized_uri_Nil: "authorized_uri v [] = ([], False)"
  by (simp add: authorized_uri_def)

lemma authorized_uri_iff:
  "snd (authorized_uri v u) \<longleftrightarrow> u \<noteq> [] \<and> (u \<in> set (rv_strings v) \<or> (\<exists>m \<in> set (rv_regexes v). m u))"
  by (auto simp: authorized_uri_def)

lemma response_cookies_reset:
  "w_cookies (resetUserCookies r secure w)
     = w_cookies w @ [reset_cookie r secure ''user'', reset_cookie r secure ''id'']"
  "w_sent (resetUserCookies r secure w) = w_sent w"
  by (simp_all add: resetUserCookies_def)

section \<open>Properties\<close>

text \<open>C7: role rules are enforced as set conditions: without any rule every request passes,
  with one a request needs a user who holds all roles of requireMatchAll, one of
  requireMatchAny, not all of denyMatchAll and none of denyMatchAny, where an empty list
  states no condition.\<close>

theorem Enforce_spec:
  assumes "NewRBACEnforcer operation = Returned e"
    and "op_authz operation = Some authz" "az_roles authz = Some rc"
  shows "Enforce e r \<longleftrightarrow>
    no_role_rules rc
    \<or> (\<exists>u. rq_user r = Some u \<and> roles_permitted rc (set (us_roles u)))"
proof (cases "no_role_rules rc")
  case True
  then have "\<not> rb_has_rules e"
    using assms by (auto simp: NewRBACEnforcer_def no_role_rules_def)
  with True show ?thesis by (simp add: Enforce_def)
next
  case False
  then have e: "e = \<lparr>rb_has_rules = True, rb_require_all = rc_require_all rc,
      rb_require_any = rc_require_any rc, rb_deny_all = rc_deny_all rc,
      rb_deny_any = rc_deny_any rc, rb_has_require_all = (rc_require_all rc \<noteq> []),
      rb_has_require_any = (rc_require_any rc \<noteq> []),
      rb_has_deny_all = (rc_deny_all rc \<noteq> []), rb_has_deny_any = (rc_deny_any rc \<noteq> [])\<rparr>"
    using assms by (auto simp: NewRBACEnforcer_def no_role_rules_def)
  show ?thesis
  proof (cases "rq_user r")
    case (Some u)
    have "Enforce e r \<longleftrightarrow> roles_permitted rc (set (us_roles u))"
      by (auto simp: e Enforce_def Some enforceRequireMatchAll_def enforceRequireMatchAny_def
          enforceDenyMatchAll_def enforceDenyMatchAny_def all_contained_iff any_contained_iff
          roles_permitted_def)
    with False Some show ?thesis by simp
  qed (use False in \<open>simp add: e Enforce_def\<close>)
qed

definition sample_operation :: operation where
  "sample_operation =
     \<lparr>op_name = ''DeleteUser'', op_content = [], op_kind = MUTATION, op_variables_schema = ''{}'',
      op_response_schema = [], op_cache = None, op_auth = None, op_live = None,
      op_authz = Some \<lparr>az_claims = [], az_roles = Some \<lparr>rc_require_all = [],
         rc_require_any = [''admin'', ''owner''], rc_deny_all = [], rc_deny_any = [''suspended'']\<rparr>\<rparr>,
      op_hooks_cfg = None, op_variables = None, op_internal = False, op_interp_schema = ''{}'',
      op_transformations = []\<rparr>"

theorem Enforce_spec_witness:
  "\<exists>e. NewRBACEnforcer sample_operation = Returned e
    \<and> Enforce e (empty_request\<lparr>rq_user := Some (zero_user\<lparr>us_roles := [''owner'']\<rparr>)\<rparr>)
    \<and> \<not> Enforce e (empty_request\<lparr>rq_user := Some (zero_user\<lparr>us_roles := [''owner'', ''suspended'']\<rparr>)\<rparr>)
    \<and> \<not> Enforce e empty_request"
proof -
  obtain e where e: "NewRBACEnforcer sample_operation = Returned e"
    by (simp add: NewRBACEnforcer_def sample_operation_def)
  have "op_authz sample_operation = Some \<lparr>az_claims = [], az_roles = Some \<lparr>rc_require_all = [],
      rc_require_any = [''admin'', ''owner''], rc_deny_all = [], rc_deny_any = [''suspended'']\<rparr>\<rparr>"
    by (simp add: sample_operation_def)
  from Enforce_spec [OF e this, simplified] e show ?thesis
    by (auto simp: no_role_rules_def roles_permitted_def empty_request_def)
qed

text \<open>a redirect URI, taken from the query or else from the cookie, is authorised exactly
  when it is not empty and either equals a configured string up to one final slash or is
  matched by a configured regular expression that compiles; the URI that was examined is
  the one returned, so that a handler redirects to what was checked.\<close>

theorem GetValidatedRedirectURI_spec:
  assumes "u = (if query_get r ''redirect_uri'' \<noteq> [] then query_get r ''redirect_uri''
      else case request_cookie r ''success_redirect_uri'' of Inl _ \<Rightarrow> [] | Inr c \<Rightarrow> c)"
  shows "fst (GetValidatedRedirectURI (NewRedirectValidator compile strs res) r) = u
    \<and> (snd (GetValidatedRedirectURI (NewRedirectValidator compile strs res) r) \<longleftrightarrow>
        u \<noteq> [] \<and> ((\<exists>s \<in> set strs. u = s \<or> u = s @ ''/'' \<and> \<not> has_suffix s ''/'' \<or> s = u @ ''/'')
                    \<or> (\<exists>x \<in> set res. \<exists>m. compile x = Some m \<and> m u)))"
proof -
  let ?v = "NewRedirectValidator compile strs res"
  have "GetValidatedRedirectURI ?v r = authorized_uri ?v u"
    by (cases "request_cookie r ''success_redirect_uri''")
      (simp_all add: assms GetValidatedRedirectURI_def authorized_uri_Nil Let_def)
  moreover have "fst (authorized_uri ?v u) = u" by (simp add: authorized_uri_def)
  moreover have "u \<in> set (rv_strings ?v) \<longleftrightarrow>
      (\<exists>s \<in> set strs. u = s \<or> u = s @ ''/'' \<and> \<not> has_suffix s ''/'' \<or> s = u @ ''/'')"
    using other_slash_iff [of u] by (auto simp: NewRedirectValidator_def set_string_matchers)
  moreover have "set (rv_regexes ?v) = {m. \<exists>x \<in> set res. compile x = Some m}"
    by (simp add: NewRedirectValidator_def set_compile_all)
  ultimately show ?thesis by (auto simp: authorized_uri_iff)
qed

theorem GetValidatedRedirectURI_spec_witness:
  "GetValidatedRedirectURI (NewRedirectValidator (\<lambda>_. None) [''http://localhost:3000/''] [])
     (empty_request\<lparr>rq_query := [(''redirect_uri'', ''http://localhost:3000'')]\<rparr>)
   = (''http://localhost:3000'', True)"
  using GetValidatedRedirectURI_spec [OF refl, where r =
      "empty_request\<lparr>rq_query := [(''redirect_uri'', ''http://localhost:3000'')]\<rparr>"
      and compile = "\<lambda>_. None" and strs = "[''http://localhost:3000/'']" and res = "[]"]
  by (simp add: query_get_def prod_eq_iff)

text \<open>C14: a request of a user from a cookie reaches the protected handler only through the
  CSRF protection: where that reports an error, the answer is 403, the login cookies are
  deleted and the handler's work does not show; a request without such a user is not
  subject to the protection at all.\<close>

theorem NewCSRFMw_protects:
  assumes "w_sent w = None"
    and "\<And>opts err h. protect secret opts err h r w = err r w"
  shows "(case rq_user r of
      Some u \<Rightarrow> us_from_cookie u \<longrightarrow>
        response_status (NewCSRFMw protect secret insecure h r w) = 403
        \<and> response_cookies (NewCSRFMw protect secret insecure h r w)
            = w_cookies w @ [reset_cookie r (\<not> insecure) ''user'', reset_cookie r (\<not> insecure) ''id'']
    | None \<Rightarrow> NewCSRFMw protect secret insecure h r w = h r w)"
  using assms
  by (auto simp: NewCSRFMw_def CSRFErrorHandler_def http_error_fresh response_cookies_reset
      split: option.splits)

theorem NewCSRFMw_protects_witness:
  "response_status (NewCSRFMw (\<lambda>secret opts err h r w. err r w) ''aaaaaaaaaaa'' False
      (\<lambda>r w. w_write ''data'' w)
      (empty_request\<lparr>rq_user := Some (zero_user\<lparr>us_from_cookie := True\<rparr>)\<rparr>) new_writer) = 403"
  using NewCSRFMw_protects [where w = new_writer and protect = "\<lambda>secret opts err h r w. err r w"
      and r = "empty_request\<lparr>rq_user := Some (zero_user\<lparr>us_from_cookie := True\<rparr>)\<rparr>"]
  by (simp add: new_writer_def)

text \<open>The domain of the login cookies is computed from labels, not from registered domains.\<close>

lemma cookie_domain_examples:
  "cookie_domain ''app.example.com:443'' = ''example.com''"
  "cookie_domain ''example.co.uk'' = ''co.uk''"
  "cookie_domain ''127.0.0.1:9991'' = ''0.0.1''"
  by (simp_all add: cookie_domain_def sanitizeDomain_def removeSubdomain_def has_prefix_def)

end
