(* ===== verification/Hooks.thy ===== *)
theory Hooks
  imports GoHttp
begin

text \<open>
  pkg/hooks: the client of the hooks server. Parameters are the JSON library
  (\<open>jsonlib\<close>), the encoding and decoding of its messages, and the HTTP client with its
  retries, which answers a call from its URL and body.
\<close>

section \<open>The JSON library\<close>

datatype json_type =
  NotExist | StringT | NumberT | ObjectT | ArrayT | BooleanT | NullT | UnknownT

text \<open>
  jsonparser.Get gives a value, its type and an error; Set and Delete work on a path. Set
  that fails gives no data with its error, and the code keeps that result.
\<close>

record jsonlib =
  js_get :: "bytes \<Rightarrow> string list \<Rightarrow> bytes \<times> json_type \<times> go_error option"
  js_set :: "bytes \<Rightarrow> bytes \<Rightarrow> string list \<Rightarrow> bytes \<times> go_error option"
  js_delete :: "bytes \<Rightarrow> string list \<Rightarrow> bytes"

text \<open>
  What the code that walks over documents uses beside it: the offset behind the value that Get
  found, and the elements for which ArrayEach calls its function.
\<close>

record json_doc = jsonlib +
  js_offset :: "bytes \<Rightarrow> string list \<Rightarrow> int"
  js_each :: "bytes \<Rightarrow> string list \<Rightarrow> bytes list"

definition js_put :: "'a jsonlib_scheme \<Rightarrow> bytes \<Rightarrow> bytes \<Rightarrow> string list \<Rightarrow> bytes" where
  "js_put js data v path = fst (js_set js data v path)"

definition js_type :: "'a jsonlib_scheme \<Rightarrow> bytes \<Rightarrow> string list \<Rightarrow> json_type" where
  "js_type js data path = fst (snd (js_get js data path))"

section \<open>Messages\<close>

record wg_request =
  wr_method :: string
  wr_uri :: string
  wr_headers :: "string \<Rightarrow> string option"
  wr_body :: bytes

record wg_response =
  wp_status_code :: int
  wp_status :: string
  wp_method :: string
  wp_uri :: string
  wp_headers :: "string \<Rightarrow> string option"
  wp_body :: bytes

record hook_response =
  hr_error :: string
  hr_op :: string
  hr_hook :: string
  hr_response :: "bytes option"
  hr_input :: "bytes option"
  hr_set_headers :: "(string \<times> string) list"

definition empty_hook_response :: hook_response where
  "empty_hook_response = \<lparr>hr_error = [], hr_op = [], hr_hook = [], hr_response = None,
     hr_input = None, hr_set_headers = []\<rparr>"

text \<open>The keys of the header map are those with at least one value.\<close>

definition HeaderSliceToCSV :: "header \<Rightarrow> string \<Rightarrow> string option" where
  "HeaderSliceToCSV h k = (if h k = [] then None else Some (join '','' (h k)))"

definition HeaderCSVToSlice :: "(string \<Rightarrow> string option) \<Rightarrow> header" where
  "HeaderCSVToSlice m k = (case m k of None \<Rightarrow> [] | Some v \<Rightarrow> [v])"

text \<open>The error of reading the body is discarded; the body is put back for later readers.\<close>

definition HttpRequestToWunderGraphRequestJSON ::
    "(wg_request \<Rightarrow> bytes res) \<Rightarrow> request \<Rightarrow> bool \<Rightarrow> bytes res" where
  "HttpRequestToWunderGraphRequestJSON marshal r with_body =
     marshal \<lparr>wr_method = rq_method r, wr_uri = rq_uri r,
              wr_headers = HeaderSliceToCSV (rq_header r),
              wr_body = (if with_body then (case rq_body r of Inl _ \<Rightarrow> [] | Inr b \<Rightarrow> b) else [])\<rparr>"

section \<open>The hooks\<close>

datatype hook_kind =
    MockResolve | PreResolve | MutatingPreResolve | CustomResolve | PostResolve
  | MutatingPostResolve | PostAuthentication | MutatingPostAuthentication
  | RevalidateAuthentication | PostLogout | HttpTransportOnRequest
  | HttpTransportOnResponse | WsTransportOnConnectionInit

fun hook_name :: "hook_kind \<Rightarrow> string" where
  "hook_name MockResolve = ''mockResolve''"
| "hook_name PreResolve = ''preResolve''"
| "hook_name PostResolve = ''postResolve''"
| "hook_name CustomResolve = ''customResolve''"
| "hook_name MutatingPreResolve = ''mutatingPreResolve''"
| "hook_name MutatingPostResolve = ''mutatingPostResolve''"
| "hook_name PostAuthentication = ''postAuthentication''"
| "hook_name PostLogout = ''postLogout''"
| "hook_name MutatingPostAuthentication = ''mutatingPostAuthentication''"
| "hook_name RevalidateAuthentication = ''revalidateAuthentication''"
| "hook_name HttpTransportOnRequest = ''onOriginRequest''"
| "hook_name HttpTransportOnResponse = ''onOriginResponse''"
| "hook_name WsTransportOnConnectionInit = ''onConnectionInit''"

lemma hook_name_inj: "hook_name h = hook_name h' \<Longrightarrow> h = h'"
  by (cases h; cases h'; simp)

text \<open>
  The order in which an operation runs its hooks: the position of the hook in the life of
  a request.
\<close>

fun hook_rank :: "hook_kind \<Rightarrow> nat" where
  "hook_rank MockResolve = 0"
| "hook_rank PreResolve = 1"
| "hook_rank MutatingPreResolve = 2"
| "hook_rank CustomResolve = 3"
| "hook_rank PostResolve = 4"
| "hook_rank MutatingPostResolve = 5"
| "hook_rank PostAuthentication = 6"
| "hook_rank MutatingPostAuthentication = 7"
| "hook_rank RevalidateAuthentication = 8"
| "hook_rank PostLogout = 9"
| "hook_rank HttpTransportOnRequest = 10"
| "hook_rank HttpTransportOnResponse = 11"
| "hook_rank WsTransportOnConnectionInit = 12"

lemma hook_rank_inj: "hook_rank h = hook_rank h' \<Longrightarrow> h = h'"
  by (cases h; cases h'; simp)

instantiation hook_kind :: linorder
begin

definition less_eq_hook_kind :: "hook_kind \<Rightarrow> hook_kind \<Rightarrow> bool" where
  "less_eq_hook_kind h h' = (hook_rank h \<le> hook_rank h')"

definition less_hook_kind :: "hook_kind \<Rightarrow> hook_kind \<Rightarrow> bool" where
  "less_hook_kind h h' = (hook_rank h < hook_rank h')"

instance
  by standard (auto simp: less_eq_hook_kind_def less_hook_kind_def intro: hook_rank_inj)

end

section \<open>The client\<close>

text \<open>
  \<open>hc_new_request\<close> is the error of building a POST request to a URL, if any, and \<open>hc_send\<close> the retrying
  HTTP client: it answers the request with a status and the text of the body; \<open>hc_decode\<close> decodes that text, \<open>hc_marshal\<close> encodes the client request.
\<close>

record hook_client =
  hc_url :: string
  hc_new_request :: "string \<Rightarrow> go_error option"
  hc_send :: "string \<Rightarrow> bytes \<Rightarrow> (nat \<times> bytes) res"
  hc_decode :: "bytes \<Rightarrow> hook_response res"
  hc_marshal :: "wg_request \<Rightarrow> bytes res"
  hc_json :: jsonlib

definition setInternalHookData :: "hook_client \<Rightarrow> request option \<Rightarrow> bytes \<Rightarrow> bytes" where
  "setInternalHookData c clientRequest jsonData =
     (let js = hc_json c;
          jsonData = (if length jsonData = 0 then ''{}'' else jsonData) in
      case clientRequest of
        None \<Rightarrow> jsonData
      | Some r \<Rightarrow>
          (case HttpRequestToWunderGraphRequestJSON (hc_marshal c) r False of
             Inl _ \<Rightarrow> jsonData
           | Inr clientRequestData \<Rightarrow>
               (if js_type js jsonData [''__wg'', ''clientRequest''] = NotExist
                then js_put js jsonData clientRequestData [''__wg'', ''clientRequest'']
                else jsonData)))"

definition doRequest ::
    "hook_client \<Rightarrow> request option \<Rightarrow> string \<Rightarrow> hook_kind \<Rightarrow> bytes \<Rightarrow> hook_response res" where
  "doRequest c clientRequest action hook jsonData =
     (let jsonData = setInternalHookData c clientRequest jsonData;
          url = hc_url c @ ''/'' @ action @ ''/'' @ hook_name hook in
      case hc_new_request c url of
        Some err \<Rightarrow> Inl err
      | None \<Rightarrow>
          (case hc_send c url jsonData of
             Inl err \<Rightarrow>
               Inl (Wrap (''middleware hook '' @ hook_name hook @ '' failed with invalid status code: 500'') err)
           | Inr (status, body) \<Rightarrow>
               (if status \<noteq> 200 then
                  Inl (Err (''middleware hook '' @ hook_name hook @ '' failed with invalid status code: ''
                    @ itoa status))
                else
                  (case hc_decode c body of
                     Inl err \<Rightarrow>
                       Inl (Wrap (''response of middleware hook '' @ hook_name hook @ '' could not be decoded'') err)
                   | Inr hookRes \<Rightarrow>
                       (if hr_error hookRes \<noteq> [] then
                          Inl (Err (''middleware hook '' @ hook_name hook @ '' failed with error: ''
                            @ hr_error hookRes))
                        else Inr hookRes)))))"

definition DoGlobalRequest where
  "DoGlobalRequest c cr hook jsonData = doRequest c cr ''global/httpTransport'' hook jsonData"

definition DoWsTransportRequest where
  "DoWsTransportRequest c cr hook jsonData = doRequest c cr ''global/wsTransport'' hook jsonData"

definition DoOperationRequest where
  "DoOperationRequest c cr operationName hook jsonData =
     doRequest c cr (''operation/'' @ operationName) hook jsonData"

definition DoAuthenticationRequest where
  "DoAuthenticationRequest c cr hook jsonData = doRequest c cr ''authentication'' hook jsonData"

text \<open>The timeout it is given is not used.\<close>

definition DoHealthCheckRequest :: "(string \<Rightarrow> nat res) \<Rightarrow> string \<Rightarrow> int \<Rightarrow> bool" where
  "DoHealthCheckRequest get serverUrl timeout =
     (case get (serverUrl @ ''/health'') of Inl _ \<Rightarrow> False | Inr status \<Rightarrow> status = 200)"

lemma doRequest_Inr:
  "doRequest c cr action hook jsonData = Inr res \<Longrightarrow>
    hr_error res = [] \<and> (\<exists>body. hc_send c (hc_url c @ ''/'' @ action @ ''/'' @ hook_name hook)
        (setInternalHookData c cr jsonData) = Inr (200, body) \<and> hc_decode c body = Inr res)"
  by (auto simp: doRequest_def Let_def split: option.splits sum.splits prod.splits if_splits)

text \<open>The two conversions of headers: a round trip joins the values of a key.\<close>

lemma header_csv_roundtrip:
  "HeaderCSVToSlice (HeaderSliceToCSV h) k = (if h k = [] then [] else [join '','' (h k)])"
  by (simp add: HeaderCSVToSlice_def HeaderSliceToCSV_def)

lemma header_csv_roundtrip_single:
  "length (h k) \<le> 1 \<Longrightarrow> HeaderCSVToSlice (HeaderSliceToCSV h) k = h k"
  by (cases "h k") (auto simp: header_csv_roundtrip)

end
