(* ===== verification/LoadVariable.thy ===== *)
theory LoadVariable
  imports Wgpb
begin

text \<open>
  pkg/loadvariable: reading a configuration variable as a string, a list of strings, a
  boolean or an integer. \<open>env\<close> is os.Getenv, which answers the empty string for an
  unset variable. strconv.Atoi is modelled with its clamping at the ends of the 64-bit
  range, because the code discards its error and uses its value.
\<close>

section \<open>strconv.Atoi\<close>

datatype scan = ScanSyntax | ScanRange | ScanOk nat

text \<open>
  The digit loop of strconv.ParseUint for base 10: a range error is reported at the digit
  that overflows, before the rest of the text is looked at.
\<close>

fun parse_uint :: "nat \<Rightarrow> string \<Rightarrow> scan" where
  "parse_uint n [] = ScanOk n"
| "parse_uint n (c # cs) =
     (if \<not> is_digit c then ScanSyntax
      else if 2 ^ 64 \<le> 10 * n + digit_val c then ScanRange
      else parse_uint (10 * n + digit_val c) cs)"

text \<open>The value strconv.Atoi returns beside its (discarded) error.\<close>

definition atoi_signed :: "bool \<Rightarrow> string \<Rightarrow> int" where
  "atoi_signed neg ds =
     (if ds = [] then 0
      else (case parse_uint 0 ds of
          ScanSyntax \<Rightarrow> 0
        | ScanRange \<Rightarrow> (if neg then - (2 ^ 63) else 2 ^ 63 - 1)
        | ScanOk n \<Rightarrow>
            (if neg then (if 2 ^ 63 < int n then - (2 ^ 63) else - int n)
             else (if 2 ^ 63 \<le> int n then 2 ^ 63 - 1 else int n))))"

definition atoi_value :: "string \<Rightarrow> int" where
  "atoi_value s =
     (case s of
        [] \<Rightarrow> 0
      | c # cs \<Rightarrow>
          (if c = CHR ''-'' then atoi_signed True cs
           else if c = CHR ''+'' then atoi_signed False cs
           else atoi_signed False (c # cs)))"

section \<open>The loaders\<close>

definition load_string :: "(string \<Rightarrow> string) \<Rightarrow> cvar \<Rightarrow> string" where
  "load_string env v =
     (case v of
        None \<Rightarrow> []
      | Some v \<Rightarrow>
          (case cv_kind v of
             ENV_VARIABLE \<Rightarrow>
               (let value = env (cv_env_name v) in
                if value \<noteq> [] then value else cv_env_default v)
           | STATIC_VARIABLE \<Rightarrow> cv_static v
           | PLACEHOLDER_VARIABLE \<Rightarrow> []))"

fun load_strings :: "(string \<Rightarrow> string) \<Rightarrow> cvar list \<Rightarrow> string list" where
  "load_strings env [] = []"
| "load_strings env (v # vs) =
     (let str = load_string env v in
      (if str \<noteq> [] then split_on (CHR '','') str else []) @ load_strings env vs)"

definition load_bool :: "(string \<Rightarrow> string) \<Rightarrow> cvar \<Rightarrow> bool" where
  "load_bool env v =
     (case v of
        None \<Rightarrow> False
      | Some v \<Rightarrow>
          (case cv_kind v of
             ENV_VARIABLE \<Rightarrow>
               (let value = env (cv_env_name v) in
                if value \<noteq> [] then value = ''true'' else cv_env_default v = ''true'')
           | STATIC_VARIABLE \<Rightarrow> cv_static v = ''true''
           | PLACEHOLDER_VARIABLE \<Rightarrow> False))"

definition load_int64 :: "(string \<Rightarrow> string) \<Rightarrow> cvar \<Rightarrow> int" where
  "load_int64 env v =
     (case v of
        None \<Rightarrow> 0
      | Some v \<Rightarrow>
          (case cv_kind v of
             ENV_VARIABLE \<Rightarrow>
               (let value = env (cv_env_name v) in
                if value \<noteq> [] then atoi_value value else atoi_value (cv_env_default v))
           | STATIC_VARIABLE \<Rightarrow> atoi_value (cv_static v)
           | PLACEHOLDER_VARIABLE \<Rightarrow> 0))"

definition load_int :: "(string \<Rightarrow> string) \<Rightarrow> cvar \<Rightarrow> int" where
  "load_int env v =
     (case v of
        None \<Rightarrow> 0
      | Some v \<Rightarrow>
          (case cv_kind v of
             ENV_VARIABLE \<Rightarrow>
               (let value = env (cv_env_name v) in
                if value \<noteq> [] then atoi_value value else atoi_value (cv_env_default v))
           | STATIC_VARIABLE \<Rightarrow> atoi_value (cv_static v)
           | PLACEHOLDER_VARIABLE \<Rightarrow> 0))"

section \<open>Facts\<close>

lemma load_string_static_var [simp]: "load_string env (static_var s) = s"
  by (simp add: load_string_def static_var_def)

lemma load_string_None [simp]: "load_string env None = []"
  by (simp add: load_string_def)

lemma load_strings_append: "load_strings env (vs @ ws) = load_strings env vs @ load_strings env ws"
  by (induction vs) (simp_all add: Let_def)

text \<open>The typed loaders read the same text as \<open>load_string\<close>.\<close>

lemma load_bool_string: "load_bool env v = (load_string env v = ''true'')"
  by (auto simp: load_bool_def load_string_def Let_def split: option.splits variable_kind.splits)

lemma atoi_value_Nil [simp]: "atoi_value [] = 0"
  by (simp add: atoi_value_def)

lemma load_int64_string: "load_int64 env v = atoi_value (load_string env v)"
  by (simp add: load_int64_def load_string_def Let_def split: option.splits variable_kind.splits)

lemma load_int_int64: "load_int env v = load_int64 env v"
  by (simp add: load_int_def load_int64_def)

lemma parse_uint_bound: "n < 2 ^ 64 \<Longrightarrow> parse_uint n s = ScanOk m \<Longrightarrow> m < 2 ^ 64"
  by (induction n s rule: parse_uint.induct) (auto split: if_splits)

lemma atoi_signed_bounds: "- (2 ^ 63) \<le> atoi_signed neg s \<and> atoi_signed neg s \<le> 2 ^ 63 - 1"
  by (auto simp: atoi_signed_def split: scan.splits)

lemma atoi_value_bounds: "- (2 ^ 63) \<le> atoi_value s \<and> atoi_value s \<le> 2 ^ 63 - 1"
  using atoi_signed_bounds by (auto simp: atoi_value_def split: list.splits)

lemma is_digit_digit_char: "d < 10 \<Longrightarrow> is_digit (digit_char d)"
  by (simp add: is_digit_def digit_char_def)

lemma digit_val_digit_char: "d < 10 \<Longrightarrow> digit_val (digit_char d) = d"
  by (simp add: digit_val_def digit_char_def)

lemma parse_uint_append:
  "parse_uint n (s @ t) = (case parse_uint n s of ScanOk m \<Rightarrow> parse_uint m t | r \<Rightarrow> r)"
  by (induction n s rule: parse_uint.induct) auto

text \<open>Printing and reading back a number that fits into 64 bits.\<close>

lemma parse_uint_itoa: "n < 2 ^ 64 \<Longrightarrow> parse_uint 0 (itoa n) = ScanOk n"
proof (induction n rule: itoa.induct)
  case (1 n)
  show ?case
  proof (cases "n < 10")
    case True
    then show ?thesis
      by (simp add: itoa.simps [of n] is_digit_digit_char digit_val_digit_char)
  next
    case False
    have div: "parse_uint 0 (itoa (n div 10)) = ScanOk (n div 10)"
      using False "1.prems" by (intro "1.IH") auto
    have "10 * (n div 10) + n mod 10 = n" by simp
    with False div "1.prems" show ?thesis
      by (simp add: itoa.simps [of n] parse_uint_append is_digit_digit_char digit_val_digit_char)
  qed
qed

lemma hd_itoa_digit: "is_digit (hd (itoa n))"
proof (induction n rule: itoa.induct)
  case (1 n)
  then show ?case
    by (cases "n < 10") (simp_all add: itoa.simps [of n] is_digit_digit_char itoa_nonempty)
qed

lemma atoi_value_itoa:
  assumes "n < 2 ^ 63"
  shows "atoi_value (itoa n) = int n"
proof -
  obtain c cs where s: "itoa n = c # cs" using itoa_nonempty by (cases "itoa n") auto
  then have "is_digit c" using hd_itoa_digit [of n] by simp
  then have c: "c \<noteq> CHR ''-''" "c \<noteq> CHR ''+''" by (auto simp: is_digit_def)
  have "int n < 2 ^ 63" using assms by simp
  moreover have "parse_uint 0 (c # cs) = ScanOk n"
    using parse_uint_itoa [of n] assms s by simp
  ultimately show ?thesis
    by (simp add: s c atoi_value_def atoi_signed_def del: parse_uint.simps)
qed

end
