(* ===== verification/HandlerBase.thy ===== *)
theory HandlerBase
  imports AccessControl Hooks LoadVariable
begin

text \<open>
  What the operation handlers of pkg/apihandler/apihandler.go share: the variables of a
  request and what is injected into them, the data of a hook call, the answers to errors,
  and the first stages of every handler. A handler runs on a state that holds its request,
  its writer, the variables and a trace of its calls to the outside. The answers of the
  outside world are functions of that trace.
\<close>

section \<open>The state and the environment of a handler\<close>

record mock_resolve_config =
  mc_enable :: bool
  mc_interval :: int

record hooks_config =
  hx_mock :: mock_resolve_config
  hx_pre :: bool
  hx_post :: bool
  hx_mut_pre :: bool
  hx_mut_post :: bool
  hx_custom :: bool

record op_cache =
  oe_enable :: bool
  oe_max_age :: int
  oe_public :: bool
  oe_swr :: int

record live_config =
  lv_enabled :: bool
  lv_interval :: int

datatype call =
    HookCall hook_kind bytes
  | ResolveCall bytes
  | CacheGet string
  | CacheSet string bytes int

record op_state =
  os_req :: request
  os_w :: writer
  os_vars :: bytes
  os_ctx_header :: header
  os_resp :: bytes
  os_calls :: "call list"
  os_stale :: bool
  os_key :: string

text \<open>
  The outside of a handler. \<open>ev_sjson_raw\<close> and \<open>ev_sjson\<close> set a field of an object to a
  raw value or a string, \<open>ev_valid_json\<close> is gjson.Valid, \<open>ev_pairs\<close> lists the fields of an
  object; \<open>ev_order\<close> is the order in which a map is ranged over; \<open>ev_validate\<close> is the JSON
  schema of the operation; \<open>ev_hash\<close> is xxhash; \<open>ev_cache\<close> gives an item and its age;
  \<open>ev_gql_error\<close> prints an error as a GraphQL response.
\<close>

record op_env =
  ev_client :: "call list \<Rightarrow> hook_client"
  ev_resolve :: "call list \<Rightarrow> bytes \<Rightarrow> bytes res"
  ev_validate :: "bytes \<Rightarrow> bool"
  ev_compact :: "bytes \<Rightarrow> bytes res"
  ev_sjson_raw :: "bytes \<Rightarrow> string \<Rightarrow> bytes \<Rightarrow> bytes"
  ev_sjson :: "bytes \<Rightarrow> string \<Rightarrow> string \<Rightarrow> bytes"
  ev_valid_json :: "string \<Rightarrow> bool"
  ev_pairs :: "bytes \<Rightarrow> (string \<times> bytes) list"
  ev_order :: "(string \<times> string list) list \<Rightarrow> (string \<times> string list) list"
  ev_json :: jsonlib
  ev_marshal_user :: "user \<Rightarrow> bytes res"
  ev_hash :: "bytes \<Rightarrow> nat"
  ev_cache :: "call list \<Rightarrow> string \<Rightarrow> (bytes \<times> int) option"
  ev_uuid :: "nat \<Rightarrow> string"
  ev_now :: "string \<Rightarrow> string"
  ev_getenv :: "string \<Rightarrow> string"
  ev_gql_error :: "go_error \<Rightarrow> bytes res"
  ev_flusher :: bool

text \<open>The fields of a handler.\<close>

record op_handler =
  hd_op :: operation
  hd_extracted :: bytes
  hd_hooks :: hooks_config
  hd_rbac :: rbac_enforcer
  hd_interp :: "bytes \<Rightarrow> bytes"
  hd_json_interp :: "bytes \<Rightarrow> bytes"
  hd_transform :: "bytes \<Rightarrow> bytes res"
  hd_allow :: "string list"
  hd_cache :: op_cache
  hd_config_hash :: bytes
  hd_live :: live_config

definition buildHooksConfig :: "operation option \<Rightarrow> hooks_config outcome" where
  "buildHooksConfig operation =
     (let none = \<lparr>hx_mock = \<lparr>mc_enable = False, mc_interval = 0\<rparr>, hx_pre = False,
                  hx_post = False, hx_mut_pre = False, hx_mut_post = False, hx_custom = False\<rparr> in
      case operation of
        None \<Rightarrow> Returned none
      | Some operation \<Rightarrow>
          (case op_hooks_cfg operation of
             None \<Rightarrow> Returned none
           | Some config \<Rightarrow>
               bind_out (deref (oh_mock config)) (\<lambda>mock. Returned
                 \<lparr>hx_mock = \<lparr>mc_enable = mh_enable mock, mc_interval = mh_interval mock\<rparr>,
                  hx_pre = oh_pre config, hx_post = oh_post config,
                  hx_mut_pre = oh_mut_pre config, hx_mut_post = oh_mut_post config,
                  hx_custom = oh_custom config\<rparr>)))"

section \<open>Variables\<close>

definition WG_PREFIX :: string where "WG_PREFIX = ''wg_''"
definition WG_LIVE :: string where "WG_LIVE = WG_PREFIX @ ''live''"
definition WG_VARIABLES :: string where "WG_VARIABLES = WG_PREFIX @ ''variables''"
definition WG_CACHE_HEADER :: string where "WG_CACHE_HEADER = ''X-Wg-Cache''"

text \<open>The parsed query as a map from names to values.\<close>

definition query_items :: "(string \<times> string) list \<Rightarrow> (string \<times> string list) list" where
  "query_items q = map (\<lambda>k. (k, map snd (filter (\<lambda>p. fst p = k) q))) (keep_first (map fst q))"

fun stringSliceContainsValue :: "string list \<Rightarrow> string \<Rightarrow> bool" where
  "stringSliceContainsValue [] value1 = False"
| "stringSliceContainsValue (x # xs) value1 = (if x = value1 then True else stringSliceContainsValue xs value1)"

definition set_variable :: "op_env \<Rightarrow> bytes \<Rightarrow> string \<Rightarrow> string \<Rightarrow> bytes" where
  "set_variable env raw name v =
     (if ev_valid_json env v then ev_sjson_raw env raw name v else ev_sjson env raw name v)"

fun query_variables :: "op_env \<Rightarrow> string list \<Rightarrow> bytes \<Rightarrow> (string \<times> string list) list \<Rightarrow> bytes" where
  "query_variables env allowList raw [] = raw"
| "query_variables env allowList raw ((name, val) # rest) =
     (case val of
        [] \<Rightarrow> query_variables env allowList raw rest
      | v # _ \<Rightarrow>
          (if has_prefix name WG_PREFIX then query_variables env allowList raw rest
           else if \<not> stringSliceContainsValue allowList name then query_variables env allowList raw rest
           else query_variables env allowList (set_variable env raw name v) rest))"

definition parseQueryVariables :: "op_env \<Rightarrow> request \<Rightarrow> string list \<Rightarrow> bytes" where
  "parseQueryVariables env r allowList =
     (let raw = query_get r WG_VARIABLES in
      if raw \<noteq> [] then raw
      else query_variables env allowList ''{}'' (ev_order env (query_items (rq_query r))))"

fun form_variables :: "op_env \<Rightarrow> bytes \<Rightarrow> (string \<times> string list) list \<Rightarrow> bytes" where
  "form_variables env raw [] = raw"
| "form_variables env raw ((name, val) # rest) =
     (case val of
        [] \<Rightarrow> form_variables env raw rest
      | v # _ \<Rightarrow>
          (if has_suffix v WG_PREFIX then form_variables env raw rest
           else form_variables env (set_variable env raw name v) rest))"

definition parseFormVariables :: "op_env \<Rightarrow> ((string \<times> string) list) res \<Rightarrow> bytes" where
  "parseFormVariables env form =
     (case form of
        Inl err \<Rightarrow> ''{}''
      | Inr items \<Rightarrow> form_variables env ''{}'' (ev_order env (query_items items)))"

definition json_string :: "string \<Rightarrow> bytes" where
  "json_string s = [CHR 0x22] @ s @ [CHR 0x22]"

fun claim_value :: "user \<Rightarrow> claim \<Rightarrow> bytes" where
  "claim_value user USERID = json_string (us_user_id user)"
| "claim_value user EMAIL = json_string (us_email user)"
| "claim_value user EMAIL_VERIFIED = (if us_email_verified user then ''true'' else ''false'')"
| "claim_value user LOCATION = json_string (us_location user)"
| "claim_value user NAME = json_string (us_name user)"
| "claim_value user NICKNAME = json_string (us_nick_name user)"
| "claim_value user PROVIDER = [CHR 0x0A] @ us_provider_id user @ [CHR 0x22]"

fun inject_claims_loop :: "jsonlib \<Rightarrow> user \<Rightarrow> claim_config list \<Rightarrow> bytes \<Rightarrow> bytes" where
  "inject_claims_loop js user [] variables = variables"
| "inject_claims_loop js user (c # cs) variables =
     inject_claims_loop js user cs
       (js_put js variables (claim_value user (cl_claim c)) [cl_variable c])"

definition injectClaims :: "op_env \<Rightarrow> operation \<Rightarrow> request \<Rightarrow> bytes \<Rightarrow> bytes" where
  "injectClaims env operation r variables =
     (case op_authz operation of
        None \<Rightarrow> variables
      | Some authz \<Rightarrow>
          (if length (az_claims authz) = 0 then variables
           else
             (case rq_user r of
                None \<Rightarrow> variables
              | Some user \<Rightarrow> inject_claims_loop (ev_json env) user (az_claims authz) variables)))"

fun inject_variables_loop :: "op_env \<Rightarrow> nat \<Rightarrow> inject_variable list \<Rightarrow> bytes \<Rightarrow> bytes" where
  "inject_variables_loop env i [] variables = variables"
| "inject_variables_loop env i (v # vs) variables =
     inject_variables_loop env (Suc i) vs
       (case iv_kind v of
          INJECT_UUID \<Rightarrow> js_put (ev_json env) variables (json_string (ev_uuid env i)) [iv_name v]
        | INJECT_DATE_TIME \<Rightarrow>
            js_put (ev_json env) variables (json_string (ev_now env (iv_format v))) [iv_name v]
        | INJECT_ENV \<Rightarrow>
            (let value1 = ev_getenv env (iv_env v) in
             if value1 = [] then variables
             else js_put (ev_json env) variables (json_string value1) [iv_name v]))"

definition injectVariables :: "op_env \<Rightarrow> operation \<Rightarrow> bytes \<Rightarrow> bytes" where
  "injectVariables env operation variables =
     (case op_variables operation of
        None \<Rightarrow> variables
      | Some cfg \<Rightarrow> inject_variables_loop env 0 (vc_inject cfg) variables)"

definition postProcessVariables :: "op_env \<Rightarrow> operation \<Rightarrow> request \<Rightarrow> bytes \<Rightarrow> bytes" where
  "postProcessVariables env operation r variables =
     injectVariables env operation (injectClaims env operation r variables)"

definition MergeJsonRightIntoLeft :: "op_env \<Rightarrow> bytes \<Rightarrow> bytes \<Rightarrow> bytes" where
  "MergeJsonRightIntoLeft env left right =
     foldl (\<lambda>left (k, v). ev_sjson_raw env left k v) left (ev_pairs env right)"

section \<open>Errors and hook data\<close>

definition handleOperationErr :: "go_error \<Rightarrow> string \<Rightarrow> writer \<Rightarrow> writer" where
  "handleOperationErr err errorMessage w =
     (if err_is_canceled err then write_header 499 w
      else if err_is_deadline err then write_header 504 w
      else http_error errorMessage 500 w)"

definition updateContextHeaders :: "(string \<times> string) list \<Rightarrow> op_state \<Rightarrow> op_state" where
  "updateContextHeaders headers s =
     (if headers = [] then s
      else
        (let h = foldl (\<lambda>h (k, v). header_set k v h) no_header headers in
         s\<lparr>os_ctx_header := h, os_req := (os_req s)\<lparr>rq_header := h\<rparr>\<rparr>))"

definition handleHookOut :: "hook_response option \<Rightarrow> op_state stage" where
  "handleHookOut out s =
     (case out of
        None \<Rightarrow> Inl (s\<lparr>os_w := http_error ''Internal Server Error'' 500 (os_w s)\<rparr>)
      | Some out \<Rightarrow> Inr (updateContextHeaders (hr_set_headers out) s))"

definition hookBaseData :: "op_env \<Rightarrow> request \<Rightarrow> bytes \<Rightarrow> bytes \<Rightarrow> bytes" where
  "hookBaseData env r variables response =
     (let js = ev_json env;
          buf = ''{'' @ json_string ''__wg'' @ '':{}}'';
          buf = (case rq_user r of
              None \<Rightarrow> buf
            | Some user \<Rightarrow>
                (case ev_marshal_user env user of
                   Inl _ \<Rightarrow> buf
                 | Inr userJson \<Rightarrow> js_put js buf userJson [''__wg'', ''user'']));
          buf = (if 2 < length variables then js_put js buf variables [''input''] else buf);
          buf = (if length response \<noteq> 0 then js_put js buf response [''response''] else buf) in
      buf)"

definition setSubscriptionHeaders :: "writer \<Rightarrow> writer" where
  "setSubscriptionHeaders w =
     set_header ''X-Accel-Buffering'' ''no''
       (set_header ''Connection'' ''keep-alive''
         (set_header ''Cache-Control'' ''no-cache''
           (set_header ''Content-Type'' ''text/event-stream'' w)))"

definition EndpointUnavailableHandler :: "string \<Rightarrow> handler" where
  "EndpointUnavailableHandler name r w =
     http_error (''Endpoint not available for Operation: '' @ name @ '', please check the logs.'') 503 w"

section \<open>Stages\<close>

definition start_state :: "request \<Rightarrow> writer \<Rightarrow> op_state" where
  "start_state r w = \<lparr>os_req = r, os_w = w, os_vars = [], os_ctx_header = rq_header r,
     os_resp = [], os_calls = [], os_stale = False, os_key = []\<rparr>"

definition on_writer :: "(writer \<Rightarrow> writer) \<Rightarrow> op_state \<Rightarrow> op_state" where
  "on_writer f s = s\<lparr>os_w := f (os_w s)\<rparr>"

definition rbac_stage :: "op_handler \<Rightarrow> op_state stage" where
  "rbac_stage h s =
     (if \<not> Enforce (hd_rbac h) (os_req s) then Inl (on_writer (http_error ''unauthorized'' 401) s)
      else Inr s)"

definition validate_stage :: "op_env \<Rightarrow> op_handler \<Rightarrow> op_state stage" where
  "validate_stage env h s =
     (let s = s\<lparr>os_vars := hd_interp h (os_vars s)\<rparr> in
      if \<not> ev_validate env (os_vars s) then Inl (on_writer (write_header 400) s) else Inr s)"

definition compact_stage :: "op_env \<Rightarrow> op_state stage" where
  "compact_stage env s =
     (case ev_compact env (os_vars s) of
        Inl err \<Rightarrow> Inl (on_writer (write_header 400) s)
      | Inr compact \<Rightarrow> Inr (s\<lparr>os_vars := compact\<rparr>))"

definition inject_stage :: "op_env \<Rightarrow> op_handler \<Rightarrow> op_state stage" where
  "inject_stage env h s =
     (let vars = hd_json_interp h (os_vars s);
          vars = (if length (hd_extracted h) \<noteq> 0
            then MergeJsonRightIntoLeft env vars (hd_extracted h) else vars) in
      Inr (s\<lparr>os_vars := postProcessVariables env (hd_op h) (os_req s) vars\<rparr>))"

text \<open>A call of a hook, and the answer to its failure; \<open>after\<close> is what a success leads to.\<close>

definition do_hook ::
    "op_env \<Rightarrow> op_handler \<Rightarrow> hook_kind \<Rightarrow> bytes \<Rightarrow> op_state \<Rightarrow> op_state \<times> hook_response res" where
  "do_hook env h hook resp s =
     (let hookData = hookBaseData env (os_req s) (os_vars s) resp in
      (s\<lparr>os_calls := os_calls s @ [HookCall hook hookData]\<rparr>,
       DoOperationRequest (ev_client env (os_calls s)) (Some (os_req s)) (op_name (hd_op h)) hook hookData))"

definition hook_stage ::
    "op_env \<Rightarrow> op_handler \<Rightarrow> bool \<Rightarrow> hook_kind \<Rightarrow> (op_state \<Rightarrow> bytes) \<Rightarrow>
     (hook_response \<Rightarrow> op_state stage) \<Rightarrow> op_state stage" where
  "hook_stage env h enabled hook resp after s =
     (if \<not> enabled then Inr s
      else
        (case do_hook env h hook (resp s) s of
           (s, Inl err) \<Rightarrow>
             Inl (on_writer (handleOperationErr err (hook_name hook @ '' hook failed'')) s)
         | (s, Inr out) \<Rightarrow> after out s))"

definition resolve_stage :: "op_env \<Rightarrow> string \<Rightarrow> op_state stage" where
  "resolve_stage env msg s =
     (let s' = s\<lparr>os_calls := os_calls s @ [ResolveCall (os_vars s)]\<rparr> in
      case ev_resolve env (os_calls s) (os_vars s) of
        Inl err \<Rightarrow> Inl (on_writer (handleOperationErr err msg) s')
      | Inr out \<Rightarrow> Inr (s'\<lparr>os_resp := out\<rparr>))"

definition transform_stage :: "op_handler \<Rightarrow> string \<Rightarrow> op_state stage" where
  "transform_stage h msg s =
     (case hd_transform h (os_resp s) of
        Inl err \<Rightarrow> Inl (on_writer (handleOperationErr err msg) s)
      | Inr out \<Rightarrow> Inr (s\<lparr>os_resp := out\<rparr>))"

definition no_response :: "op_state \<Rightarrow> bytes" where
  "no_response s = []"

definition raw_response :: "hook_response \<Rightarrow> bytes" where
  "raw_response out = (case hr_response out of None \<Rightarrow> [] | Some b \<Rightarrow> b)"

text \<open>The first hooks of every operation.\<close>

definition pre_resolve_stage :: "op_env \<Rightarrow> op_handler \<Rightarrow> op_state stage" where
  "pre_resolve_stage env h =
     hook_stage env h (hx_pre (hd_hooks h)) PreResolve no_response
       (\<lambda>out. handleHookOut (Some out))"

definition custom_resolve_stage :: "op_env \<Rightarrow> op_handler \<Rightarrow> op_state stage" where
  "custom_resolve_stage env h =
     hook_stage env h (hx_custom (hd_hooks h)) CustomResolve no_response
       (\<lambda>out s. case handleHookOut (Some out) s of
          Inl s \<Rightarrow> Inl s
        | Inr s \<Rightarrow>
            (if raw_response out \<noteq> ''null'' then Inl (on_writer (w_write (raw_response out)) s)
             else Inr s))"

definition post_resolve_stage :: "op_env \<Rightarrow> op_handler \<Rightarrow> op_state stage" where
  "post_resolve_stage env h =
     hook_stage env h (hx_post (hd_hooks h)) PostResolve os_resp (\<lambda>out. Inr)"

end
