(* ===== verification/QueryHandler.thy ===== *)
theory QueryHandler
  imports HandlerBase
begin

text \<open>
  The handler of queries (QueryHandler in pkg/apihandler/apihandler.go): the stages of
  ServeHTTP in the order of the code, live queries, and the deferred revalidation of a
  stale cache entry.
\<close>

section \<open>Responses\<close>

definition etag_of :: "op_env \<Rightarrow> op_handler \<Rightarrow> bytes \<Rightarrow> string" where
  "etag_of env h data = ''W/'' @ json_string (itoa (ev_hash env (hd_config_hash h @ data)))"

definition cache_control :: "op_cache \<Rightarrow> string" where
  "cache_control c =
     (if oe_public c then ''public'' else ''private'') @ '', max-age='' @ itoa_int (oe_max_age c)
       @ '', stale-while-revalidate='' @ itoa_int (oe_swr c)"

definition cache_ttl :: "op_cache \<Rightarrow> int" where
  "cache_ttl c = wrap64 (second * wrap64 (oe_max_age c + oe_swr c))"

definition is_live :: "op_handler \<Rightarrow> request \<Rightarrow> bool" where
  "is_live h r = (lv_enabled (hd_live h) \<and> query_get r WG_LIVE = ''true'')"

section \<open>Stages of a query\<close>

definition query_variables_stage :: "op_env \<Rightarrow> op_handler \<Rightarrow> op_state stage" where
  "query_variables_stage env h s =
     Inr (s\<lparr>os_vars := parseQueryVariables env (os_req s) (hd_allow h)\<rparr>)"

definition head_stage :: "op_env \<Rightarrow> op_handler \<Rightarrow> op_state stage" where
  "head_stage env h s =
     (if is_live h (os_req s) then
        (if \<not> ev_flusher env then Inl (on_writer (http_error ''requires flushing'' 400) s)
         else Inr (on_writer (\<lambda>w. flush (setSubscriptionHeaders w)) s))
      else Inr (on_writer (set_header ''Content-Type'' ''application/json'') s))"

definition query_mock_stage :: "op_env \<Rightarrow> op_handler \<Rightarrow> op_state stage" where
  "query_mock_stage env h =
     hook_stage env h (mc_enable (hx_mock (hd_hooks h))) MockResolve no_response
       (\<lambda>out s. case handleHookOut (Some out) s of
          Inl s \<Rightarrow> Inl s
        | Inr s \<Rightarrow> Inl (on_writer (w_write (raw_response out)) s))"

definition cache_hit :: "op_env \<Rightarrow> op_handler \<Rightarrow> bytes \<times> int \<Rightarrow> op_state \<Rightarrow> op_state" where
  "cache_hit env h item s =
     (let (data, age) = item;
          ETag = etag_of env h data;
          w = set_header WG_CACHE_HEADER ''HIT'' (os_w s);
          w = set_raw_header ''ETag'' ETag w;
          w = set_header ''Cache-Control'' (cache_control (hd_cache h)) w;
          w = set_header ''Age'' (itoa_int age) w;
          s = s\<lparr>os_stale := (oe_max_age (hd_cache h) < age)\<rparr> in
      if header_get (rq_header (os_req s)) ''If-None-Match'' = ETag
      then s\<lparr>os_w := write_header 304 w\<rparr>
      else s\<lparr>os_w := w_write data (write_header 200 w)\<rparr>)"

definition cache_stage :: "op_env \<Rightarrow> op_handler \<Rightarrow> op_state stage" where
  "cache_stage env h s =
     (if oe_enable (hd_cache h) then
        (let key = hd_config_hash h @ rq_uri (os_req s);
             found = ev_cache env (os_calls s) key;
             s = s\<lparr>os_key := key, os_calls := os_calls s @ [CacheGet key]\<rparr> in
         case found of
           Some item \<Rightarrow> Inl (cache_hit env h item s)
         | None \<Rightarrow> Inr (on_writer (set_header WG_CACHE_HEADER ''MISS'') s))
      else Inr s)"

definition query_mut_pre_stage :: "op_env \<Rightarrow> op_handler \<Rightarrow> op_state stage" where
  "query_mut_pre_stage env h =
     hook_stage env h (hx_mut_pre (hd_hooks h)) MutatingPreResolve no_response
       (\<lambda>out. handleHookOut (Some out))"

definition query_mut_post_stage :: "op_env \<Rightarrow> op_handler \<Rightarrow> op_state stage" where
  "query_mut_post_stage env h =
     hook_stage env h (hx_mut_post (hd_hooks h)) MutatingPostResolve os_resp
       (\<lambda>out s. Inr (s\<lparr>os_resp := raw_response out\<rparr>))"

definition query_respond_stage :: "op_env \<Rightarrow> op_handler \<Rightarrow> op_state stage" where
  "query_respond_stage env h s =
     (let ETag = etag_of env h (os_resp s);
          s = on_writer (set_raw_header ''ETag'' ETag) s;
          s = (if oe_enable (hd_cache h) then
                 on_writer (\<lambda>w. set_header ''Age'' ''0''
                     (set_header ''Cache-Control'' (cache_control (hd_cache h)) w))
                   (s\<lparr>os_calls := os_calls s @ [CacheSet (os_key s) (os_resp s) (cache_ttl (hd_cache h))]\<rparr>)
               else s) in
      if header_get (rq_header (os_req s)) ''If-None-Match'' = ETag
      then Inl (on_writer (write_header 304) s)
      else Inr (on_writer (w_write (os_resp s)) s))"

section \<open>Live queries\<close>

text \<open>
  One event of a live query. The variables a mutating hook answers stay in the context of
  the request, and so are the input of the next event.
\<close>

type_synonym live_state = "op_state \<times> bytes res"

definition live_hook_stage ::
    "op_env \<Rightarrow> op_handler \<Rightarrow> bool \<Rightarrow> hook_kind \<Rightarrow> (op_state \<Rightarrow> bytes) \<Rightarrow>
     (hook_response \<Rightarrow> op_state \<Rightarrow> live_state + live_state) \<Rightarrow> live_state stage" where
  "live_hook_stage env h enabled hook resp after st =
     (let (s, r) = st in
      if \<not> enabled then Inr (s, r)
      else
        (case do_hook env h hook (resp s) s of
           (s, Inl err) \<Rightarrow>
             Inl (s, Inl (Wrap (''handleLiveQueryEvent '' @ hook_name hook @ '' hook failed'') err))
         | (s, Inr out) \<Rightarrow> after out s))"

definition live_resolve_stage :: "op_env \<Rightarrow> op_handler \<Rightarrow> live_state stage" where
  "live_resolve_stage env h st =
     (let (s, r) = st;
          s' = s\<lparr>os_calls := os_calls s @ [ResolveCall (os_vars s)]\<rparr> in
      case ev_resolve env (os_calls s) (os_vars s) of
        Inl err \<Rightarrow> Inl (s', Inl (Wrap ''handleLiveQueryEvent ResolveGraphQLResponse failed'' err))
      | Inr out \<Rightarrow>
          (case hd_transform h out of
             Inl err \<Rightarrow>
               Inl (s', Inl (Wrap ''handleLiveQueryEvent postResolveTransformer.Transform failed'' err))
           | Inr transformed \<Rightarrow> Inr (s'\<lparr>os_resp := transformed\<rparr>, Inr transformed)))"

definition live_stages :: "op_env \<Rightarrow> op_handler \<Rightarrow> live_state stage list" where
  "live_stages env h =
     [live_hook_stage env h (hx_pre (hd_hooks h)) PreResolve no_response
        (\<lambda>out s. Inr (updateContextHeaders (hr_set_headers out) s, Inr [])),
      live_hook_stage env h (hx_mut_pre (hd_hooks h)) MutatingPreResolve no_response
        (\<lambda>out s. Inr (updateContextHeaders (hr_set_headers out)
           (s\<lparr>os_vars := (case hr_input out of None \<Rightarrow> [] | Some b \<Rightarrow> b)\<rparr>), Inr [])),
      live_hook_stage env h (hx_custom (hd_hooks h)) CustomResolve no_response
        (\<lambda>out s. let s = updateContextHeaders (hr_set_headers out) s in
           if raw_response out \<noteq> ''null'' then Inl (s, Inr (raw_response out)) else Inr (s, Inr [])),
      live_resolve_stage env h,
      live_hook_stage env h (hx_post (hd_hooks h)) PostResolve os_resp
        (\<lambda>out s. Inr (s, Inr (os_resp s))),
      live_hook_stage env h (hx_mut_post (hd_hooks h)) MutatingPostResolve os_resp
        (\<lambda>out s. Inr (s, Inr (raw_response out)))]"

definition handleLiveQueryEvent :: "op_env \<Rightarrow> op_handler \<Rightarrow> op_state \<Rightarrow> live_state" where
  "handleLiveQueryEvent env h s = run_stages (live_stages env h) (s, Inr [])"

definition live_frame :: "bool \<Rightarrow> bool \<Rightarrow> bytes \<Rightarrow> writer \<Rightarrow> writer" where
  "live_frame subscribeOnce sse response w =
     (let w = (if sse then w_write ''data: '' w else w);
          w = w_write response w in
      if subscribeOnce then flush w else flush (w_write [CHR 0x0A, CHR 0x0A] w))"

text \<open>A frame whose second line terminator could not be written: the handler returns without a flush.\<close>

definition cut_frame :: "bool \<Rightarrow> bytes \<Rightarrow> writer \<Rightarrow> writer" where
  "cut_frame sse response w =
     w_write [CHR 0x0A] (w_write response (if sse then w_write ''data: '' w else w))"

text \<open>The response to an event: what it answered, or the GraphQL payload of its error.\<close>

definition live_response :: "op_env \<Rightarrow> bytes res \<Rightarrow> bytes" where
  "live_response env result =
     (case result of
        Inr b \<Rightarrow> b
      | Inl err \<Rightarrow> (case ev_gql_error env err of Inl _ \<Rightarrow> [] | Inr b \<Rightarrow> b))"

text \<open>
  The polling loop, driven by what happens to it after each event: the last write of its frame
  fails, or the select statement receives the end of the request or the timer. With nothing more,
  or with a failing write where none is made, the handler waits.
\<close>

datatype live_turn = WriteFails | RequestEnds | TimerFires

fun live_loop ::
    "op_env \<Rightarrow> op_handler \<Rightarrow> bool \<Rightarrow> bool \<Rightarrow> live_turn list \<Rightarrow> nat \<Rightarrow> op_state \<Rightarrow> op_state" where
  "live_loop env h subscribeOnce sse turns lastHash s =
     (let (s, result) = handleLiveQueryEvent env h s;
          hookError = (case result of Inl _ \<Rightarrow> True | Inr _ \<Rightarrow> False) in
      if (case result of Inl err \<Rightarrow> err_is_canceled err | Inr _ \<Rightarrow> False) then s
      else
        (let response = live_response env result;
             nextHash = ev_hash env response;
             changed = (nextHash \<noteq> lastHash) in
         if changed \<and> subscribeOnce then on_writer (live_frame True sse response) s
         else if changed \<and> turns \<noteq> [] \<and> hd turns = WriteFails then on_writer (cut_frame sse response) s
         else
           (let s = (if changed then on_writer (live_frame False sse response) s else s) in
            if hookError then s
            else
              (case turns of
                 TimerFires # turns \<Rightarrow> live_loop env h subscribeOnce sse turns nextHash s
               | _ \<Rightarrow> s))))"

declare live_loop.simps [simp del]

definition handleLiveQuery :: "op_env \<Rightarrow> op_handler \<Rightarrow> live_turn list \<Rightarrow> op_state \<Rightarrow> op_state" where
  "handleLiveQuery env h turns s =
     live_loop env h (query_get (os_req s) ''wg_subscribe_once'' = ''true'')
       (query_get (os_req s) ''wg_sse'' = ''true'') turns 0 s"

definition live_stage :: "op_env \<Rightarrow> op_handler \<Rightarrow> live_turn list \<Rightarrow> op_state stage" where
  "live_stage env h turns s =
     (if is_live h (os_req s) then Inl (handleLiveQuery env h turns s) else Inr s)"

section \<open>The handler\<close>

definition query_stages :: "op_env \<Rightarrow> op_handler \<Rightarrow> live_turn list \<Rightarrow> op_state stage list" where
  "query_stages env h ticks =
     [rbac_stage h, query_variables_stage env h, validate_stage env h, compact_stage env,
      inject_stage env h, head_stage env h, query_mock_stage env h, live_stage env h ticks,
      cache_stage env h, pre_resolve_stage env h, query_mut_pre_stage env h,
      custom_resolve_stage env h, resolve_stage env ''ResolveGraphQLResponse failed'',
      transform_stage h ''postResolveTransformer failed'', post_resolve_stage env h,
      query_mut_post_stage env h, query_respond_stage env h]"

text \<open>The deferred function: a stale entry is resolved again and replaced.\<close>

definition revalidate :: "op_env \<Rightarrow> op_handler \<Rightarrow> op_state \<Rightarrow> op_state" where
  "revalidate env h s =
     (if os_stale s then
        (let s' = s\<lparr>os_calls := os_calls s @ [ResolveCall (os_vars s)]\<rparr> in
         case ev_resolve env (os_calls s) (os_vars s) of
           Inl err \<Rightarrow> s'
         | Inr out \<Rightarrow>
             s'\<lparr>os_calls := os_calls s' @ [CacheSet (os_key s) out (cache_ttl (hd_cache h))]\<rparr>)
      else s)"

definition QueryHandler :: "op_env \<Rightarrow> op_handler \<Rightarrow> live_turn list \<Rightarrow> request \<Rightarrow> writer \<Rightarrow> op_state" where
  "QueryHandler env h ticks r w =
     revalidate env h (run_stages (query_stages env h ticks) (start_state r w))"

end
