(* ===== verification/MutationHandler.thy ===== *)
theory MutationHandler
  imports HandlerBase
begin

text \<open>
  The handler of mutations (MutationHandler in pkg/apihandler/apihandler.go). \<open>form\<close> is what
  Request.ParseForm gives: the values of the body and of the query.
\<close>

type_synonym form = "((string \<times> string) list) res"

definition mutation_content_stage :: "op_state stage" where
  "mutation_content_stage s = Inr (on_writer (set_header ''Content-Type'' ''application/json'') s)"

definition mutation_variables_stage :: "op_env \<Rightarrow> form \<Rightarrow> op_state stage" where
  "mutation_variables_stage env form s =
     (let non_empty = (\<lambda>v. if length v = 0 then ''{}'' else v) in
      if header_get (rq_header (os_req s)) ''Content-Type'' = ''application/x-www-form-urlencoded''
      then Inr (s\<lparr>os_vars := non_empty (parseFormVariables env form)\<rparr>)
      else
        (case rq_body (os_req s) of
           Inl err \<Rightarrow> Inl (on_writer (write_header 400) s)
         | Inr body \<Rightarrow> Inr (s\<lparr>os_vars := non_empty body\<rparr>)))"

definition mutation_mock_stage :: "op_env \<Rightarrow> op_handler \<Rightarrow> op_state stage" where
  "mutation_mock_stage env h =
     hook_stage env h (mc_enable (hx_mock (hd_hooks h))) MockResolve no_response
       (\<lambda>out s. Inl (on_writer (w_write (raw_response out)) s))"

text \<open>The input a mutating hook answers becomes the variables.\<close>

definition mut_pre_stage :: "op_env \<Rightarrow> op_handler \<Rightarrow> op_state stage" where
  "mut_pre_stage env h =
     hook_stage env h (hx_mut_pre (hd_hooks h)) MutatingPreResolve no_response
       (\<lambda>out s. case handleHookOut (Some out) s of
          Inl s \<Rightarrow> Inl s
        | Inr s \<Rightarrow> Inr (s\<lparr>os_vars := (case hr_input out of None \<Rightarrow> [] | Some b \<Rightarrow> b)\<rparr>))"

definition mutation_mut_post_stage :: "op_env \<Rightarrow> op_handler \<Rightarrow> op_state stage" where
  "mutation_mut_post_stage env h =
     hook_stage env h (hx_mut_post (hd_hooks h)) MutatingPostResolve os_resp
       (\<lambda>out s. case handleHookOut (Some out) s of
          Inl s \<Rightarrow> Inl s
        | Inr s \<Rightarrow> Inr (s\<lparr>os_resp := raw_response out\<rparr>))"

definition mutation_respond_stage :: "op_state stage" where
  "mutation_respond_stage s = Inr (on_writer (w_write (os_resp s)) s)"

definition mutation_stages :: "op_env \<Rightarrow> op_handler \<Rightarrow> form \<Rightarrow> op_state stage list" where
  "mutation_stages env h form =
     [rbac_stage h, mutation_content_stage, mutation_variables_stage env form,
      validate_stage env h, compact_stage env, inject_stage env h, mutation_mock_stage env h,
      pre_resolve_stage env h, mut_pre_stage env h, custom_resolve_stage env h,
      resolve_stage env ''ResolveGraphQLResponse'', transform_stage h ''postResolveTransformer'',
      post_resolve_stage env h, mutation_mut_post_stage env h, mutation_respond_stage]"

definition MutationHandler :: "op_env \<Rightarrow> op_handler \<Rightarrow> form \<Rightarrow> request \<Rightarrow> writer \<Rightarrow> op_state" where
  "MutationHandler env h form r w = run_stages (mutation_stages env h form) (start_state r w)"

end
