(* ===== verification/SubscriptionHandler.thy ===== *)
theory SubscriptionHandler
  imports MutationHandler
begin

text \<open>
  The handler of subscriptions (SubscriptionHandler in pkg/apihandler/apihandler.go) and the
  writer its events go through (httpFlushWriter). The resolver is a parameter: it writes
  and flushes a sequence of events, and ends with an error or not. A transformer in the
  writer is an option, as the pointer in the code.
\<close>

section \<open>The flush writer\<close>

record flush_writer =
  fw_transformer :: "(bytes \<Rightarrow> bytes res) option"
  fw_once :: bool
  fw_sse :: bool
  fw_buf :: bytes
  fw_mut_post :: bool
  fw_post :: bool
  fw_closed :: bool

type_synonym stream_state = "flush_writer \<times> op_state"

definition fw_write :: "bytes \<Rightarrow> flush_writer \<Rightarrow> flush_writer res" where
  "fw_write p f =
     (case fw_transformer f of
        None \<Rightarrow> Inr (f\<lparr>fw_buf := fw_buf f @ p\<rparr>)
      | Some transform \<Rightarrow>
          (case transform p of
             Inl err \<Rightarrow> Inl err
           | Inr p \<Rightarrow> Inr (f\<lparr>fw_buf := fw_buf f @ p\<rparr>)))"

text \<open>The callbacks of the hooks: the answer to a failed postResolve hook goes to the writer.\<close>

definition post_callback :: "op_env \<Rightarrow> op_handler \<Rightarrow> bytes \<Rightarrow> op_state \<Rightarrow> op_state" where
  "post_callback env h resp s =
     (case do_hook env h PostResolve resp s of
        (s, Inl err) \<Rightarrow> on_writer (handleOperationErr err ''postResolve hook failed'') s
      | (s, Inr out) \<Rightarrow> s)"

definition mut_post_callback ::
    "op_env \<Rightarrow> op_handler \<Rightarrow> bytes \<Rightarrow> op_state \<Rightarrow> op_state \<times> bytes res" where
  "mut_post_callback env h resp s =
     (case do_hook env h MutatingPostResolve resp s of
        (s, Inl err) \<Rightarrow> (s, if err_is_canceled err then Inr [] else Inl err)
      | (s, Inr out) \<Rightarrow> (s, Inr (raw_response out)))"

definition fw_flush :: "op_env \<Rightarrow> op_handler \<Rightarrow> stream_state \<Rightarrow> stream_state" where
  "fw_flush env h st =
     (let (f, s) = st;
          resp = fw_buf f;
          f = f\<lparr>fw_buf := []\<rparr>;
          s = (if fw_post f then post_callback env h resp s else s);
          (s, resp) = (if fw_mut_post f then
             (case mut_post_callback env h resp s of
                (s, Inr r) \<Rightarrow> (s, r)
              | (s, Inl err) \<Rightarrow> (s, resp))
             else (s, resp));
          s = (if fw_sse f then on_writer (\<lambda>w. w_write resp (w_write ''data: '' w)) s
               else on_writer (w_write resp) s) in
      if fw_once f then (f\<lparr>fw_closed := True\<rparr>, on_writer flush s)
      else (f, on_writer (\<lambda>w. flush (w_write [CHR 0x0A, CHR 0x0A] w)) s))"

text \<open>
  The events of a subscription: each is written and flushed, until the writer fails or the
  request is cancelled by its close function.
\<close>

fun stream_events :: "op_env \<Rightarrow> op_handler \<Rightarrow> bytes list \<Rightarrow> stream_state \<Rightarrow> stream_state" where
  "stream_events env h [] st = st"
| "stream_events env h (p # ps) st =
     (if fw_closed (fst st) then st
      else
        (case fw_write p (fst st) of
           Inl err \<Rightarrow> st
         | Inr f \<Rightarrow> stream_events env h ps (fw_flush env h (f, snd st))))"

section \<open>The handler\<close>

definition getFlushWriter :: "request \<Rightarrow> writer \<Rightarrow> flush_writer \<times> writer" where
  "getFlushWriter r w =
     (let subscribeOnce = (query_get r ''wg_subscribe_once'' = ''true'');
          sse = (query_get r ''wg_sse'' = ''true'');
          w = (if \<not> subscribeOnce then setSubscriptionHeaders w else w) in
      (\<lparr>fw_transformer = None, fw_once = subscribeOnce, fw_sse = sse, fw_buf = [],
        fw_mut_post = False, fw_post = False, fw_closed = False\<rparr>, flush w))"

definition subscription_variables_stage :: "op_env \<Rightarrow> op_handler \<Rightarrow> op_state stage" where
  "subscription_variables_stage env h s =
     Inr (s\<lparr>os_vars := parseQueryVariables env (os_req s) (hd_allow h)\<rparr>)"

definition flush_stage :: "op_env \<Rightarrow> op_state stage" where
  "flush_stage env s =
     (if \<not> ev_flusher env then Inl (on_writer (http_error ''Connection not flushable'' 400) s)
      else Inr (on_writer (\<lambda>w. snd (getFlushWriter (os_req s) w)) s))"

text \<open>\<open>resolve\<close> is the resolver: its events, for the variables and the trace so far.\<close>

definition subscribe_stage ::
    "op_env \<Rightarrow> op_handler \<Rightarrow> (call list \<Rightarrow> bytes \<Rightarrow> bytes list) \<Rightarrow> request \<Rightarrow> op_state stage" where
  "subscribe_stage env h resolve r s =
     (let f = (fst (getFlushWriter r (os_w s)))
            \<lparr>fw_post := hx_post (hd_hooks h), fw_mut_post := hx_mut_post (hd_hooks h)\<rparr>;
          s' = s\<lparr>os_calls := os_calls s @ [ResolveCall (os_vars s)]\<rparr> in
      Inr (snd (stream_events env h (resolve (os_calls s) (os_vars s)) (f, s'))))"

definition subscription_stages ::
    "op_env \<Rightarrow> op_handler \<Rightarrow> (call list \<Rightarrow> bytes \<Rightarrow> bytes list) \<Rightarrow> request \<Rightarrow> op_state stage list" where
  "subscription_stages env h resolve r =
     [rbac_stage h, subscription_variables_stage env h, validate_stage env h, compact_stage env,
      inject_stage env h, flush_stage env, pre_resolve_stage env h, mut_pre_stage env h,
      subscribe_stage env h resolve r]"

definition SubscriptionHandler ::
    "op_env \<Rightarrow> op_handler \<Rightarrow> (call list \<Rightarrow> bytes \<Rightarrow> bytes list) \<Rightarrow> request \<Rightarrow> writer \<Rightarrow> op_state" where
  "SubscriptionHandler env h resolve r w =
     run_stages (subscription_stages env h resolve r) (start_state r w)"

end
