(* ===== verification/OperationProps.thy ===== *)
theory OperationProps
  imports QueryHandler SubscriptionHandler
begin

text \<open>
  What the three operation handlers have in common: the role check comes before everything
  else, nothing outside is called before the variables are valid, and the hooks of an
  operation are called in the order of their life cycle, each at most once.
\<close>

section \<open>The role check\<close>

text \<open>
  The contract of a handler of operations, whatever comes after its role check: a request
  that the rules refuse is answered 401 by the check alone.
\<close>

locale guarded_handler =
  fixes serve :: "op_handler \<Rightarrow> request \<Rightarrow> writer \<Rightarrow> op_state"
  assumes refused: "\<not> Enforce (hd_rbac h) r \<Longrightarrow>
    serve h r w = on_writer (http_error ''unauthorized'' 401) (start_state r w)"
begin

lemma refused_calls: "\<not> Enforce (hd_rbac h) r \<Longrightarrow> os_calls (serve h r w) = []"
  by (simp add: refused start_state_def on_writer_def)

lemma refused_status:
  "\<not> Enforce (hd_rbac h) r \<Longrightarrow> w_sent w = None \<Longrightarrow> response_status (os_w (serve h r w)) = 401"
  by (simp add: refused start_state_def on_writer_def http_error_fresh)

lemma called_enforced: "os_calls (serve h r w) \<noteq> [] \<Longrightarrow> Enforce (hd_rbac h) r"
  using refused_calls by blast

end

lemma run_rbac_refused:
  "\<not> Enforce (hd_rbac h) r \<Longrightarrow>
    run_stages (rbac_stage h # fs) (start_state r w)
      = on_writer (http_error ''unauthorized'' 401) (start_state r w)"
  by (simp add: rbac_stage_def start_state_def)

interpretation query: guarded_handler "\<lambda>h. QueryHandler env h ticks" for env ticks
  by unfold_locales
    (simp only: QueryHandler_def query_stages_def run_rbac_refused simp_thms,
      simp add: revalidate_def start_state_def on_writer_def)

interpretation mutation: guarded_handler "\<lambda>h. MutationHandler env h form" for env form
  by unfold_locales (simp add: MutationHandler_def mutation_stages_def run_rbac_refused del: run_stages.simps)

interpretation subscription: guarded_handler "\<lambda>h. SubscriptionHandler env h resolve" for env resolve
  by unfold_locales (simp add: SubscriptionHandler_def subscription_stages_def run_rbac_refused
      del: run_stages.simps)

section \<open>The order of the hooks\<close>

fun hooks_of :: "call list \<Rightarrow> hook_kind list" where
  "hooks_of [] = []"
| "hooks_of (HookCall h d # cs) = h # hooks_of cs"
| "hooks_of (ResolveCall d # cs) = hooks_of cs"
| "hooks_of (CacheGet k # cs) = hooks_of cs"
| "hooks_of (CacheSet k d t # cs) = hooks_of cs"

lemma hooks_of_append [simp]: "hooks_of (cs @ ds) = hooks_of cs @ hooks_of ds"
  by (induction cs rule: hooks_of.induct) simp_all

definition hooks_sorted :: "op_state \<Rightarrow> bool" where
  "hooks_sorted s = sorted_wrt (<) (hooks_of (os_calls s))"

text \<open>The hooks called so far are in order and before the hook of a rank.\<close>

definition phase :: "(string \<times> string) list \<Rightarrow> nat \<Rightarrow> op_state \<Rightarrow> bool" where
  "phase q n s = (hooks_sorted s \<and> (\<forall>h \<in> set (hooks_of (os_calls s)). hook_rank h < n)
     \<and> rq_query (os_req s) = q)"

lemma phase_sorted: "phase q n s \<Longrightarrow> hooks_sorted s"
  by (simp add: phase_def)

lemma phase_mono: "phase q n s \<Longrightarrow> n \<le> m \<Longrightarrow> phase q m s"
  by (fastforce simp: phase_def)

text \<open>A stage is quiet when it calls no hook and keeps the query of the request.\<close>

definition quiet :: "op_state stage \<Rightarrow> bool" where
  "quiet f = (\<forall>s. hooks_of (os_calls (stage_state (f s))) = hooks_of (os_calls s)
     \<and> rq_query (os_req (stage_state (f s))) = rq_query (os_req s))"

lemma quietI:
  "(\<And>s. hooks_of (os_calls (stage_state (f s))) = hooks_of (os_calls s)
      \<and> rq_query (os_req (stage_state (f s))) = rq_query (os_req s)) \<Longrightarrow> quiet f"
  by (simp add: quiet_def)

lemma quiet_phase: "quiet f \<Longrightarrow> stage_triple (phase q n) f (phase q n) hooks_sorted"
  by (auto simp: quiet_def stage_triple_def phase_def hooks_sorted_def stage_state_def
      split: sum.splits)

lemma on_writer_fields [simp]:
  "os_calls (on_writer f s) = os_calls s" "os_req (on_writer f s) = os_req s"
  "os_vars (on_writer f s) = os_vars s" "os_resp (on_writer f s) = os_resp s"
  "os_stale (on_writer f s) = os_stale s" "os_key (on_writer f s) = os_key s"
  "os_w (on_writer f s) = f (os_w s)"
  by (simp_all add: on_writer_def)

lemma update_headers_fields [simp]:
  "os_calls (updateContextHeaders hs s) = os_calls s" "os_vars (updateContextHeaders hs s) = os_vars s"
  "os_resp (updateContextHeaders hs s) = os_resp s" "os_w (updateContextHeaders hs s) = os_w s"
  "os_stale (updateContextHeaders hs s) = os_stale s" "os_key (updateContextHeaders hs s) = os_key s"
  "rq_query (os_req (updateContextHeaders hs s)) = rq_query (os_req s)"
  "rq_uri (os_req (updateContextHeaders hs s)) = rq_uri (os_req s)"
  "rq_user (os_req (updateContextHeaders hs s)) = rq_user (os_req s)"
  by (simp_all add: updateContextHeaders_def Let_def)

lemma quiet_hook_out: "quiet (handleHookOut out)"
  by (rule quietI) (simp add: handleHookOut_def split: option.split)

lemma hook_stage_phase:
  assumes "n \<le> hook_rank k" "\<And>out. quiet (after out)"
  shows "stage_triple (phase q n) (hook_stage env h on k resp after) (phase q (Suc (hook_rank k))) hooks_sorted"
proof (rule stage_tripleI)
  fix s assume s: "phase q n s"
  let ?data = "hookBaseData env (os_req s) (os_vars s) (resp s)"
  let ?s = "s\<lparr>os_calls := os_calls s @ [HookCall k ?data]\<rparr>"
  have "\<forall>h' \<in> set (hooks_of (os_calls s)). h' < k"
    using s assms(1) by (auto simp: phase_def less_hook_kind_def)
  then have s': "phase q (Suc (hook_rank k)) ?s"
    using s assms(1) by (fastforce simp: phase_def hooks_sorted_def sorted_wrt_append less_hook_kind_def)
  have out: "case after out ?s of Inl s' \<Rightarrow> hooks_sorted s' | Inr s' \<Rightarrow> phase q (Suc (hook_rank k)) s'" for out
    using quiet_phase [OF assms(2), of q "Suc (hook_rank k)" out] s' by (auto simp: stage_triple_def)
  show "case hook_stage env h on k resp after s of Inl s' \<Rightarrow> hooks_sorted s'
      | Inr s' \<Rightarrow> phase q (Suc (hook_rank k)) s'"
  proof (cases on)
    case False
    then show ?thesis using s assms(1) by (simp add: hook_stage_def phase_mono)
  next
    case True
    obtain r where r: "do_hook env h k (resp s) s = (?s, r)" by (simp add: do_hook_def Let_def)
    show ?thesis
    proof (cases r)
      case (Inl err)
      have "hooks_sorted (on_writer f ?s)" for f
        using phase_sorted [OF s'] by (simp add: hooks_sorted_def)
      then show ?thesis using True r Inl by (simp add: hook_stage_def)
    next
      case (Inr res)
      then show ?thesis using True r out [of res] by (simp add: hook_stage_def)
    qed
  qed
qed

lemma stage_triple_mono: "stage_triple P f Q R \<Longrightarrow> (\<And>s. Q s \<Longrightarrow> Q' s) \<Longrightarrow> stage_triple P f Q' R"
  by (fastforce simp: stage_triple_def split: sum.splits)

text \<open>The stages that call no hook, and those that call one.\<close>

named_theorems quiet_stages

lemma quiet_basic [quiet_stages]:
  "quiet (rbac_stage h)" "quiet (validate_stage env h)" "quiet (compact_stage env)"
  "quiet (inject_stage env h)" "quiet (resolve_stage env msg)" "quiet (transform_stage h msg)"
  by (auto intro!: quietI simp: rbac_stage_def validate_stage_def compact_stage_def inject_stage_def
      resolve_stage_def transform_stage_def Let_def split: sum.split)

lemma quiet_query [quiet_stages]:
  "quiet (query_variables_stage env h)" "quiet (head_stage env h)" "quiet (cache_stage env h)"
  "quiet (query_respond_stage env h)"
  by (auto intro!: quietI simp: query_variables_stage_def head_stage_def cache_stage_def
      cache_hit_def query_respond_stage_def Let_def split: option.split prod.split)

lemma quiet_mutation [quiet_stages]:
  "quiet mutation_content_stage" "quiet (mutation_variables_stage env form)"
  "quiet mutation_respond_stage"
  by (auto intro!: quietI simp: mutation_content_stage_def mutation_variables_stage_def
      mutation_respond_stage_def Let_def split: sum.split)

lemma is_live_query: "rq_query r = rq_query r' \<Longrightarrow> is_live h r = is_live h r'"
  by (simp add: is_live_def query_get_def)

lemma not_live_phase:
  "\<not> is_live h r \<Longrightarrow>
    stage_triple (phase (rq_query r) n) (live_stage env h ticks) (phase (rq_query r) n) hooks_sorted"
  by (rule stage_tripleI) (auto simp: live_stage_def phase_def dest: is_live_query)

lemma pre_phase: "stage_triple (phase q 1) (pre_resolve_stage env h) (phase q 2) hooks_sorted"
  using hook_stage_phase [of 1 PreResolve, OF _ quiet_hook_out]
  by (simp add: pre_resolve_stage_def numeral_2_eq_2)

lemma custom_phase: "stage_triple (phase q 3) (custom_resolve_stage env h) (phase q 4) hooks_sorted"
proof -
  have "quiet (\<lambda>s. case handleHookOut (Some out) s of Inl s \<Rightarrow> Inl s
      | Inr s \<Rightarrow> if raw_response out \<noteq> ''null'' then Inl (on_writer (w_write (raw_response out)) s) else Inr s)" for out
    by (rule quietI) (simp add: handleHookOut_def)
  from hook_stage_phase [of 3 CustomResolve, OF _ this] show ?thesis
    by (simp add: custom_resolve_stage_def)
qed

lemma post_phase: "stage_triple (phase q 4) (post_resolve_stage env h) (phase q 5) hooks_sorted"
  using hook_stage_phase [of 4 PostResolve "\<lambda>out. Inr"] by (simp add: post_resolve_stage_def quiet_def)

lemma mutation_mock_phase: "stage_triple (phase q 0) (mutation_mock_stage env h) (phase q 1) hooks_sorted"
  using hook_stage_phase [of 0 MockResolve] by (simp add: mutation_mock_stage_def quiet_def)

lemma mut_pre_phase: "stage_triple (phase q 2) (mut_pre_stage env h) (phase q 3) hooks_sorted"
proof -
  have "quiet (\<lambda>s. case handleHookOut (Some out) s of Inl s \<Rightarrow> Inl s
      | Inr s \<Rightarrow> Inr (s\<lparr>os_vars := (case hr_input out of None \<Rightarrow> [] | Some b \<Rightarrow> b)\<rparr>))" for out
    by (rule quietI) (simp add: handleHookOut_def)
  from hook_stage_phase [of 2 MutatingPreResolve, OF _ this] show ?thesis
    by (simp add: mut_pre_stage_def)
qed

lemma mutation_mut_post_phase:
  "stage_triple (phase q 5) (mutation_mut_post_stage env h) (phase q 6) hooks_sorted"
proof -
  have "quiet (\<lambda>s. case handleHookOut (Some out) s of Inl s \<Rightarrow> Inl s
      | Inr s \<Rightarrow> Inr (s\<lparr>os_resp := raw_response out\<rparr>))" for out
    by (rule quietI) (simp add: handleHookOut_def)
  from hook_stage_phase [of 5 MutatingPostResolve, OF _ this] show ?thesis
    by (simp add: mutation_mut_post_stage_def)
qed

lemma query_mock_phase: "stage_triple (phase q 0) (query_mock_stage env h) (phase q 1) hooks_sorted"
proof -
  have "quiet (\<lambda>s. case handleHookOut (Some out) s of Inl s \<Rightarrow> Inl s
      | Inr s \<Rightarrow> Inl (on_writer (w_write (raw_response out)) s))" for out
    by (rule quietI) (simp add: handleHookOut_def)
  from hook_stage_phase [of 0 MockResolve, OF _ this] show ?thesis
    by (simp add: query_mock_stage_def)
qed

lemma query_mut_pre_phase: "stage_triple (phase q 2) (query_mut_pre_stage env h) (phase q 3) hooks_sorted"
  using hook_stage_phase [of 2 MutatingPreResolve, OF _ quiet_hook_out]
  by (simp add: query_mut_pre_stage_def)

lemma query_mut_post_phase: "stage_triple (phase q 5) (query_mut_post_stage env h) (phase q 6) hooks_sorted"
  using hook_stage_phase [of 5 MutatingPostResolve] by (simp add: query_mut_post_stage_def quiet_def)

lemmas hook_phases = pre_phase custom_phase post_phase mutation_mock_phase mut_pre_phase
  mutation_mut_post_phase query_mock_phase query_mut_pre_phase query_mut_post_phase

lemma body_quiet: "quiet f \<Longrightarrow> body_triple (phase q n) fs hooks_sorted \<Longrightarrow> body_triple (phase q n) (f # fs) hooks_sorted"
  by (rule body_Cons [OF quiet_phase])

lemma body_done: "body_triple (phase q n) [] hooks_sorted"
  by (rule body_Nil) (rule phase_sorted)

lemma mutation_hooks_sorted: "body_triple (phase q 0) (mutation_stages env h form) hooks_sorted"
  unfolding mutation_stages_def
  by (intro body_quiet quiet_stages body_done
      body_Cons [OF mutation_mock_phase] body_Cons [OF pre_phase] body_Cons [OF mut_pre_phase]
      body_Cons [OF custom_phase] body_Cons [OF post_phase] body_Cons [OF mutation_mut_post_phase])

lemma query_hooks_sorted:
  assumes "\<not> is_live h r"
  shows "body_triple (phase (rq_query r) 0) (query_stages env h ticks) hooks_sorted"
  unfolding query_stages_def
  by (intro body_quiet quiet_stages body_done body_Cons [OF not_live_phase [OF assms]]
      body_Cons [OF query_mock_phase] body_Cons [OF pre_phase] body_Cons [OF query_mut_pre_phase]
      body_Cons [OF custom_phase] body_Cons [OF post_phase] body_Cons [OF query_mut_post_phase])

section \<open>What the handlers call\<close>

lemma preserves_hook_stage:
  assumes "\<And>s d. I s \<Longrightarrow> I (s\<lparr>os_calls := os_calls s @ [HookCall k d]\<rparr>)"
    and "\<And>s f. I s \<Longrightarrow> I (on_writer f s)" and "\<And>out. preserves I (after out)"
  shows "preserves I (hook_stage env h on k resp after)"
proof (rule preservesI)
  fix s assume s: "I s"
  let ?s = "s\<lparr>os_calls := os_calls s @ [HookCall k (hookBaseData env (os_req s) (os_vars s) (resp s))]\<rparr>"
  obtain r where r: "do_hook env h k (resp s) s = (?s, r)" by (simp add: do_hook_def Let_def)
  have "I ?s" using assms(1) s by blast
  then show "I (stage_state (hook_stage env h on k resp after s))"
    using s r assms(2,3) by (cases r) (auto simp: hook_stage_def preserves_def)
qed

text \<open>
  The variables of a query, and the calls that belong to it: the resolver gets these
  variables, and the cache is asked for the key made of the configuration and the URI.
\<close>

definition query_vars :: "op_env \<Rightarrow> op_handler \<Rightarrow> request \<Rightarrow> bytes" where
  "query_vars env h r =
     (case ev_compact env (hd_interp h (parseQueryVariables env r (hd_allow h))) of
        Inl _ \<Rightarrow> []
      | Inr c \<Rightarrow>
          postProcessVariables env (hd_op h) r
            (if hd_extracted h \<noteq> [] then MergeJsonRightIntoLeft env (hd_json_interp h c) (hd_extracted h)
             else hd_json_interp h c))"

definition cache_key :: "op_handler \<Rightarrow> request \<Rightarrow> string" where
  "cache_key h r = hd_config_hash h @ rq_uri r"

fun call_ok :: "bytes \<Rightarrow> string \<Rightarrow> call \<Rightarrow> bool" where
  "call_ok v k (HookCall hook d) = True"
| "call_ok v k (ResolveCall v') = (v' = v)"
| "call_ok v k (CacheGet k') = (k' = k)"
| "call_ok v k (CacheSet k' d t) = (k' = k)"

definition calls_ok :: "bytes \<Rightarrow> string \<Rightarrow> op_state \<Rightarrow> bool" where
  "calls_ok v k s = (\<forall>c \<in> set (os_calls s). call_ok v k c)"

definition same_request :: "request \<Rightarrow> op_state \<Rightarrow> bool" where
  "same_request r s = (rq_query (os_req s) = rq_query r \<and> rq_uri (os_req s) = rq_uri r)"

text \<open>The assertions before the variables are complete, before the cache, after it, and at the end.\<close>

definition at_start :: "op_handler \<Rightarrow> request \<Rightarrow> op_state \<Rightarrow> bool" where
  "at_start h r s = (os_calls s = [] \<and> \<not> os_stale s \<and> os_req s = r)"

definition before_cache :: "op_env \<Rightarrow> op_handler \<Rightarrow> request \<Rightarrow> op_state \<Rightarrow> bool" where
  "before_cache env h r s = (calls_ok (query_vars env h r) (cache_key h r) s \<and> \<not> os_stale s
     \<and> same_request r s \<and> os_vars s = query_vars env h r)"

definition after_cache :: "op_env \<Rightarrow> op_handler \<Rightarrow> request \<Rightarrow> op_state \<Rightarrow> bool" where
  "after_cache env h r s = (before_cache env h r s
     \<and> (oe_enable (hd_cache h) \<longrightarrow> os_key s = cache_key h r))"

definition query_end :: "op_env \<Rightarrow> op_handler \<Rightarrow> request \<Rightarrow> op_state \<Rightarrow> bool" where
  "query_end env h r s = (calls_ok (query_vars env h r) (cache_key h r) s
     \<and> (os_stale s \<longrightarrow> os_vars s = query_vars env h r \<and> os_key s = cache_key h r))"

lemma at_start_end: "at_start h r s \<Longrightarrow> query_end env h r s"
  by (simp add: at_start_def query_end_def calls_ok_def)

lemma before_cache_end: "before_cache env h r s \<Longrightarrow> query_end env h r s"
  by (simp add: before_cache_def query_end_def)

lemma after_cache_end: "after_cache env h r s \<Longrightarrow> query_end env h r s"
  by (simp add: after_cache_def before_cache_end)

lemma at_start_triples:
  "stage_triple (at_start h r) (rbac_stage h) (at_start h r) (query_end env h r)"
  "stage_triple (at_start h r) (query_variables_stage env h)
     (\<lambda>s. at_start h r s \<and> os_vars s = parseQueryVariables env r (hd_allow h)) (query_end env h r)"
  "stage_triple (\<lambda>s. at_start h r s \<and> os_vars s = v) (validate_stage env h)
     (\<lambda>s. at_start h r s \<and> os_vars s = hd_interp h v \<and> ev_validate env (hd_interp h v)) (query_end env h r)"
  by (rule stage_tripleI,
      auto simp: rbac_stage_def query_variables_stage_def validate_stage_def Let_def at_start_def
        query_end_def calls_ok_def)+

lemma compact_inject_triples:
  "stage_triple (\<lambda>s. at_start h r s \<and> os_vars s = v \<and> P) (compact_stage env)
     (\<lambda>s. at_start h r s \<and> ev_compact env v = Inr (os_vars s)) (query_end env h r)"
  "stage_triple (\<lambda>s. at_start h r s
       \<and> ev_compact env (hd_interp h (parseQueryVariables env r (hd_allow h))) = Inr (os_vars s))
     (inject_stage env h) (before_cache env h r) (query_end env h r)"
  by (rule stage_tripleI,
      auto simp: compact_stage_def inject_stage_def Let_def at_start_def before_cache_def
        same_request_def query_end_def calls_ok_def query_vars_def split: sum.splits)+

lemma before_cache_simps [simp]:
  "before_cache env h r (on_writer f s) = before_cache env h r s"
  "before_cache env h r (updateContextHeaders hs s) = before_cache env h r s"
  "before_cache env h r (s\<lparr>os_calls := os_calls s @ [HookCall k d]\<rparr>) = before_cache env h r s"
  "before_cache env h r (s\<lparr>os_resp := b\<rparr>) = before_cache env h r s"
  by (simp_all add: before_cache_def calls_ok_def same_request_def ball_Un)

lemma after_cache_simps [simp]:
  "after_cache env h r (on_writer f s) = after_cache env h r s"
  "after_cache env h r (updateContextHeaders hs s) = after_cache env h r s"
  "after_cache env h r (s\<lparr>os_calls := os_calls s @ [HookCall k d]\<rparr>) = after_cache env h r s"
  "after_cache env h r (s\<lparr>os_resp := b\<rparr>) = after_cache env h r s"
  by (simp_all add: after_cache_def)

lemma preserves_before_cache:
  "preserves (before_cache env h r) (head_stage env' h')"
  "preserves (before_cache env h r) (query_mock_stage env' h')"
proof -
  show "preserves (before_cache env h r) (head_stage env' h')"
    by (rule preservesI) (simp add: head_stage_def)
  show "preserves (before_cache env h r) (query_mock_stage env' h')"
    unfolding query_mock_stage_def
    by (rule preserves_hook_stage; (rule preservesI)?; simp add: handleHookOut_def)
qed

lemma preserves_after_cache:
  "preserves (after_cache env h r) (pre_resolve_stage env' h')"
  "preserves (after_cache env h r) (query_mut_pre_stage env' h')"
  "preserves (after_cache env h r) (custom_resolve_stage env' h')"
  "preserves (after_cache env h r) (post_resolve_stage env' h')"
  "preserves (after_cache env h r) (query_mut_post_stage env' h')"
  unfolding pre_resolve_stage_def query_mut_pre_stage_def custom_resolve_stage_def
    post_resolve_stage_def query_mut_post_stage_def
  by (rule preserves_hook_stage; (rule preservesI)?; simp add: handleHookOut_def)+

lemma preserves_transform: "preserves (after_cache env h r) (transform_stage h' msg)"
  by (rule preservesI) (simp add: transform_stage_def split: sum.split)

lemma preserves_resolve: "preserves (after_cache env h r) (resolve_stage env msg)"
  by (rule preservesI)
    (auto simp: resolve_stage_def after_cache_def before_cache_def calls_ok_def same_request_def
      Let_def split: sum.split)

lemma live_before_cache:
  "\<not> is_live h r \<Longrightarrow>
    stage_triple (before_cache env h r) (live_stage env h ticks) (before_cache env h r) (query_end env h r)"
  by (rule stage_tripleI)
    (auto simp: live_stage_def before_cache_def same_request_def dest: is_live_query)

lemma cache_triple:
  "stage_triple (before_cache env h r) (cache_stage env h) (after_cache env h r) (query_end env h r)"
  by (rule stage_tripleI)
    (auto simp: cache_stage_def cache_hit_def Let_def before_cache_def after_cache_def query_end_def
      calls_ok_def same_request_def cache_key_def split: option.split prod.split)

lemma respond_triple:
  "stage_triple (after_cache env h r) (query_respond_stage env h) (query_end env h r) (query_end env h r)"
  by (rule stage_tripleI)
    (auto simp: query_respond_stage_def Let_def after_cache_def before_cache_def query_end_def
      calls_ok_def same_request_def)

lemma query_body_end:
  assumes "\<not> is_live h r"
  shows "body_triple (at_start h r) (query_stages env h ticks) (query_end env h r)"
proof -
  note post = stage_triple_post [OF triple_preserves]
  show ?thesis
    unfolding query_stages_def
    by (intro body_Cons [OF at_start_triples(1)] body_Cons [OF at_start_triples(2)]
        body_Cons [OF at_start_triples(3)] body_Cons [OF compact_inject_triples(1)]
        body_Cons [OF compact_inject_triples(2)]
        body_Cons [OF post [OF preserves_before_cache(1) before_cache_end]]
        body_Cons [OF post [OF preserves_before_cache(2) before_cache_end]]
        body_Cons [OF live_before_cache [OF assms]] body_Cons [OF cache_triple]
        body_Cons [OF post [OF preserves_after_cache(1) after_cache_end]]
        body_Cons [OF post [OF preserves_after_cache(2) after_cache_end]]
        body_Cons [OF post [OF preserves_after_cache(3) after_cache_end]]
        body_Cons [OF post [OF preserves_resolve after_cache_end]]
        body_Cons [OF post [OF preserves_transform after_cache_end]]
        body_Cons [OF post [OF preserves_after_cache(4) after_cache_end]]
        body_Cons [OF post [OF preserves_after_cache(5) after_cache_end]]
        body_Cons [OF respond_triple] body_Nil)
qed

section \<open>Mutations and the input of the mutating hook\<close>

definition hook_input :: "hook_response \<Rightarrow> bytes" where
  "hook_input out = (case hr_input out of None \<Rightarrow> [] | Some b \<Rightarrow> b)"

text \<open>\<open>v\<close> is the input that the hooks server answered to a mutatingPreResolve call of the trace.\<close>

definition answered_input :: "op_env \<Rightarrow> op_handler \<Rightarrow> call list \<Rightarrow> bytes \<Rightarrow> bool" where
  "answered_input env h calls v =
     (\<exists>pre data post req out. calls = pre @ HookCall MutatingPreResolve data # post
        \<and> DoOperationRequest (ev_client env pre) (Some req) (op_name (hd_op h)) MutatingPreResolve data = Inr out
        \<and> v = hook_input out)"

lemma answered_input_append: "answered_input env h cs v \<Longrightarrow> answered_input env h (cs @ ds) v"
  unfolding answered_input_def by (metis append.assoc append_Cons)

definition unresolved :: "op_state \<Rightarrow> bool" where
  "unresolved s = (\<forall>v. ResolveCall v \<notin> set (os_calls s))"

definition mutated :: "op_env \<Rightarrow> op_handler \<Rightarrow> op_state \<Rightarrow> bool" where
  "mutated env h s = (answered_input env h (os_calls s) (os_vars s)
     \<and> (\<forall>v. ResolveCall v \<in> set (os_calls s) \<longrightarrow> v = os_vars s))"

definition resolved_answered :: "op_env \<Rightarrow> op_handler \<Rightarrow> op_state \<Rightarrow> bool" where
  "resolved_answered env h s = (\<forall>v. ResolveCall v \<in> set (os_calls s) \<longrightarrow> answered_input env h (os_calls s) v)"

lemma unresolved_end: "unresolved s \<Longrightarrow> resolved_answered env h s"
  by (simp add: unresolved_def resolved_answered_def)

lemma mutated_end: "mutated env h s \<Longrightarrow> resolved_answered env h s"
  by (auto simp: mutated_def resolved_answered_def)

lemma unresolved_simps [simp]:
  "unresolved (on_writer f s) = unresolved s"
  "unresolved (updateContextHeaders hs s) = unresolved s"
  "unresolved (s\<lparr>os_calls := os_calls s @ [HookCall k d]\<rparr>) = unresolved s"
  "unresolved (s\<lparr>os_vars := b\<rparr>) = unresolved s"
  by (simp_all add: unresolved_def)

lemma mutated_simps [simp]:
  "mutated env h (on_writer f s) = mutated env h s"
  "mutated env h (updateContextHeaders hs s) = mutated env h s"
  "mutated env h (s\<lparr>os_resp := b\<rparr>) = mutated env h s"
  by (simp_all add: mutated_def)

lemma mutated_hook: "mutated env h s \<Longrightarrow> mutated env h (s\<lparr>os_calls := os_calls s @ [HookCall k d]\<rparr>)"
  by (auto simp: mutated_def answered_input_append)

lemma preserves_unresolved:
  "preserves unresolved (rbac_stage h)" "preserves unresolved mutation_content_stage"
  "preserves unresolved (mutation_variables_stage env form)" "preserves unresolved (validate_stage env h)"
  "preserves unresolved (compact_stage env)" "preserves unresolved (inject_stage env h)"
  by (rule preservesI, simp add: rbac_stage_def mutation_content_stage_def mutation_variables_stage_def
      validate_stage_def compact_stage_def inject_stage_def Let_def split: sum.split)+

lemma preserves_unresolved_hooks:
  "preserves unresolved (mutation_mock_stage env h)" "preserves unresolved (pre_resolve_stage env h)"
  unfolding mutation_mock_stage_def pre_resolve_stage_def
  by (rule preserves_hook_stage; (rule preservesI)?; simp add: handleHookOut_def)+

lemma preserves_mutated:
  "preserves (mutated env h) (custom_resolve_stage env' h')"
  "preserves (mutated env h) (post_resolve_stage env' h')"
  "preserves (mutated env h) (mutation_mut_post_stage env' h')"
  unfolding custom_resolve_stage_def post_resolve_stage_def mutation_mut_post_stage_def
  by (rule preserves_hook_stage; (rule preservesI)?; simp add: handleHookOut_def mutated_hook)+

lemma preserves_mutated_basic:
  "preserves (mutated env h) (resolve_stage env' msg)" "preserves (mutated env h) (transform_stage h' msg)"
  "preserves (mutated env h) mutation_respond_stage"
  by (rule preservesI, auto simp: resolve_stage_def transform_stage_def mutation_respond_stage_def
      mutated_def answered_input_append Let_def split: sum.split)+

lemma mut_pre_mutates:
  assumes "hx_mut_pre (hd_hooks h)"
  shows "stage_triple unresolved (mut_pre_stage env h) (mutated env h) (resolved_answered env h)"
proof (rule stage_tripleI)
  fix s assume s: "unresolved s"
  let ?d = "hookBaseData env (os_req s) (os_vars s) (no_response s)"
  let ?s = "s\<lparr>os_calls := os_calls s @ [HookCall MutatingPreResolve ?d]\<rparr>"
  obtain r where r: "do_hook env h MutatingPreResolve (no_response s) s = (?s, r)"
    "r = DoOperationRequest (ev_client env (os_calls s)) (Some (os_req s)) (op_name (hd_op h)) MutatingPreResolve ?d"
    by (simp add: do_hook_def Let_def)
  show "case mut_pre_stage env h s of Inl s' \<Rightarrow> resolved_answered env h s' | Inr s' \<Rightarrow> mutated env h s'"
  proof (cases r)
    case (Inl err)
    with r(1) assms s show ?thesis
      by (simp add: mut_pre_stage_def hook_stage_def unresolved_end)
  next
    case (Inr out)
    have "answered_input env h (os_calls ?s) (hook_input out)"
      using r(2) Inr unfolding answered_input_def
      by (intro exI [of _ "os_calls s"] exI [of _ ?d] exI [of _ "[]"] exI [of _ "os_req s"] exI [of _ out]) simp
    with r(1) assms s Inr show ?thesis
      by (auto simp: mut_pre_stage_def hook_stage_def handleHookOut_def mutated_def unresolved_def
          hook_input_def)
  qed
qed

lemma mutation_body_answered:
  assumes "hx_mut_pre (hd_hooks h)"
  shows "body_triple unresolved (mutation_stages env h form) (resolved_answered env h)"
proof -
  note pre = body_Cons [OF stage_triple_post [OF triple_preserves unresolved_end]]
    and post = body_Cons [OF stage_triple_post [OF triple_preserves mutated_end]]
  show ?thesis
    unfolding mutation_stages_def
    by (intro pre [OF preserves_unresolved(1)] pre [OF preserves_unresolved(2)]
        pre [OF preserves_unresolved(3)] pre [OF preserves_unresolved(4)]
        pre [OF preserves_unresolved(5)] pre [OF preserves_unresolved(6)]
        pre [OF preserves_unresolved_hooks(1)] pre [OF preserves_unresolved_hooks(2)]
        body_Cons [OF mut_pre_mutates [OF assms]]
        post [OF preserves_mutated(1)] post [OF preserves_mutated_basic(1)]
        post [OF preserves_mutated_basic(2)] post [OF preserves_mutated(2)]
        post [OF preserves_mutated(3)] post [OF preserves_mutated_basic(3)] body_Nil mutated_end)
qed

section \<open>Sample environment\<close>

definition op_json :: jsonlib where
  "op_json = \<lparr>js_get = (\<lambda>_ _. ([], NotExist, None)), js_set = (\<lambda>data v _. (data, None)),
     js_delete = (\<lambda>data _. data)\<rparr>"

definition op_client :: hook_client where
  "op_client = \<lparr>hc_url = [], hc_new_request = (\<lambda>_. None), hc_send = (\<lambda>_ _. Inr (200, ''{}'')),
     hc_decode = (\<lambda>_. Inr (empty_hook_response\<lparr>hr_input := Some ''mutated''\<rparr>)),
     hc_marshal = (\<lambda>_. Inr ''{}''), hc_json = op_json\<rparr>"

definition sample_env :: op_env where
  "sample_env =
     \<lparr>ev_client = (\<lambda>_. op_client), ev_resolve = (\<lambda>_ _. Inr ''raw''), ev_validate = (\<lambda>_. True),
      ev_compact = Inr, ev_sjson_raw = (\<lambda>d _ _. d), ev_sjson = (\<lambda>d _ _. d),
      ev_valid_json = (\<lambda>_. True), ev_pairs = (\<lambda>_. []), ev_order = id, ev_json = op_json,
      ev_marshal_user = (\<lambda>_. Inr ''{}''), ev_hash = length, ev_cache = (\<lambda>_ _. None),
      ev_uuid = (\<lambda>_. []), ev_now = id, ev_getenv = (\<lambda>_. []), ev_gql_error = (\<lambda>_. Inr ''error''),
      ev_flusher = True\<rparr>"

definition sample_handler :: op_handler where
  "sample_handler =
     \<lparr>hd_op = sample_operation\<lparr>op_authz := None\<rparr>, hd_extracted = [],
      hd_hooks = \<lparr>hx_mock = \<lparr>mc_enable = False, mc_interval = 0\<rparr>, hx_pre = True, hx_post = True,
        hx_mut_pre = True, hx_mut_post = False, hx_custom = False\<rparr>,
      hd_rbac = \<lparr>rb_has_rules = False, rb_require_all = [], rb_require_any = [], rb_deny_all = [],
        rb_deny_any = [], rb_has_require_all = False, rb_has_require_any = False,
        rb_has_deny_all = False, rb_has_deny_any = False\<rparr>,
      hd_interp = id, hd_json_interp = id, hd_transform = (\<lambda>b. Inr (''t'' @ b)), hd_allow = [],
      hd_cache = \<lparr>oe_enable = False, oe_max_age = 60, oe_public = False, oe_swr = 0\<rparr>,
      hd_config_hash = ''cfg'', hd_live = \<lparr>lv_enabled = False, lv_interval = 0\<rparr>\<rparr>"

lemma sample_mutation_resolves:
  "ResolveCall ''mutated'' \<in> set (os_calls (MutationHandler sample_env sample_handler (Inr []) empty_request new_writer))"
  by code_simp

section \<open>Live queries and subscriptions\<close>

text \<open>An event neither looks at the writer nor changes it.\<close>

definition writer_free :: "live_state stage \<Rightarrow> bool" where
  "writer_free f \<longleftrightarrow> (\<forall>s r w. f (s\<lparr>os_w := w\<rparr>, r)
     = map_sum (apfst (os_w_update (\<lambda>_. w))) (apfst (os_w_update (\<lambda>_. w))) (f (s, r)))"

lemma writer_last:
  "s\<lparr>os_w := w, os_calls := c\<rparr> = s\<lparr>os_calls := c, os_w := w\<rparr>" "s\<lparr>os_w := w, os_resp := b\<rparr> = s\<lparr>os_resp := b, os_w := w\<rparr>"
  "s\<lparr>os_w := w, os_vars := b\<rparr> = s\<lparr>os_vars := b, os_w := w\<rparr>"
  by simp_all

lemma updateContextHeaders_writer:
  "updateContextHeaders hs (s\<lparr>os_w := w\<rparr>) = (updateContextHeaders hs s)\<lparr>os_w := w\<rparr>"
  by (simp add: updateContextHeaders_def Let_def)

lemma writer_free_hook:
  assumes "\<And>s w. resp (s\<lparr>os_w := w\<rparr>) = resp s"
    and "\<And>out s w. after out (s\<lparr>os_w := w\<rparr>)
      = map_sum (apfst (os_w_update (\<lambda>_. w))) (apfst (os_w_update (\<lambda>_. w))) (after out s)"
  shows "writer_free (live_hook_stage env h enabled hook resp after)"
  using assms by (auto simp: writer_free_def live_hook_stage_def do_hook_def Let_def writer_last split: sum.split)

lemma writer_free_resolve: "writer_free (live_resolve_stage env h)"
  by (auto simp: writer_free_def live_resolve_stage_def Let_def writer_last split: sum.split)

lemma writer_free_event: "\<forall>f \<in> set (live_stages env h). writer_free f"
  by (auto simp: live_stages_def no_response_def writer_last updateContextHeaders_writer Let_def
      intro!: writer_free_hook writer_free_resolve)

lemma run_stages_writer:
  "\<forall>f \<in> set fs. writer_free f \<Longrightarrow>
    run_stages fs (s\<lparr>os_w := w\<rparr>, r) = apfst (os_w_update (\<lambda>_. w)) (run_stages fs (s, r))"
proof (induction fs arbitrary: s r)
  case (Cons f fs)
  then have f: "f (s\<lparr>os_w := w\<rparr>, r)
      = map_sum (apfst (os_w_update (\<lambda>_. w))) (apfst (os_w_update (\<lambda>_. w))) (f (s, r))"
    by (simp add: writer_free_def)
  from Cons show ?case by (cases "f (s, r)") (auto simp: f)
qed simp

lemma live_event_writer:
  "handleLiveQueryEvent env h (s\<lparr>os_w := w\<rparr>) = apfst (os_w_update (\<lambda>_. w)) (handleLiveQueryEvent env h s)"
  unfolding handleLiveQueryEvent_def by (rule run_stages_writer [OF writer_free_event])

lemma live_event_keeps_writer:
  assumes "handleLiveQueryEvent env h s = (s', r)"
  shows "os_w s' = os_w s"
proof -
  have "handleLiveQueryEvent env h s = apfst (os_w_update (\<lambda>_. os_w s)) (handleLiveQueryEvent env h s)"
    using live_event_writer [where s = s and w = "os_w s" and env = env and h = h] by simp
  with assms have "s' = s'\<lparr>os_w := os_w s\<rparr>" by simp
  then have "os_w s' = os_w (s'\<lparr>os_w := os_w s\<rparr>)" by simp
  then show ?thesis by simp
qed

text \<open>The responses to at most \<open>n\<close> events in a row: an error ends them, and a cancelled event has none.\<close>

fun live_answers :: "op_env \<Rightarrow> op_handler \<Rightarrow> nat \<Rightarrow> op_state \<Rightarrow> bytes list" where
  "live_answers env h 0 s = []"
| "live_answers env h (Suc n) s =
     (case handleLiveQueryEvent env h s of
        (s', Inr b) \<Rightarrow> b # live_answers env h n s'
      | (s', Inl err) \<Rightarrow> (if err_is_canceled err then [] else [live_response env (Inl err)]))"

text \<open>The responses whose hash is not that of the one before; \<open>before\<close> stands before the first.\<close>

definition changed_answers :: "op_env \<Rightarrow> nat \<Rightarrow> bytes list \<Rightarrow> bytes list" where
  "changed_answers env before rs =
     map fst (filter (\<lambda>(r, b). ev_hash env r \<noteq> b) (zip rs (before # map (ev_hash env) rs)))"

lemma changed_answers_simps [simp]:
  "changed_answers env before [] = []"
  "changed_answers env before (r # rs) =
     (if ev_hash env r \<noteq> before then [r] else []) @ changed_answers env (ev_hash env r) rs"
  by (simp_all add: changed_answers_def)

definition frame_text :: "bool \<Rightarrow> bool \<Rightarrow> bytes \<Rightarrow> bytes" where
  "frame_text once sse r = (if sse then ''data: '' else []) @ r @ (if once then [] else [CHR 0x0A, CHR 0x0A])"

lemma live_answers_writer: "live_answers env h n (s\<lparr>os_w := w\<rparr>) = live_answers env h n s"
proof (induction n arbitrary: s)
  case (Suc n)
  then show ?case
    by (cases "handleLiveQueryEvent env h s"; cases "snd (handleLiveQueryEvent env h s)")
      (auto simp: live_event_writer)
qed simp

lemma live_frame_writes:
  assumes "w_sent w = Some (200, hdr, cs)"
  shows "w_sent (live_frame once sse r w) = Some (200, hdr, cs)"
    and "w_body (live_frame once sse r w) = w_body w @ frame_text once sse r"
proof -
  have writes: "w_body (w_write b w') = w_body w' @ b" "w_sent (w_write b w') = Some (200, hdr, cs)"
    if "w_sent w' = Some (200, hdr, cs)" for b w'
    using that by (simp_all add: write_body write_final response_status_def body_allowed_def)
  have flushed: "w_body (flush w') = w_body w'" "w_sent (flush w') = w_sent w'"
    if "w_sent w' = Some (200, hdr, cs)" for w'
    using that by (simp_all add: flush_def write_header_final)
  show "w_sent (live_frame once sse r w) = Some (200, hdr, cs)"
    "w_body (live_frame once sse r w) = w_body w @ frame_text once sse r"
    by (simp_all add: live_frame_def frame_text_def Let_def writes flushed assms)
qed

lemma live_loop_writes:
  assumes "w_sent (os_w s) = Some (200, hdr, cs)" "WriteFails \<notin> set turns"
    and "X = changed_answers env before (live_answers env h (Suc (length (takeWhile (\<lambda>t. t = TimerFires) turns))) s)"
  shows "w_body (os_w (live_loop env h once sse turns before s))
    = w_body (os_w s) @ concat (map (frame_text once sse) (if once then take 1 X else X))"
  using assms
proof (induction turns arbitrary: before s X)
  case Nil
  obtain s1 result where ev: "handleLiveQueryEvent env h s = (s1, result)" by fastforce
  from live_event_keeps_writer [OF ev] Nil.prems(1) have "w_sent (os_w s1) = Some (200, hdr, cs)" "os_w s1 = os_w s"
    by simp_all
  with ev Nil.prems(3) show ?case
    by (cases result) (auto simp: live_loop.simps [of _ _ _ _ "[]"] live_response_def on_writer_def
        live_frame_writes)
next
  case (Cons t turns)
  obtain s1 result where ev: "handleLiveQueryEvent env h s = (s1, result)" by fastforce
  from live_event_keeps_writer [OF ev] Cons.prems(1) have w: "w_sent (os_w s1) = Some (200, hdr, cs)" "os_w s1 = os_w s"
    by simp_all
  note loop = live_loop.simps [of _ _ _ _ "x # xs" for x xs]
  show ?case
  proof (cases "t = TimerFires \<and> (\<exists>b. result = Inr b)")
    case False
    with ev w Cons.prems(2,3) show ?thesis
      by (cases result; cases t) (auto simp: loop live_response_def on_writer_def live_frame_writes)
  next
    case True
    then obtain b where b: "result = Inr b" and t: "t = TimerFires" by blast
    let ?s2 = "if ev_hash env b \<noteq> before then on_writer (live_frame False sse b) s1 else s1"
    let ?rest = "live_answers env h (Suc (length (takeWhile (\<lambda>t. t = TimerFires) turns))) s1"
    have X: "X = (if ev_hash env b \<noteq> before then [b] else []) @ changed_answers env (ev_hash env b) ?rest"
      using Cons.prems(3) ev b t by simp
    have rest: "live_answers env h (Suc (length (takeWhile (\<lambda>t. t = TimerFires) turns))) ?s2 = ?rest"
      by (cases "ev_hash env b \<noteq> before") (simp_all only: if_True if_False not_False_eq_True on_writer_def live_answers_writer)
    have "w_sent (os_w ?s2) = Some (200, hdr, cs)" using w by (simp add: on_writer_def live_frame_writes)
    from Cons.IH [OF this _ refl, of "ev_hash env b"] Cons.prems(2)
    have IH: "w_body (os_w (live_loop env h once sse turns (ev_hash env b) ?s2))
      = w_body (os_w ?s2) @ concat (map (frame_text once sse)
          (if once then take 1 (changed_answers env (ev_hash env b) ?rest)
           else changed_answers env (ev_hash env b) ?rest))" unfolding rest by simp
    show ?thesis
    proof (cases "ev_hash env b \<noteq> before \<and> once")
      case True
      with ev b t w X show ?thesis by (simp add: loop live_response_def on_writer_def live_frame_writes)
    next
      case False
      then have "live_loop env h once sse (t # turns) before s = live_loop env h once sse turns (ev_hash env b) ?s2"
        using ev b t by (auto simp: loop live_response_def)
      with IH False w X show ?thesis by (auto simp: on_writer_def live_frame_writes)
    qed
  qed
qed

lemma changed_answers_differ:
  "(\<forall>r \<in> set (take 1 (changed_answers env before rs)). ev_hash env r \<noteq> before)
    \<and> successively (\<lambda>a b. ev_hash env a \<noteq> ev_hash env b) (changed_answers env before rs)"
proof (induction rs arbitrary: before)
  case (Cons r rs)
  from Cons [of "ev_hash env r"] show ?case
    by (cases "changed_answers env (ev_hash env r) rs") (auto simp: successively_Cons)
qed simp

lemma handle_error_final: "w_sent w = Some x \<Longrightarrow> w_sent (handleOperationErr err msg w) = Some x"
  by (simp add: handleOperationErr_def write_header_final http_error_final)

section \<open>Claims\<close>

text \<open>What jsonparser.Get answers for a field that was set to a value: the text of a string comes
  without its quotes.\<close>

definition read_value :: "bytes \<Rightarrow> bytes" where
  "read_value v = (if 2 \<le> length v \<and> hd v = CHR 0x22 \<and> last v = CHR 0x22 then butlast (tl v) else v)"

lemma read_json_string [simp]: "read_value (json_string s) = s"
  by (simp add: read_value_def json_string_def)

text \<open>Text that JSON needs not escape, the values made of it, and the names of variables.\<close>

definition plain_text :: "string \<Rightarrow> bool" where
  "plain_text s \<longleftrightarrow> (\<forall>c \<in> set s. c \<noteq> CHR 0x22 \<and> c \<noteq> CHR 0x5C \<and> (32::nat) \<le> of_char c)"

definition plain_value :: "bytes \<Rightarrow> bool" where
  "plain_value v \<longleftrightarrow> v = ''true'' \<or> v = ''false'' \<or> (\<exists>s. plain_text s \<and> v = json_string s)"

definition plain_key :: "string \<Rightarrow> bool" where
  "plain_key k \<longleftrightarrow> k \<noteq> [] \<and> hd k \<noteq> CHR ''['' \<and> plain_text k"

text \<open>What the claims stand for: the fields of the user.\<close>

fun claim_text :: "user \<Rightarrow> claim \<Rightarrow> string" where
  "claim_text u USERID = us_user_id u"
| "claim_text u EMAIL = us_email u"
| "claim_text u EMAIL_VERIFIED = (if us_email_verified u then ''true'' else ''false'')"
| "claim_text u LOCATION = us_location u"
| "claim_text u NAME = us_name u"
| "claim_text u NICKNAME = us_nick_name u"
| "claim_text u PROVIDER = us_provider_id u"

lemma claim_value_plain:
  assumes "cl \<noteq> PROVIDER" "plain_text (claim_text u cl)"
  shows "plain_value (claim_value u cl) \<and> read_value (claim_value u cl) = claim_text u cl"
proof (cases cl)
  case EMAIL_VERIFIED
  then show ?thesis by (simp add: plain_value_def read_value_def)
qed (use assms in \<open>auto simp: plain_value_def\<close>)

lemma inject_claims_loop_get:
  assumes law: "\<And>d v k k'. object d \<Longrightarrow> plain_value v \<Longrightarrow> plain_key k \<Longrightarrow> plain_key k' \<Longrightarrow> object (js_put js d v [k])
        \<and> fst (js_get js (js_put js d v [k]) [k']) = (if k' = k then read_value v else fst (js_get js d [k']))"
    and "object d" "\<forall>c \<in> set cs. cl_claim c \<noteq> PROVIDER \<and> plain_text (claim_text u (cl_claim c)) \<and> plain_key (cl_variable c)"
    and "plain_key k"
  shows "fst (js_get js (inject_claims_loop js u cs d) [k])
    = (case filter (\<lambda>c. cl_variable c = k) cs of [] \<Rightarrow> fst (js_get js d [k])
       | xs \<Rightarrow> claim_text u (cl_claim (last xs)))"
  using assms(2,3)
proof (induction cs arbitrary: d)
  case (Cons c cs)
  let ?d = "js_put js d (claim_value u (cl_claim c)) [cl_variable c]"
  have claimed: "plain_value (claim_value u (cl_claim c))" "read_value (claim_value u (cl_claim c)) = claim_text u (cl_claim c)"
    using claim_value_plain Cons.prems(2) by auto
  have d: "object ?d" and get: "fst (js_get js ?d [k]) =
      (if k = cl_variable c then claim_text u (cl_claim c) else fst (js_get js d [k]))"
    using law [OF Cons.prems(1) claimed(1) _ assms(4)] Cons.prems(2) claimed(2) by auto
  from Cons.IH [OF d] Cons.prems(2) get show ?case by (auto split: list.splits)
qed simp

section \<open>Properties\<close>

text \<open>C6: an operation that the role rules refuse is answered 401 by the check alone: no hook,
  no resolver and no cache is called, by queries, mutations and subscriptions alike.\<close>

theorem refused_operations_call_nothing:
  assumes "\<not> Enforce (hd_rbac h) r" "w_sent w = None"
  shows "os_calls (QueryHandler env h ticks r w) = []
    \<and> response_status (os_w (QueryHandler env h ticks r w)) = 401
    \<and> os_calls (MutationHandler env h form r w) = []
    \<and> response_status (os_w (MutationHandler env h form r w)) = 401
    \<and> os_calls (SubscriptionHandler env h resolve r w) = []
    \<and> response_status (os_w (SubscriptionHandler env h resolve r w)) = 401"
  using assms
  by (simp add: query.refused_calls query.refused_status mutation.refused_calls
      mutation.refused_status subscription.refused_calls subscription.refused_status)

definition ruled_handler :: op_handler where
  "ruled_handler = sample_handler\<lparr>hd_rbac := (hd_rbac sample_handler)\<lparr>rb_has_rules := True\<rparr>\<rparr>"

theorem refused_operations_call_nothing_witness:
  "os_calls (MutationHandler sample_env ruled_handler (Inr []) empty_request new_writer) = []"
  using refused_operations_call_nothing [of ruled_handler empty_request new_writer sample_env]
  by (simp add: ruled_handler_def Enforce_def empty_request_def new_writer_def)

text \<open>C2: a query that is not live and a mutation call their hooks in the order mockResolve,
  preResolve, mutatingPreResolve, customResolve, postResolve, mutatingPostResolve, each at
  most once, whatever the hooks answer.\<close>

theorem hooks_in_order:
  assumes "\<not> is_live h r"
  shows "sorted_wrt (<) (hooks_of (os_calls (QueryHandler env h ticks r w)))
    \<and> sorted_wrt (<) (hooks_of (os_calls (MutationHandler env h form r w)))"
proof
  have start: "phase (rq_query r) 0 (start_state r w)"
    by (simp add: phase_def hooks_sorted_def start_state_def)
  have "hooks_of (os_calls (revalidate env h s)) = hooks_of (os_calls s)" for s
    by (simp add: revalidate_def Let_def split: sum.split)
  with body_tripleD [OF query_hooks_sorted [OF assms] start]
  show "sorted_wrt (<) (hooks_of (os_calls (QueryHandler env h ticks r w)))"
    by (simp add: QueryHandler_def hooks_sorted_def)
  from body_tripleD [OF mutation_hooks_sorted start]
  show "sorted_wrt (<) (hooks_of (os_calls (MutationHandler env h form r w)))"
    by (simp add: MutationHandler_def hooks_sorted_def)
qed

theorem hooks_in_order_witness:
  "hooks_of (os_calls (QueryHandler sample_env sample_handler [] empty_request new_writer))
     = [PreResolve, MutatingPreResolve, PostResolve]
   \<and> sorted_wrt (<) (hooks_of (os_calls (QueryHandler sample_env sample_handler [] empty_request new_writer)))"
proof
  show "hooks_of (os_calls (QueryHandler sample_env sample_handler [] empty_request new_writer))
     = [PreResolve, MutatingPreResolve, PostResolve]"
    by code_simp
  have "\<not> is_live sample_handler empty_request" by (simp add: is_live_def sample_handler_def)
  from hooks_in_order [OF this]
  show "sorted_wrt (<) (hooks_of (os_calls (QueryHandler sample_env sample_handler [] empty_request new_writer)))"
    by blast
qed



text \<open>C5: a mutation with a mutatingPreResolve hook resolves with what that hook answered:
  whenever the resolver is called, its variables are the input of a successful answer to a
  call of the hook in the trace.\<close>

theorem mutation_resolves_answered_input:
  assumes "hx_mut_pre (hd_hooks h)" "ResolveCall v \<in> set (os_calls (MutationHandler env h form r w))"
  shows "\<exists>pre data post req out.
      os_calls (MutationHandler env h form r w) = pre @ HookCall MutatingPreResolve data # post
    \<and> DoOperationRequest (ev_client env pre) (Some req) (op_name (hd_op h)) MutatingPreResolve data = Inr out
    \<and> v = (case hr_input out of None \<Rightarrow> [] | Some b \<Rightarrow> b)"
proof -
  have "unresolved (start_state r w)" by (simp add: unresolved_def start_state_def)
  from body_tripleD [OF mutation_body_answered [OF assms(1)] this, of env form] assms(2)
  have "answered_input env h (os_calls (MutationHandler env h form r w)) v"
    by (simp add: resolved_answered_def MutationHandler_def)
  then show ?thesis by (simp add: answered_input_def hook_input_def)
qed

theorem mutation_resolves_answered_input_witness:
  "\<exists>pre data post. os_calls (MutationHandler sample_env sample_handler (Inr []) empty_request new_writer)
    = pre @ HookCall MutatingPreResolve data # post"
  using mutation_resolves_answered_input [OF _ sample_mutation_resolves]
  by (auto simp: sample_handler_def)

text \<open>the revalidation of a stale cache entry stores the answer of the resolver itself,
  without the transformations and without the hooks that the entry it replaces went through.\<close>

theorem stale_entry_is_raw:
  assumes "os_stale (run_stages (query_stages env h ticks) (start_state r w))" "\<not> is_live h r"
    and "ev_resolve env (os_calls (run_stages (query_stages env h ticks) (start_state r w)))
      (query_vars env h r) = Inr raw"
  shows "last (os_calls (QueryHandler env h ticks r w))
    = CacheSet (hd_config_hash h @ rq_uri r) raw (cache_ttl (hd_cache h))"
proof -
  let ?s = "run_stages (query_stages env h ticks) (start_state r w)"
  have "at_start h r (start_state r w)" by (simp add: at_start_def start_state_def)
  from body_tripleD [OF query_body_end [OF assms(2)] this, of env ticks]
  have "os_vars ?s = query_vars env h r" "os_key ?s = cache_key h r"
    using assms(1) by (simp_all add: query_end_def)
  with assms(1,3) show ?thesis
    by (simp add: QueryHandler_def revalidate_def cache_key_def Let_def)
qed

definition caching_handler :: op_handler where
  "caching_handler = sample_handler\<lparr>hd_cache := \<lparr>oe_enable = True, oe_max_age = 60, oe_public = False, oe_swr = 30\<rparr>\<rparr>"

definition stale_env :: op_env where
  "stale_env = sample_env\<lparr>ev_cache := (\<lambda>_ _. Some (''old'', 75))\<rparr>"

theorem stale_entry_is_raw_witness:
  "last (os_calls (QueryHandler stale_env caching_handler [] empty_request new_writer))
    = CacheSet ''cfg/'' ''raw'' (90 * second)"
proof -
  have stale: "os_stale (run_stages (query_stages stale_env caching_handler []) (start_state empty_request new_writer))"
    by code_simp
  have live: "\<not> is_live caching_handler empty_request"
    by (simp add: is_live_def caching_handler_def sample_handler_def)
  have "ev_resolve stale_env cs v = Inr ''raw''" for cs v
    by (simp add: stale_env_def sample_env_def)
  from stale_entry_is_raw [OF stale live this] show ?thesis
    by (simp add: caching_handler_def sample_handler_def empty_request_def cache_ttl_def wrap64_def second_def)
qed


text \<open>Two of three events answer the same: one frame is written for them.\<close>

definition live_sample_env :: op_env where
  "live_sample_env = sample_env\<lparr>ev_resolve := (\<lambda>cs _. Inr (if length cs < 2 then ''one'' else ''other''))\<rparr>"

definition live_sample_handler :: op_handler where
  "live_sample_handler = sample_handler\<lparr>hd_live := \<lparr>lv_enabled = True, lv_interval = 1\<rparr>,
     hd_hooks := \<lparr>hx_mock = \<lparr>mc_enable = False, mc_interval = 0\<rparr>, hx_pre = False, hx_post = False,
        hx_mut_pre = False, hx_mut_post = False, hx_custom = False\<rparr>\<rparr>"


text \<open>the writer of a subscription is open on failure: when the mutatingPostResolve hook
  fails with anything but a cancellation, the event goes to the client as the resolver
  produced it. The writer of a handler has no transformer, so events are never transformed.\<close>

theorem subscription_sends_unmutated:
  assumes "fw_mut_post f" "\<not> fw_post f" "\<not> fw_sse f" "\<not> fw_once f"
    and "do_hook env h MutatingPostResolve (fw_buf f) s = (s1, Inl err)" "\<not> err_is_canceled err"
    and "w_sent (os_w s1) = Some (200, hdr, cs)"
  shows "w_body (os_w (snd (fw_flush env h (f, s)))) = w_body (os_w s1) @ fw_buf f @ [CHR 0x0A, CHR 0x0A]
    \<and> fw_transformer (fst (getFlushWriter r w)) = None"
proof -
  have "response_status (w_write b w') = 200" if "w_sent w' = Some (200, hdr, cs)" for b w'
    using that by (simp add: response_status_def write_final)
  moreover have "response_status (os_w s1) = 200" using assms(7) by (simp add: response_status_def)
  ultimately show ?thesis
    using assms
    by (simp add: fw_flush_def mut_post_callback_def getFlushWriter_def Let_def flush_def write_body
        body_allowed_def)
qed

definition failing_env :: op_env where
  "failing_env = sample_env\<lparr>ev_client := (\<lambda>_. op_client\<lparr>hc_send := (\<lambda>_ _. Inr (500, []))\<rparr>)\<rparr>"

theorem subscription_sends_unmutated_witness:
  "\<exists>s. w_body (os_w (snd (fw_flush failing_env sample_handler
      (\<lparr>fw_transformer = None, fw_once = False, fw_sse = False, fw_buf = ''event'', fw_mut_post = True,
        fw_post = False, fw_closed = False\<rparr>, s)))) = ''event'' @ [CHR 0x0A, CHR 0x0A]"
proof -
  let ?s = "start_state empty_request (write_header 200 new_writer)"
  let ?f = "\<lparr>fw_transformer = None, fw_once = False, fw_sse = False, fw_buf = ''event'',
    fw_mut_post = True, fw_post = False, fw_closed = False\<rparr>"
  obtain s1 r where hook: "do_hook failing_env sample_handler MutatingPostResolve (fw_buf ?f) ?s = (s1, r)"
    by fastforce
  then have w: "os_w s1 = write_header 200 new_writer"
    by (auto simp: do_hook_def start_state_def Let_def)
  have "\<exists>m. r = Inl (Err m)"
    using hook by (auto simp: do_hook_def DoOperationRequest_def doRequest_def failing_env_def sample_env_def
        op_client_def Let_def)
  then obtain m where r: "r = Inl (Err m)" by blast
  have "w_sent (os_w s1) = Some (200, no_header, [])" "w_body (os_w s1) = []"
    by (simp_all add: w write_header_sent new_writer_def)
  with subscription_sends_unmutated [of ?f failing_env sample_handler ?s s1 "Err m"] hook r
  show ?thesis by (intro exI [of _ ?s]) simp
qed


text \<open>A JSON library for objects of one level, kept as a list of fields with their lengths in unary.\<close>

definition unary :: "string \<Rightarrow> string" where
  "unary s = replicate (length s) (CHR ''x'') @ [CHR ''|'']"

definition field_put :: "bytes \<Rightarrow> bytes \<Rightarrow> string list \<Rightarrow> bytes" where
  "field_put d v path = unary (hd path) @ hd path @ unary v @ v @ d"

function field_get :: "bytes \<Rightarrow> string \<Rightarrow> bytes" where
  "field_get d k =
     (if d = [] then []
      else
        (let n = length (takeWhile (\<lambda>c. c = CHR ''x'') d); r = drop (Suc n) d;
             m = length (takeWhile (\<lambda>c. c = CHR ''x'') (drop n r)); r' = drop (Suc m) (drop n r) in
         if take n r = k then take m r' else field_get (drop m r') k))"
  by pat_completeness auto
termination
  by (relation "measure (\<lambda>(d, k). length d)") auto

declare field_get.simps [simp del]

lemma field_get_put: "field_get (field_put d v [k]) k' = (if k' = k then v else field_get d k')"
proof -
  have t: "takeWhile (\<lambda>c. c = CHR ''x'') (replicate n (CHR ''x'') @ CHR ''|'' # r) = replicate n (CHR ''x'')"
    for n r
    by (subst takeWhile_append2) auto
  show ?thesis
    by (subst field_get.simps) (auto simp: field_put_def unary_def t Let_def)
qed

definition field_json :: jsonlib where
  "field_json = \<lparr>js_get = (\<lambda>d path. (read_value (field_get d (hd path)), UnknownT, None)),
     js_set = (\<lambda>d v path. (field_put d v path, None)), js_delete = (\<lambda>d path. d)\<rparr>"

definition claims_authz :: authorization_config where
  "claims_authz = \<lparr>az_claims = [\<lparr>cl_variable = ''userId'', cl_claim = USERID\<rparr>], az_roles = None\<rparr>"


text \<open>The value of the provider claim is no JSON string: it begins with a line feed.\<close>

lemma provider_claim_malformed:
  "hd (claim_value u PROVIDER) = CHR 0x0A" "claim_value u PROVIDER \<noteq> json_string s"
  by (simp_all add: json_string_def)

end
