(* ===== verification/UserLoad.thy ===== *)
theory UserLoad
  imports AccessControl Hooks LoadVariable
begin

text \<open>
  pkg/authentication/authentication.go: how a request gets its user. The hooks around a
  login, the cookies a user is saved in, and \<open>User.Load\<close>, which reads a bearer token or
  these cookies. Parameters are the JWT and key set libraries, the secure cookie codec, the
  cache of users, the JSON codecs and the HTTP clients.
\<close>

section \<open>The payload of a JWT\<close>

text \<open>
  base64.RawURLEncoding.DecodeString: line breaks are skipped, there is no padding, and
  the unused bits of the last character are ignored.
\<close>

definition base64_val :: "char \<Rightarrow> nat option" where
  "base64_val c =
     (let n = (of_char c :: nat) in
      if 65 \<le> n \<and> n \<le> 90 then Some (n - 65)
      else if 97 \<le> n \<and> n \<le> 122 then Some (n - 71)
      else if 48 \<le> n \<and> n \<le> 57 then Some (n + 4)
      else if n = 45 then Some 62
      else if n = 95 then Some 63
      else None)"

fun base64_vals :: "string \<Rightarrow> nat list option" where
  "base64_vals [] = Some []"
| "base64_vals (c # cs) =
     (case (base64_val c, base64_vals cs) of
        (Some v, Some vs) \<Rightarrow> Some (v # vs)
      | _ \<Rightarrow> None)"

fun base64_bytes :: "nat list \<Rightarrow> bytes option" where
  "base64_bytes (a # b # c # d # vs) =
     map_option (\<lambda>bs. char_of (4 * a + b div 16) # char_of (16 * (b mod 16) + c div 4)
       # char_of (64 * (c mod 4) + d) # bs) (base64_bytes vs)"
| "base64_bytes [a, b, c] = Some [char_of (4 * a + b div 16), char_of (16 * (b mod 16) + c div 4)]"
| "base64_bytes [a, b] = Some [char_of (4 * a + b div 16)]"
| "base64_bytes [a] = None"
| "base64_bytes [] = Some []"

definition base64_raw_url_decode :: "string \<Rightarrow> bytes option" where
  "base64_raw_url_decode s =
     Option.bind (base64_vals (filter (\<lambda>c. c \<noteq> CHR 0x0A \<and> c \<noteq> CHR 0x0D) s)) base64_bytes"

definition bearerTokenToJSON :: "string \<Rightarrow> bytes res" where
  "bearerTokenToJSON token =
     (let parts = split_on (CHR ''.'') token in
      if length parts \<noteq> 3 then Inl (Err ''invalid token'')
      else (case base64_raw_url_decode (parts ! 1) of
          None \<Rightarrow> Inl (Err ''illegal base64 data'')
        | Some payload \<Rightarrow> Inr payload))"

definition tryParseJWT :: "string \<Rightarrow> bytes option" where
  "tryParseJWT token =
     (let parts = split_on (CHR ''.'') token in
      if length parts \<noteq> 3 then None else base64_raw_url_decode (parts ! 1))"

lemma tryParseJWT_Nil [simp]: "tryParseJWT [] = None"
  by (simp add: tryParseJWT_def)

section \<open>The hooks around a login\<close>

record mutating_response =
  mr_user :: user
  mr_message :: string
  mr_status :: string

text \<open>
  \<open>hk_marshal\<close> prints a user as JSON; \<open>hk_decode\<close> decodes the response of a mutating hook,
  with the value it leaves when it fails. The hook calls are returned as a trace.
\<close>

record login_hooks =
  hk_client :: hook_client
  hk_post_auth :: bool
  hk_mut_post_auth :: bool
  hk_post_logout :: bool
  hk_marshal :: "user \<Rightarrow> bytes res"
  hk_decode :: "bytes \<Rightarrow> mutating_response \<times> go_error option"

type_synonym hook_calls = "(hook_kind \<times> bytes) list"

definition user_hook_data :: "login_hooks \<Rightarrow> bytes \<Rightarrow> bytes" where
  "user_hook_data h userJson = js_put (hc_json (hk_client h)) ''{}'' userJson [''__wg'', ''user'']"

definition handlePostAuthentication :: "login_hooks \<Rightarrow> user \<Rightarrow> hook_calls" where
  "handlePostAuthentication h user =
     (if \<not> hk_post_auth h then []
      else (case hk_marshal h user of
          Inl _ \<Rightarrow> []
        | Inr userJson \<Rightarrow> [(PostAuthentication, user_hook_data h userJson)]))"

definition handlePostLogout :: "login_hooks \<Rightarrow> user option \<Rightarrow> hook_calls" where
  "handlePostLogout h user =
     (case user of
        None \<Rightarrow> []
      | Some u \<Rightarrow>
          (if \<not> hk_post_logout h then []
           else (case hk_marshal h u of
               Inl _ \<Rightarrow> []
             | Inr userJson \<Rightarrow> [(PostLogout, user_hook_data h userJson)])))"

definition raw_bytes :: "bytes option \<Rightarrow> bytes" where
  "raw_bytes r = (case r of None \<Rightarrow> [] | Some b \<Rightarrow> b)"

definition handleMutatingPostAuthentication ::
    "login_hooks \<Rightarrow> user \<Rightarrow> (bool \<times> string \<times> user) \<times> hook_calls" where
  "handleMutatingPostAuthentication h user =
     (if \<not> hk_mut_post_auth h then ((True, [], user), [])
      else
        (case hk_marshal h user of
           Inl _ \<Rightarrow> ((False, [], zero_user), [])
         | Inr userJson \<Rightarrow>
             (let hookData = user_hook_data h userJson;
                  calls = [(MutatingPostAuthentication, hookData)] in
              case DoAuthenticationRequest (hk_client h) None MutatingPostAuthentication hookData of
                Inl _ \<Rightarrow> ((False, [], zero_user), calls)
              | Inr out \<Rightarrow>
                  (if hr_error out \<noteq> [] then ((False, [], zero_user), calls)
                   else
                     (case hk_decode h (raw_bytes (hr_response out)) of
                        (res, Some err) \<Rightarrow> ((False, [], zero_user), calls)
                      | (res, None) \<Rightarrow>
                          (if mr_status res = ''ok'' then ((True, [], mr_user res), calls)
                           else ((False, mr_message res, zero_user), calls)))))))"

section \<open>The user of a bearer token\<close>

record claims =
  cm_sub :: string
  cm_name :: string
  cm_given_name :: string
  cm_family_name :: string
  cm_picture :: string
  cm_email :: string
  cm_email_verified :: bool
  cm_locale :: string
  cm_hosted_domain :: string

record 'j load_config =
  lc_jwks :: 'j
  lc_endpoint :: string
  lc_ttl :: int
  lc_issuer :: string

text \<open>
  What a loader works with. \<open>ul_parse\<close> is jwt.Parse with the keys of a configuration: it
  says whether the token is valid, and gives an error. \<open>ul_fetch\<close> requests the user info
  endpoint with a token; it answers a status and what reading the body gives.
\<close>

record secure_cookie =
  sc_encode_user :: "user \<Rightarrow> string res"
  sc_encode_id :: "string \<Rightarrow> string res"
  sc_decode_user :: "string \<Rightarrow> user \<Rightarrow> user \<times> go_error option"
  sc_decode_id :: "string \<Rightarrow> string \<Rightarrow> string \<times> go_error option"

record 'j user_loader =
  ul_configs :: "'j load_config list"
  ul_cookie :: secure_cookie
  ul_cache :: "string \<Rightarrow> user option"
  ul_parse :: "'j \<Rightarrow> string \<Rightarrow> bool \<times> go_error option"
  ul_fetch :: "string \<Rightarrow> string \<Rightarrow> (nat \<times> bytes res) res"
  ul_claims :: "bytes \<Rightarrow> claims res"
  ul_hooks :: login_hooks

text \<open>The entries a load puts into the cache, with their time to live in seconds.\<close>

type_synonym cache_puts = "(string \<times> user \<times> int) list"

definition claims_user :: "string \<Rightarrow> string \<Rightarrow> claims \<Rightarrow> user" where
  "claims_user provider providerID c = zero_user
     \<lparr>us_provider := provider, us_provider_id := providerID, us_email := cm_email c,
      us_email_verified := cm_email_verified c, us_name := cm_name c,
      us_first_name := cm_given_name c, us_last_name := cm_family_name c,
      us_user_id := cm_sub c, us_avatar := cm_picture c, us_location := cm_locale c\<rparr>"

definition token_user :: "'j user_loader \<Rightarrow> string \<Rightarrow> 'j load_config \<Rightarrow> user res" where
  "token_user l token cfg =
     (if lc_endpoint cfg = [] then
        Inr (zero_user\<lparr>us_provider := ''token'', us_provider_id := lc_issuer cfg,
                       us_access_token := tryParseJWT token\<rparr>)
      else
        bind_res (ul_fetch l (lc_endpoint cfg) token) (\<lambda>(status, content).
        bind_res content (\<lambda>body.
        bind_res (ul_claims l body) (\<lambda>c.
          Inr ((claims_user ''token'' (lc_issuer cfg) c)\<lparr>us_access_token := tryParseJWT token\<rparr>)))))"

definition userFromToken ::
    "'j user_loader \<Rightarrow> string \<Rightarrow> 'j load_config \<Rightarrow> user res \<times> hook_calls \<times> cache_puts" where
  "userFromToken l token cfg =
     (case ul_cache l token of
        Some user \<Rightarrow> (Inr user, [], [])
      | None \<Rightarrow>
          (case token_user l token cfg of
             Inl err \<Rightarrow> (Inl err, [], [])
           | Inr tempUser \<Rightarrow>
               (let calls = handlePostAuthentication (ul_hooks l) tempUser;
                    ((proceed, _, user), calls') =
                      handleMutatingPostAuthentication (ul_hooks l) tempUser in
                if \<not> proceed then (Inl (Err ''access denied''), calls @ calls', [])
                else (Inr user, calls @ calls',
                      if 0 < lc_ttl cfg then [(token, user, lc_ttl cfg)] else []))))"

section \<open>Saving a user in cookies\<close>

definition RemoveInternalFields :: "user \<Rightarrow> user" where
  "RemoveInternalFields u =
     u\<lparr>us_etag := [], us_from_cookie := False, us_access_token := None,
       us_raw_access_token := [], us_id_token := None, us_raw_id_token := []\<rparr>"

definition strip_tokens :: "user \<Rightarrow> user" where
  "strip_tokens u =
     u\<lparr>us_id_token := None, us_access_token := None, us_raw_access_token := [],
       us_raw_id_token := []\<rparr>"

definition login_cookie :: "string \<Rightarrow> string \<Rightarrow> string \<Rightarrow> bool \<Rightarrow> cookie" where
  "login_cookie name value1 domain insecure =
     \<lparr>ck_name = name, ck_value = value1, ck_path = ''/'', ck_domain = cookie_domain domain,
      ck_max_age = 2592000, ck_secure = (\<not> insecure), ck_http_only = True,
      ck_same_site = SameSiteStrict\<rparr>"

text \<open>\<open>hash\<close> is the xxhash of the gob encoding of a user. The user is changed in place.\<close>

definition user_etag :: "nat \<Rightarrow> string" where
  "user_etag n = ''W/'' @ [CHR 0x22] @ itoa n @ [CHR 0x22]"

definition SaveUser ::
    "secure_cookie \<Rightarrow> (user \<Rightarrow> nat res) \<Rightarrow> string \<Rightarrow> bool \<Rightarrow> user \<Rightarrow> writer \<Rightarrow>
     user \<times> writer \<times> go_error option" where
  "SaveUser s hash domain insecure u w =
     (let rawIdToken = us_raw_id_token u; u = strip_tokens u in
      case hash u of
        Inl err \<Rightarrow> (u, w, Some err)
      | Inr n \<Rightarrow>
          (let u = u\<lparr>us_etag := user_etag n\<rparr> in
           case sc_encode_user s u of
             Inl err \<Rightarrow> (u, w, Some err)
           | Inr encoded \<Rightarrow>
               (let w = set_cookie (login_cookie ''user'' encoded domain insecure) w in
                case sc_encode_id s rawIdToken of
                  Inl err \<Rightarrow> (u, w, Some err)
                | Inr encoded \<Rightarrow>
                    (u, set_cookie (login_cookie ''id'' encoded domain insecure) w, None))))"

section \<open>Loading the user of a request\<close>

text \<open>
  The loop over the configurations: the user of the first that yields one. A configuration
  is skipped when the token was parsed without an error and is not valid.
\<close>

fun load_tokens ::
    "'j user_loader \<Rightarrow> string \<Rightarrow> string \<Rightarrow> 'j load_config list \<Rightarrow>
     user option \<times> hook_calls \<times> cache_puts" where
  "load_tokens l hdr trimmed [] = (None, [], [])"
| "load_tokens l hdr trimmed (cfg # cfgs) =
     (let (valid, err) = ul_parse l (lc_jwks cfg) trimmed in
      if err = None \<and> \<not> valid then load_tokens l hdr trimmed cfgs
      else
        (case userFromToken l hdr cfg of
           (Inr user, calls, puts) \<Rightarrow> (Some user, calls, puts)
         | (Inl _, calls, puts) \<Rightarrow>
             (let (u, calls', puts') = load_tokens l hdr trimmed cfgs in
              (u, calls @ calls', puts @ puts'))))"

definition load_cookies :: "secure_cookie \<Rightarrow> request \<Rightarrow> user \<Rightarrow> user \<times> go_error option" where
  "load_cookies s r u =
     (case request_cookie r ''user'' of
        Inl err \<Rightarrow> (u, Some err)
      | Inr c \<Rightarrow>
          (let (u, err) = sc_decode_user s c u;
               u = (if err = None then u\<lparr>us_from_cookie := True\<rparr> else u) in
           case request_cookie r ''id'' of
             Inl err \<Rightarrow> (u, Some err)
           | Inr c \<Rightarrow>
               (let (raw, err) = sc_decode_id s c (us_raw_id_token u);
                    u = u\<lparr>us_raw_id_token := raw\<rparr> in
                (u\<lparr>us_id_token := tryParseJWT (us_raw_id_token u)\<rparr>, err))))"

definition LoadUser ::
    "'j user_loader \<Rightarrow> request \<Rightarrow> (user \<times> go_error option) \<times> hook_calls \<times> cache_puts" where
  "LoadUser l r =
     (let authorizationHeader = header_get (rq_header r) ''Authorization'' in
      if ul_configs l \<noteq> [] \<and> authorizationHeader \<noteq> [] then
        (if \<not> has_prefix authorizationHeader ''Bearer '' then
           ((zero_user, Some (Err ''invalid authorization Header'')), [], [])
         else
           (case load_tokens l authorizationHeader (trim_prefix authorizationHeader ''Bearer '')
                   (ul_configs l) of
              (Some user, calls, puts) \<Rightarrow> ((user, None), calls, puts)
            | (None, calls, puts) \<Rightarrow> (load_cookies (ul_cookie l) r zero_user, calls, puts)))
      else (load_cookies (ul_cookie l) r zero_user, [], []))"

section \<open>The middleware\<close>

text \<open>
  The configurations of the providers. \<open>parse_host\<close> is url.Parse (giving the host),
  \<open>from_url\<close> and \<open>from_json\<close> load a key set, \<open>no_keys\<close> is the empty one.
\<close>

record 'j jwks_lib =
  jl_host :: "string \<Rightarrow> string res"
  jl_from_url :: "string \<Rightarrow> 'j res"
  jl_from_json :: "string \<Rightarrow> 'j res"
  jl_no_keys :: 'j

fun jwks_configs ::
    "(string \<Rightarrow> string) \<Rightarrow> 'j jwks_lib \<Rightarrow> jwks_provider list \<Rightarrow> 'j load_config list" where
  "jwks_configs env jl [] = []"
| "jwks_configs env jl (p # ps) =
     (let userInfoEndpoint = load_string env (jw_user_info p);
          cfg = (\<lambda>host jwks. \<lparr>lc_jwks = jwks, lc_endpoint = userInfoEndpoint, lc_ttl = jw_ttl p,
                              lc_issuer = host\<rparr>);
          rest = jwks_configs env jl ps in
      case jl_host jl userInfoEndpoint of
        Inl _ \<Rightarrow> rest
      | Inr host \<Rightarrow>
          (if load_string env (jw_url p) \<noteq> [] then
             (case jl_from_url jl (load_string env (jw_url p)) of
                Inl _ \<Rightarrow> rest
              | Inr jwks \<Rightarrow> cfg host jwks # rest)
           else if load_string env (jw_json p) \<noteq> [] then
             (case jl_from_json jl (load_string env (jw_json p)) of
                Inl _ \<Rightarrow> rest
              | Inr jwks \<Rightarrow> cfg host jwks # rest)
           else cfg host (jl_no_keys jl) # rest))"

definition NewLoadUserMw :: "'j user_loader \<Rightarrow> middleware" where
  "NewLoadUserMw l next1 r w =
     (case fst (LoadUser l r) of
        (user, None) \<Rightarrow> next1 (r\<lparr>rq_user := Some user\<rparr>) w
      | (user, Some err) \<Rightarrow> next1 r w)"

section \<open>Facts\<close>

lemma has_prefix_append [simp]: "has_prefix (p @ t) p"
  by (simp add: has_prefix_def)

lemma trim_prefix_append [simp]: "trim_prefix (p @ t) p = t"
  by (simp add: trim_prefix_def)

lemma mutating_hook_off:
  "\<not> hk_mut_post_auth h \<Longrightarrow> handleMutatingPostAuthentication h u = ((True, [], u), [])"
  by (simp add: handleMutatingPostAuthentication_def)

lemma mutating_hook_proceeds:
  assumes "handleMutatingPostAuthentication h u = ((True, msg, u'), calls)" "hk_mut_post_auth h"
  shows "\<exists>data out res. calls = [(MutatingPostAuthentication, data)]
    \<and> DoAuthenticationRequest (hk_client h) None MutatingPostAuthentication data = Inr out
    \<and> hk_decode h (raw_bytes (hr_response out)) = (res, None)
    \<and> mr_status res = ''ok'' \<and> u' = mr_user res"
  using assms
  by (auto simp: handleMutatingPostAuthentication_def Let_def
      split: sum.splits prod.splits option.splits if_splits)

lemma userFromToken_refused: "userFromToken l token cfg = (Inl err, calls, puts) \<Longrightarrow> puts = []"
  by (auto simp: userFromToken_def Let_def split: option.splits sum.splits prod.splits if_splits)

lemma userFromToken_accepts:
  assumes "ul_cache l token = None" "token_user l token cfg = Inr u" "\<not> hk_mut_post_auth (ul_hooks l)"
  shows "fst (userFromToken l token cfg) = Inr u"
  using assms by (simp add: userFromToken_def mutating_hook_off Let_def)

lemma load_tokens_first:
  assumes "ul_parse l (lc_jwks cfg) t = (valid, Some err)"
    and "fst (userFromToken l hdr cfg) = Inr u"
  shows "\<exists>calls puts. load_tokens l hdr t (cfg # cfgs) = (Some u, calls, puts)"
  using assms by (cases "userFromToken l hdr cfg") (auto simp: Let_def)

lemma load_cookies_ok_iff:
  "(\<exists>u'. load_cookies s r u = (u', None)) \<longleftrightarrow>
    (\<exists>cu ci raw. request_cookie r ''user'' = Inr cu \<and> request_cookie r ''id'' = Inr ci
      \<and> sc_decode_id s ci (us_raw_id_token (fst (sc_decode_user s cu u))) = (raw, None))"
  by (auto simp: load_cookies_def Let_def split: sum.splits prod.splits)

section \<open>Properties\<close>

text \<open>
  A token loader in which nothing denies a user: no mutating hook, and the token is not
  cached yet.
\<close>

definition open_loader :: "'j user_loader \<Rightarrow> string \<Rightarrow> bool" where
  "open_loader l token = (ul_cache l token = None \<and> \<not> hk_mut_post_auth (ul_hooks l))"

text \<open>C1: the verification of a bearer token is never enforced. When jwt.Parse reports an error
  for the first configured key set (a forged signature, an expired token), the request is
  authenticated all the same, as a user of the token provider with the unverified payload
  as access token, and a handler that requires authentication is reached.\<close>

theorem unverified_token_authenticates:
  assumes "ul_configs l = cfg # cfgs" "lc_endpoint cfg = []"
    and "header_get (rq_header r) ''Authorization'' = ''Bearer '' @ t"
    and "ul_parse l (lc_jwks cfg) t = (valid, Some err)"
    and "open_loader l (''Bearer '' @ t)"
  shows "\<exists>u. fst (LoadUser l r) = (u, None)
    \<and> us_provider u = ''token'' \<and> us_access_token u = tryParseJWT (''Bearer '' @ t)
    \<and> NewLoadUserMw l (RequiresAuthentication h) r w = h (r\<lparr>rq_user := Some u\<rparr>) w"
proof -
  let ?hdr = "''Bearer '' @ t"
  let ?u = "zero_user\<lparr>us_provider := ''token'', us_provider_id := lc_issuer cfg,
    us_access_token := tryParseJWT ?hdr\<rparr>"
  have "fst (userFromToken l ?hdr cfg) = Inr ?u"
    using assms by (intro userFromToken_accepts) (simp_all add: open_loader_def token_user_def)
  then obtain calls puts where "load_tokens l ?hdr t (cfg # cfgs) = (Some ?u, calls, puts)"
    using load_tokens_first [OF assms(4)] by blast
  moreover have "has_prefix ?hdr ''Bearer ''" "trim_prefix ?hdr ''Bearer '' = t"
    by (simp_all only: has_prefix_append trim_prefix_append)
  ultimately have load: "fst (LoadUser l r) = (?u, None)"
    unfolding LoadUser_def assms(1,3) Let_def by simp
  then have "NewLoadUserMw l (RequiresAuthentication h) r w = h (r\<lparr>rq_user := Some ?u\<rparr>) w"
    by (simp add: NewLoadUserMw_def RequiresAuthentication_def)
  with load show ?thesis by (intro exI [of _ ?u]) (simp add: zero_user_def)
qed

definition sample_json :: jsonlib where
  "sample_json = \<lparr>js_get = (\<lambda>_ _. ([], NotExist, None)), js_set = (\<lambda>data v _. (data, None)),
     js_delete = (\<lambda>data _. data)\<rparr>"

definition sample_client :: hook_client where
  "sample_client = \<lparr>hc_url = [], hc_new_request = (\<lambda>_. None), hc_send = (\<lambda>_ _. Inl (Err ''connection refused'')),
     hc_decode = (\<lambda>_. Inl (Err ''syntax'')), hc_marshal = (\<lambda>_. Inr ''{}''), hc_json = sample_json\<rparr>"

definition sample_hooks :: login_hooks where
  "sample_hooks = \<lparr>hk_client = sample_client, hk_post_auth = False, hk_mut_post_auth = False,
     hk_post_logout = False, hk_marshal = (\<lambda>_. Inr ''{}''),
     hk_decode = (\<lambda>_. (\<lparr>mr_user = zero_user, mr_message = [], mr_status = []\<rparr>, Some (Err ''syntax'')))\<rparr>"

definition sample_cookies :: secure_cookie where
  "sample_cookies = \<lparr>sc_encode_user = (\<lambda>u. Inr (us_user_id u)), sc_encode_id = Inr,
     sc_decode_user = (\<lambda>c u. (zero_user, Some (Err ''the value is not valid''))),
     sc_decode_id = (\<lambda>c old. (c, None))\<rparr>"

definition sample_loader :: "unit user_loader" where
  "sample_loader =
     \<lparr>ul_configs = [\<lparr>lc_jwks = (), lc_endpoint = [], lc_ttl = 0, lc_issuer = []\<rparr>],
      ul_cookie = sample_cookies, ul_cache = (\<lambda>_. None),
      ul_parse = (\<lambda>_ _. (False, Some (Err ''signature is invalid''))),
      ul_fetch = (\<lambda>_ _. Inr (401, Inr ''{}'')),
      ul_claims = (\<lambda>_. Inr \<lparr>cm_sub = [], cm_name = [], cm_given_name = [], cm_family_name = [],
         cm_picture = [], cm_email = [], cm_email_verified = False, cm_locale = [],
         cm_hosted_domain = []\<rparr>),
      ul_hooks = sample_hooks\<rparr>"

theorem unverified_token_authenticates_witness:
  "\<exists>u. fst (LoadUser sample_loader
      (empty_request\<lparr>rq_header := header_set ''Authorization'' (''Bearer '' @ ''a.e30.c'') no_header\<rparr>))
    = (u, None)"
proof -
  let ?r = "empty_request\<lparr>rq_header := header_set ''Authorization'' (''Bearer '' @ ''a.e30.c'') no_header\<rparr>"
  let ?cfg = "\<lparr>lc_jwks = (), lc_endpoint = [], lc_ttl = 0, lc_issuer = []\<rparr>"
  have a: "ul_configs sample_loader = [?cfg]" "lc_endpoint ?cfg = []"
    and h: "header_get (rq_header ?r) ''Authorization'' = ''Bearer '' @ ''a.e30.c''"
    and p: "ul_parse sample_loader (lc_jwks ?cfg) ''a.e30.c'' = (False, Some (Err ''signature is invalid''))"
    and l: "open_loader sample_loader (''Bearer '' @ ''a.e30.c'')"
    by (simp_all add: sample_loader_def open_loader_def sample_hooks_def)
  from unverified_token_authenticates [OF a h p l, where h = "\<lambda>_ w. w" and w = new_writer]
  show ?thesis by blast
qed

text \<open>with a user info endpoint the status of its answer is ignored: a body that decodes,
  such as the JSON of an error 401, makes the user, whatever the token was.\<close>

theorem user_info_status_ignored:
  assumes "lc_endpoint cfg \<noteq> []" "ul_fetch l (lc_endpoint cfg) token = Inr (status, Inr body)"
    and "ul_claims l body = Inr c" "open_loader l token"
  shows "fst (userFromToken l token cfg)
    = Inr ((claims_user ''token'' (lc_issuer cfg) c)\<lparr>us_access_token := tryParseJWT token\<rparr>)"
  using assms by (intro userFromToken_accepts) (simp_all add: open_loader_def token_user_def)

theorem user_info_status_ignored_witness:
  "\<exists>u. fst (userFromToken sample_loader ''Bearer x''
      \<lparr>lc_jwks = (), lc_endpoint = ''https://idp/userinfo'', lc_ttl = 0, lc_issuer = ''idp''\<rparr>) = Inr u"
  using user_info_status_ignored [where l = sample_loader and token = "''Bearer x''"
      and status = 401 and body = "''{}''"
      and cfg = "\<lparr>lc_jwks = (), lc_endpoint = ''https://idp/userinfo'', lc_ttl = 0, lc_issuer = ''idp''\<rparr>"]
  by (simp add: sample_loader_def open_loader_def sample_hooks_def)

text \<open>C9: a login by cookies stands and falls with the cookie named id: it succeeds exactly when
  both cookies are present and the id cookie decodes. A user cookie that does not decode
  does not prevent it; the request is then authenticated as what the failed decoding left.\<close>

theorem load_cookies_spec:
  assumes "ul_configs l = []"
  shows "((\<exists>u. fst (LoadUser l r) = (u, None)) \<longleftrightarrow>
      (\<exists>cu ci raw. request_cookie r ''user'' = Inr cu \<and> request_cookie r ''id'' = Inr ci
        \<and> sc_decode_id (ul_cookie l) ci (us_raw_id_token (fst (sc_decode_user (ul_cookie l) cu zero_user)))
            = (raw, None)))
    \<and> (\<forall>cu ci err raw. request_cookie r ''user'' = Inr cu \<longrightarrow> request_cookie r ''id'' = Inr ci
        \<longrightarrow> sc_decode_user (ul_cookie l) cu zero_user = (zero_user, Some err)
        \<longrightarrow> sc_decode_id (ul_cookie l) ci [] = (raw, None)
        \<longrightarrow> fst (LoadUser l r)
          = (zero_user\<lparr>us_raw_id_token := raw, us_id_token := tryParseJWT raw\<rparr>, None))"
proof -
  have load: "fst (LoadUser l r) = load_cookies (ul_cookie l) r zero_user"
    using assms by (simp add: LoadUser_def Let_def)
  show ?thesis
    unfolding load load_cookies_ok_iff by (auto simp: load_cookies_def Let_def zero_user_def)
qed

theorem load_cookies_spec_witness:
  "fst (LoadUser (sample_loader\<lparr>ul_configs := []\<rparr>)
      (empty_request\<lparr>rq_cookies := [(''user'', ''garbage''), (''id'', ''token'')]\<rparr>))
    = (zero_user\<lparr>us_raw_id_token := ''token'', us_id_token := tryParseJWT ''token''\<rparr>, None)"
  using load_cookies_spec [of "sample_loader\<lparr>ul_configs := []\<rparr>"
      "empty_request\<lparr>rq_cookies := [(''user'', ''garbage''), (''id'', ''token'')]\<rparr>"]
  by (simp add: sample_loader_def sample_cookies_def request_cookie_def)

text \<open>
  What securecookie and gob promise within the lifetime of a cookie: decoding into a zero
  value what was encoded gives it back, empty byte slices aside.
\<close>

definition cookie_codec_law :: "secure_cookie \<Rightarrow> bool" where
  "cookie_codec_law s =
     ((\<forall>u c. us_custom_claims u \<noteq> Some [] \<longrightarrow> us_access_token u = None \<longrightarrow> us_id_token u = None
          \<longrightarrow> sc_encode_user s u = Inr c \<longrightarrow> sc_decode_user s c zero_user = (u, None))
      \<and> (\<forall>i c. sc_encode_id s i = Inr c \<longrightarrow> sc_decode_id s c [] = (i, None)))"

text \<open>C10: a user saved in cookies is the user loaded from them: every field survives but the
  access token, the entity tag is the new one, the raw identity token comes back from its
  own cookie with its payload, and the user is marked as coming from a cookie.\<close>

theorem save_load_roundtrip:
  assumes "cookie_codec_law (ul_cookie l)" "ul_configs l = []" "us_custom_claims u \<noteq> Some []"
    and "SaveUser (ul_cookie l) hash domain insecure u new_writer = (u', w', None)"
    and "rq_cookies r = map (\<lambda>c. (ck_name c, ck_value c)) (w_cookies w')"
  shows "\<exists>n. hash (strip_tokens u) = Inr n \<and> fst (LoadUser l r) =
    (u\<lparr>us_etag := user_etag n, us_from_cookie := True, us_access_token := None,
       us_raw_access_token := [], us_id_token := tryParseJWT (us_raw_id_token u)\<rparr>, None)"
proof -
  let ?s = "ul_cookie l"
  obtain n cu ci where n: "hash (strip_tokens u) = Inr n"
    and cu: "sc_encode_user ?s (strip_tokens u\<lparr>us_etag := user_etag n\<rparr>) = Inr cu"
    and ci: "sc_encode_id ?s (us_raw_id_token u) = Inr ci"
    and w': "w_cookies w' = [login_cookie ''user'' cu domain insecure, login_cookie ''id'' ci domain insecure]"
    using assms(4) by (auto simp: SaveUser_def Let_def new_writer_def split: sum.splits)
  have dec_u: "sc_decode_user ?s cu zero_user = (strip_tokens u\<lparr>us_etag := user_etag n\<rparr>, None)"
    using assms(1,3) cu by (auto simp: cookie_codec_law_def strip_tokens_def)
  have dec_i: "sc_decode_id ?s ci [] = (us_raw_id_token u, None)"
    using assms(1) ci by (auto simp: cookie_codec_law_def)
  have "request_cookie r ''user'' = Inr cu" "request_cookie r ''id'' = Inr ci"
    using assms(5) w' by (simp_all add: request_cookie_def login_cookie_def)
  with dec_u dec_i assms(2) n show ?thesis
    by (simp add: LoadUser_def load_cookies_def strip_tokens_def Let_def)
qed

definition plain_cookies :: "user \<Rightarrow> secure_cookie" where
  "plain_cookies u = sample_cookies
     \<lparr>sc_encode_user := (\<lambda>v. if v = u then Inr ''u'' else Inl (Err ''unknown'')),
      sc_decode_user := (\<lambda>c _. (u, None))\<rparr>"

theorem save_load_roundtrip_witness:
  "\<exists>u' w' n. SaveUser (plain_cookies (zero_user\<lparr>us_user_id := ''7'', us_etag := user_etag 5\<rparr>))
        (\<lambda>_. Inr 5) ''localhost'' False (zero_user\<lparr>us_user_id := ''7''\<rparr>) new_writer = (u', w', None)
    \<and> us_user_id (fst (fst (LoadUser (sample_loader\<lparr>ul_configs := [],
          ul_cookie := plain_cookies (zero_user\<lparr>us_user_id := ''7'', us_etag := user_etag 5\<rparr>)\<rparr>)
        (empty_request\<lparr>rq_cookies := map (\<lambda>c. (ck_name c, ck_value c)) (w_cookies w')\<rparr>)))) = ''7''"
proof -
  let ?u = "zero_user\<lparr>us_user_id := ''7''\<rparr>"
  let ?s = "plain_cookies (zero_user\<lparr>us_user_id := ''7'', us_etag := user_etag 5\<rparr>)"
  let ?l = "sample_loader\<lparr>ul_configs := [], ul_cookie := ?s\<rparr>"
  have "strip_tokens ?u\<lparr>us_etag := user_etag 5\<rparr> = zero_user\<lparr>us_user_id := ''7'', us_etag := user_etag 5\<rparr>"
    by (simp add: strip_tokens_def zero_user_def)
  then obtain u' w' where save: "SaveUser (ul_cookie ?l) (\<lambda>_. Inr 5) ''localhost'' False ?u new_writer
      = (u', w', None)"
    by (simp add: SaveUser_def plain_cookies_def sample_cookies_def Let_def)
  have "cookie_codec_law ?s"
    by (auto simp: cookie_codec_law_def plain_cookies_def sample_cookies_def)
  then show ?thesis
    using save_load_roundtrip [where l = ?l and u = ?u, OF _ _ _ save,
        of "empty_request\<lparr>rq_cookies := map (\<lambda>c. (ck_name c, ck_value c)) (w_cookies w')\<rparr>"] save
    by (auto simp: zero_user_def)
qed

text \<open>C12: the mutating hook decides about a token login: when it is enabled and the token is
  not cached, a user is accepted only if the hooks server answered 200 without an error and
  with the status ok, the accepted user is the one of its answer, and only an accepted user
  enters the cache.\<close>

theorem mutating_hook_decides:
  assumes "userFromToken l token cfg = (result, calls, puts)"
    and "ul_cache l token = None" "hk_mut_post_auth (ul_hooks l)"
  shows "(\<forall>u. result = Inr u \<longrightarrow>
      (\<exists>data out res body. (MutatingPostAuthentication, data) \<in> set calls
        \<and> DoAuthenticationRequest (hk_client (ul_hooks l)) None MutatingPostAuthentication data = Inr out
        \<and> hc_decode (hk_client (ul_hooks l)) body = Inr out \<and> hr_error out = []
        \<and> hk_decode (ul_hooks l) (raw_bytes (hr_response out)) = (res, None)
        \<and> mr_status res = ''ok'' \<and> u = mr_user res))
    \<and> (\<forall>p \<in> set puts. result = Inr (fst (snd p)) \<and> fst p = token)"
proof (cases "token_user l token cfg")
  case (Inl err)
  with assms show ?thesis by (auto simp: userFromToken_def)
next
  case (Inr tempUser)
  obtain proceed msg user calls' where hook:
    "handleMutatingPostAuthentication (ul_hooks l) tempUser = ((proceed, msg, user), calls')"
    by (metis prod.collapse)
  show ?thesis
  proof (cases proceed)
    case True
    obtain data out res where h: "calls' = [(MutatingPostAuthentication, data)]"
      "DoAuthenticationRequest (hk_client (ul_hooks l)) None MutatingPostAuthentication data = Inr out"
      "hk_decode (ul_hooks l) (raw_bytes (hr_response out)) = (res, None)"
      "mr_status res = ''ok''" "user = mr_user res"
      using mutating_hook_proceeds [of "ul_hooks l" tempUser msg user calls'] hook True assms(3) by auto
    moreover have "hr_error out = [] \<and> (\<exists>body. hc_decode (hk_client (ul_hooks l)) body = Inr out)"
      using doRequest_Inr [OF h(2) [unfolded DoAuthenticationRequest_def]] by blast
    moreover have "result = Inr user" "calls = handlePostAuthentication (ul_hooks l) tempUser @ calls'"
      "set puts \<subseteq> {(token, user, lc_ttl cfg)}"
      using assms hook True Inr by (auto simp: userFromToken_def Let_def split: if_splits)
    ultimately show ?thesis by fastforce
  next
    case False
    with assms hook Inr show ?thesis by (auto simp: userFromToken_def Let_def)
  qed
qed

definition granting_hooks :: login_hooks where
  "granting_hooks = sample_hooks
     \<lparr>hk_mut_post_auth := True,
      hk_client := sample_client\<lparr>hc_send := (\<lambda>_ _. Inr (200, ''{}'')),
                                 hc_decode := (\<lambda>_. Inr empty_hook_response)\<rparr>,
      hk_decode := (\<lambda>_. (\<lparr>mr_user = zero_user\<lparr>us_user_id := ''7''\<rparr>, mr_message = [],
                          mr_status = ''ok''\<rparr>, None))\<rparr>"

theorem mutating_hook_decides_witness:
  "\<exists>calls puts. userFromToken (sample_loader\<lparr>ul_hooks := granting_hooks\<rparr>) ''Bearer x''
      \<lparr>lc_jwks = (), lc_endpoint = [], lc_ttl = 60, lc_issuer = []\<rparr>
    = (Inr (zero_user\<lparr>us_user_id := ''7''\<rparr>), calls, puts)
    \<and> (\<exists>data. (MutatingPostAuthentication, data) \<in> set calls)"
proof -
  let ?l = "sample_loader\<lparr>ul_hooks := granting_hooks\<rparr>"
  obtain calls puts where run: "userFromToken ?l ''Bearer x''
      \<lparr>lc_jwks = (), lc_endpoint = [], lc_ttl = 60, lc_issuer = []\<rparr>
    = (Inr (zero_user\<lparr>us_user_id := ''7''\<rparr>), calls, puts)"
    by (simp add: userFromToken_def sample_loader_def token_user_def granting_hooks_def
        handleMutatingPostAuthentication_def DoAuthenticationRequest_def doRequest_def
        setInternalHookData_def sample_client_def sample_hooks_def empty_hook_response_def
        user_hook_data_def Let_def)
  have "ul_cache ?l ''Bearer x'' = None" "hk_mut_post_auth (ul_hooks ?l)"
    by (simp_all add: sample_loader_def granting_hooks_def)
  from mutating_hook_decides [OF run this] run show ?thesis by blast
qed

end
