(* ===== verification/LoginProviders.thy ===== *)
theory LoginProviders
  imports UserLoad
begin

text \<open>
  The logins by GitHub (pkg/authentication/github.go) and by OpenID Connect (oidc.go): the
  authorization handlers, which remember the state in cookies and redirect to the provider,
  and the callback handlers, which check the state, obtain the user and save it in cookies.
  Parameters are the OAuth2 library, the source of random states and the HTTP clients.
\<close>

section \<open>Configuration\<close>

record login_config =
  lg_client_id :: string
  lg_client_secret :: string
  lg_provider_id :: string
  lg_path_prefix :: string
  lg_insecure :: bool
  lg_force_https :: bool
  lg_cookie :: secure_cookie
  lg_query :: "(string \<times> string) list"
  lg_issuer :: string

record oauth_config =
  ox_client_id :: string
  ox_client_secret :: string
  ox_auth_url :: string
  ox_token_url :: string
  ox_redirect :: string
  ox_scopes :: "string list"

record oauth_token =
  ot_access :: string
  ot_expiry :: int
  ot_id_token :: "string option"

record oauth_lib =
  ol_auth_url :: "oauth_config \<Rightarrow> string \<Rightarrow> (string \<times> string) list \<Rightarrow> string"
  ol_exchange :: "oauth_config \<Rightarrow> string \<Rightarrow> oauth_token res"
  ol_state :: "string res"

definition login_scheme :: "login_config \<Rightarrow> request \<Rightarrow> string" where
  "login_scheme cfg r = (if \<not> lg_force_https cfg \<and> \<not> rq_tls r then ''http'' else ''https'')"

definition flow_cookie :: "login_config \<Rightarrow> request \<Rightarrow> string \<Rightarrow> string \<Rightarrow> cookie" where
  "flow_cookie cfg r name value1 =
     \<lparr>ck_name = name, ck_value = value1,
      ck_path = ''/'' @ lg_path_prefix cfg @ ''/auth/cookie/callback/'' @ lg_provider_id cfg,
      ck_domain = sanitizeDomain (rq_host r), ck_max_age = 60, ck_secure = rq_tls r,
      ck_http_only = True, ck_same_site = SameSiteLax\<rparr>"

definition set_flow_cookies :: "login_config \<Rightarrow> request \<Rightarrow> string \<Rightarrow> string \<Rightarrow> writer \<Rightarrow> writer" where
  "set_flow_cookies cfg r state redirectURI w =
     (let w = set_cookie (flow_cookie cfg r ''state'' state) w;
          w = set_cookie (flow_cookie cfg r ''redirect_uri'' redirectURI) w;
          onSuccess = query_get r ''redirect_uri'' in
      if onSuccess \<noteq> [] then set_cookie (flow_cookie cfg r ''success_redirect_uri'' onSuccess) w
      else w)"

section \<open>GitHub\<close>

definition github_oauth :: "login_config \<Rightarrow> string \<Rightarrow> oauth_config" where
  "github_oauth cfg redirectURI =
     \<lparr>ox_client_id = lg_client_id cfg, ox_client_secret = lg_client_secret cfg,
      ox_auth_url = ''https://github.com/login/oauth/authorize'',
      ox_token_url = ''https://github.com/login/oauth/access_token'',
      ox_redirect = redirectURI, ox_scopes = [''openid'', ''profile'', ''user:email'']\<rparr>"

definition github_redirect_uri :: "login_config \<Rightarrow> request \<Rightarrow> string" where
  "github_redirect_uri cfg r =
     login_scheme cfg r @ ''://'' @ rq_host r @ replace_first (rq_uri r) ''authorize'' ''callback''"

definition GithubAuthorize :: "oauth_lib \<Rightarrow> login_config \<Rightarrow> handler" where
  "GithubAuthorize ol cfg r w =
     (let redirectURI = github_redirect_uri cfg r in
      case ol_state ol of
        Inl err \<Rightarrow> w
      | Inr state \<Rightarrow>
          http_redirect (ol_auth_url ol (github_oauth cfg redirectURI) state []) 302
            (set_flow_cookies cfg r state redirectURI w))"

record github_user_info =
  gu_avatar :: string
  gu_id :: int
  gu_location :: string
  gu_login :: string
  gu_name :: string
  gu_node_id :: string

record github_email =
  ge_email :: string
  ge_primary :: bool
  ge_verified :: bool
  ge_visibility :: string

text \<open>\<open>gc_get\<close> is a GET with an access token: the status and the body.\<close>

record github_client =
  gc_get :: "string \<Rightarrow> string \<Rightarrow> (nat \<times> bytes) res"
  gc_user_info :: "bytes \<Rightarrow> github_user_info res"
  gc_emails :: "bytes \<Rightarrow> github_email list res"

text \<open>The last primary address, or else the first address.\<close>

fun primary_email :: "github_email \<Rightarrow> github_email list \<Rightarrow> github_email" where
  "primary_email email [] = email"
| "primary_email email (e # es) = primary_email (if ge_primary e then e else email) es"

definition github_user ::
    "login_config \<Rightarrow> github_user_info \<Rightarrow> github_email \<Rightarrow> oauth_token \<Rightarrow> user" where
  "github_user cfg info email t =
     (let idToken = (case ot_id_token t of None \<Rightarrow> [] | Some i \<Rightarrow> i) in
      zero_user
       \<lparr>us_provider := ''github'', us_provider_id := lg_provider_id cfg, us_email := ge_email email,
        us_email_verified := ge_verified email, us_name := gu_name info,
        us_nick_name := gu_login info, us_user_id := itoa_int (gu_id info),
        us_avatar := gu_avatar info, us_location := gu_location info,
        us_expires_at := ot_expiry t, us_access_token := tryParseJWT (ot_access t),
        us_raw_access_token := ot_access t, us_id_token := tryParseJWT idToken,
        us_raw_id_token := idToken\<rparr>)"

text \<open>
  What the callback handlers do before they know the user: an early return is the writer
  they leave. The state and the redirect URI come from the cookies of the authorization.
\<close>

definition callback_token ::
    "oauth_lib \<Rightarrow> (string \<Rightarrow> oauth_config) \<Rightarrow> request \<Rightarrow> writer \<Rightarrow> writer + oauth_token" where
  "callback_token ol oauth r w =
     (case request_cookie r ''state'' of
        Inl err \<Rightarrow> Inl (write_header 400 w)
      | Inr state \<Rightarrow>
          (if query_get r ''state'' \<noteq> state then Inl (write_header 400 w)
           else
             (case request_cookie r ''redirect_uri'' of
                Inl err \<Rightarrow> Inl (write_header 400 w)
              | Inr redirectURI \<Rightarrow>
                  (case ol_exchange ol (oauth redirectURI) (query_get r ''code'') of
                     Inl err \<Rightarrow> Inl (write_header 400 w)
                   | Inr t \<Rightarrow> Inr t))))"

definition github_identity ::
    "github_client \<Rightarrow> login_config \<Rightarrow> oauth_token \<Rightarrow> writer \<Rightarrow> writer + user" where
  "github_identity gc cfg t w =
     (case gc_get gc ''https://api.github.com/user'' (ot_access t) of
        Inl err \<Rightarrow> Inl (write_header 400 w)
      | Inr (status, body) \<Rightarrow>
          (if status \<noteq> 200 then Inl (write_header 400 w)
           else
             (case gc_user_info gc body of
                Inl err \<Rightarrow> Inl (write_header 400 w)
              | Inr info \<Rightarrow>
                  (case gc_get gc ''https://api.github.com/user/emails'' (ot_access t) of
                     Inl err \<Rightarrow> Inl (write_header 400 w)
                   | Inr (status, body) \<Rightarrow>
                       (if status \<noteq> 200 then Inl (write_header 400 w)
                        else
                          (case gc_emails gc body of
                             Inl err \<Rightarrow> Inl w
                           | Inr [] \<Rightarrow> Inl (write_header 400 w)
                           | Inr (e # es) \<Rightarrow>
                               Inr (github_user cfg info (primary_email e (e # es)) t)))))))"

text \<open>
  The end of a login: the hooks, the cookies of an accepted user, and the way back, which is
  taken for a refused one as well. \<open>go\<close> sends the browser to a URL.
\<close>

definition finish_login ::
    "login_hooks \<Rightarrow> (user \<Rightarrow> nat res) \<Rightarrow> login_config \<Rightarrow> (string \<Rightarrow> writer \<Rightarrow> writer) \<Rightarrow>
     user \<Rightarrow> request \<Rightarrow> writer \<Rightarrow> writer \<times> hook_calls" where
  "finish_login h hash cfg go user r w =
     (let calls = handlePostAuthentication h user;
          ((proceed, _, user), calls') = handleMutatingPostAuthentication h user;
          (w, err) = (if proceed
             then (let (_, w, err) = SaveUser (lg_cookie cfg) hash (rq_host r) (lg_insecure cfg) user w
                   in (w, err))
             else (w, None)) in
      (case err of
         Some e \<Rightarrow> w
       | None \<Rightarrow>
           (case request_cookie r ''success_redirect_uri'' of
              Inr url \<Rightarrow> go url w
            | Inl _ \<Rightarrow>
                go (login_scheme cfg r @ ''://''
                     @ path_join [rq_host r, lg_path_prefix cfg, ''/auth/cookie/user'']) w),
       calls @ calls'))"

definition redirect_page :: "string \<Rightarrow> bytes" where
  "redirect_page url =
     ''<html><head><script>window.location.replace('' @ [CHR 0x27] @ url @ [CHR 0x27]
       @ '');</script></head></html>''"

definition GithubCallback ::
    "oauth_lib \<Rightarrow> github_client \<Rightarrow> login_hooks \<Rightarrow> (user \<Rightarrow> nat res) \<Rightarrow> login_config \<Rightarrow>
     request \<Rightarrow> writer \<Rightarrow> writer \<times> hook_calls" where
  "GithubCallback ol gc h hash cfg r w =
     (case callback_token ol (github_oauth cfg) r w of
        Inl w \<Rightarrow> (w, [])
      | Inr t \<Rightarrow>
          (case github_identity gc cfg t w of
             Inl w \<Rightarrow> (w, [])
           | Inr user \<Rightarrow>
               finish_login h hash cfg (\<lambda>url w. w_write (redirect_page url) w) user r w))"

section \<open>OpenID Connect\<close>

text \<open>
  A discovered provider: its endpoints, and its user info for a token, whose claims are
  decoded separately. Discovery is tried with the issuer and then with the issuer that has
  its final slash removed or added.
\<close>

record oidc_endpoint =
  oe_auth_url :: string
  oe_token_url :: string
  oe_user_info :: "oauth_token \<Rightarrow> bytes res"
  oe_claims :: "bytes \<Rightarrow> claims res"

definition createProvider :: "(string \<Rightarrow> oidc_endpoint res) \<Rightarrow> string \<Rightarrow> oidc_endpoint option" where
  "createProvider discover issuer =
     (case discover issuer of
        Inr p \<Rightarrow> Some p
      | Inl err \<Rightarrow>
          (let issuer = (if has_suffix issuer ''/'' then trim_suffix issuer ''/'' else issuer @ ''/'') in
           case discover issuer of Inr p \<Rightarrow> Some p | Inl err \<Rightarrow> None))"

definition oidc_oauth :: "oidc_endpoint \<Rightarrow> login_config \<Rightarrow> string \<Rightarrow> oauth_config" where
  "oidc_oauth p cfg redirectURI =
     \<lparr>ox_client_id = lg_client_id cfg, ox_client_secret = lg_client_secret cfg,
      ox_auth_url = oe_auth_url p, ox_token_url = oe_token_url p,
      ox_redirect = redirectURI, ox_scopes = [''openid'', ''profile'', ''email'']\<rparr>"

text \<open>\<open>raw\<close> is the raw query of the request, which is cut out of the request URI first.\<close>

definition oidc_redirect_uri :: "login_config \<Rightarrow> string \<Rightarrow> request \<Rightarrow> string" where
  "oidc_redirect_uri cfg raw r =
     login_scheme cfg r @ ''://'' @ rq_host r
       @ replace_first (replace_first (rq_uri r) (''?'' @ raw) []) ''authorize'' ''callback''"

definition provider_missing :: "writer \<Rightarrow> writer" where
  "provider_missing w = http_error ''oidc provider configuration error'' 405 w"

definition OidcAuthorize :: "oauth_lib \<Rightarrow> oidc_endpoint option \<Rightarrow> login_config \<Rightarrow> string \<Rightarrow> handler" where
  "OidcAuthorize ol provider cfg raw r w =
     (case provider of
        None \<Rightarrow> provider_missing w
      | Some p \<Rightarrow>
          (let redirectURI = oidc_redirect_uri cfg raw r in
           case ol_state ol of
             Inl err \<Rightarrow> w
           | Inr state \<Rightarrow>
               http_redirect (ol_auth_url ol (oidc_oauth p cfg redirectURI) state (lg_query cfg)) 302
                 (set_flow_cookies cfg r state redirectURI w)))"

definition oidc_identity ::
    "oidc_endpoint \<Rightarrow> login_config \<Rightarrow> oauth_token \<Rightarrow> writer \<Rightarrow> writer + user" where
  "oidc_identity p cfg t w =
     (let idToken = (case ot_id_token t of None \<Rightarrow> [] | Some i \<Rightarrow> i) in
      case oe_user_info p t of
        Inl err \<Rightarrow> Inl (write_header 400 w)
      | Inr info \<Rightarrow>
          (case oe_claims p info of
             Inl err \<Rightarrow> Inl (write_header 400 w)
           | Inr c \<Rightarrow>
               Inr ((claims_user ''oidc'' (lg_provider_id cfg) c)
                 \<lparr>us_expires_at := ot_expiry t, us_access_token := tryParseJWT (ot_access t),
                  us_raw_access_token := ot_access t, us_raw_id_token := idToken,
                  us_id_token := tryParseJWT idToken\<rparr>)))"

definition OidcCallback ::
    "oauth_lib \<Rightarrow> oidc_endpoint option \<Rightarrow> login_hooks \<Rightarrow> (user \<Rightarrow> nat res) \<Rightarrow> login_config \<Rightarrow>
     request \<Rightarrow> writer \<Rightarrow> writer \<times> hook_calls" where
  "OidcCallback ol provider h hash cfg r w =
     (case provider of
        None \<Rightarrow> (provider_missing w, [])
      | Some p \<Rightarrow>
          (case callback_token ol (oidc_oauth p cfg) r w of
             Inl w \<Rightarrow> (w, [])
           | Inr t \<Rightarrow>
               (case oidc_identity p cfg t w of
                  Inl w \<Rightarrow> (w, [])
                | Inr user \<Rightarrow> finish_login h hash cfg (\<lambda>url w. http_redirect url 302 w) user r w)))"

section \<open>The contract of a login callback\<close>

text \<open>
  Both callbacks are instances of one scheme: the token of a checked callback, the identity
  behind it, and the end of the login. The identity step must not touch the cookies.
\<close>

definition login_flow ::
    "(string \<Rightarrow> oauth_config) \<Rightarrow> (oauth_token \<Rightarrow> writer \<Rightarrow> writer + user) \<Rightarrow>
     (string \<Rightarrow> writer \<Rightarrow> writer) \<Rightarrow> oauth_lib \<Rightarrow> login_hooks \<Rightarrow> (user \<Rightarrow> nat res) \<Rightarrow>
     login_config \<Rightarrow> request \<Rightarrow> writer \<Rightarrow> writer \<times> hook_calls" where
  "login_flow oauth identity go ol h hash cfg r w =
     (case callback_token ol oauth r w of
        Inl w \<Rightarrow> (w, [])
      | Inr t \<Rightarrow>
          (case identity t w of
             Inl w \<Rightarrow> (w, [])
           | Inr user \<Rightarrow> finish_login h hash cfg go user r w))"

text \<open>A login that was checked: the state of the query is that of the cookie, the code was exchanged
  with the remembered redirect URI, and the cookies of \<open>w'\<close> are those that saving sets for the user
  whom the mutating hook answered when it was asked about the identity behind the token.\<close>

definition checked_login ::
    "(string \<Rightarrow> oauth_config) \<Rightarrow> (oauth_token \<Rightarrow> writer \<Rightarrow> writer + user) \<Rightarrow> oauth_lib \<Rightarrow> login_hooks \<Rightarrow>
     (user \<Rightarrow> nat res) \<Rightarrow> login_config \<Rightarrow> request \<Rightarrow> writer \<Rightarrow> writer \<Rightarrow> bool" where
  "checked_login oauth identity ol h hash cfg r w w' \<longleftrightarrow>
     request_cookie r ''state'' = Inr (query_get r ''state'')
     \<and> (\<exists>uri t user msg user' calls. request_cookie r ''redirect_uri'' = Inr uri
         \<and> ol_exchange ol (oauth uri) (query_get r ''code'') = Inr t
         \<and> identity t w = Inr user
         \<and> handleMutatingPostAuthentication h user = ((True, msg, user'), calls)
         \<and> w_cookies w' = w_cookies (fst (snd (SaveUser (lg_cookie cfg) hash (rq_host r) (lg_insecure cfg) user' w))))"

locale login_callback =
  fixes oauth :: "string \<Rightarrow> oauth_config"
    and identity :: "oauth_token \<Rightarrow> writer \<Rightarrow> writer + user"
    and go :: "string \<Rightarrow> writer \<Rightarrow> writer"
  assumes identity_cookies: "identity t w = Inl w' \<Longrightarrow> w_cookies w' = w_cookies w"
    and go_cookies: "w_cookies (go url w) = w_cookies w"
begin

lemma callback_token_Inl: "callback_token ol oauth r w = Inl w' \<Longrightarrow> w' = write_header 400 w"
  by (auto simp: callback_token_def split: sum.splits if_splits)

lemma callback_token_Inr:
  "callback_token ol oauth r w = Inr t \<Longrightarrow>
    \<exists>uri. request_cookie r ''state'' = Inr (query_get r ''state'')
      \<and> request_cookie r ''redirect_uri'' = Inr uri
      \<and> ol_exchange ol (oauth uri) (query_get r ''code'') = Inr t"
  by (auto simp: callback_token_def split: sum.splits if_splits)

lemma finish_login_cookies:
  assumes "finish_login h hash cfg go user r w = (w', calls)" "w_cookies w' \<noteq> w_cookies w"
  shows "\<exists>msg user' calls'. handleMutatingPostAuthentication h user = ((True, msg, user'), calls')
    \<and> w_cookies w' = w_cookies (fst (snd (SaveUser (lg_cookie cfg) hash (rq_host r) (lg_insecure cfg) user' w)))"
proof -
  obtain proceed msg user' calls' where hook: "handleMutatingPostAuthentication h user = ((proceed, msg, user'), calls')"
    by (metis prod.collapse)
  show ?thesis
  proof (cases proceed)
    case True
    obtain u w1 err where save: "SaveUser (lg_cookie cfg) hash (rq_host r) (lg_insecure cfg) user' w = (u, w1, err)"
      by (cases "SaveUser (lg_cookie cfg) hash (rq_host r) (lg_insecure cfg) user' w")
    with assms(1) hook True have "w_cookies w' = w_cookies w1"
      by (auto simp: finish_login_def go_cookies Let_def split: option.splits sum.splits)
    with hook True save show ?thesis by simp
  next
    case False
    with assms hook show ?thesis
      by (auto simp: finish_login_def go_cookies Let_def split: sum.splits)
  qed
qed

text \<open>A cookie is set only for a user whose state was checked and whom the hooks accept.\<close>

lemma callback_sets_cookies:
  assumes "login_flow oauth identity go ol h hash cfg r w = (w', calls)" "w_cookies w' \<noteq> w_cookies w"
  shows "checked_login oauth identity ol h hash cfg r w w'"
proof (cases "callback_token ol oauth r w")
  case (Inl w0)
  with assms show ?thesis by (auto simp: login_flow_def dest: callback_token_Inl)
next
  case (Inr t)
  show ?thesis
  proof (cases "identity t w")
    case (Inl w0)
    with assms \<open>callback_token ol oauth r w = Inr t\<close> identity_cookies show ?thesis
      by (auto simp: login_flow_def)
  next
    case i: (Inr user)
    with assms Inr have "finish_login h hash cfg go user r w = (w', calls)" by (simp add: login_flow_def)
    from finish_login_cookies [OF this assms(2)] callback_token_Inr [OF Inr] i show ?thesis
      unfolding checked_login_def by blast
  qed
qed

end

lemma github_identity_Inl:
  "github_identity gc cfg t w = Inl w' \<Longrightarrow> w' = w \<or> w' = write_header 400 w"
  by (auto simp: github_identity_def split: sum.splits prod.splits if_splits list.splits)

interpretation github_login: login_callback "github_oauth cfg" "github_identity gc cfg"
    "\<lambda>url w. w_write (redirect_page url) w" for cfg gc
  by unfold_locales (auto dest: github_identity_Inl simp: w_write_def Let_def)

interpretation oidc_login: login_callback "oidc_oauth p cfg" "oidc_identity p cfg"
    "\<lambda>url w. http_redirect url 302 w" for p cfg
  by unfold_locales
    (auto simp: oidc_identity_def http_redirect_def Let_def split: sum.splits)

lemma GithubCallback_flow:
  "GithubCallback ol gc h hash cfg
    = login_flow (github_oauth cfg) (github_identity gc cfg)
        (\<lambda>url w. w_write (redirect_page url) w) ol h hash cfg"
  by (intro ext) (simp add: GithubCallback_def login_flow_def)

lemma OidcCallback_flow:
  "OidcCallback ol (Some p) h hash cfg
    = login_flow (oidc_oauth p cfg) (oidc_identity p cfg) (\<lambda>url w. http_redirect url 302 w) ol h hash cfg"
  by (intro ext) (simp add: OidcCallback_def login_flow_def)

lemma set_flow_cookies_cookies:
  "w_cookies (set_flow_cookies cfg r state uri w) = w_cookies w
     @ [flow_cookie cfg r ''state'' state, flow_cookie cfg r ''redirect_uri'' uri]
     @ (if query_get r ''redirect_uri'' = [] then []
        else [flow_cookie cfg r ''success_redirect_uri'' (query_get r ''redirect_uri'')])"
  by (simp add: set_flow_cookies_def Let_def)

section \<open>Properties\<close>

lemma provider_missing_cookies [simp]: "w_cookies (provider_missing w) = w_cookies w"
  by (simp add: provider_missing_def http_error_def w_write_def Let_def)

text \<open>C11: no login without a checked state: a callback of either provider sets a cookie only if the
  state in the query equals the state of the cookie set when the login began, the code was exchanged
  with the redirect URI remembered then, the provider named the user for the token of this exchange,
  and the mutating hook, asked about exactly this user, did not refuse him; the cookies are those of
  the user the hook answered. An OpenID Connect callback without a provider sets none.\<close>

theorem callbacks_check_state:
  "(w' = fst (GithubCallback ol gc h hash cfg r w) \<and> w_cookies w' \<noteq> w_cookies w \<longrightarrow>
      checked_login (github_oauth cfg) (github_identity gc cfg) ol h hash cfg r w w')
   \<and> (w' = fst (OidcCallback ol provider h hash cfg r w) \<and> w_cookies w' \<noteq> w_cookies w \<longrightarrow>
      (\<exists>p. provider = Some p \<and> checked_login (oidc_oauth p cfg) (oidc_identity p cfg) ol h hash cfg r w w'))"
proof (intro conjI impI)
  assume g: "w' = fst (GithubCallback ol gc h hash cfg r w) \<and> w_cookies w' \<noteq> w_cookies w"
  then obtain calls where "login_flow (github_oauth cfg) (github_identity gc cfg)
      (\<lambda>url w. w_write (redirect_page url) w) ol h hash cfg r w = (w', calls)"
    by (metis GithubCallback_flow prod.collapse)
  from github_login.callback_sets_cookies [OF this] g
  show "checked_login (github_oauth cfg) (github_identity gc cfg) ol h hash cfg r w w'" by blast
next
  assume o: "w' = fst (OidcCallback ol provider h hash cfg r w) \<and> w_cookies w' \<noteq> w_cookies w"
  then obtain p where p: "provider = Some p" by (cases provider) (auto simp: OidcCallback_def)
  with o obtain calls where "login_flow (oidc_oauth p cfg) (oidc_identity p cfg)
      (\<lambda>url w. http_redirect url 302 w) ol h hash cfg r w = (w', calls)"
    by (metis OidcCallback_flow prod.collapse)
  from oidc_login.callback_sets_cookies [OF this] o p
  show "\<exists>p. provider = Some p \<and> checked_login (oidc_oauth p cfg) (oidc_identity p cfg) ol h hash cfg r w w'" by blast
qed

definition sample_login :: login_config where
  "sample_login = \<lparr>lg_client_id = ''id'', lg_client_secret = ''secret'', lg_provider_id = ''github'',
     lg_path_prefix = ''app/main'', lg_insecure = False, lg_force_https = False,
     lg_cookie = sample_cookies, lg_query = [], lg_issuer = ''https://idp''\<rparr>"

definition sample_oauth :: oauth_lib where
  "sample_oauth = \<lparr>ol_auth_url = (\<lambda>c s ps. ox_auth_url c @ ''?state='' @ s),
     ol_exchange = (\<lambda>c code. Inr \<lparr>ot_access = ''at'', ot_expiry = 0, ot_id_token = None\<rparr>),
     ol_state = Inr ''xyz''\<rparr>"

definition sample_endpoint :: oidc_endpoint where
  "sample_endpoint = \<lparr>oe_auth_url = ''https://idp/auth'', oe_token_url = ''https://idp/token'',
     oe_user_info = (\<lambda>_. Inr ''{}''),
     oe_claims = (\<lambda>_. Inr \<lparr>cm_sub = ''7'', cm_name = [], cm_given_name = [], cm_family_name = [],
         cm_picture = [], cm_email = [], cm_email_verified = False, cm_locale = [],
         cm_hosted_domain = []\<rparr>)\<rparr>"

definition sample_callback :: request where
  "sample_callback = empty_request\<lparr>rq_query := [(''state'', ''xyz''), (''code'', ''c'')],
     rq_cookies := [(''state'', ''xyz''), (''redirect_uri'', ''http://h/cb'')]\<rparr>"

theorem callbacks_check_state_witness:
  "w_cookies (fst (OidcCallback sample_oauth (Some sample_endpoint) sample_hooks (\<lambda>_. Inr 0) sample_login
      sample_callback new_writer)) \<noteq> []
   \<and> checked_login (oidc_oauth sample_endpoint sample_login) (oidc_identity sample_endpoint sample_login)
      sample_oauth sample_hooks (\<lambda>_. Inr 0) sample_login sample_callback new_writer
      (fst (OidcCallback sample_oauth (Some sample_endpoint) sample_hooks (\<lambda>_. Inr 0) sample_login
        sample_callback new_writer))"
proof -
  let ?w' = "fst (OidcCallback sample_oauth (Some sample_endpoint) sample_hooks (\<lambda>_. Inr 0) sample_login
      sample_callback new_writer)"
  have w': "w_cookies ?w' \<noteq> w_cookies new_writer"
    by (simp add: OidcCallback_def callback_token_def oidc_identity_def finish_login_def
        sample_oauth_def sample_endpoint_def sample_callback_def sample_login_def sample_hooks_def
        sample_cookies_def SaveUser_def new_writer_def request_cookie_def query_get_def
        handleMutatingPostAuthentication_def http_redirect_def Let_def)
  then have "checked_login (oidc_oauth sample_endpoint sample_login) (oidc_identity sample_endpoint sample_login)
      sample_oauth sample_hooks (\<lambda>_. Inr 0) sample_login sample_callback new_writer ?w'"
    using callbacks_check_state [where w' = ?w' and h = sample_hooks and hash = "\<lambda>_. Inr 0"
        and ol = sample_oauth and provider = "Some sample_endpoint" and cfg = sample_login
        and r = sample_callback and w = new_writer] by auto
  with w' show ?thesis by (simp add: new_writer_def)
qed

text \<open>what an authorization remembers is what its callback checks: a browser that returns
  with the cookies of the authorization and the state it was redirected with passes the
  checks, and the code is exchanged with the redirect URI the provider was given.\<close>

theorem authorize_callback_roundtrip:
  assumes "ol_state ol = Inr state"
    and "rq_cookies r' = map (\<lambda>c. (ck_name c, ck_value c)) (w_cookies (GithubAuthorize ol cfg r new_writer))"
    and "query_get r' ''state'' = state"
    and "ol_exchange ol (github_oauth cfg (github_redirect_uri cfg r)) (query_get r' ''code'') = Inr t"
  shows "callback_token ol (github_oauth cfg) r' w = Inr t
    \<and> response_status (GithubAuthorize ol cfg r new_writer) = 302
    \<and> header_get (response_header (GithubAuthorize ol cfg r new_writer)) ''Location''
        = ol_auth_url ol (github_oauth cfg (github_redirect_uri cfg r)) state []"
proof -
  let ?w = "GithubAuthorize ol cfg r new_writer"
  have cookies: "w_cookies ?w =
      [flow_cookie cfg r ''state'' state, flow_cookie cfg r ''redirect_uri'' (github_redirect_uri cfg r)]
      @ (if query_get r ''redirect_uri'' = [] then []
         else [flow_cookie cfg r ''success_redirect_uri'' (query_get r ''redirect_uri'')])"
    by (simp add: GithubAuthorize_def http_redirect_def set_flow_cookies_cookies assms(1)
        new_writer_def Let_def)
  have "request_cookie r' ''state'' = Inr state"
    "request_cookie r' ''redirect_uri'' = Inr (github_redirect_uri cfg r)"
    using assms(2) by (simp_all add: request_cookie_def cookies flow_cookie_def)
  then have "callback_token ol (github_oauth cfg) r' w = Inr t"
    by (simp add: callback_token_def assms(3,4))
  moreover have "w_sent (set_flow_cookies cfg r state uri new_writer) = None" for uri
    by (simp add: set_flow_cookies_def new_writer_def Let_def)
  ultimately show ?thesis
    by (simp add: GithubAuthorize_def http_redirect_def assms(1) response_status_def
        response_header_def write_header_sent Let_def)
qed

theorem authorize_callback_roundtrip_witness:
  "\<exists>t. callback_token sample_oauth (github_oauth sample_login)
     (empty_request\<lparr>rq_query := [(''state'', ''xyz'')],
        rq_cookies := map (\<lambda>c. (ck_name c, ck_value c))
          (w_cookies (GithubAuthorize sample_oauth sample_login empty_request new_writer))\<rparr>) new_writer
   = Inr t"
  using authorize_callback_roundtrip [where ol = sample_oauth and state = "''xyz''" and r = empty_request
      and cfg = sample_login and w = new_writer
      and t = "\<lparr>ot_access = ''at'', ot_expiry = 0, ot_id_token = None\<rparr>"
      and r' = "empty_request\<lparr>rq_query := [(''state'', ''xyz'')],
        rq_cookies := map (\<lambda>c. (ck_name c, ck_value c))
          (w_cookies (GithubAuthorize sample_oauth sample_login empty_request new_writer))\<rparr>"]
  by (simp add: sample_oauth_def query_get_def)

end
