(* ===== verification/Pool.thy ===== *)
theory Pool
  imports HandlerBase
begin

text \<open>
  The pools of objects (pkg/pool/pool.go): the contexts the resolver works with and the objects a
  planned operation needs, which the handlers take for a request and give back after it. Pooled objects
  are pointers: they live in a store, and the pool holds addresses. The second part says which request of the
  client the context of a handler names, and what the hooks make of it (pkg/hooks, pkg/apihandler).
\<close>

section \<open>Contexts\<close>

text \<open>
  A \<open>context.Context\<close>: what ends it and its values, the latest of a key first visible. A value may be a
  pointer to a request that is nil.
\<close>

datatype context_base = Background | OfRequest nat

datatype ctx_value = ContextRequest "request option" | ContextUser user | ContextOperation "string \<times> op_type"

record go_context =
  gc_base :: context_base
  gc_values :: "string \<Rightarrow> ctx_value option"

definition background :: go_context where
  "background = \<lparr>gc_base = Background, gc_values = (\<lambda>_. None)\<rparr>"

definition WithValue :: "string \<Rightarrow> ctx_value \<Rightarrow> go_context \<Rightarrow> go_context" where
  "WithValue key v ctx = ctx\<lparr>gc_values := (gc_values ctx)(key \<mapsto> v)\<rparr>"

definition ClientRequestKey :: string where "ClientRequestKey = ''__wg_clientRequest''"

definition UserFromContext :: "go_context \<Rightarrow> user option" where
  "UserFromContext ctx = (case gc_values ctx ''user'' of Some (ContextUser user) \<Rightarrow> Some user | _ \<Rightarrow> None)"

text \<open>The context of the resolver; \<open>rx_rest\<close> is what its library keeps beside these fields.\<close>

record 'o resolve_ctx =
  rx_context :: "go_context option"
  rx_header :: header
  rx_renames :: "(string \<times> string) list"
  rx_variables :: bytes
  rx_rest :: 'o

record 'o shared =
  sh_doc :: 'o
  sh_planner :: 'o
  sh_parser :: 'o
  sh_printer :: 'o
  sh_hash :: 'o
  sh_validation :: 'o
  sh_normalizer :: 'o
  sh_postprocess :: 'o
  sh_report :: 'o
  sh_ctx :: "'o resolve_ctx"

text \<open>The objects of the GraphQL library: how they are made, configured and reset; \<open>'g\<close> is the configuration
  of a planner.\<close>

record ('o, 'g) pool_lib =
  pl_new_context :: "go_context \<Rightarrow> 'o resolve_ctx"
  pl_free :: "'o resolve_ctx \<Rightarrow> 'o resolve_ctx"
  pl_new_document :: 'o
  pl_reset_document :: "'o \<Rightarrow> 'o"
  pl_new_planner :: "go_context \<Rightarrow> 'g \<Rightarrow> 'o"
  pl_set_config :: "'g \<Rightarrow> 'o \<Rightarrow> 'o"
  pl_new_parser :: 'o
  pl_new_printer :: 'o
  pl_new_hash :: 'o
  pl_reset_hash :: "'o \<Rightarrow> 'o"
  pl_new_validation :: 'o
  pl_new_normalizer :: "bool \<Rightarrow> bool \<Rightarrow> 'o"
  pl_new_postprocess :: 'o
  pl_new_report :: 'o
  pl_reset_report :: "'o \<Rightarrow> 'o"

section \<open>sync.Pool\<close>

text \<open>
  The objects by address, and the addresses in the pool. Which object a \<open>Get\<close> returns, or that it returns
  none, is the choice of the runtime.
\<close>

record 'a objects =
  ob_store :: "nat \<Rightarrow> 'a option"
  ob_pool :: "nat list"
  ob_next :: nat

definition no_objects :: "'a objects" where
  "no_objects = \<lparr>ob_store = (\<lambda>_. None), ob_pool = [], ob_next = 0\<rparr>"

definition sync_get :: "nat option \<Rightarrow> 'a objects \<Rightarrow> nat option \<times> 'a objects" where
  "sync_get choice st =
     (case choice of
        None \<Rightarrow> (None, st)
      | Some i \<Rightarrow>
          (if i < length (ob_pool st)
           then (Some (ob_pool st ! i), st\<lparr>ob_pool := take i (ob_pool st) @ drop (Suc i) (ob_pool st)\<rparr>)
           else (None, st)))"

definition sync_put :: "nat \<Rightarrow> 'a objects \<Rightarrow> 'a objects" where
  "sync_put a st = st\<lparr>ob_pool := a # ob_pool st\<rparr>"

definition allocate :: "'a \<Rightarrow> 'a objects \<Rightarrow> nat \<times> 'a objects" where
  "allocate x st = (ob_next st, st\<lparr>ob_store := (ob_store st)(ob_next st \<mapsto> x), ob_next := Suc (ob_next st)\<rparr>)"

definition modify :: "nat \<Rightarrow> ('a \<Rightarrow> 'a) \<Rightarrow> 'a objects \<Rightarrow> 'a objects" where
  "modify a f st = st\<lparr>ob_store := (ob_store st)(a := map_option f (ob_store st a))\<rparr>"

section \<open>Taking and giving back\<close>

text \<open>A request is given with its context; \<open>renames\<close> is the \<open>Config\<close>.\<close>

definition renew_ctx :: "go_context \<Rightarrow> request \<Rightarrow> (string \<times> string) list \<Rightarrow> 'o resolve_ctx \<Rightarrow> 'o resolve_ctx" where
  "renew_ctx ctx r renames x = x\<lparr>rx_context := Some ctx, rx_header := rq_header r, rx_renames := renames\<rparr>"

definition GetCtx ::
    "('o, 'g) pool_lib \<Rightarrow> nat option \<Rightarrow> request \<Rightarrow> go_context \<Rightarrow> request option \<Rightarrow> (string \<times> string) list
      \<Rightarrow> 'o resolve_ctx objects \<Rightarrow> nat \<times> 'o resolve_ctx objects" where
  "GetCtx lib choice r rctx clientRequest renames st =
     (let (next_ctx, st) = sync_get choice st;
          ctx = WithValue ClientRequestKey (ContextRequest clientRequest) rctx in
      case next_ctx of
        None \<Rightarrow> allocate ((pl_new_context lib ctx)\<lparr>rx_header := rq_header r, rx_renames := renames\<rparr>) st
      | Some a \<Rightarrow> (a, modify a (renew_ctx ctx r renames) st))"

definition PutCtx :: "('o, 'g) pool_lib \<Rightarrow> nat \<Rightarrow> 'o resolve_ctx objects \<Rightarrow> 'o resolve_ctx objects" where
  "PutCtx lib a st = sync_put a (modify a (pl_free lib) st)"

definition shared_Reset :: "('o, 'g) pool_lib \<Rightarrow> 'o shared \<Rightarrow> 'o shared" where
  "shared_Reset lib s =
     s\<lparr>sh_doc := pl_reset_document lib (sh_doc s), sh_hash := pl_reset_hash lib (sh_hash s),
       sh_report := pl_reset_report lib (sh_report s), sh_ctx := pl_free lib (sh_ctx s)\<rparr>"

definition new_shared :: "('o, 'g) pool_lib \<Rightarrow> go_context \<Rightarrow> 'g \<Rightarrow> 'o resolve_ctx \<Rightarrow> 'o shared" where
  "new_shared lib ctx planConfig c =
     \<lparr>sh_doc = pl_new_document lib, sh_planner = pl_new_planner lib ctx planConfig, sh_parser = pl_new_parser lib,
      sh_printer = pl_new_printer lib, sh_hash = pl_new_hash lib, sh_validation = pl_new_validation lib,
      sh_normalizer = pl_new_normalizer lib True True, sh_postprocess = pl_new_postprocess lib,
      sh_report = pl_new_report lib, sh_ctx = c\<rparr>"

definition GetShared ::
    "('o, 'g) pool_lib \<Rightarrow> nat option \<Rightarrow> go_context \<Rightarrow> 'g \<Rightarrow> (string \<times> string) list
      \<Rightarrow> 'o shared objects \<Rightarrow> nat \<times> 'o shared objects" where
  "GetShared lib choice ctx planConfig renames st =
     (let (pooled, st) = sync_get choice st in
      case pooled of
        Some a \<Rightarrow>
          (a, modify a (\<lambda>s. s\<lparr>sh_planner := pl_set_config lib planConfig (sh_planner s),
             sh_ctx := (sh_ctx s)\<lparr>rx_context := Some ctx, rx_renames := renames\<rparr>\<rparr>) st)
      | None \<Rightarrow>
          allocate (new_shared lib ctx planConfig ((pl_new_context lib ctx)\<lparr>rx_renames := renames\<rparr>)) st)"

definition GetSharedFromRequest ::
    "('o, 'g) pool_lib \<Rightarrow> nat option \<Rightarrow> go_context \<Rightarrow> request \<Rightarrow> go_context \<Rightarrow> 'g \<Rightarrow> (string \<times> string) list
      \<Rightarrow> 'o shared objects \<Rightarrow> nat \<times> 'o shared objects" where
  "GetSharedFromRequest lib choice ctx r rctx planConfig renames st =
     (let (pooled, st) = sync_get choice st;
          c = WithValue ClientRequestKey (ContextRequest (Some r)) rctx in
      case pooled of
        Some a \<Rightarrow>
          (a, modify a (\<lambda>s. s\<lparr>sh_planner := pl_set_config lib planConfig (sh_planner s),
             sh_ctx := renew_ctx c r renames (sh_ctx s)\<rparr>) st)
      | None \<Rightarrow>
          allocate (new_shared lib ctx planConfig
            ((pl_new_context lib c)\<lparr>rx_header := rq_header r, rx_renames := renames\<rparr>)) st)"

definition PutShared :: "('o, 'g) pool_lib \<Rightarrow> nat \<Rightarrow> 'o shared objects \<Rightarrow> 'o shared objects" where
  "PutShared lib a st = sync_put a (modify a (shared_Reset lib) st)"

section \<open>The handlers on a pool\<close>

text \<open>
  Users (goroutines that serve a request, by number) take an object for a request, work on it through the
  pointer and give it back, in any interleaving. A step a user cannot make is \<open>None\<close>: the handlers take once and
  give back what they have taken, once, when they return.
\<close>

datatype ('a, 'q) pool_event =
    TakeObject nat "nat option" 'q
  | UseObject nat "'a \<Rightarrow> 'a"
  | GiveBack nat

record 'a pool_run =
  pr_objects :: "'a objects"
  pr_held :: "nat \<Rightarrow> nat option"

definition empty_run :: "'a pool_run" where
  "empty_run = \<lparr>pr_objects = no_objects, pr_held = (\<lambda>_. None)\<rparr>"

fun pool_step ::
    "(nat option \<Rightarrow> 'q \<Rightarrow> 'a objects \<Rightarrow> nat \<times> 'a objects) \<Rightarrow> (nat \<Rightarrow> 'a objects \<Rightarrow> 'a objects)
      \<Rightarrow> ('a, 'q) pool_event \<Rightarrow> 'a pool_run \<Rightarrow> 'a pool_run option" where
  "pool_step get put (TakeObject u choice q) s =
     (case pr_held s u of
        Some _ \<Rightarrow> None
      | None \<Rightarrow>
          (let (a, st) = get choice q (pr_objects s) in
           Some \<lparr>pr_objects = st, pr_held = (pr_held s)(u \<mapsto> a)\<rparr>))"
| "pool_step get put (UseObject u f) s =
     (case pr_held s u of
        None \<Rightarrow> None
      | Some a \<Rightarrow> Some (s\<lparr>pr_objects := modify a f (pr_objects s)\<rparr>))"
| "pool_step get put (GiveBack u) s =
     (case pr_held s u of
        None \<Rightarrow> None
      | Some a \<Rightarrow> Some \<lparr>pr_objects = put a (pr_objects s), pr_held = (pr_held s)(u := None)\<rparr>)"

fun pool_steps where
  "pool_steps get put [] s = Some s"
| "pool_steps get put (e # es) s =
     (case pool_step get put e s of None \<Rightarrow> None | Some s \<Rightarrow> pool_steps get put es s)"

text \<open>The reference: every request gets a new object of its own, which nobody else ever sees.\<close>

fun fresh_step :: "('q \<Rightarrow> 'a) \<Rightarrow> ('a, 'q) pool_event \<Rightarrow> (nat \<Rightarrow> 'a option) \<Rightarrow> (nat \<Rightarrow> 'a option) option" where
  "fresh_step new (TakeObject u choice q) own =
     (case own u of Some _ \<Rightarrow> None | None \<Rightarrow> Some (own(u \<mapsto> new q)))"
| "fresh_step new (UseObject u f) own =
     (case own u of None \<Rightarrow> None | Some x \<Rightarrow> Some (own(u \<mapsto> f x)))"
| "fresh_step new (GiveBack u) own =
     (case own u of None \<Rightarrow> None | Some x \<Rightarrow> Some (own(u := None)))"

fun fresh_steps where
  "fresh_steps new [] own = Some own"
| "fresh_steps new (e # es) own =
     (case fresh_step new e own of None \<Rightarrow> None | Some own \<Rightarrow> fresh_steps new es own)"

text \<open>What a user sees through its pointer.\<close>

definition seen :: "'a pool_run \<Rightarrow> nat \<Rightarrow> 'a option" where
  "seen s u = (case pr_held s u of None \<Rightarrow> None | Some a \<Rightarrow> ob_store (pr_objects s) a)"

text \<open>
  An address is in the pool or held by one user, and what lies there was made by the pool; \<open>good\<close> is what all
  uses keep.
\<close>

definition well_pooled :: "('a \<Rightarrow> bool) \<Rightarrow> ('a \<Rightarrow> 'a) \<Rightarrow> 'a pool_run \<Rightarrow> bool" where
  "well_pooled good reset s \<longleftrightarrow>
     distinct (ob_pool (pr_objects s))
     \<and> (\<forall>a \<in> set (ob_pool (pr_objects s)). a < ob_next (pr_objects s)
          \<and> (\<exists>x. good x \<and> ob_store (pr_objects s) a = Some (reset x)))
     \<and> (\<forall>u a. pr_held s u = Some a \<longrightarrow> a < ob_next (pr_objects s) \<and> a \<notin> set (ob_pool (pr_objects s))
          \<and> (\<exists>x. good x \<and> ob_store (pr_objects s) a = Some x))
     \<and> (\<forall>u v a. pr_held s u = Some a \<longrightarrow> pr_held s v = Some a \<longrightarrow> u = v)"

section \<open>Pooling is transparent\<close>

lemma modify_simps [simp]:
  "ob_pool (modify a f st) = ob_pool st" "ob_next (modify a f st) = ob_next st"
  "ob_store (modify a f st) b = (if b = a then map_option f (ob_store st a) else ob_store st b)"
  by (auto simp: modify_def)

lemma sync_put_simps [simp]:
  "ob_pool (sync_put a st) = a # ob_pool st" "ob_next (sync_put a st) = ob_next st"
  "ob_store (sync_put a st) = ob_store st"
  by (auto simp: sync_put_def)

lemma sync_get_cases:
  assumes "distinct (ob_pool st)"
  obtains "sync_get choice st = (None, st)"
  | a rest where "sync_get choice st = (Some a, st\<lparr>ob_pool := rest\<rparr>)" "a \<in> set (ob_pool st)"
      "distinct rest" "set rest = set (ob_pool st) - {a}"
proof (cases "\<exists>i. choice = Some i \<and> i < length (ob_pool st)")
  case True
  then obtain i where i: "choice = Some i" "i < length (ob_pool st)" by blast
  let ?rest = "take i (ob_pool st) @ drop (Suc i) (ob_pool st)"
  have split: "ob_pool st = take i (ob_pool st) @ ob_pool st ! i # drop (Suc i) (ob_pool st)"
    by (rule id_take_nth_drop [OF i(2)])
  with assms have "distinct (take i (ob_pool st) @ ob_pool st ! i # drop (Suc i) (ob_pool st))" by simp
  then have rest: "distinct ?rest" "ob_pool st ! i \<notin> set ?rest" by auto
  have "set (ob_pool st) = insert (ob_pool st ! i) (set ?rest)"
    by (subst split) auto
  with rest have "set ?rest = set (ob_pool st) - {ob_pool st ! i}" by blast
  then show ?thesis using i rest that(2) [of "ob_pool st ! i" ?rest] by (simp add: sync_get_def)
next
  case False
  then show ?thesis using that(1) by (auto simp: sync_get_def split: option.splits)
qed

lemma well_pooledI:
  assumes "distinct (ob_pool (pr_objects s))"
    "\<And>a. a \<in> set (ob_pool (pr_objects s)) \<Longrightarrow> a < ob_next (pr_objects s)
       \<and> (\<exists>x. good x \<and> ob_store (pr_objects s) a = Some (reset x))"
    "\<And>u a. pr_held s u = Some a \<Longrightarrow> a < ob_next (pr_objects s) \<and> a \<notin> set (ob_pool (pr_objects s))
       \<and> (\<exists>x. good x \<and> ob_store (pr_objects s) a = Some x)"
    "\<And>u v a. pr_held s u = Some a \<Longrightarrow> pr_held s v = Some a \<Longrightarrow> u = v"
  shows "well_pooled good reset s"
  using assms unfolding well_pooled_def by blast

lemma well_pooled_distinct: "well_pooled good reset s \<Longrightarrow> distinct (ob_pool (pr_objects s))"
  by (simp add: well_pooled_def)

lemma well_pooled_pool:
  assumes "well_pooled good reset s" "a \<in> set (ob_pool (pr_objects s))"
  shows "a < ob_next (pr_objects s)" "\<exists>x. good x \<and> ob_store (pr_objects s) a = Some (reset x)"
  using assms unfolding well_pooled_def by blast+

lemma well_pooled_held:
  assumes "well_pooled good reset s" "pr_held s u = Some a"
  shows "a < ob_next (pr_objects s)" "a \<notin> set (ob_pool (pr_objects s))"
    "\<exists>x. good x \<and> ob_store (pr_objects s) a = Some x"
  using assms unfolding well_pooled_def by blast+

lemma well_pooled_one:
  "well_pooled good reset s \<Longrightarrow> pr_held s u = Some a \<Longrightarrow> pr_held s v = Some a \<Longrightarrow> u = v"
  unfolding well_pooled_def by blast

locale object_pool =
  fixes get :: "nat option \<Rightarrow> 'q \<Rightarrow> 'a objects \<Rightarrow> nat \<times> 'a objects"
    and put :: "nat \<Rightarrow> 'a objects \<Rightarrow> 'a objects"
    and new :: "'q \<Rightarrow> 'a"
    and renew :: "'q \<Rightarrow> 'a \<Rightarrow> 'a"
    and reset :: "'a \<Rightarrow> 'a"
  assumes get_pooled: "sync_get choice st = (Some a, st') \<Longrightarrow> get choice q st = (a, modify a (renew q) st')"
    and get_new: "sync_get choice st = (None, st') \<Longrightarrow> get choice q st = allocate (new q) st'"
    and put_resets: "put a st = sync_put a (modify a reset st)"
begin

lemma take_step:
  assumes wp: "well_pooled good reset s" and idle: "pr_held s u = None" and "\<And>q. good (new q)"
    and "\<And>x q. good x \<Longrightarrow> renew q (reset x) = new q" and get: "get choice q (pr_objects s) = (a, st)"
  shows "well_pooled good reset \<lparr>pr_objects = st, pr_held = (pr_held s)(u \<mapsto> a)\<rparr>"
    and "seen \<lparr>pr_objects = st, pr_held = (pr_held s)(u \<mapsto> a)\<rparr> = (seen s)(u \<mapsto> new q)"
proof -
  note held = well_pooled_held [OF wp] and pool = well_pooled_pool [OF wp] and one = well_pooled_one [OF wp]
  have "ob_store st a = Some (new q) \<and> a \<notin> set (ob_pool st) \<and> a \<notin> ran (pr_held s)
    \<and> a < ob_next st \<and> ob_next (pr_objects s) \<le> ob_next st \<and> distinct (ob_pool st)
    \<and> set (ob_pool st) \<subseteq> set (ob_pool (pr_objects s)) \<and> (\<forall>b. b < ob_next (pr_objects s) \<longrightarrow> b \<noteq> a \<longrightarrow> ob_store st b = ob_store (pr_objects s) b)"
  proof (cases rule: sync_get_cases [OF well_pooled_distinct [OF wp], where choice = choice])
    case 1
    with get have "allocate (new q) (pr_objects s) = (a, st)" by (simp add: get_new)
    moreover have "ob_next (pr_objects s) \<notin> set (ob_pool (pr_objects s))" using pool(1) by blast
    moreover have "pr_held s v \<noteq> Some (ob_next (pr_objects s))" for v using held(1) by blast
    ultimately show ?thesis using well_pooled_distinct [OF wp] by (auto simp: allocate_def ran_def)
  next
    case (2 b rest)
    with get have st: "a = b" "st = modify b (renew q) ((pr_objects s)\<lparr>ob_pool := rest\<rparr>)"
      by (auto simp: get_pooled)
    from pool(2) [OF 2(2)] obtain x where "good x" "ob_store (pr_objects s) b = Some (reset x)" by blast
    with 2 st pool(1) [OF 2(2)] held(2) assms(4) show ?thesis by (auto simp: ran_def)
  qed
  then have new: "ob_store st a = Some (new q)" "a \<notin> set (ob_pool st)" "\<And>v. pr_held s v \<noteq> Some a"
    "a < ob_next st" "ob_next (pr_objects s) \<le> ob_next st" "distinct (ob_pool st)"
    "\<And>b. b \<in> set (ob_pool st) \<Longrightarrow> b \<in> set (ob_pool (pr_objects s))"
    "\<And>b. b < ob_next (pr_objects s) \<Longrightarrow> b \<noteq> a \<Longrightarrow> ob_store st b = ob_store (pr_objects s) b"
    by (auto simp: ran_def)
  have old: "b < ob_next st \<and> ob_store st b = ob_store (pr_objects s) b"
    if "b < ob_next (pr_objects s)" "b \<noteq> a" for b
    using that new(5,8) by simp
  show "well_pooled good reset \<lparr>pr_objects = st, pr_held = (pr_held s)(u \<mapsto> a)\<rparr>"
  proof (rule well_pooledI; simp)
    show "distinct (ob_pool st)" by (rule new(6))
    fix b
    assume b: "b \<in> set (ob_pool st)"
    then have "b \<noteq> a" using new(2) by blast
    with old pool [OF new(7) [OF b]] show "b < ob_next st \<and> (\<exists>x. good x \<and> ob_store st b = Some (reset x))" by metis
  next
    fix v b
    assume v: "(if v = u then Some a else pr_held s v) = Some b"
    show "b < ob_next st \<and> b \<notin> set (ob_pool st) \<and> (\<exists>x. good x \<and> ob_store st b = Some x)"
    proof (cases "v = u")
      case True
      with v new assms(3) show ?thesis by auto
    next
      case False
      with v have h: "pr_held s v = Some b" by simp
      then have "b \<noteq> a" using new(3) by metis
      with old held [OF h] new(7) show ?thesis by metis
    qed
  next
    fix v w b
    assume "(if v = u then Some a else pr_held s v) = Some b" "(if w = u then Some a else pr_held s w) = Some b"
    then show "v = w" using new(3) one by (metis option.inject)
  qed
  show "seen \<lparr>pr_objects = st, pr_held = (pr_held s)(u \<mapsto> a)\<rparr> = (seen s)(u \<mapsto> new q)"
  proof
    fix v
    show "seen \<lparr>pr_objects = st, pr_held = (pr_held s)(u \<mapsto> a)\<rparr> v = ((seen s)(u \<mapsto> new q)) v"
      using new(1,3) held(1) old by (auto simp: seen_def split: option.splits)
  qed
qed

lemma use_step:
  assumes wp: "well_pooled good reset s" and a: "pr_held s u = Some a" and "\<And>x. good x \<Longrightarrow> good (f x)"
  shows "well_pooled good reset (s\<lparr>pr_objects := modify a f (pr_objects s)\<rparr>)"
    and "seen (s\<lparr>pr_objects := modify a f (pr_objects s)\<rparr>) = (seen s)(u := map_option f (seen s u))"
proof -
  note held = well_pooled_held [OF wp] and pool = well_pooled_pool [OF wp] and one = well_pooled_one [OF wp]
  let ?s = "s\<lparr>pr_objects := modify a f (pr_objects s)\<rparr>"
  show "well_pooled good reset ?s"
  proof (rule well_pooledI)
    show "distinct (ob_pool (pr_objects ?s))" using well_pooled_distinct [OF wp] by simp
  next
    fix b
    assume "b \<in> set (ob_pool (pr_objects ?s))"
    then have b: "b \<in> set (ob_pool (pr_objects s))" by simp
    with held(2) [OF a] have "b \<noteq> a" by blast
    with pool [OF b] show "b < ob_next (pr_objects ?s) \<and> (\<exists>x. good x \<and> ob_store (pr_objects ?s) b = Some (reset x))"
      by simp
  next
    fix v b
    assume "pr_held ?s v = Some b"
    then have v: "pr_held s v = Some b" by simp
    from held(3) [OF v] obtain x where "good x" "ob_store (pr_objects s) b = Some x" by blast
    then have "\<exists>y. good y \<and> ob_store (pr_objects ?s) b = Some y"
      using assms(3) by (cases "b = a") auto
    with held(1,2) [OF v] show "b < ob_next (pr_objects ?s) \<and> b \<notin> set (ob_pool (pr_objects ?s))
      \<and> (\<exists>x. good x \<and> ob_store (pr_objects ?s) b = Some x)" by simp
  next
    fix v w b
    assume "pr_held ?s v = Some b" "pr_held ?s w = Some b"
    then show "v = w" using one by simp
  qed
  show "seen (s\<lparr>pr_objects := modify a f (pr_objects s)\<rparr>) = (seen s)(u := map_option f (seen s u))"
  proof
    fix v
    show "seen (s\<lparr>pr_objects := modify a f (pr_objects s)\<rparr>) v = ((seen s)(u := map_option f (seen s u))) v"
    proof (cases "v = u")
      case False
      then have "pr_held s v \<noteq> Some a" using one a by blast
      with False show ?thesis by (simp add: seen_def split: option.splits)
    qed (simp add: seen_def a)
  qed
qed

lemma give_step:
  assumes wp: "well_pooled good reset s" and a: "pr_held s u = Some a"
  shows "well_pooled good reset \<lparr>pr_objects = put a (pr_objects s), pr_held = (pr_held s)(u := None)\<rparr>"
    and "seen \<lparr>pr_objects = put a (pr_objects s), pr_held = (pr_held s)(u := None)\<rparr> = (seen s)(u := None)"
proof -
  note held = well_pooled_held [OF wp] and pool = well_pooled_pool [OF wp] and one = well_pooled_one [OF wp]
  let ?s = "\<lparr>pr_objects = put a (pr_objects s), pr_held = (pr_held s)(u := None)\<rparr>"
  from held(3) [OF a] obtain x where x: "good x" "ob_store (pr_objects s) a = Some x" by blast
  show "well_pooled good reset ?s"
  proof (rule well_pooledI)
    show "distinct (ob_pool (pr_objects ?s))"
      using held(2) [OF a] well_pooled_distinct [OF wp] by (simp add: put_resets)
  next
    fix b
    assume "b \<in> set (ob_pool (pr_objects ?s))"
    then show "b < ob_next (pr_objects ?s)
      \<and> (\<exists>x. good x \<and> ob_store (pr_objects ?s) b
          = Some (reset x))"
      using x held(1) [OF a] pool by (cases "b = a") (auto simp: put_resets)
  next
    fix v b
    assume "pr_held ?s v = Some b"
    then have v: "v \<noteq> u" "pr_held s v = Some b" by (auto split: if_splits)
    then have "b \<noteq> a" using one a by blast
    with held [OF v(2)] show "b < ob_next (pr_objects ?s)
      \<and> b \<notin> set (ob_pool (pr_objects ?s))
      \<and> (\<exists>x. good x \<and> ob_store (pr_objects ?s) b = Some x)"
      by (simp add: put_resets)
  next
    fix v w b
    assume "pr_held ?s v = Some b"
      "pr_held ?s w = Some b"
    then show "v = w" using one by (auto split: if_splits)
  qed
  show "seen ?s = (seen s)(u := None)"
  proof
    fix v
    show "seen ?s v = ((seen s)(u := None)) v"
      using one [OF a] by (auto simp: seen_def put_resets split: option.splits)
  qed
qed

lemma seen_None:
  assumes "well_pooled good reset s"
  shows "seen s u = None \<longleftrightarrow> pr_held s u = None"
  using well_pooled_held(3) [OF assms, of u] by (auto simp: seen_def split: option.splits)

lemma steps_are_fresh:
  assumes "well_pooled good reset s" "\<And>q. good (new q)" "\<And>x q. good x \<Longrightarrow> renew q (reset x) = new q"
    "\<And>u f x. UseObject u f \<in> set es \<Longrightarrow> good x \<Longrightarrow> good (f x)"
  shows "map_option seen (pool_steps get put es s) = fresh_steps new es (seen s)
    \<and> (\<forall>s'. pool_steps get put es s = Some s' \<longrightarrow> well_pooled good reset s')"
  using assms(1,4)
proof (induction es arbitrary: s)
  case Nil
  then show ?case by simp
next
  case (Cons e es)
  note wp = Cons.prems(1)
  have IH: "map_option seen (pool_steps get put es s') = fresh_steps new es (seen s')
      \<and> (\<forall>t. pool_steps get put es s' = Some t \<longrightarrow> well_pooled good reset t)" if "well_pooled good reset s'" for s'
    by (rule Cons.IH) (use that Cons.prems(2) in auto)
  show ?case
  proof (cases e)
    case (TakeObject u choice q)
    show ?thesis
    proof (cases "pr_held s u")
      case None
      obtain a st where g: "get choice q (pr_objects s) = (a, st)" by fastforce
      note t = take_step [OF wp None assms(2,3) g]
      from None have "seen s u = None" by (simp add: seen_None [OF wp])
      with IH [OF t(1)] t(2) None g show ?thesis by (simp add: TakeObject)
    next
      case (Some a)
      with seen_None [OF wp, of u] show ?thesis by (auto simp: TakeObject)
    qed
  next
    case (UseObject u f)
    show ?thesis
    proof (cases "pr_held s u")
      case (Some a)
      have f: "good x \<Longrightarrow> good (f x)" for x by (rule Cons.prems(2) [of u f]) (simp_all add: UseObject)
      note t = use_step [OF wp Some f]
      from seen_None [OF wp, of u] Some IH [OF t(1)] t(2) show ?thesis by (auto simp: UseObject)
    qed (simp add: UseObject seen_def)
  next
    case (GiveBack u)
    show ?thesis
    proof (cases "pr_held s u")
      case (Some a)
      note t = give_step [OF wp Some]
      from seen_None [OF wp, of u] Some IH [OF t(1)] t(2) show ?thesis by (auto simp: GiveBack)
    qed (simp add: GiveBack seen_def)
  qed
qed

lemma well_pooled_empty: "well_pooled good reset empty_run"
  by (simp add: well_pooled_def empty_run_def no_objects_def)

lemma pooling_is_transparent:
  assumes "\<And>q. good (new q)" "\<And>x q. good x \<Longrightarrow> renew q (reset x) = new q"
    "\<And>u f x. UseObject u f \<in> set es \<Longrightarrow> good x \<Longrightarrow> good (f x)"
  shows "map_option seen (pool_steps get put es empty_run) = fresh_steps new es (\<lambda>_. None)"
proof -
  have "seen (empty_run :: 'a pool_run) = (\<lambda>_. None)" by (simp add: seen_def empty_run_def fun_eq_iff)
  moreover have "map_option seen (pool_steps get put es empty_run) = fresh_steps new es (seen (empty_run :: 'a pool_run))"
    by (rule conjunct1 [OF steps_are_fresh [where good = good]]) (use well_pooled_empty assms in auto)
  ultimately show ?thesis by simp
qed

end

section \<open>The two pools\<close>

text \<open>What a handler asks for: a context, or the objects for a request or (with \<open>context.Background\<close>, as all callers
  do) for an operation at start.\<close>

datatype ctx_query = CtxQuery request go_context "request option" "(string \<times> string) list"

datatype 'g shared_query =
    ForRequest request go_context 'g "(string \<times> string) list"
  | ForOperation 'g "(string \<times> string) list"

fun get_ctx where
  "get_ctx lib choice (CtxQuery r rctx clientRequest renames) st = GetCtx lib choice r rctx clientRequest renames st"

fun renew_for :: "ctx_query \<Rightarrow> 'o resolve_ctx \<Rightarrow> 'o resolve_ctx" where
  "renew_for (CtxQuery r rctx clientRequest renames) x =
     renew_ctx (WithValue ClientRequestKey (ContextRequest clientRequest) rctx) r renames x"

fun new_ctx_for :: "('o, 'g) pool_lib \<Rightarrow> ctx_query \<Rightarrow> 'o resolve_ctx" where
  "new_ctx_for lib (CtxQuery r rctx clientRequest renames) =
     (pl_new_context lib (WithValue ClientRequestKey (ContextRequest clientRequest) rctx))
       \<lparr>rx_header := rq_header r, rx_renames := renames\<rparr>"

fun get_shared where
  "get_shared lib choice (ForRequest r rctx planConfig renames) st =
     GetSharedFromRequest lib choice background r rctx planConfig renames st"
| "get_shared lib choice (ForOperation planConfig renames) st = GetShared lib choice background planConfig renames st"

fun renew_shared :: "('o, 'g) pool_lib \<Rightarrow> 'g shared_query \<Rightarrow> 'o shared \<Rightarrow> 'o shared" where
  "renew_shared lib (ForRequest r rctx planConfig renames) s =
     s\<lparr>sh_planner := pl_set_config lib planConfig (sh_planner s),
       sh_ctx := renew_for (CtxQuery r rctx (Some r) renames) (sh_ctx s)\<rparr>"
| "renew_shared lib (ForOperation planConfig renames) s =
     s\<lparr>sh_planner := pl_set_config lib planConfig (sh_planner s),
       sh_ctx := (sh_ctx s)\<lparr>rx_context := Some background, rx_renames := renames\<rparr>\<rparr>"

fun new_shared_for :: "('o, 'g) pool_lib \<Rightarrow> 'g shared_query \<Rightarrow> 'o shared" where
  "new_shared_for lib (ForRequest r rctx planConfig renames) =
     new_shared lib background planConfig (new_ctx_for lib (CtxQuery r rctx (Some r) renames))"
| "new_shared_for lib (ForOperation planConfig renames) =
     new_shared lib background planConfig ((pl_new_context lib background)\<lparr>rx_renames := renames\<rparr>)"

text \<open>What the library promises of its objects.\<close>

definition frees_contexts :: "('o, 'g) pool_lib \<Rightarrow> bool" where
  "frees_contexts lib \<longleftrightarrow> (\<forall>x ctx. (pl_free lib x)\<lparr>rx_context := Some ctx\<rparr> = pl_new_context lib ctx)"

definition resets_objects :: "('o, 'g) pool_lib \<Rightarrow> bool" where
  "resets_objects lib \<longleftrightarrow>
     (\<forall>d. pl_reset_document lib d = pl_new_document lib) \<and> (\<forall>h. pl_reset_hash lib h = pl_new_hash lib)
     \<and> (\<forall>r. pl_reset_report lib r = pl_new_report lib)"

definition configures_planners :: "('o, 'g) pool_lib \<Rightarrow> bool" where
  "configures_planners lib \<longleftrightarrow>
     (\<forall>ctx g g'. pl_set_config lib g (pl_new_planner lib ctx g') = pl_new_planner lib ctx g)"

text \<open>The tools that \<open>Reset\<close> leaves alone, as they are between two calls.\<close>

definition tools_ready :: "('o, 'g) pool_lib \<Rightarrow> 'o shared \<Rightarrow> bool" where
  "tools_ready lib s \<longleftrightarrow>
     (\<exists>g. sh_planner s = pl_new_planner lib background g) \<and> sh_parser s = pl_new_parser lib
     \<and> sh_printer s = pl_new_printer lib \<and> sh_validation s = pl_new_validation lib
     \<and> sh_normalizer s = pl_new_normalizer lib True True \<and> sh_postprocess s = pl_new_postprocess lib"

definition keep_tools :: "('o, 'g) pool_lib \<Rightarrow> ('o shared, 'g shared_query) pool_event list \<Rightarrow> bool" where
  "keep_tools lib es \<longleftrightarrow>
     (\<forall>e \<in> set es. case e of UseObject u f \<Rightarrow> (\<forall>s. tools_ready lib s \<longrightarrow> tools_ready lib (f s)) | _ \<Rightarrow> True)"

lemma renew_fun:
  "renew_for (CtxQuery r rctx cr renames) = renew_ctx (WithValue ClientRequestKey (ContextRequest cr) rctx) r renames"
  "renew_shared lib (ForRequest r rctx planConfig renames) =
     (\<lambda>s. s\<lparr>sh_planner := pl_set_config lib planConfig (sh_planner s),
       sh_ctx := renew_ctx (WithValue ClientRequestKey (ContextRequest (Some r)) rctx) r renames (sh_ctx s)\<rparr>)"
  "renew_shared lib (ForOperation planConfig renames) =
     (\<lambda>s. s\<lparr>sh_planner := pl_set_config lib planConfig (sh_planner s),
       sh_ctx := (sh_ctx s)\<lparr>rx_context := Some background, rx_renames := renames\<rparr>\<rparr>)"
  by (auto simp: fun_eq_iff)

interpretation contexts: object_pool "get_ctx lib" "PutCtx lib" "new_ctx_for lib" renew_for "pl_free lib"
proof
  fix choice :: "nat option" and st st' :: "'a resolve_ctx objects" and a q
  show "sync_get choice st = (Some a, st') \<Longrightarrow> get_ctx lib choice q st = (a, modify a (renew_for q) st')"
    by (cases q) (simp add: GetCtx_def renew_fun)
  show "sync_get choice st = (None, st') \<Longrightarrow> get_ctx lib choice q st = allocate (new_ctx_for lib q) st'"
    by (cases q) (simp add: GetCtx_def)
  show "PutCtx lib a st = sync_put a (modify a (pl_free lib) st)" by (simp add: PutCtx_def)
qed

interpretation shareds: object_pool "get_shared lib" "PutShared lib" "new_shared_for lib" "renew_shared lib"
  "shared_Reset lib"
proof
  fix choice :: "nat option" and st st' :: "'a shared objects" and a q
  show "sync_get choice st = (Some a, st') \<Longrightarrow> get_shared lib choice q st = (a, modify a (renew_shared lib q) st')"
    by (cases q) (simp_all add: GetShared_def GetSharedFromRequest_def renew_fun)
  show "sync_get choice st = (None, st') \<Longrightarrow> get_shared lib choice q st = allocate (new_shared_for lib q) st'"
    by (cases q) (simp_all add: GetShared_def GetSharedFromRequest_def)
  show "PutShared lib a st = sync_put a (modify a (shared_Reset lib) st)" by (simp add: PutShared_def)
qed

text \<open>However the handlers take contexts from the pool, write to them and give them back, and whatever the
  runtime chooses to return, each sees what it would see if every request had a new context of its own.
\<close>

theorem contexts_are_private:
  assumes "frees_contexts lib"
  shows "map_option seen (pool_steps (get_ctx lib) (PutCtx lib) es empty_run)
    = fresh_steps (new_ctx_for lib) es (\<lambda>_. None)"
proof (rule contexts.pooling_is_transparent [where good = "\<lambda>_. True"])
  fix x :: "'a resolve_ctx" and q
  obtain r rctx cr renames where q: "q = CtxQuery r rctx cr renames" by (cases q)
  let ?ctx = "WithValue ClientRequestKey (ContextRequest cr) rctx"
  have "renew_for q (pl_free lib x) = ((pl_free lib x)\<lparr>rx_context := Some ?ctx\<rparr>)\<lparr>rx_header := rq_header r, rx_renames := renames\<rparr>"
    by (simp add: q renew_ctx_def)
  then show "renew_for q (pl_free lib x) = new_ctx_for lib q"
    using assms by (simp add: frees_contexts_def q)
qed simp_all

lemma renew_reset_shared:
  assumes "frees_contexts lib" "resets_objects lib" "configures_planners lib" "tools_ready lib s"
  shows "renew_shared lib q (shared_Reset lib s) = new_shared_for lib q"
proof -
  have free: "(pl_free lib x)\<lparr>rx_context := Some ctx, rx_header := h, rx_renames := n\<rparr>
      = (pl_new_context lib ctx)\<lparr>rx_header := h, rx_renames := n\<rparr>"
    "(pl_free lib x)\<lparr>rx_context := Some ctx, rx_renames := n\<rparr> = (pl_new_context lib ctx)\<lparr>rx_renames := n\<rparr>" for x ctx h n
    using assms(1) unfolding frees_contexts_def by metis+
  from assms(4) obtain g where "sh_planner s = pl_new_planner lib background g" unfolding tools_ready_def by blast
  then have plan: "pl_set_config lib g' (sh_planner s) = pl_new_planner lib background g'" for g'
    using assms(3) by (simp add: configures_planners_def)
  show ?thesis
    using assms(2,4)
    by (cases q) (simp_all add: shared_Reset_def new_shared_def resets_objects_def tools_ready_def renew_ctx_def free plan)
qed

lemma tools_ready_new: "tools_ready lib (new_shared_for lib q)"
  by (cases q) (auto simp: new_shared_def tools_ready_def)

text \<open>C37: However requests take the objects of a planned operation from the pool, use them and give them back,
  and whatever the runtime chooses to return, each sees what it would see if it had new objects of its own, although the
  tools are used again as they are.
\<close>

theorem shared_objects_are_private:
  assumes "frees_contexts lib" "resets_objects lib" "configures_planners lib" "keep_tools lib es"
  shows "map_option seen (pool_steps (get_shared lib) (PutShared lib) es empty_run)
    = fresh_steps (new_shared_for lib) es (\<lambda>_. None)"
proof (rule shareds.pooling_is_transparent [where good = "tools_ready lib"])
  fix u f x
  assume "UseObject u f \<in> set es" "tools_ready lib x"
  with assms(4) show "tools_ready lib (f x)" by (fastforce simp: keep_tools_def)
qed (use assms in \<open>simp_all add: tools_ready_new renew_reset_shared\<close>)

definition sample_pool :: "(bytes, bytes) pool_lib" where
  "sample_pool =
     \<lparr>pl_new_context = (\<lambda>ctx. \<lparr>rx_context = Some ctx, rx_header = no_header, rx_renames = [], rx_variables = [],
        rx_rest = []\<rparr>),
      pl_free = (\<lambda>x. \<lparr>rx_context = None, rx_header = no_header, rx_renames = [], rx_variables = [], rx_rest = []\<rparr>),
      pl_new_document = [], pl_reset_document = (\<lambda>_. []), pl_new_planner = (\<lambda>ctx g. g), pl_set_config = (\<lambda>g _. g),
      pl_new_parser = [], pl_new_printer = [], pl_new_hash = [], pl_reset_hash = (\<lambda>_. []), pl_new_validation = [],
      pl_new_normalizer = (\<lambda>_ _. []), pl_new_postprocess = [], pl_new_report = [], pl_reset_report = (\<lambda>_. [])\<rparr>"

text \<open>The first user leaves variables in its object; the second one gets the same object.\<close>

definition sample_ctx_events :: "(bytes resolve_ctx, ctx_query) pool_event list" where
  "sample_ctx_events =
     [TakeObject 1 None (CtxQuery empty_request background None []),
      UseObject 1 (\<lambda>x. x\<lparr>rx_variables := ''secret''\<rparr>), GiveBack 1,
      TakeObject 2 (Some 0) (CtxQuery empty_request background (Some empty_request) [])]"

lemma sample_frees: "frees_contexts sample_pool"
  by (simp add: frees_contexts_def sample_pool_def)

theorem contexts_are_private_witness:
  "\<exists>s. pool_steps (get_ctx sample_pool) (PutCtx sample_pool) sample_ctx_events empty_run = Some s
    \<and> seen s 2 = Some (new_ctx_for sample_pool (CtxQuery empty_request background (Some empty_request) []))"
proof -
  have "fresh_steps (new_ctx_for sample_pool) sample_ctx_events (\<lambda>_. None)
      = Some [2 \<mapsto> new_ctx_for sample_pool (CtxQuery empty_request background (Some empty_request) [])]"
    by (simp add: sample_ctx_events_def)
  with contexts_are_private [OF sample_frees, of sample_ctx_events] show ?thesis by auto
qed

definition sample_shared_events :: "(bytes shared, bytes shared_query) pool_event list" where
  "sample_shared_events =
     [TakeObject 1 None (ForRequest empty_request background ''a'' []),
      UseObject 1 (\<lambda>s. s\<lparr>sh_doc := ''query'', sh_hash := ''1'', sh_ctx := (sh_ctx s)\<lparr>rx_variables := ''secret''\<rparr>\<rparr>),
      GiveBack 1, TakeObject 2 (Some 0) (ForOperation ''b'' [])]"

theorem shared_objects_are_private_witness:
  "\<exists>s. pool_steps (get_shared sample_pool) (PutShared sample_pool) sample_shared_events empty_run = Some s
    \<and> seen s 2 = Some (new_shared_for sample_pool (ForOperation ''b'' []))"
proof -
  have "resets_objects sample_pool" "configures_planners sample_pool"
    by (simp_all add: resets_objects_def configures_planners_def sample_pool_def)
  moreover have "keep_tools sample_pool sample_shared_events"
    by (simp add: keep_tools_def sample_shared_events_def tools_ready_def)
  moreover have "fresh_steps (new_shared_for sample_pool) sample_shared_events (\<lambda>_. None)
      = Some [2 \<mapsto> new_shared_for sample_pool (ForOperation ''b'' [])]"
    by (simp add: sample_shared_events_def)
  ultimately show ?thesis
    using shared_objects_are_private [OF sample_frees, of sample_shared_events] by auto
qed

section \<open>The request of the client\<close>

text \<open>
  \<open>ctx.Value(ClientRequestKey).(*http.Request)\<close>, where its users go on with the request: a nil pointer passes
  the type test and is dereferenced then.
\<close>

definition client_request :: "go_context \<Rightarrow> request option outcome" where
  "client_request ctx =
     (case gc_values ctx ClientRequestKey of
        Some (ContextRequest (Some r)) \<Rightarrow> Returned (Some r)
      | Some (ContextRequest None) \<Rightarrow> Panicked ''invalid memory address or nil pointer dereference''
      | _ \<Rightarrow> Returned None)"

definition hook_data :: "hook_client \<Rightarrow> go_context \<Rightarrow> bytes \<Rightarrow> bytes outcome" where
  "hook_data c ctx jsonData = bind_out (client_request ctx) (\<lambda>cr. Returned (setInternalHookData c cr jsonData))"

text \<open>The headers a mutatingPreResolve hook sets, on the context of the resolver and on the request it names.\<close>

definition set_context_headers :: "(string \<times> string) list \<Rightarrow> go_context \<Rightarrow> 'o resolve_ctx \<Rightarrow> 'o resolve_ctx outcome" where
  "set_context_headers headers ctx x =
     (if headers = [] then Returned x
      else
        (let httpHeader = foldl (\<lambda>h (k, v). header_set k v h) no_header headers;
             x = x\<lparr>rx_header := httpHeader\<rparr> in
         bind_out (client_request ctx) (\<lambda>cr.
           Returned (case cr of
               None \<Rightarrow> x
             | Some r \<Rightarrow> x\<lparr>rx_context :=
                 Some (WithValue ClientRequestKey (ContextRequest (Some (r\<lparr>rq_header := httpHeader\<rparr>))) ctx)\<rparr>))))"

text \<open>What the GraphQL endpoint does with its objects before it parses the query.\<close>

definition graphql_objects :: "request \<Rightarrow> go_context \<Rightarrow> bytes \<Rightarrow> 'o shared \<Rightarrow> 'o shared" where
  "graphql_objects r rctx requestVariables s =
     s\<lparr>sh_ctx := (sh_ctx s)\<lparr>rx_variables := requestVariables, rx_context := Some rctx, rx_header := rq_header r\<rparr>\<rparr>"

text \<open>The context of the deferred revalidation of a cached response.\<close>

definition revalidation_context :: "go_context \<Rightarrow> go_context" where
  "revalidation_context rctx =
     (case UserFromContext rctx of
        Some user \<Rightarrow> WithValue ''user'' (ContextUser user) background
      | None \<Rightarrow> background)"

text \<open>A context of the server names no client: only the pool sets that key.\<close>

definition served_by_client :: "go_context \<Rightarrow> bool" where
  "served_by_client rctx \<longleftrightarrow> gc_values rctx ClientRequestKey = None"

text \<open>The context an operation handler works with names the request it serves, with its headers.\<close>

lemma handler_context_names_client:
  "\<exists>ctx. rx_context (renew_for (CtxQuery r rctx (Some r) renames) x) = Some ctx \<and> client_request ctx = Returned (Some r)"
  by (simp add: renew_ctx_def WithValue_def client_request_def)

text \<open>The GraphQL endpoint puts the context of the server in its place: its hooks are told of no client.\<close>

lemma graphql_context_names_no_client:
  assumes "served_by_client rctx"
  shows "rx_context (sh_ctx (graphql_objects r rctx variables s)) = Some rctx"
    and "hook_data c rctx jsonData = Returned (setInternalHookData c None jsonData)"
  using assms by (simp_all add: graphql_objects_def hook_data_def client_request_def served_by_client_def)

text \<open>So does the deferred revalidation of a query.\<close>

lemma revalidation_names_no_client: "client_request (revalidation_context rctx) = Returned None"
  by (simp add: revalidation_context_def client_request_def background_def WithValue_def ClientRequestKey_def
      split: option.splits)

text \<open>An internal request without the request of the client puts a nil pointer in the context: a hook panics.\<close>

lemma internal_call_without_client_panics:
  assumes "rx_context (renew_for (CtxQuery r rctx None renames) x) = Some ctx"
  shows "\<exists>m. hook_data c ctx jsonData = Panicked m"
  using assms by (auto simp: renew_ctx_def WithValue_def client_request_def hook_data_def)

text \<open>A pooled planner keeps the context it was made with: the one of a later request is ignored.\<close>

lemma pooled_planner_ignores_context:
  assumes "i < length (ob_pool st)"
  shows "GetSharedFromRequest lib (Some i) ctx r rctx g renames st = GetSharedFromRequest lib (Some i) ctx' r rctx g renames st"
  using assms by (simp add: GetSharedFromRequest_def sync_get_def)

end
