(* ===== verification/ApiTransport.thy ===== *)
theory ApiTransport
  imports HandlerBase
begin

text \<open>
  The transport of the requests to data sources (pkg/apihandler/apitransport.go): the tokens
  for upstream authentication, the hooks on requests and responses, and the requests to the
  internal GraphQL servers. The network, the JSON codecs and the JWT library are parameters;
  what goes out is returned as a trace.
\<close>

section \<open>Requests and responses\<close>

text \<open>
  A body is absent, or what reading the rest of it gives; reading it to the end leaves nothing.
  The context carries the user, the client request and the meta data of the operation.
\<close>

record up_request =
  ur_method :: string
  ur_url :: string
  ur_host :: string
  ur_header :: header
  ur_body :: "bytes res option"
  ur_user :: "user option"
  ur_client :: "request option"
  ur_meta :: "(string \<times> op_type) option"

record up_response =
  ul_status_code :: int
  ul_status :: string
  ul_header :: header
  ul_body :: "bytes res"
  ul_request :: up_request

datatype up_event = Sent up_request | HookSent hook_kind bytes

record request_answer =
  ra_skip :: bool
  ra_cancel :: bool
  ra_request :: "wg_request option"

record response_answer =
  rn_skip :: bool
  rn_cancel :: bool
  rn_response :: "wg_response option"

record jwt_claims =
  jc_name :: string
  jc_expires :: int
  jc_issuer :: string
  jc_subject :: string
  jc_audience :: string

text \<open>
  \<open>tl_host\<close> is url.Parse, giving the host; \<open>tl_new_request\<close> is http.NewRequest of a method and a
  URL, giving the host; \<open>tl_ctx_err\<close> is the error of the context after the round trip.
\<close>

record transport_lib =
  tl_send :: "up_request \<Rightarrow> up_response res"
  tl_upgrade :: "up_request \<Rightarrow> bool"
  tl_json :: jsonlib
  tl_hooks :: hook_client
  tl_marshal_user :: "user \<Rightarrow> bytes res"
  tl_marshal_client :: "wg_request \<Rightarrow> bytes res"
  tl_marshal_request :: "wg_request \<Rightarrow> string \<Rightarrow> string \<Rightarrow> bytes res"
  tl_marshal_response :: "wg_response \<Rightarrow> string \<Rightarrow> string \<Rightarrow> bytes res"
  tl_decode_request :: "bytes \<Rightarrow> request_answer res"
  tl_decode_response :: "bytes \<Rightarrow> response_answer res"
  tl_host :: "string \<Rightarrow> string res"
  tl_new_request :: "string \<Rightarrow> string \<Rightarrow> string res"
  tl_sign :: "string \<Rightarrow> jwt_claims \<Rightarrow> string res"
  tl_now :: int
  tl_ctx_err :: "go_error option"
  tl_getenv :: "string \<Rightarrow> string"

record api_transport =
  at_debug :: bool
  at_streaming :: bool
  at_primary_host :: string
  at_upstream :: "string \<rightharpoonup> upstream_auth"
  at_on_request :: "string list"
  at_on_response :: "string list"

section \<open>Construction\<close>

definition upstream_fetch :: "datasource \<Rightarrow> (cvar \<times> upstream_auth) option" where
  "upstream_fetch ds =
     (let fetch = (if ds_kind ds = DS_GRAPHQL then
                     (case ds_graphql ds of None \<Rightarrow> None | Some g \<Rightarrow> gd_fetch g)
                   else if ds_kind ds = DS_REST then
                     (case ds_rest ds of None \<Rightarrow> None | Some g \<Rightarrow> rest_fetch g)
                   else None) in
      case fetch of
        None \<Rightarrow> None
      | Some f \<Rightarrow> (case fc_upstream f of None \<Rightarrow> None | Some auth \<Rightarrow> Some (fc_url f, auth)))"

fun upstream_configurations ::
    "transport_lib \<Rightarrow> datasource list \<Rightarrow> (string \<rightharpoonup> upstream_auth) \<Rightarrow> (string \<rightharpoonup> upstream_auth)" where
  "upstream_configurations tp [] m = m"
| "upstream_configurations tp (ds # dss) m =
     (case upstream_fetch ds of
        None \<Rightarrow> upstream_configurations tp dss m
      | Some (url, auth) \<Rightarrow>
          (case tl_host tp (load_string (tl_getenv tp) url) of
             Inl err \<Rightarrow> upstream_configurations tp dss m
           | Inr host \<Rightarrow> upstream_configurations tp dss (m(host \<mapsto> auth))))"

fun transport_hooks :: "operation list \<Rightarrow> (string list \<times> string list) outcome" where
  "transport_hooks [] = Returned ([], [])"
| "transport_hooks (operation # operations) =
     bind_out (deref (op_hooks_cfg operation)) (\<lambda>config.
     bind_out (transport_hooks operations) (\<lambda>(reqs, resps). Returned
       ((if oh_on_request config then op_name operation # reqs else reqs),
        (if oh_on_response config then op_name operation # resps else resps))))"

definition NewApiTransport ::
    "transport_lib \<Rightarrow> string \<Rightarrow> engine_config option \<Rightarrow> operation list \<Rightarrow> bool \<Rightarrow> bool \<Rightarrow> api_transport outcome" where
  "NewApiTransport tp primary engine operations debugMode streaming =
     bind_out (transport_hooks operations) (\<lambda>(reqs, resps). Returned
       \<lparr>at_debug = debugMode, at_streaming = streaming, at_primary_host = primary,
        at_upstream = (case engine of
            None \<Rightarrow> Map.empty
          | Some e \<Rightarrow> upstream_configurations tp (ec_datasources e) Map.empty),
        at_on_request = reqs, at_on_response = resps\<rparr>)"

section \<open>Upstream authentication\<close>

definition upstream_claims :: "transport_lib \<Rightarrow> string \<Rightarrow> up_request \<Rightarrow> user \<Rightarrow> jwt_claims" where
  "upstream_claims tp primary r user =
     \<lparr>jc_name = (if us_name user = [] then us_nick_name user else us_name user),
      jc_expires = tl_now tp + 15 * 60, jc_issuer = primary, jc_subject = us_email user,
      jc_audience = ur_host r\<rparr>"

definition handleUpstreamAuthentication ::
    "transport_lib \<Rightarrow> string \<Rightarrow> up_request \<Rightarrow> upstream_auth \<Rightarrow> up_request res outcome" where
  "handleUpstreamAuthentication tp primary r auth =
     (case ur_user r of
        None \<Rightarrow> Returned (Inr r)
      | Some user \<Rightarrow>
          (case ua_kind auth of
             UPSTREAM_JWT \<Rightarrow>
               bind_out (deref (ua_jwt auth)) (\<lambda>jwt. Returned
                 (case tl_sign tp (load_string (tl_getenv tp) (ju_secret jwt)) (upstream_claims tp primary r user) of
                    Inl err \<Rightarrow> Inl err
                  | Inr ss \<Rightarrow>
                      Inr (r\<lparr>ur_header := header_set ''Authorization'' (''Bearer '' @ ss) (ur_header r)\<rparr>)))
           | UPSTREAM_JWT_EXCHANGE \<Rightarrow> Returned (Inl (Err ''not implemented''))))"

section \<open>The hooks\<close>

fun GetOperationTypeString :: "op_type \<Rightarrow> string" where
  "GetOperationTypeString MUTATION = ''mutation''"
| "GetOperationTypeString QUERY = ''query''"
| "GetOperationTypeString SUBSCRIPTION = ''subscription''"

definition with_user :: "transport_lib \<Rightarrow> user option \<Rightarrow> bytes \<Rightarrow> bytes" where
  "with_user tp user hookData =
     (case user of
        None \<Rightarrow> hookData
      | Some user \<Rightarrow>
          (case tl_marshal_user tp user of
             Inl _ \<Rightarrow> hookData
           | Inr userJson \<Rightarrow> js_put (tl_json tp) hookData userJson [''__wg'', ''user'']))"

definition handleOnRequestHook ::
    "transport_lib \<Rightarrow> up_request \<Rightarrow> string \<times> op_type \<Rightarrow> up_request res \<times> up_event list" where
  "handleOnRequestHook tp r meta =
     (case (case ur_body r of None \<Rightarrow> Inr [] | Some b \<Rightarrow> b) of
        Inl err \<Rightarrow> (Inl err, [])
      | Inr body \<Rightarrow>
          (let r = (if ur_body r = None then r else r\<lparr>ur_body := Some (Inr [])\<rparr>);
               payload = \<lparr>wr_method = ur_method r, wr_uri = ur_url r,
                 wr_headers = HeaderSliceToCSV (ur_header r), wr_body = body\<rparr> in
           case tl_marshal_request tp payload (fst meta) (GetOperationTypeString (snd meta)) of
             Inl err \<Rightarrow> (Inl err, [])
           | Inr hookData \<Rightarrow>
               (let hookData = with_user tp (ur_user r) hookData;
                    calls = [HookSent HttpTransportOnRequest hookData] in
                case DoGlobalRequest (tl_hooks tp) (ur_client r) HttpTransportOnRequest hookData of
                  Inl err \<Rightarrow> (Inl err, calls)
                | Inr out \<Rightarrow>
                    (case tl_decode_request tp (raw_response out) of
                       Inl err \<Rightarrow> (Inl err, calls)
                     | Inr response \<Rightarrow>
                         (if ra_skip response then (Inr (r\<lparr>ur_body := Some (Inr body)\<rparr>), calls)
                          else if ra_cancel response then (Inl (Err ''canceled''), calls)
                          else
                            (case ra_request response of
                               None \<Rightarrow> (Inr r, calls)
                             | Some q \<Rightarrow>
                                 (case tl_new_request tp (wr_method q) (wr_uri q) of
                                    Inl err \<Rightarrow> (Inl err, calls)
                                  | Inr host \<Rightarrow>
                                      (Inr (r\<lparr>ur_method := (if wr_method q = [] then ''GET'' else wr_method q), ur_url := wr_uri q, ur_host := host,
                                         ur_header := HeaderCSVToSlice (wr_headers q),
                                         ur_body := Some (Inr (wr_body q))\<rparr>), calls))))))))"

definition handleOnResponseHook ::
    "transport_lib \<Rightarrow> up_response \<Rightarrow> string \<times> op_type \<Rightarrow> up_response res \<times> up_event list" where
  "handleOnResponseHook tp r meta =
     (case ul_body r of
        Inl err \<Rightarrow> (Inl err, [])
      | Inr body \<Rightarrow>
          (let r = r\<lparr>ul_body := Inr []\<rparr>;
               request = ul_request r;
               payload = \<lparr>wp_status_code = ul_status_code r, wp_status = ul_status r,
                 wp_method = ur_method request, wp_uri = ur_url request,
                 wp_headers = HeaderSliceToCSV (ul_header r), wp_body = body\<rparr> in
           case tl_marshal_response tp payload (fst meta) (GetOperationTypeString (snd meta)) of
             Inl err \<Rightarrow> (Inl err, [])
           | Inr hookData \<Rightarrow>
               (let hookData = with_user tp (ur_user request) hookData;
                    calls = [HookSent HttpTransportOnResponse hookData] in
                case DoGlobalRequest (tl_hooks tp) (ur_client request) HttpTransportOnResponse hookData of
                  Inl err \<Rightarrow> (Inl err, calls)
                | Inr out \<Rightarrow>
                    (case tl_decode_response tp (raw_response out) of
                       Inl err \<Rightarrow> (Inl err, calls)
                     | Inr response \<Rightarrow>
                         (if rn_skip response then (Inr (r\<lparr>ul_body := Inr body\<rparr>), calls)
                          else if rn_cancel response then (Inl (Err ''canceled''), calls)
                          else
                            (case rn_response response of
                               None \<Rightarrow> (Inr r, calls)
                             | Some p \<Rightarrow>
                                 (Inr (r\<lparr>ul_status_code := wp_status_code p, ul_body := Inr (wp_body p),
                                    ul_header := HeaderCSVToSlice (wp_headers p)\<rparr>), calls)))))))"

section \<open>The round trip\<close>

definition hook_of :: "string list \<Rightarrow> (string \<times> op_type) option \<Rightarrow> (string \<times> op_type) option" where
  "hook_of names meta =
     (case meta of None \<Rightarrow> None | Some m \<Rightarrow> (if fst m \<in> set names then Some m else None))"

definition finish_round_trip ::
    "transport_lib \<Rightarrow> api_transport \<Rightarrow> bool \<Rightarrow> (string \<times> op_type) option \<Rightarrow> up_request \<Rightarrow>
     up_response res \<times> up_event list" where
  "finish_round_trip tp t upgrade on_response request =
     (case tl_send tp request of
        Inl err \<Rightarrow> (Inl err, [Sent request])
      | Inr res \<Rightarrow>
          (if upgrade \<or> at_streaming t then (Inr res, [Sent request])
           else
             (case on_response of
                Some meta \<Rightarrow>
                  (let (out, calls) = handleOnResponseHook tp res meta in (out, Sent request # calls))
              | None \<Rightarrow>
                  (case (if at_debug t then tl_ctx_err tp else None) of
                     Some err \<Rightarrow> (Inl err, [Sent request])
                   | None \<Rightarrow> (Inr res, [Sent request])))))"

definition roundTrip ::
    "transport_lib \<Rightarrow> api_transport \<Rightarrow> up_request \<Rightarrow> up_response res \<times> up_event list" where
  "roundTrip tp t request =
     (let upgrade = tl_upgrade tp request;
          meta = ur_meta request;
          on_response = hook_of (at_on_response t) meta in
      case hook_of (at_on_request t) meta of
        None \<Rightarrow> finish_round_trip tp t upgrade on_response request
      | Some m \<Rightarrow>
          (case handleOnRequestHook tp request m of
             (Inl err, calls) \<Rightarrow> (Inl err, calls)
           | (Inr request, calls) \<Rightarrow>
               (let (out, more) = finish_round_trip tp t upgrade on_response request in
                (out, calls @ more))))"

text \<open>A field of the body is set; the error of the JSON library is returned here.\<close>

definition body_set :: "jsonlib \<Rightarrow> bytes \<Rightarrow> bytes \<Rightarrow> string list \<Rightarrow> bytes res" where
  "body_set js body v path = (case js_set js body v path of (b, None) \<Rightarrow> Inr b | (b, Some err) \<Rightarrow> Inl err)"

definition internal_body :: "transport_lib \<Rightarrow> up_request \<Rightarrow> bytes \<Rightarrow> bytes res" where
  "internal_body tp request body =
     bind_res (body_set (tl_json tp) body ''{}'' [''__wg'']) (\<lambda>body.
     bind_res (case ur_user request of
         None \<Rightarrow> Inr body
       | Some user \<Rightarrow>
           bind_res (tl_marshal_user tp user) (\<lambda>userData.
             body_set (tl_json tp) body userData [''__wg'', ''user''])) (\<lambda>body.
     case ur_client request of
       None \<Rightarrow> Inr body
     | Some clientRequest \<Rightarrow>
         bind_res (HttpRequestToWunderGraphRequestJSON (tl_marshal_client tp) clientRequest False) (\<lambda>requestJSON.
           body_set (tl_json tp) body requestJSON [''__wg'', ''clientRequest''])))"

definition internal_send :: "transport_lib \<Rightarrow> up_request \<Rightarrow> bytes res \<Rightarrow> up_response res \<times> up_event list" where
  "internal_send tp request content =
     (case bind_res content (internal_body tp request) of
        Inl err \<Rightarrow> (Inl err, [])
      | Inr requestBody \<Rightarrow>
          (case tl_new_request tp (ur_method request) (ur_url request) of
             Inl err \<Rightarrow> (Inl err, [])
           | Inr host \<Rightarrow>
               (let req = request\<lparr>ur_host := host, ur_body := Some (Inr requestBody)\<rparr> in
                (tl_send tp req, [Sent req]))))"

definition internalGraphQLRoundTrip ::
    "transport_lib \<Rightarrow> up_request \<Rightarrow> (up_response res \<times> up_event list) outcome" where
  "internalGraphQLRoundTrip tp request =
     (let request = request\<lparr>ur_header := header_del ''X-WG-Internal-GraphQL-API'' (ur_header request)\<rparr> in
      bind_out (deref (ur_body request)) (\<lambda>content. Returned (internal_send tp request content)))"

definition RoundTrip ::
    "transport_lib \<Rightarrow> api_transport \<Rightarrow> up_request \<Rightarrow> (up_response res \<times> up_event list) outcome" where
  "RoundTrip tp t request =
     (if header_get (ur_header request) ''X-WG-Internal-GraphQL-API'' = ''true''
      then internalGraphQLRoundTrip tp request
      else
        (case at_upstream t (ur_host request) of
           None \<Rightarrow> Returned (roundTrip tp t request)
         | Some auth \<Rightarrow>
             bind_out (handleUpstreamAuthentication tp (at_primary_host t) request auth) (\<lambda>authenticated.
               Returned (case authenticated of
                   Inl err \<Rightarrow> (Inl err, [])
                 | Inr request \<Rightarrow> roundTrip tp t request))))"

section \<open>What goes out\<close>

text \<open>The shape of a trace: a request hook, the request, a response hook; each at most once.\<close>

definition transport_trace :: "'r res \<Rightarrow> up_event list \<Rightarrow> bool" where
  "transport_trace out evs \<longleftrightarrow>
     (\<exists>pre sent post. evs = map (HookSent HttpTransportOnRequest) pre @ map Sent sent
         @ map (HookSent HttpTransportOnResponse) post
       \<and> length pre \<le> 1 \<and> length sent \<le> 1 \<and> length post \<le> length sent
       \<and> (sent = [] \<longrightarrow> (\<exists>err. out = Inl err)))"

lemma transport_traceI:
  assumes "evs = map (HookSent HttpTransportOnRequest) pre @ map Sent sent
      @ map (HookSent HttpTransportOnResponse) post"
    and "length pre \<le> 1" "length sent \<le> 1" "length post \<le> length sent"
    and "sent = [] \<Longrightarrow> \<exists>err. out = Inl err"
  shows "transport_trace out evs"
  using assms unfolding transport_trace_def by blast

lemma transport_trace_sent: "transport_trace out [Sent q]"
  by (rule transport_traceI [where pre = "[]" and sent = "[q]" and post = "[]"]) simp_all

lemma transport_trace_refused: "transport_trace (Inl err) []"
  by (rule transport_traceI [where pre = "[]" and sent = "[]" and post = "[]"]) simp_all

lemma request_hook_trace:
  assumes "handleOnRequestHook tp r m = (out, evs)"
  shows "\<exists>pre. evs = map (HookSent HttpTransportOnRequest) pre \<and> length pre \<le> 1"
proof -
  have "evs = [] \<or> (\<exists>d. evs = [HookSent HttpTransportOnRequest d])"
    using assms by (auto simp: handleOnRequestHook_def Let_def split: sum.splits option.splits if_splits)
  then show ?thesis
  proof
    assume "evs = []" then show ?thesis by (intro exI [of _ "[]"]) simp
  next
    assume "\<exists>d. evs = [HookSent HttpTransportOnRequest d]"
    then obtain d where "evs = [HookSent HttpTransportOnRequest d]" ..
    then show ?thesis by (intro exI [of _ "[d]"]) simp
  qed
qed

lemma response_hook_trace:
  assumes "handleOnResponseHook tp r m = (out, evs)"
  shows "\<exists>post. evs = map (HookSent HttpTransportOnResponse) post \<and> length post \<le> 1"
proof -
  have "evs = [] \<or> (\<exists>d. evs = [HookSent HttpTransportOnResponse d])"
    using assms by (auto simp: handleOnResponseHook_def Let_def split: sum.splits option.splits if_splits)
  then show ?thesis
  proof
    assume "evs = []" then show ?thesis by (intro exI [of _ "[]"]) simp
  next
    assume "\<exists>d. evs = [HookSent HttpTransportOnResponse d]"
    then obtain d where "evs = [HookSent HttpTransportOnResponse d]" ..
    then show ?thesis by (intro exI [of _ "[d]"]) simp
  qed
qed

lemma finish_trace:
  assumes "finish_round_trip tp t upgrade on_response q = (out, evs)"
  shows "\<exists>post. evs = Sent q # map (HookSent HttpTransportOnResponse) post \<and> length post \<le> 1"
proof -
  have "evs = [Sent q] \<or> (\<exists>r m out evs'. handleOnResponseHook tp r m = (out, evs') \<and> evs = Sent q # evs')"
    using assms by (auto simp: finish_round_trip_def split: sum.splits option.splits if_splits prod.splits)
  then show ?thesis
  proof
    assume "evs = [Sent q]" then show ?thesis by (intro exI [of _ "[]"]) simp
  next
    assume "\<exists>r m out evs'. handleOnResponseHook tp r m = (out, evs') \<and> evs = Sent q # evs'"
    then show ?thesis using response_hook_trace by (metis)
  qed
qed

lemma roundTrip_trace:
  assumes "roundTrip tp t r = (out, evs)"
  shows "transport_trace out evs"
proof (cases "hook_of (at_on_request t) (ur_meta r)")
  case None
  then have "finish_round_trip tp t (tl_upgrade tp r) (hook_of (at_on_response t) (ur_meta r)) r = (out, evs)"
    using assms by (simp add: roundTrip_def Let_def)
  from finish_trace [OF this] obtain post
    where "evs = Sent r # map (HookSent HttpTransportOnResponse) post" "length post \<le> 1" by blast
  then show ?thesis
    by (intro transport_traceI [where pre = "[]" and sent = "[r]" and post = post]) simp_all
next
  case (Some m)
  obtain answer calls where hook: "handleOnRequestHook tp r m = (answer, calls)" by fastforce
  from request_hook_trace [OF this] obtain pre
    where pre: "calls = map (HookSent HttpTransportOnRequest) pre" "length pre \<le> 1" by blast
  show ?thesis
  proof (cases answer)
    case (Inl err)
    with assms Some hook have "out = Inl err" "evs = calls" by (simp_all add: roundTrip_def Let_def)
    with pre show ?thesis
      by (intro transport_traceI [where pre = pre and sent = "[]" and post = "[]"]) simp_all
  next
    case (Inr q)
    obtain out' more where fin: "finish_round_trip tp t (tl_upgrade tp r)
        (hook_of (at_on_response t) (ur_meta r)) q = (out', more)" by fastforce
    from finish_trace [OF this] obtain post
      where post: "more = Sent q # map (HookSent HttpTransportOnResponse) post" "length post \<le> 1" by blast
    from assms Some hook Inr fin have "evs = calls @ more" by (simp add: roundTrip_def Let_def)
    with pre post show ?thesis
      by (intro transport_traceI [where pre = pre and sent = "[q]" and post = post]) simp_all
  qed
qed

lemma internal_trace: "internal_send tp r content = (out, evs) \<Longrightarrow> transport_trace out evs"
  by (auto simp: internal_send_def Let_def transport_trace_sent transport_trace_refused split: sum.splits)

section \<open>Properties\<close>

text \<open>C19: a request to a data source goes out at most once, after at most one call of the request
  hook and before at most one call of the response hook; a request that is not sent ends with
  an error.\<close>

theorem round_trip_sends_once:
  assumes "RoundTrip tp t r = Returned (out, evs)"
  shows "transport_trace out evs"
proof (cases "header_get (ur_header r) ''X-WG-Internal-GraphQL-API'' = ''true''")
  case True
  then show ?thesis
    using assms internal_trace
    by (auto simp: RoundTrip_def internalGraphQLRoundTrip_def Let_def bind_out_Returned_iff)
next
  case False
  have sent: "transport_trace out evs"
    if "(case a of Inl err \<Rightarrow> (Inl err, []) | Inr q \<Rightarrow> roundTrip tp t q) = (out, evs)" for a
    using that roundTrip_trace transport_trace_refused by (cases a) auto
  from False assms show ?thesis
    by (cases "at_upstream t (ur_host r)") (auto simp: RoundTrip_def bind_out_Returned_iff
        intro: roundTrip_trace sent)
qed

definition sample_transport :: transport_lib where
  "sample_transport =
     \<lparr>tl_send = (\<lambda>q. Inr \<lparr>ul_status_code = 200, ul_status = ''200 OK'', ul_header = no_header,
        ul_body = Inr ''answer'', ul_request = q\<rparr>),
      tl_upgrade = (\<lambda>_. False), tl_json = \<lparr>js_get = (\<lambda>_ _. ([], json_type.NotExist, None)),
        js_set = (\<lambda>d v p. (d, None)), js_delete = (\<lambda>d p. d)\<rparr>,
      tl_hooks = \<lparr>hc_url = [], hc_new_request = (\<lambda>_. None), hc_send = (\<lambda>_ _. Inr (200, [])), hc_decode = (\<lambda>_. Inr empty_hook_response),
        hc_marshal = (\<lambda>_. Inr []), hc_json = \<lparr>js_get = (\<lambda>_ _. ([], json_type.NotExist, None)),
        js_set = (\<lambda>d v p. (d, None)), js_delete = (\<lambda>d p. d)\<rparr>\<rparr>,
      tl_marshal_user = (\<lambda>_. Inr []), tl_marshal_client = (\<lambda>_. Inr []),
      tl_marshal_request = (\<lambda>_ _ _. Inr ''{}''), tl_marshal_response = (\<lambda>_ _ _. Inr ''{}''),
      tl_decode_request = (\<lambda>_. Inr \<lparr>ra_skip = False, ra_cancel = False, ra_request = None\<rparr>),
      tl_decode_response = (\<lambda>_. Inr \<lparr>rn_skip = True, rn_cancel = False, rn_response = None\<rparr>),
      tl_host = Inr, tl_new_request = (\<lambda>_ _. Inr []), tl_sign = (\<lambda>_ _. Inr []), tl_now = 0,
      tl_ctx_err = None, tl_getenv = (\<lambda>_. [])\<rparr>"

definition hooked_transport :: api_transport where
  "hooked_transport = \<lparr>at_debug = False, at_streaming = False, at_primary_host = [], at_upstream = Map.empty,
     at_on_request = [''Weather''], at_on_response = [''Weather'']\<rparr>"

definition sample_up_request :: up_request where
  "sample_up_request = \<lparr>ur_method = ''POST'', ur_url = ''/'', ur_host = ''api'', ur_header = no_header,
     ur_body = Some (Inr ''query''), ur_user = None, ur_client = None, ur_meta = Some (''Weather'', QUERY)\<rparr>"

theorem round_trip_sends_once_witness:
  "\<exists>out evs. RoundTrip sample_transport hooked_transport sample_up_request = Returned (out, evs)
     \<and> transport_trace out evs"
proof -
  obtain out evs where run: "roundTrip sample_transport hooked_transport sample_up_request = (out, evs)"
    by fastforce
  then have "RoundTrip sample_transport hooked_transport sample_up_request = Returned (out, evs)"
    by (simp add: RoundTrip_def hooked_transport_def sample_up_request_def header_get_def no_header_def)
  from round_trip_sends_once [OF this] this show ?thesis by blast
qed

text \<open>when the request hook answers neither to skip nor to cancel nor with a request, the
  request goes out without its body: the hook has read it, and it is not put back.\<close>

theorem request_hook_drops_body:
  assumes "header_get (ur_header r) ''X-WG-Internal-GraphQL-API'' \<noteq> ''true''" "at_upstream t (ur_host r) = None"
    and "hook_of (at_on_request t) (ur_meta r) = Some m" "ur_body r = Some (Inr body)"
    and "handleOnRequestHook tp r m = (Inr q, calls)"
    and "\<And>d. tl_decode_request tp d = Inr \<lparr>ra_skip = False, ra_cancel = False, ra_request = None\<rparr>"
  shows "\<exists>out evs. RoundTrip tp t r = Returned (out, evs) \<and> Sent (r\<lparr>ur_body := Some (Inr [])\<rparr>) \<in> set evs"
proof -
  have q: "q = r\<lparr>ur_body := Some (Inr [])\<rparr>"
    using assms(4-6) by (auto simp: handleOnRequestHook_def Let_def split: sum.splits)
  obtain out evs where fin: "finish_round_trip tp t (tl_upgrade tp r)
      (hook_of (at_on_response t) (ur_meta r)) q = (out, evs)" by fastforce
  then have "RoundTrip tp t r = Returned (out, calls @ evs)"
    using assms(1-3,5) by (simp add: RoundTrip_def roundTrip_def Let_def)
  moreover have "Sent q \<in> set evs" using finish_trace [OF fin] by auto
  ultimately show ?thesis by (auto simp: q)
qed

theorem request_hook_drops_body_witness:
  "\<exists>out evs. RoundTrip sample_transport hooked_transport sample_up_request = Returned (out, evs)
     \<and> Sent (sample_up_request\<lparr>ur_body := Some (Inr [])\<rparr>) \<in> set evs"
proof (rule request_hook_drops_body [where m = "(''Weather'', QUERY)" and body = "''query''"
    and q = "sample_up_request\<lparr>ur_body := Some (Inr [])\<rparr>" and calls = "[HookSent HttpTransportOnRequest ''{}'']"])
  show "handleOnRequestHook sample_transport sample_up_request (''Weather'', QUERY)
      = (Inr (sample_up_request\<lparr>ur_body := Some (Inr [])\<rparr>), [HookSent HttpTransportOnRequest ''{}''])"
    by (simp add: handleOnRequestHook_def sample_transport_def sample_up_request_def Let_def with_user_def
        DoGlobalRequest_def doRequest_def setInternalHookData_def empty_hook_response_def)
qed (simp_all add: sample_up_request_def hooked_transport_def hook_of_def header_get_def no_header_def
    sample_transport_def)

end
