(* ===== verification/RequestContext.thy ===== *)
theory RequestContext
  imports Pool ApiTransport
begin

text \<open>
  What the transport finds in the context of a request to a data source: the user, the request of the client and the
  meta data of the operation (apihandler.go, authentication.go, apitransport.go). An operation that fills the cache
  resolves with the context of its request, and again, when its entry has become stale, with another one.
\<close>

section \<open>Values of a context\<close>

definition setOperationMetaData :: "operation \<Rightarrow> go_context \<Rightarrow> go_context" where
  "setOperationMetaData operation ctx =
     WithValue ''operationMetaData'' (ContextOperation (op_name operation, op_kind operation)) ctx"

definition getOperationMetaData :: "go_context \<Rightarrow> (string \<times> op_type) option" where
  "getOperationMetaData ctx =
     (case gc_values ctx ''operationMetaData'' of Some (ContextOperation meta) \<Rightarrow> Some meta | _ \<Rightarrow> None)"

text \<open>A request to a data source with a context. A nil pointer to the request of the client, whose use panics
  (\<open>client_request\<close>), is left out.\<close>

definition with_context :: "go_context \<Rightarrow> up_request \<Rightarrow> up_request" where
  "with_context ctx q =
     q\<lparr>ur_user := UserFromContext ctx,
       ur_client := (case gc_values ctx ClientRequestKey of Some (ContextRequest cr) \<Rightarrow> cr | _ \<Rightarrow> None),
       ur_meta := getOperationMetaData ctx\<rparr>"

text \<open>The context an operation handler resolves with: it notes the operation, then takes a context for its request.\<close>

definition operation_context :: "operation \<Rightarrow> request \<Rightarrow> go_context \<Rightarrow> go_context" where
  "operation_context operation r rctx =
     WithValue ClientRequestKey (ContextRequest (Some r)) (setOperationMetaData operation rctx)"

lemma operation_context_values:
  "getOperationMetaData (operation_context operation r rctx) = Some (op_name operation, op_kind operation)"
  "UserFromContext (operation_context operation r rctx) = UserFromContext rctx"
  "client_request (operation_context operation r rctx) = Returned (Some r)"
  by (simp_all add: operation_context_def setOperationMetaData_def getOperationMetaData_def WithValue_def
      UserFromContext_def client_request_def ClientRequestKey_def)

lemma revalidation_context_values:
  "getOperationMetaData (revalidation_context rctx) = None"
  "UserFromContext (revalidation_context rctx) = UserFromContext rctx"
  by (simp_all add: revalidation_context_def getOperationMetaData_def WithValue_def background_def UserFromContext_def
      split: option.splits ctx_value.splits)

section \<open>Hooks\<close>

lemma authentication_keeps_meta:
  assumes "handleUpstreamAuthentication tp primary q auth = Returned (Inr q')"
  shows "ur_meta q' = ur_meta q"
proof (cases "ur_user q")
  case None
  with assms show ?thesis by (simp add: handleUpstreamAuthentication_def)
next
  case (Some user)
  with assms obtain jwt where jwt: "deref (ua_jwt auth) = Returned jwt" "ua_kind auth = UPSTREAM_JWT"
    by (auto simp: handleUpstreamAuthentication_def bind_out_Returned_iff split: upstream_kind.splits)
  show ?thesis
    by (cases "tl_sign tp (load_string (tl_getenv tp) (ju_secret jwt)) (upstream_claims tp primary q user)")
      (use assms Some jwt in \<open>auto simp: handleUpstreamAuthentication_def\<close>)
qed

lemma roundTrip_without_meta:
  assumes "ur_meta q = None" "roundTrip tp t q = (out, evs)"
  shows "HookSent k d \<notin> set evs"
  using assms
  by (auto simp: roundTrip_def hook_of_def finish_round_trip_def Let_def split: sum.splits if_splits option.splits)

lemma roundTrip_hooked:
  assumes "hook_of (at_on_request t) (ur_meta q) = Some m" "roundTrip tp t q = (out, evs)" "Sent p \<in> set evs"
  shows "\<exists>d rest. evs = HookSent HttpTransportOnRequest d # rest"
proof -
  obtain answer calls where hook: "handleOnRequestHook tp q m = (answer, calls)" by fastforce
  then have calls: "calls = [] \<and> (\<exists>err. answer = Inl err) \<or> (\<exists>d. calls = [HookSent HttpTransportOnRequest d])"
    by (auto simp: handleOnRequestHook_def Let_def split: sum.splits if_splits option.splits)
  show ?thesis
  proof (cases answer)
    case (Inl err)
    with assms(1,2) hook have "evs = calls" by (simp add: roundTrip_def Let_def)
    with calls assms(3) show ?thesis by auto
  next
    case (Inr q')
    with assms(1,2) hook obtain more where "evs = calls @ more"
      by (auto simp: roundTrip_def Let_def split: prod.splits)
    with calls Inr show ?thesis by auto
  qed
qed

lemma roundTrip_sends:
  assumes "hook_of (at_on_request t) (ur_meta q) = Some m" "handleOnRequestHook tp q m = (Inr q', calls)"
  shows "Sent q' \<in> set (snd (roundTrip tp t q))"
proof -
  obtain out evs where fin: "finish_round_trip tp t (tl_upgrade tp q) (hook_of (at_on_response t) (ur_meta q)) q' = (out, evs)"
    by fastforce
  from finish_trace [OF fin] have "Sent q' \<in> set evs" by auto
  with assms fin show ?thesis by (simp add: roundTrip_def Let_def)
qed

lemma RoundTrip_cases:
  assumes "RoundTrip tp t q = Returned (out, evs)" "header_get (ur_header q) ''X-WG-Internal-GraphQL-API'' \<noteq> ''true''"
  shows "evs = [] \<or> (\<exists>q'. ur_meta q' = ur_meta q \<and> roundTrip tp t q' = (out, evs))"
proof (cases "at_upstream t (ur_host q)")
  case None
  with assms show ?thesis by (auto simp: RoundTrip_def)
next
  case (Some auth)
  with assms obtain r where r: "handleUpstreamAuthentication tp (at_primary_host t) q auth = Returned r"
    "(case r of Inl err \<Rightarrow> (Inl err, []) | Inr q' \<Rightarrow> roundTrip tp t q') = (out, evs)"
    by (auto simp: RoundTrip_def bind_out_Returned_iff)
  then show ?thesis using authentication_keeps_meta by (cases r) fastforce+
qed

text \<open>C4: A request to a data source that goes out while an operation with a request hook is served has been given to
  the hook first; the same request while a stale entry of the cache is revalidated goes out without any hook, so that
  the cache is refilled with what the hooks would have changed or refused.\<close>

theorem revalidation_bypasses_hooks:
  assumes "header_get (ur_header q) ''X-WG-Internal-GraphQL-API'' \<noteq> ''true''"
    and "op_name operation \<in> set (at_on_request t)"
    and "RoundTrip tp t (with_context (operation_context operation r rctx) q) = Returned (out, evs)" "Sent p \<in> set evs"
    and "RoundTrip tp t (with_context (revalidation_context rctx) q) = Returned (out', evs')"
  shows "(\<exists>d rest. evs = HookSent HttpTransportOnRequest d # rest) \<and> (\<forall>k d. HookSent k d \<notin> set evs')"
proof
  have meta: "ur_meta (with_context (operation_context operation r rctx) q) = Some (op_name operation, op_kind operation)"
    "ur_meta (with_context (revalidation_context rctx) q) = None"
    by (simp_all add: with_context_def operation_context_values revalidation_context_values)
  have header: "ur_header (with_context ctx q) = ur_header q" for ctx by (simp add: with_context_def)
  from RoundTrip_cases [OF assms(3)] assms(1,4) obtain q' where q': "ur_meta q' = Some (op_name operation, op_kind operation)"
    "roundTrip tp t q' = (out, evs)" by (auto simp: header meta)
  have "hook_of (at_on_request t) (ur_meta q') = Some (op_name operation, op_kind operation)"
    using assms(2) q'(1) by (simp add: hook_of_def)
  then show "\<exists>d rest. evs = HookSent HttpTransportOnRequest d # rest" using q'(2) assms(4) by (rule roundTrip_hooked)
  from RoundTrip_cases [OF assms(5)] assms(1) have "evs' = [] \<or> (\<exists>q'. ur_meta q' = None \<and> roundTrip tp t q' = (out', evs'))"
    by (simp add: header meta)
  then show "\<forall>k d. HookSent k d \<notin> set evs'" using roundTrip_without_meta by fastforce
qed

definition weather_operation :: operation where
  "weather_operation = sample_operation\<lparr>op_name := ''Weather''\<rparr>"

theorem revalidation_bypasses_hooks_witness:
  "\<exists>out evs out' evs'.
     RoundTrip sample_transport hooked_transport
       (with_context (operation_context weather_operation empty_request background) sample_up_request) = Returned (out, evs)
     \<and> (\<exists>d rest. evs = HookSent HttpTransportOnRequest d # rest)
     \<and> RoundTrip sample_transport hooked_transport
       (with_context (revalidation_context background) sample_up_request) = Returned (out', evs')
     \<and> (\<forall>k d. HookSent k d \<notin> set evs')"
proof -
  let ?served = "with_context (operation_context weather_operation empty_request background) sample_up_request"
  let ?revalidated = "with_context (revalidation_context background) sample_up_request"
  have up: "header_get (ur_header sample_up_request) ''X-WG-Internal-GraphQL-API'' \<noteq> ''true''"
    by (simp add: sample_up_request_def header_get_def no_header_def)
  have "header_get (ur_header (with_context ctx sample_up_request)) ''X-WG-Internal-GraphQL-API'' \<noteq> ''true''"
    "at_upstream hooked_transport (ur_host (with_context ctx sample_up_request)) = None" for ctx
    using up by (simp_all add: with_context_def hooked_transport_def)
  then have trip: "RoundTrip sample_transport hooked_transport (with_context ctx sample_up_request)
      = Returned (roundTrip sample_transport hooked_transport (with_context ctx sample_up_request))" for ctx
    by (simp add: RoundTrip_def)
  obtain out evs out' evs' where rt: "roundTrip sample_transport hooked_transport ?served = (out, evs)"
    "roundTrip sample_transport hooked_transport ?revalidated = (out', evs')" by fastforce
  have served: "ur_body ?served = Some (Inr ''query'')" "ur_user ?served = None" "ur_client ?served = Some empty_request"
    "ur_meta ?served = Some (''Weather'', op_kind sample_operation)"
    by (simp_all add: with_context_def operation_context_values weather_operation_def sample_up_request_def)
      (simp_all add: operation_context_def setOperationMetaData_def WithValue_def background_def UserFromContext_def)
  have "handleOnRequestHook sample_transport ?served m = (Inr (?served\<lparr>ur_body := Some (Inr [])\<rparr>), [HookSent HttpTransportOnRequest ''{}''])" for m
    using served by (simp add: handleOnRequestHook_def sample_transport_def Let_def with_user_def
        DoGlobalRequest_def doRequest_def setInternalHookData_def HttpRequestToWunderGraphRequestJSON_def
        empty_request_def empty_hook_response_def)
  moreover have "hook_of (at_on_request hooked_transport) (ur_meta ?served) = Some (''Weather'', op_kind sample_operation)"
    by (simp add: served hook_of_def hooked_transport_def)
  ultimately have "\<exists>p. Sent p \<in> set (snd (roundTrip sample_transport hooked_transport ?served))"
    using roundTrip_sends by blast
  with rt obtain p where sent: "Sent p \<in> set evs" by auto
  have runs: "RoundTrip sample_transport hooked_transport ?served = Returned (out, evs)"
    "RoundTrip sample_transport hooked_transport ?revalidated = Returned (out', evs')" by (simp_all add: trip rt)
  have hooked: "op_name weather_operation \<in> set (at_on_request hooked_transport)"
    by (simp add: weather_operation_def hooked_transport_def)
  from revalidation_bypasses_hooks [OF up hooked runs(1) sent runs(2)] runs show ?thesis by blast
qed

end
