(* ===== verification/Endpoints.thy ===== *)
theory Endpoints
  imports OperationProps LoginProviders RequestContext
begin

text \<open>
  The endpoints beside the operations: the internal API (internalapihandler.go), the GraphQL
  endpoint and its playground (apihandler.go), webhooks (webhookhandler.go) and file uploads
  (s3uploadclient.go). Parameters are the GraphQL engine, HMAC, the object store and the
  multipart reader.
\<close>

section \<open>The internal API\<close>

text \<open>
  \<open>in_string\<close> is jsonparser.GetString, \<open>in_fields\<close> lists the fields of the object at a path
  (jsonparser.ObjectEach), \<open>in_request\<close> is http.NewRequest of a method and a URI.
\<close>

record internal_lib =
  in_string :: "bytes \<Rightarrow> string list \<Rightarrow> string res"
  in_fields :: "bytes \<Rightarrow> string list \<Rightarrow> ((string \<times> string) list) res"
  in_request :: "string \<Rightarrow> string \<Rightarrow> request res"

definition NewRequestFromWunderGraphClientRequest ::
    "op_env \<Rightarrow> internal_lib \<Rightarrow> bytes \<Rightarrow> request option res" where
  "NewRequestFromWunderGraphClientRequest env il body =
     (if js_type (ev_json env) body [''__wg'', ''clientRequest''] = json_type.NotExist then Inr None
      else
        bind_res (in_string il body [''__wg'', ''clientRequest'', ''method'']) (\<lambda>method.
        bind_res (in_string il body [''__wg'', ''clientRequest'', ''requestURI'']) (\<lambda>requestURI.
        bind_res (in_request il method requestURI) (\<lambda>request.
        bind_res (in_fields il body [''__wg'', ''clientRequest'', ''headers'']) (\<lambda>headers.
          Inr (Some (request\<lparr>rq_header :=
            foldl (\<lambda>h (k, v). header_set k v h) (rq_header request) headers\<rparr>)))))))"

definition internal_variables :: "op_env \<Rightarrow> bytes \<Rightarrow> bytes" where
  "internal_variables env body =
     (let variables = fst (js_get (ev_json env) body [''input'']) in
      if length variables = 0 then ''{}'' else variables)"

definition internal_inject_stage :: "op_env \<Rightarrow> operation \<Rightarrow> bytes \<Rightarrow> op_state stage" where
  "internal_inject_stage env operation extracted s =
     (let vars = (if length extracted \<noteq> 0 then MergeJsonRightIntoLeft env (os_vars s) extracted
                  else os_vars s) in
      Inr (s\<lparr>os_vars := injectVariables env operation vars\<rparr>))"

definition internal_respond_stage :: "op_state stage" where
  "internal_respond_stage s =
     Inr (on_writer (\<lambda>w. w_write (os_resp s) (set_header ''Content-Type'' ''application/json'' w)) s)"

text \<open>
  The handler notes the operation in the context of the request, where the transport looks for it
  when it calls its hooks, and takes a context for the request of the client that called the hooks
  server. \<open>envs\<close> is what the handler finds outside, given the context it resolves with.
\<close>

definition InternalApiHandler ::
    "(go_context \<Rightarrow> op_env) \<Rightarrow> internal_lib \<Rightarrow> operation \<Rightarrow> bytes \<Rightarrow> go_context \<Rightarrow> request \<Rightarrow> writer \<Rightarrow> op_state" where
  "InternalApiHandler envs il operation extracted rctx r w =
     (let rctx = setOperationMetaData operation rctx;
          bad_request = on_writer (http_error ''bad request'' 400) (start_state r w) in
      case rq_body r of
        Inl err \<Rightarrow> bad_request
      | Inr body \<Rightarrow>
          (case NewRequestFromWunderGraphClientRequest (envs rctx) il body of
             Inl err \<Rightarrow> bad_request
           | Inr clientRequest \<Rightarrow>
               (let env = envs (WithValue ClientRequestKey (ContextRequest clientRequest) rctx) in
                run_stages
                  [compact_stage env, internal_inject_stage env operation extracted,
                   resolve_stage env ''Internal API Handler ResolveGraphQLResponse failed'',
                   internal_respond_stage]
                  ((start_state r w)\<lparr>os_vars := internal_variables env body\<rparr>))))"

definition GenSymmetricKey :: "(nat \<Rightarrow> bytes res) \<Rightarrow> int \<Rightarrow> bytes res" where
  "GenSymmetricKey rand bits =
     (if bits \<le> 0 \<or> bits mod 8 \<noteq> 0 then Inl (Err ''key size invalid'')
      else rand (nat (bits div 8)))"

section \<open>The GraphQL endpoint\<close>

text \<open>A planned operation, by the type of its plan; planning that fails leaves a nil plan.\<close>

datatype 'p gql_plan = SyncPlan 'p | SubscriptionPlan 'p | StreamingPlan | NilPlan

text \<open>
  \<open>gl_parse\<close> parses a query, \<open>gl_print\<close> prints a document, \<open>gl_sum\<close> is the 64-bit sum of xxhash over what
  was written;
  \<open>gl_prepare\<close> normalises (the named operation, when there is a name), validates and plans;
  \<open>gl_resolve\<close> and \<open>gl_events\<close> resolve a plan with variables. \<open>gl_unused\<close> is the handler argument
  of the flush writer, which looks at it for hooks only; this writer has none.
\<close>

record ('d, 'p) gql_lib =
  gl_env :: op_env
  gl_string :: "bytes \<Rightarrow> string list \<Rightarrow> string"
  gl_parse :: "string \<Rightarrow> 'd res"
  gl_print :: "'d \<Rightarrow> bytes res"
  gl_sum :: "bytes \<Rightarrow> nat"
  gl_prepare :: "bytes \<Rightarrow> 'd \<Rightarrow> ('p gql_plan \<times> bytes) res"
  gl_resolve :: "'p \<Rightarrow> bytes \<Rightarrow> bytes res"
  gl_events :: "'p \<Rightarrow> bytes \<Rightarrow> bytes list"
  gl_unused :: op_handler

type_synonym 'p prepared = "nat \<rightharpoonup> 'p gql_plan \<times> bytes"

definition preparePlan ::
    "('d, 'p) gql_lib \<Rightarrow> nat \<Rightarrow> bytes \<Rightarrow> 'd \<Rightarrow> 'p prepared \<Rightarrow> ('p gql_plan \<times> bytes) res \<times> 'p prepared" where
  "preparePlan gl operationHash name doc prepared =
     (case gl_prepare gl name doc of
        Inl err \<Rightarrow> (Inl err, prepared)
      | Inr plan \<Rightarrow> (Inr plan, prepared(operationHash \<mapsto> plan)))"

definition gql_operation_name :: "jsonlib \<Rightarrow> bytes \<Rightarrow> bytes" where
  "gql_operation_name js body =
     (if js_type js body [''operationName''] = NullT then []
      else fst (js_get js body [''operationName'']))"

definition gql_execute ::
    "('d, 'p) gql_lib \<Rightarrow> 'p gql_plan \<Rightarrow> bytes \<Rightarrow> request \<Rightarrow> writer \<Rightarrow> writer" where
  "gql_execute gl plan variables r w =
     (case plan of
        SyncPlan p \<Rightarrow>
          (let w = set_header ''Content-Type'' ''application/json'' w in
           case gl_resolve gl p variables of
             Inl err \<Rightarrow> (if err_is_canceled err then w else http_error ''bad request'' 400 w)
           | Inr buf \<Rightarrow> w_write buf w)
      | SubscriptionPlan p \<Rightarrow>
          (if \<not> ev_flusher (gl_env gl) then http_error ''Connection not flushable'' 400 w
           else
             (let (f, w) = getFlushWriter r w in
              os_w (snd (stream_events (gl_env gl) (gl_unused gl) (gl_events gl p variables)
                (f, start_state r w)))))
      | StreamingPlan \<Rightarrow> http_error ''not implemented'' 404 w
      | NilPlan \<Rightarrow> w)"

definition GraphQLHandler ::
    "('d, 'p) gql_lib \<Rightarrow> request \<Rightarrow> writer \<Rightarrow> 'p prepared \<Rightarrow> writer \<times> 'p prepared" where
  "GraphQLHandler gl r w prepared =
     (case rq_body r of
        Inl err \<Rightarrow> (http_error ''bad request'' 400 w, prepared)
      | Inr body \<Rightarrow>
          (let js = ev_json (gl_env gl);
               name = gql_operation_name js body;
               variables = fst (js_get js body [''variables'']) in
           case gl_parse gl (gl_string gl body [''query'']) of
             Inl report \<Rightarrow> (http_error ''bad request'' 400 w, prepared)
           | Inr doc \<Rightarrow>
               (case gl_print gl doc of
                  Inl err \<Rightarrow> (http_error ''bad request'' 400 w, prepared)
                | Inr printed \<Rightarrow>
                    (let operationHash = gl_sum gl (name @ printed) in
                     case (case prepared operationHash of
                        Some plan \<Rightarrow> (Inr plan, prepared)
                      | None \<Rightarrow> preparePlan gl operationHash name doc prepared) of
                       (Inl err, prepared) \<Rightarrow> (write_header 400 w, prepared)
                     | (Inr (plan, extracted), prepared) \<Rightarrow>
                         (gql_execute gl plan
                            (if length extracted \<noteq> 0
                             then MergeJsonRightIntoLeft (gl_env gl) variables extracted else variables) r w,
                          prepared)))))"

definition GraphQLPlaygroundHandler :: "string \<Rightarrow> string \<Rightarrow> string \<Rightarrow> handler" where
  "GraphQLPlaygroundHandler html nodeUrl apiPathPrefix r w =
     (let apiURL = trim_suffix nodeUrl ''/'' @ ''/'' @ trim_prefix apiPathPrefix ''/'';
          resp = replace_first html ''{{apiURL}}'' apiURL;
          w = set_header ''Content-Type'' ''text/html; charset=utf-8'' w;
          w = set_header ''Content-Length'' (itoa (length resp)) w in
      w_write resp w)"

section \<open>Webhooks\<close>

record webhook_handler =
  wk_prefix :: string
  wk_verifier :: "(bytes \<times> string \<times> string) option"

definition NewWebhook ::
    "(string \<Rightarrow> string) \<Rightarrow> (string \<Rightarrow> go_error option) \<Rightarrow> webhook_config \<Rightarrow> string \<Rightarrow> string \<Rightarrow> webhook_handler res" where
  "NewWebhook env parse_url config pathPrefix hooksServerURL =
     (case parse_url hooksServerURL of
        Some err \<Rightarrow> Inl err
      | None \<Rightarrow>
          Inr \<lparr>wk_prefix = ''/'' @ pathPrefix,
            wk_verifier = (case wh_verifier config of
                None \<Rightarrow> None
              | Some v \<Rightarrow>
                  (case wv_kind v of
                     HMAC_SHA256 \<Rightarrow> Some (load_string env (wv_secret v), wv_header v, wv_header_prefix v)))\<rparr>)"

text \<open>hex.DecodeString: the bytes before the first text that is no pair of digits.\<close>

definition hex_val :: "char \<Rightarrow> nat option" where
  "hex_val c =
     (let n = (of_char c :: nat) in
      if 48 \<le> n \<and> n \<le> 57 then Some (n - 48)
      else if 97 \<le> n \<and> n \<le> 102 then Some (n - 87)
      else if 65 \<le> n \<and> n \<le> 70 then Some (n - 55)
      else None)"

fun hex_decode :: "string \<Rightarrow> bytes" where
  "hex_decode (a # b # cs) =
     (case (hex_val a, hex_val b) of
        (Some x, Some y) \<Rightarrow> char_of (16 * x + y) # hex_decode cs
      | _ \<Rightarrow> [])"
| "hex_decode cs = []"

definition Verify :: "(bytes \<Rightarrow> bytes \<Rightarrow> bytes) \<Rightarrow> bytes \<times> string \<times> string \<Rightarrow> request \<Rightarrow> bool" where
  "Verify hmac v r =
     (case v of
        (secret, signatureHeader, signatureHeaderPrefix) \<Rightarrow>
          (case rq_body r of
             Inl err \<Rightarrow> False
           | Inr body \<Rightarrow>
               (let signature = header_get (rq_header r) signatureHeader;
                    signature = (if signatureHeaderPrefix \<noteq> []
                      then trim_prefix signature signatureHeaderPrefix else signature) in
                hmac secret body = hex_decode signature)))"

text \<open>\<open>Inl\<close> is a response of the handler, \<open>Inr\<close> the request it forwards.\<close>

definition webhook_serve ::
    "(bytes \<Rightarrow> bytes \<Rightarrow> bytes) \<Rightarrow> webhook_handler \<Rightarrow> request \<Rightarrow> writer \<Rightarrow> writer + request" where
  "webhook_serve hmac h r w =
     (let r = r\<lparr>rq_path := trim_prefix (rq_path r) (wk_prefix h)\<rparr> in
      case wk_verifier h of
        None \<Rightarrow> Inr r
      | Some v \<Rightarrow> (if \<not> Verify hmac v r then Inl (write_header 401 w) else Inr r))"

section \<open>File uploads\<close>

text \<open>What the multipart reader gives: a part with its file name, type and content, or an error.\<close>

datatype upload_part = Part string string "bytes res" | PartError go_error

record stored_object =
  so_data :: bytes
  so_type :: string
  so_name :: string
  so_ext :: string
  so_size :: nat

record upload_env =
  up_reader :: "request \<Rightarrow> (upload_part list) res"
  up_temp :: "string \<Rightarrow> go_error option"
  up_hash :: "bytes \<Rightarrow> string"
  up_put_error :: "string \<Rightarrow> stored_object \<Rightarrow> go_error option"
  up_print :: "string list \<Rightarrow> bytes res"
  up_error_text :: "go_error \<Rightarrow> string"

type_synonym bucket = "string \<rightharpoonup> stored_object"

definition file_ext :: "string \<Rightarrow> string" where
  "file_ext name =
     (let tail = takeWhile (\<lambda>c. c \<noteq> CHR ''.'' \<and> c \<noteq> CHR ''/'') (rev name);
          before = drop (length tail) (rev name) in
      case before of c # _ \<Rightarrow> (if c = CHR ''.'' then CHR ''.'' # rev tail else []) | [] \<Rightarrow> [])"

definition uploadToS3 ::
    "upload_env \<Rightarrow> string \<Rightarrow> string \<Rightarrow> bytes res \<Rightarrow> bucket \<Rightarrow> string res \<times> bucket" where
  "uploadToS3 u fileName contentType content bucket =
     (let extension = file_ext fileName in
      case up_temp u (''wundergraph-upload.*.'' @ extension) of
        Some err \<Rightarrow> (Inl err, bucket)
      | None \<Rightarrow>
          (case content of
             Inl err \<Rightarrow> (Inl err, bucket)
           | Inr data \<Rightarrow>
               (let key = up_hash u data @ extension;
                    object = \<lparr>so_data = data, so_type = contentType, so_name = fileName, so_ext = extension,
                              so_size = length data\<rparr> in
                case up_put_error u key object of
                  Some err \<Rightarrow> (Inl err, bucket)
                | None \<Rightarrow> (Inr key, bucket(key \<mapsto> object)))))"

fun upload_parts :: "upload_env \<Rightarrow> upload_part list \<Rightarrow> bucket \<Rightarrow> (string list) res \<times> bucket" where
  "upload_parts u [] bucket = (Inr [], bucket)"
| "upload_parts u (PartError err # ps) bucket = (Inl err, bucket)"
| "upload_parts u (Part fileName contentType content # ps) bucket =
     (if fileName = [] then upload_parts u ps bucket
      else
        (case uploadToS3 u fileName contentType content bucket of
           (Inl err, bucket) \<Rightarrow> (Inl err, bucket)
         | (Inr key, bucket) \<Rightarrow>
             (case upload_parts u ps bucket of
                (Inl err, bucket) \<Rightarrow> (Inl err, bucket)
              | (Inr keys, bucket) \<Rightarrow> (Inr (key # keys), bucket))))"

definition UploadFile :: "upload_env \<Rightarrow> request \<Rightarrow> writer \<Rightarrow> bucket \<Rightarrow> writer \<times> bucket" where
  "UploadFile u r w bucket =
     (case up_reader u r of
        Inl err \<Rightarrow> (http_error (up_error_text u err) 500 w, bucket)
      | Inr parts \<Rightarrow>
          (case upload_parts u parts bucket of
             (Inl err, bucket) \<Rightarrow> (http_error (up_error_text u err) 400 w, bucket)
           | (Inr keys, bucket) \<Rightarrow>
               (case up_print u keys of
                  Inl err \<Rightarrow> (http_error (up_error_text u err) 500 w, bucket)
                | Inr files \<Rightarrow>
                    (w_write files (set_header ''Content-Type'' ''application/json'' w), bucket))))"

text \<open>The client is only used when its bucket exists or can be made.\<close>

definition createBucket :: "bool res \<Rightarrow> go_error option \<Rightarrow> go_error option" where
  "createBucket exists_bucket make_error =
     (case exists_bucket of
        Inl err \<Rightarrow> Some err
      | Inr e \<Rightarrow> (if e then None else make_error))"

section \<open>Plans are prepared once\<close>

text \<open>What identifies the operation of a request: the name it gives and its printed document. Other
  requests are refused before a plan is looked for.\<close>

definition operation_key :: "('d, 'p) gql_lib \<Rightarrow> request \<Rightarrow> (bytes \<times> bytes) option" where
  "operation_key gl r =
     (case rq_body r of
        Inl err \<Rightarrow> None
      | Inr body \<Rightarrow>
          (case gl_parse gl (gl_string gl body [''query'']) of
             Inl report \<Rightarrow> None
           | Inr doc \<Rightarrow>
               (case gl_print gl doc of
                  Inl err \<Rightarrow> None
                | Inr printed \<Rightarrow> Some (gql_operation_name (ev_json (gl_env gl)) body, printed))))"

text \<open>Documents that print alike are planned alike.\<close>

definition prints_faithfully :: "('d, 'p) gql_lib \<Rightarrow> bool" where
  "prints_faithfully gl \<longleftrightarrow>
     (\<forall>name doc doc' printed. gl_print gl doc = Inr printed \<longrightarrow> gl_print gl doc' = Inr printed
       \<longrightarrow> gl_prepare gl name doc = gl_prepare gl name doc')"

text \<open>No two different operations among the requests have the same sum.\<close>

definition no_collision :: "('d, 'p) gql_lib \<Rightarrow> request set \<Rightarrow> bool" where
  "no_collision gl rs \<longleftrightarrow>
     (\<forall>r \<in> rs. \<forall>r' \<in> rs. \<forall>name printed name' printed'.
        operation_key gl r = Some (name, printed) \<longrightarrow> operation_key gl r' = Some (name', printed')
        \<longrightarrow> gl_sum gl (name @ printed) = gl_sum gl (name' @ printed') \<longrightarrow> name = name' \<and> printed = printed')"

text \<open>The plans kept are those of operations of the requests, under their sums.\<close>

definition plans_ok :: "('d, 'p) gql_lib \<Rightarrow> request set \<Rightarrow> 'p prepared \<Rightarrow> bool" where
  "plans_ok gl rs prepared \<longleftrightarrow>
     (\<forall>h plan. prepared h = Some plan \<longrightarrow>
       (\<exists>r \<in> rs. \<exists>name printed doc. operation_key gl r = Some (name, printed) \<and> h = gl_sum gl (name @ printed)
         \<and> gl_print gl doc = Inr printed \<and> gl_prepare gl name doc = Inr plan))"

text \<open>The rest of a request that has a plan.\<close>

definition gql_answer :: "('d, 'p) gql_lib \<Rightarrow> bytes \<Rightarrow> 'p gql_plan \<times> bytes \<Rightarrow> request \<Rightarrow> writer \<Rightarrow> writer" where
  "gql_answer gl body plan r w =
     (let (p, extracted) = plan; variables = fst (js_get (ev_json (gl_env gl)) body [''variables'']) in
      gql_execute gl p
        (if length extracted \<noteq> 0 then MergeJsonRightIntoLeft (gl_env gl) variables extracted else variables) r w)"

lemma GraphQLHandler_refused:
  "operation_key gl r = None \<Longrightarrow> GraphQLHandler gl r w prepared = (http_error ''bad request'' 400 w, prepared)"
  by (auto simp: GraphQLHandler_def operation_key_def Let_def split: sum.splits)

lemma GraphQLHandler_planned:
  assumes "operation_key gl r = Some (name, printed)"
  shows "\<exists>body doc. rq_body r = Inr body \<and> gl_print gl doc = Inr printed
    \<and> (\<forall>w prepared. GraphQLHandler gl r w prepared =
         (case prepared (gl_sum gl (name @ printed)) of
            Some plan \<Rightarrow> (gql_answer gl body plan r w, prepared)
          | None \<Rightarrow>
              (case gl_prepare gl name doc of
                 Inl err \<Rightarrow> (write_header 400 w, prepared)
               | Inr plan \<Rightarrow> (gql_answer gl body plan r w, prepared(gl_sum gl (name @ printed) \<mapsto> plan)))))"
proof -
  from assms obtain body doc where key: "rq_body r = Inr body" "gl_parse gl (gl_string gl body [''query'']) = Inr doc"
    "gl_print gl doc = Inr printed" "name = gql_operation_name (ev_json (gl_env gl)) body"
    by (auto simp: operation_key_def split: sum.splits)
  then have "GraphQLHandler gl r w prepared =
         (case prepared (gl_sum gl (name @ printed)) of
            Some plan \<Rightarrow> (gql_answer gl body plan r w, prepared)
          | None \<Rightarrow>
              (case gl_prepare gl name doc of
                 Inl err \<Rightarrow> (write_header 400 w, prepared)
               | Inr plan \<Rightarrow> (gql_answer gl body plan r w, prepared(gl_sum gl (name @ printed) \<mapsto> plan))))" for w prepared
    by (auto simp: GraphQLHandler_def preparePlan_def gql_answer_def Let_def split: option.split sum.split prod.split)
  with key show ?thesis by blast
qed

text \<open>One request: the response is that of a handler without plans, and the plans stay right.\<close>

lemma graphql_once:
  assumes "plans_ok gl rs prepared" "prints_faithfully gl" "no_collision gl rs" "r \<in> rs"
  shows "fst (GraphQLHandler gl r w prepared) = fst (GraphQLHandler gl r w Map.empty)
    \<and> plans_ok gl rs (snd (GraphQLHandler gl r w prepared))"
proof (cases "operation_key gl r")
  case None
  then show ?thesis using assms(1) by (simp add: GraphQLHandler_refused)
next
  case (Some key)
  obtain name printed where key: "operation_key gl r = Some (name, printed)" using Some by (cases key) simp
  from GraphQLHandler_planned [OF this] obtain body doc where doc: "gl_print gl doc = Inr printed"
    and run: "\<And>w prepared. GraphQLHandler gl r w prepared =
         (case prepared (gl_sum gl (name @ printed)) of
            Some plan \<Rightarrow> (gql_answer gl body plan r w, prepared)
          | None \<Rightarrow>
              (case gl_prepare gl name doc of
                 Inl err \<Rightarrow> (write_header 400 w, prepared)
               | Inr plan \<Rightarrow> (gql_answer gl body plan r w, prepared(gl_sum gl (name @ printed) \<mapsto> plan))))"
    by blast
  show ?thesis
  proof (cases "prepared (gl_sum gl (name @ printed))")
    case None
    have "plans_ok gl rs (prepared(gl_sum gl (name @ printed) \<mapsto> plan))" if "gl_prepare gl name doc = Inr plan" for plan
      using assms(1,4) key doc that by (fastforce simp: plans_ok_def)
    with None show ?thesis using assms(1) by (simp add: run split: sum.split)
  next
    case (Some plan)
    with assms(1) obtain r' name' printed' doc' where hit: "r' \<in> rs" "operation_key gl r' = Some (name', printed')"
      "gl_sum gl (name @ printed) = gl_sum gl (name' @ printed')" "gl_print gl doc' = Inr printed'"
      "gl_prepare gl name' doc' = Inr plan"
      unfolding plans_ok_def by blast
    with assms(3,4) key have same: "name = name'" "printed = printed'" unfolding no_collision_def by blast+
    have "gl_prepare gl name doc = Inr plan"
      using assms(2) doc hit(4,5) same unfolding prints_faithfully_def by metis
    with Some show ?thesis using assms(1) by (simp add: run)
  qed
qed

fun serve_graphql :: "('d, 'p) gql_lib \<Rightarrow> request list \<Rightarrow> 'p prepared \<Rightarrow> writer list" where
  "serve_graphql gl [] prepared = []"
| "serve_graphql gl (r # rs) prepared =
     (let (w, prepared) = GraphQLHandler gl r new_writer prepared in w # serve_graphql gl rs prepared)"

lemma serve_graphql_plans:
  "plans_ok gl R prepared \<Longrightarrow> prints_faithfully gl \<Longrightarrow> no_collision gl R \<Longrightarrow> set rs \<subseteq> R \<Longrightarrow>
     serve_graphql gl rs prepared = map (\<lambda>r. fst (GraphQLHandler gl r new_writer Map.empty)) rs"
proof (induction rs arbitrary: prepared)
  case (Cons r rs)
  with graphql_once [OF Cons.prems(1-3), of r new_writer] show ?case
    by (simp add: split_beta)
qed simp

text \<open>Nothing stands between the name and the document when they are hashed: a request with another name
  and another document, but the same text of both together, is answered with the plan of the first.\<close>

lemma joined_text_shares_plan:
  assumes "operation_key gl r = Some (name, printed)" "operation_key gl r' = Some (name', printed')"
    and "name @ printed = name' @ printed'" "prepared (gl_sum gl (name @ printed)) = Some plan"
  shows "\<exists>body'. rq_body r' = Inr body' \<and> GraphQLHandler gl r' w prepared = (gql_answer gl body' plan r' w, prepared)"
  using GraphQLHandler_planned [OF assms(2)] assms(3,4) by auto

section \<open>Properties\<close>

text \<open>C18: the plans that the GraphQL endpoint keeps under 64-bit sums are transparent: a sequence of
  requests is answered as if every request was planned anew, as long as no two different operations of
  this sequence (a name and a printed document) have the same sum, and documents that print alike are
  planned alike.\<close>

theorem graphql_plans_transparent:
  assumes "prints_faithfully gl" "no_collision gl (set rs)"
  shows "serve_graphql gl rs Map.empty = map (\<lambda>r. fst (GraphQLHandler gl r new_writer Map.empty)) rs"
  using serve_graphql_plans [OF _ assms order_refl] by (simp add: plans_ok_def)

text \<open>A library whose sum adds the characters, so that some operations collide and others do not.\<close>

definition letters_gql :: "(bytes, bytes) gql_lib" where
  "letters_gql =
     \<lparr>gl_env = sample_env, gl_string = (\<lambda>body _. body), gl_parse = Inr,
      gl_print = Inr, gl_sum = (\<lambda>t. sum_list (map of_char t)), gl_prepare = (\<lambda>name d. Inr (SyncPlan (name @ d), [])),
      gl_resolve = (\<lambda>d _. Inr d), gl_events = (\<lambda>_ _. []), gl_unused = sample_handler\<rparr>"

definition sample_queries :: "request list" where
  "sample_queries = map (\<lambda>q. empty_request\<lparr>rq_body := Inr q\<rparr>) [''ab'', ''cd'', ''ab'']"

theorem graphql_plans_transparent_witness:
  "serve_graphql letters_gql sample_queries Map.empty
     = map (\<lambda>r. fst (GraphQLHandler letters_gql r new_writer Map.empty)) sample_queries
   \<and> map w_body (serve_graphql letters_gql sample_queries Map.empty) = [''ab'', ''cd'', ''ab'']"
proof -
  have "prints_faithfully letters_gql" by (simp add: prints_faithfully_def letters_gql_def)
  moreover have "no_collision letters_gql (set sample_queries)"
    by (simp add: no_collision_def sample_queries_def operation_key_def letters_gql_def gql_operation_name_def
        sample_env_def op_json_def js_type_def)
  ultimately have "serve_graphql letters_gql sample_queries Map.empty
     = map (\<lambda>r. fst (GraphQLHandler letters_gql r new_writer Map.empty)) sample_queries"
    by (rule graphql_plans_transparent)
  moreover have "map w_body (serve_graphql letters_gql sample_queries Map.empty) = [''ab'', ''cd'', ''ab'']"
    by code_simp
  ultimately show ?thesis by blast
qed

end
