(* ===== verification/UserHandlers.thy ===== *)
theory UserHandlers
  imports UserLoad
begin

text \<open>
  The handlers of pkg/authentication/authentication.go that serve the user of a request:
  the user endpoint for tokens and for cookies, and the logout. \<open>encode\<close> is the JSON
  encoder of a user.
\<close>

section \<open>The user endpoints\<close>

definition TokenUserHandler :: "(user \<Rightarrow> bytes) \<Rightarrow> handler" where
  "TokenUserHandler encode r w =
     (case rq_user r of
        None \<Rightarrow> write_header 400 w
      | Some user \<Rightarrow>
          w_write (encode (RemoveInternalFields user))
            (set_header ''Content-Type'' ''application/json'' w))"

record cookie_user_handler =
  cu_revalidate :: bool
  cu_hooks :: login_hooks
  cu_host :: string
  cu_insecure :: bool
  cu_cookie :: secure_cookie
  cu_hash :: "user \<Rightarrow> nat res"

text \<open>The data of the revalidation hook: the user, and the tokens that are not nil.\<close>

definition revalidate_data :: "jsonlib \<Rightarrow> user \<Rightarrow> bytes \<Rightarrow> bytes" where
  "revalidate_data js user userJson =
     (let hookData = js_put js ''{}'' userJson [''user''];
          hookData = (case us_access_token user of
              None \<Rightarrow> hookData | Some t \<Rightarrow> js_put js hookData t [''access_token'']);
          hookData = (case us_id_token user of
              None \<Rightarrow> hookData | Some t \<Rightarrow> js_put js hookData t [''id_token'']) in
      hookData)"

text \<open>
  The revalidation: \<open>Inl\<close> is a return after an error response, \<open>Inr\<close> goes on with the
  revalidated user. The decoding error of the hook's response is not looked at.
\<close>

definition revalidate_user ::
    "cookie_user_handler \<Rightarrow> request \<Rightarrow> user \<Rightarrow> writer \<Rightarrow> writer + user \<times> writer" where
  "revalidate_user h r user w =
     (let hk = cu_hooks h in
      if cu_revalidate h \<and> query_get r ''revalidate'' = ''true'' then
        (case hk_marshal hk user of
           Inl err \<Rightarrow> Inl (not_found w)
         | Inr userJson \<Rightarrow>
             (case DoAuthenticationRequest (hk_client hk) None RevalidateAuthentication
                     (revalidate_data (hc_json (hk_client hk)) user userJson) of
                Inl err \<Rightarrow> Inl (not_found w)
              | Inr out \<Rightarrow>
                  (if hr_error out \<noteq> [] then Inl (not_found w)
                   else
                     (let res = fst (hk_decode hk (raw_bytes (hr_response out))) in
                      if mr_status res \<noteq> ''ok'' then Inl (not_found w)
                      else
                        (case SaveUser (cu_cookie h) (cu_hash h) (cu_host h) (cu_insecure h)
                                ((mr_user res)\<lparr>us_access_token := us_access_token user,
                                               us_id_token := us_id_token user\<rparr>) w of
                           (u, w, Some err) \<Rightarrow> Inl (not_found w)
                         | (u, w, None) \<Rightarrow> Inr (u, w))))))
      else Inr (user, w))"

definition CookieUserHandler ::
    "(user \<Rightarrow> bytes) \<Rightarrow> (user \<Rightarrow> bytes) \<Rightarrow> cookie_user_handler \<Rightarrow> handler" where
  "CookieUserHandler encode encode_indent h r w =
     (case rq_user r of
        None \<Rightarrow> not_found w
      | Some user \<Rightarrow>
          (case revalidate_user h r user w of
             Inl w \<Rightarrow> w
           | Inr (user, w) \<Rightarrow>
               (if header_get (rq_header r) ''If-None-Match'' = us_etag user then write_header 304 w
                else
                  (let w = set_header ''Content-Type'' ''application/json'' w;
                       w = set_raw_header ''ETag'' (us_etag user) w;
                       w = set_header ''Cache-Control'' ''private, max-age=0, stale-while-revalidate=60'' w;
                       user = RemoveInternalFields user in
                   if header_get (rq_header r) ''Accept'' \<noteq> ''application/json''
                   then w_write (encode_indent user) w
                   else w_write (encode user) w))))"

definition CSRFTokenHandler :: "(request \<Rightarrow> string) \<Rightarrow> handler" where
  "CSRFTokenHandler token r w = w_write (token r) w"

section \<open>The logout\<close>

record logout_handler =
  lh_insecure :: bool
  lh_logout_urls :: "string \<Rightarrow> string option"
  lh_hooks :: login_hooks

text \<open>
  The writer, the hook calls, and the requests to a provider, each with the URL and the
  identity token it is given as a hint. \<open>iss\<close> reads the issuer of an identity token.
\<close>

definition UserLogoutHandler ::
    "(bytes \<Rightarrow> string res) \<Rightarrow> logout_handler \<Rightarrow> request \<Rightarrow> writer \<Rightarrow>
     writer \<times> hook_calls \<times> (string \<times> string) list" where
  "UserLogoutHandler iss u r w =
     (let w = resetUserCookies r (\<not> lh_insecure u) w in
      case rq_user r of
        None \<Rightarrow> (w, [], [])
      | Some user \<Rightarrow>
          (let calls = handlePostLogout (lh_hooks u) (Some user) in
           if \<not> query_has r ''logout_openid_connect_provider'' then (w, calls, [])
           else if us_provider user \<noteq> ''oidc'' then (w, calls, [])
           else
             (case us_id_token user of
                None \<Rightarrow> (w, calls, [])
              | Some t \<Rightarrow>
                  (case iss t of
                     Inl err \<Rightarrow> (w, calls, [])
                   | Inr issuer \<Rightarrow>
                       (if issuer = [] then (w, calls, [])
                        else
                          (case lh_logout_urls u issuer of
                             None \<Rightarrow> (w, calls, [])
                           | Some logoutURL \<Rightarrow> (w, calls, [(logoutURL, us_raw_id_token user)])))))))"

section \<open>Facts\<close>

lemma body_http_error:
  "w_body (http_error msg code w) = w_body w \<or> w_body (http_error msg code w) = w_body w @ msg @ [CHR 0x0A]"
  by (simp add: http_error_def write_body)

definition not_found_text :: bytes where
  "not_found_text = ''404 page not found'' @ [CHR 0x0A]"

lemma body_not_found: "w_body (not_found w) \<in> {w_body w, w_body w @ not_found_text}"
  using body_http_error [of "''404 page not found''" 404 w]
  by (simp only: not_found_def not_found_text_def insert_iff) blast

lemma body_w_write: "w_body (w_write b w) = w_body w \<or> w_body (w_write b w) = w_body w @ b"
  by (simp add: write_body)

lemma SaveUser_body: "SaveUser s hash domain ins u w = (u', w', err) \<Longrightarrow> w_body w' = w_body w"
  by (auto simp: SaveUser_def Let_def split: sum.splits)

lemma revalidate_user_Inr:
  "revalidate_user h r u w = Inr (u', w') \<Longrightarrow> w_body w' = w_body w"
  by (auto simp: revalidate_user_def Let_def
      split: sum.splits prod.splits option.splits if_splits dest: SaveUser_body)

lemma revalidate_user_Inl:
  "revalidate_user h r u w = Inl w' \<Longrightarrow> \<exists>w0. w' = not_found w0 \<and> w_body w0 = w_body w"
  by (auto simp: revalidate_user_def Let_def
      split: sum.splits prod.splits option.splits if_splits dest: SaveUser_body)

lemma revalidate_user_body:
  "revalidate_user h r u w = Inl w' \<Longrightarrow> w_body w' \<in> {w_body w, w_body w @ not_found_text}"
  using revalidate_user_Inl body_not_found by metis

section \<open>Properties\<close>

text \<open>no answer of the user endpoints discloses a token: what is written is an error text
  or the encoding of a user whose entity tag, origin and tokens have been removed.\<close>

theorem user_endpoints_disclose_no_token:
  assumes "w_body w = []"
  shows "w_body (CookieUserHandler encode encode_indent h r w)
      \<in> {[], not_found_text}
        \<union> {b. \<exists>u. (b = encode u \<or> b = encode_indent u) \<and> us_access_token u = None
            \<and> us_id_token u = None \<and> us_raw_access_token u = [] \<and> us_raw_id_token u = []
            \<and> us_etag u = []}
    \<and> w_body (TokenUserHandler encode r w)
      \<in> {[]} \<union> {b. \<exists>u. b = encode u \<and> us_access_token u = None
            \<and> us_id_token u = None \<and> us_raw_access_token u = [] \<and> us_raw_id_token u = []}"
proof -
  have gone: "us_access_token (RemoveInternalFields u) = None \<and> us_id_token (RemoveInternalFields u) = None
    \<and> us_raw_access_token (RemoveInternalFields u) = [] \<and> us_raw_id_token (RemoveInternalFields u) = []
    \<and> us_etag (RemoveInternalFields u) = []" for u
    by (simp add: RemoveInternalFields_def)
  show ?thesis (is "?c \<and> ?t")
  proof
    show ?t using gone assms
      by (auto simp: TokenUserHandler_def write_body split: option.splits)
    show ?c
    proof (cases "rq_user r")
      case None
      then show ?thesis
        using body_not_found [of w] assms by (auto simp: CookieUserHandler_def)
    next
      case (Some user)
      show ?thesis
      proof (cases "revalidate_user h r user w")
        case (Inl w')
        with Some revalidate_user_body [OF Inl] assms show ?thesis
          by (auto simp: CookieUserHandler_def)
      next
        case (Inr uw)
        obtain u' w' where uw: "uw = (u', w')" by fastforce
        then have "w_body w' = []" using Inr revalidate_user_Inr assms by metis
        with Some Inr uw gone [of u'] show ?thesis
          by (auto simp: CookieUserHandler_def write_body Let_def)
      qed
    qed
  qed
qed

theorem user_endpoints_disclose_no_token_witness:
  "w_body (TokenUserHandler us_raw_id_token
      (empty_request\<lparr>rq_user := Some (zero_user\<lparr>us_raw_id_token := ''secret''\<rparr>)\<rparr>) new_writer) = []"
  using user_endpoints_disclose_no_token [of new_writer us_raw_id_token]
  by (fastforce simp: new_writer_def)

text \<open>the cookie user endpoint takes the absence of If-None-Match for a match: a user without
  an entity tag, which every user of a bearer token is unless a hook sets one, is answered
  304 without a body when the request is not conditional.\<close>

theorem CookieUserHandler_unconditional_304:
  assumes "rq_user r = Some u" "us_etag u = []"
    and "query_get r ''revalidate'' \<noteq> ''true''" "header_get (rq_header r) ''If-None-Match'' = []"
    and "w_sent w = None"
  shows "response_status (CookieUserHandler encode encode_indent h r w) = 304
    \<and> w_body (CookieUserHandler encode encode_indent h r w) = w_body w"
  using assms
  by (simp add: CookieUserHandler_def revalidate_user_def Let_def response_status_def write_header_sent)

theorem CookieUserHandler_unconditional_304_witness:
  "response_status (CookieUserHandler us_name us_name
      \<lparr>cu_revalidate = False, cu_hooks = sample_hooks, cu_host = [], cu_insecure = False,
       cu_cookie = sample_cookies, cu_hash = (\<lambda>_. Inr 0)\<rparr>
      (empty_request\<lparr>rq_user := Some zero_user\<rparr>) new_writer) = 304"
  using CookieUserHandler_unconditional_304 [of "empty_request\<lparr>rq_user := Some zero_user\<rparr>" zero_user new_writer]
  by (simp add: empty_request_def zero_user_def new_writer_def query_get_def header_get_def no_header_def)

text \<open>a logout always expires both login cookies; it asks the identity provider to end its
  session exactly when that was requested, the user comes from OpenID Connect and the issuer
  of the identity token has a logout URL, and then once, with the raw identity token.\<close>

theorem UserLogoutHandler_spec:
  assumes "w_sent w = None" "UserLogoutHandler iss u r w = (w', calls, requests)"
  shows "response_cookies w' = w_cookies w
      @ [reset_cookie r (\<not> lh_insecure u) ''user'', reset_cookie r (\<not> lh_insecure u) ''id'']
    \<and> (\<forall>url hint. requests = [(url, hint)] \<longleftrightarrow>
        (\<exists>user t issuer. rq_user r = Some user \<and> query_has r ''logout_openid_connect_provider''
          \<and> us_provider user = ''oidc'' \<and> us_id_token user = Some t \<and> iss t = Inr issuer \<and> issuer \<noteq> []
          \<and> lh_logout_urls u issuer = Some url \<and> hint = us_raw_id_token user))
    \<and> length requests \<le> 1"
proof -
  have "w' = resetUserCookies r (\<not> lh_insecure u) w"
    using assms(2) by (auto simp: UserLogoutHandler_def Let_def split: option.splits sum.splits if_splits)
  then have "response_cookies w' = w_cookies w
      @ [reset_cookie r (\<not> lh_insecure u) ''user'', reset_cookie r (\<not> lh_insecure u) ''id'']"
    using assms(1) by (simp add: response_cookies_def response_cookies_reset)
  moreover have "length requests \<le> 1"
    using assms(2) by (auto simp: UserLogoutHandler_def Let_def split: option.splits sum.splits if_splits)
  moreover have "requests = [(url, hint)] \<longleftrightarrow>
        (\<exists>user t issuer. rq_user r = Some user \<and> query_has r ''logout_openid_connect_provider''
          \<and> us_provider user = ''oidc'' \<and> us_id_token user = Some t \<and> iss t = Inr issuer \<and> issuer \<noteq> []
          \<and> lh_logout_urls u issuer = Some url \<and> hint = us_raw_id_token user)" for url hint
    using assms(2) by (auto simp: UserLogoutHandler_def Let_def split: option.splits sum.splits if_splits)
  ultimately show ?thesis by blast
qed

theorem UserLogoutHandler_spec_witness:
  "\<exists>w' calls. UserLogoutHandler (\<lambda>_. Inr ''idp'')
      \<lparr>lh_insecure = False, lh_logout_urls = [''idp'' \<mapsto> ''https://idp/logout''], lh_hooks = sample_hooks\<rparr>
      (empty_request\<lparr>rq_query := [(''logout_openid_connect_provider'', [])],
         rq_user := Some (zero_user\<lparr>us_provider := ''oidc'', us_id_token := Some ''{}'',
           us_raw_id_token := ''a.b.c''\<rparr>)\<rparr>) new_writer
    = (w', calls, [(''https://idp/logout'', ''a.b.c'')])"
proof -
  let ?u = "\<lparr>lh_insecure = False, lh_logout_urls = [''idp'' \<mapsto> ''https://idp/logout''], lh_hooks = sample_hooks\<rparr>"
  let ?user = "zero_user\<lparr>us_provider := ''oidc'', us_id_token := Some ''{}'', us_raw_id_token := ''a.b.c''\<rparr>"
  let ?r = "empty_request\<lparr>rq_query := [(''logout_openid_connect_provider'', [])], rq_user := Some ?user\<rparr>"
  obtain w' calls requests where run: "UserLogoutHandler (\<lambda>_. Inr ''idp'') ?u ?r new_writer = (w', calls, requests)"
    by (metis prod.collapse)
  have "w_sent new_writer = None" by (simp add: new_writer_def)
  from UserLogoutHandler_spec [OF this run]
  have "\<forall>url hint. requests = [(url, hint)] \<longleftrightarrow> url = ''https://idp/logout'' \<and> hint = ''a.b.c''"
    by (auto simp: query_has_def)
  with run show ?thesis by simp
qed

end
