(* ===== verification/Api.thy ===== *)
theory Api
  imports Wgpb "HOL-Library.Word"
begin

text \<open>
  pkg/apihandler/api.go: the description of the API that the node builds its router
  from. A port is a 16-bit word, a time.Duration an \<open>int\<close> of nanoseconds.
\<close>

datatype log_level = DebugLevel | InfoLevel | WarnLevel | ErrorLevel | PanicLevel | FatalLevel

record listener =
  ls_host :: string
  ls_port :: "16 word"

record api_options =
  ao_server_url :: string
  ao_public_url :: string
  ao_listener :: listener
  ao_log_level :: log_level
  ao_timeout :: int

record api =
  api_primary_host :: string
  api_hosts :: "string list"
  api_path_prefix :: string
  api_engine :: "engine_config option"
  api_single_flight :: bool
  api_graphql_endpoint :: bool
  api_operations :: "operation list"
  api_cors :: "cors_config option"
  api_deployment_id :: string
  api_cache :: "cache_config option"
  api_config_hash :: string
  api_auth :: "auth_config option"
  api_s3 :: "s3_config list"
  api_webhooks :: "webhook_config list"
  api_opts :: api_options

definition has_cookie_auth_enabled :: "api \<Rightarrow> bool" where
  "has_cookie_auth_enabled api =
     (case api_auth api of
        None \<Rightarrow> False
      | Some auth \<Rightarrow>
          (case ac_cookie auth of
             None \<Rightarrow> False
           | Some cookie \<Rightarrow> 0 < length (ca_providers cookie)))"

lemma has_cookie_auth_enabledE:
  assumes "has_cookie_auth_enabled api"
  obtains auth cookie where "api_auth api = Some auth" "ac_cookie auth = Some cookie"
    "ca_providers cookie \<noteq> []"
  using assms by (auto simp: has_cookie_auth_enabled_def split: option.splits)

end
