(* ===== verification/Validate.thy ===== *)
theory Validate
  imports Api LoadVariable
begin

text \<open>
  pkg/validate: the validator of configuration values (validator.go) and the check of an
  API before it is served (apiconfig.go). A validated value is a Go value of type any;
  dereferencing a nil pointer to a string panics, which is the result \<open>None\<close>.
\<close>

section \<open>The validator\<close>

datatype any_value = AnyNil | AnyString string | AnyStringPtr "string option" | AnyOther

record validator =
  vd_path :: string
  vd_data :: any_value

type_synonym verdict = "(bool \<times> string list) option"
type_synonym vfunc = "validator \<Rightarrow> verdict"

definition MinLength :: "int \<Rightarrow> vfunc" where
  "MinLength minLength v =
     (let errMsg = [vd_path v @ '' must be at least '' @ itoa_int minLength @ '' characters long''];
          errMsgNoString = [vd_path v @ '' must be a string''] in
      (case vd_data v of
         AnyStringPtr None \<Rightarrow> None
       | AnyStringPtr (Some s) \<Rightarrow>
           (if int (length s) < minLength then Some (False, errMsg) else Some (True, []))
       | AnyString s \<Rightarrow>
           (if int (length s) < minLength then Some (False, errMsg) else Some (True, []))
       | _ \<Rightarrow> Some (False, errMsgNoString)))"

definition Length :: "int \<Rightarrow> vfunc" where
  "Length len v =
     (let errMsg = [vd_path v @ '' must be exactly '' @ itoa_int len @ '' characters long''];
          errMsgNoString = [vd_path v @ '' must be a string''] in
      (case vd_data v of
         AnyStringPtr None \<Rightarrow> None
       | AnyStringPtr (Some s) \<Rightarrow>
           (if int (length s) \<noteq> len then Some (False, errMsg) else Some (True, []))
       | AnyString s \<Rightarrow>
           (if int (length s) \<noteq> len then Some (False, errMsg) else Some (True, []))
       | _ \<Rightarrow> Some (False, errMsgNoString)))"

definition MaxLength :: "int \<Rightarrow> vfunc" where
  "MaxLength maxLength v =
     (let errMsg = [vd_path v @ '' must be at most '' @ itoa_int maxLength @ '' characters long''];
          errMsgNoString = [vd_path v @ '' must be a string''] in
      (case vd_data v of
         AnyStringPtr None \<Rightarrow> None
       | AnyStringPtr (Some s) \<Rightarrow>
           (if maxLength < int (length s) then Some (False, errMsg) else Some (True, []))
       | AnyString s \<Rightarrow>
           (if maxLength < int (length s) then Some (False, errMsg) else Some (True, []))
       | _ \<Rightarrow> Some (False, errMsgNoString)))"

definition Required :: vfunc where
  "Required v =
     (let errMsg = [vd_path v @ '' is required''];
          errMsgNoString = [vd_path v @ '' must be a string''] in
      (case vd_data v of
         AnyNil \<Rightarrow> Some (False, errMsg)
       | AnyStringPtr None \<Rightarrow> None
       | AnyStringPtr (Some s) \<Rightarrow>
           (if length s = 0 then Some (False, errMsg) else Some (True, []))
       | AnyString s \<Rightarrow> (if s = [] then Some (False, errMsg) else Some (True, []))
       | AnyOther \<Rightarrow> Some (False, errMsgNoString)))"

fun validate_from :: "bool \<Rightarrow> string list \<Rightarrow> validator \<Rightarrow> vfunc list \<Rightarrow> verdict" where
  "validate_from finalResult errorMessages v [] = Some (finalResult, errorMessages)"
| "validate_from finalResult errorMessages v (f # fs) =
     (case f v of
        None \<Rightarrow> None
      | Some (valid, messages) \<Rightarrow>
          (if \<not> valid then Some (False, errorMessages @ messages)
           else validate_from finalResult errorMessages v fs))"

definition Validate :: "validator \<Rightarrow> vfunc list \<Rightarrow> verdict" where
  "Validate v fs = validate_from True [] v fs"

section \<open>The contract of a validation function\<close>

text \<open>
  What the validator relies on: a message accompanies exactly the negative verdicts, and
  only a nil pointer makes the function panic.
\<close>

locale validation_func =
  fixes f :: vfunc
  assumes messages_iff: "f v = Some (ok, msgs) \<Longrightarrow> (msgs = []) = ok"
    and panics_on_nil: "f v = None \<Longrightarrow> vd_data v = AnyStringPtr None"
begin

lemma total_on_string: "\<exists>r. f \<lparr>vd_path = p, vd_data = AnyString s\<rparr> = Some r"
  using panics_on_nil by (cases "f \<lparr>vd_path = p, vd_data = AnyString s\<rparr>") fastforce+

lemma rejects_with_message: "f v = Some (False, msgs) \<Longrightarrow> msgs \<noteq> []"
  using messages_iff by blast

end

lemmas vfunc_defs = MinLength_def Length_def MaxLength_def Required_def Let_def

interpretation min_length: validation_func "MinLength n" for n
  by unfold_locales
    (auto simp: vfunc_defs split: any_value.splits option.splits if_splits)

interpretation exact_length: validation_func "Length n" for n
  by unfold_locales
    (auto simp: vfunc_defs split: any_value.splits option.splits if_splits)

interpretation max_length: validation_func "MaxLength n" for n
  by unfold_locales
    (auto simp: vfunc_defs split: any_value.splits option.splits if_splits)

interpretation required: validation_func Required
  by unfold_locales
    (auto simp: vfunc_defs split: any_value.splits option.splits if_splits)

lemma validate_from_messages_iff:
  "\<forall>f \<in> set fs. validation_func f \<Longrightarrow> validate_from True [] v fs = Some (ok, msgs)
    \<Longrightarrow> (msgs = []) = ok"
proof (induction fs)
  case Nil
  then show ?case by simp
next
  case (Cons f fs)
  then have f: "validation_func f" by simp
  from Cons show ?case
    by (auto split: option.splits prod.splits if_splits dest: validation_func.messages_iff [OF f])
qed

lemma validate_from_ok_iff:
  "(\<exists>msgs. validate_from True es v fs = Some (True, msgs))
    = (\<forall>f \<in> set fs. \<exists>msgs. f v = Some (True, msgs))"
  by (induction fs) (auto split: option.splits prod.splits if_splits)

section \<open>The API configuration\<close>

definition check_secret :: "(string \<Rightarrow> string) \<Rightarrow> string \<Rightarrow> cvar \<Rightarrow> int \<Rightarrow> verdict" where
  "check_secret env path secret len =
     Validate \<lparr>vd_path = path, vd_data = AnyString (load_string env secret)\<rparr> [Required, Length len]"

definition ApiConfig :: "(string \<Rightarrow> string) \<Rightarrow> api \<Rightarrow> verdict" where
  "ApiConfig env api =
     (if \<not> has_cookie_auth_enabled api then Some (True, [])
      else
        (case api_auth api of None \<Rightarrow> None | Some auth \<Rightarrow>
        (case ac_cookie auth of None \<Rightarrow> None | Some cookie \<Rightarrow>
        (case check_secret env ''authentication.cookieBased.csrfTokenSecret''
                (ca_csrf_secret cookie) 11 of
           None \<Rightarrow> None
         | Some (valid, msg) \<Rightarrow>
             if \<not> valid then Some (valid, msg) else
        (case check_secret env ''authentication.cookieBased.secureCookieBlockKey''
                (ca_block_key cookie) 32 of
           None \<Rightarrow> None
         | Some (valid, msg) \<Rightarrow>
             if \<not> valid then Some (valid, msg) else
        (case check_secret env ''authentication.cookieBased.secureCookieHashKey''
                (ca_hash_key cookie) 32 of
           None \<Rightarrow> None
         | Some (valid, msg) \<Rightarrow>
             if \<not> valid then Some (valid, msg) else Some (True, [])))))))"

lemma check_secret_cases:
  "check_secret env path secret len =
     (if load_string env secret = [] then Some (False, [path @ '' is required''])
      else if int (length (load_string env secret)) \<noteq> len
      then Some (False, [path @ '' must be exactly '' @ itoa_int len @ '' characters long''])
      else Some (True, []))"
  by (simp add: check_secret_def Validate_def Required_def Length_def Let_def)

end
