(* ===== verification/NodeConfig.thy ===== *)
theory NodeConfig
  imports Validate
begin

text \<open>
  pkg/node: the options of a node (node.go), the configuration it derives from a
  WunderGraph configuration (config.go), the reload of a changed configuration file, the
  development defaults, and the lists of hosts and listeners.
\<close>

section \<open>Log levels\<close>

definition FindLogLevel :: "string \<Rightarrow> log_level res" where
  "FindLogLevel logLevel =
     (let up = to_upper logLevel in
      if up = ''DEBUG'' then Inr DebugLevel
      else if up = ''INFO'' then Inr InfoLevel
      else if up = ''WARNING'' then Inr WarnLevel
      else if up = ''ERROR'' then Inr ErrorLevel
      else if up = ''FATAL'' then Inr FatalLevel
      else if up = ''PANIC'' then Inr PanicLevel
      else Inl (Err (''unknown log level: '' @ logLevel)))"

section \<open>Creating the configuration\<close>

record server_timeouts =
  sv_graceful :: int
  sv_keep_alive :: int
  sv_read :: int
  sv_write :: int
  sv_idle :: int

record wundernode_config =
  wn_server :: server_timeouts
  wn_api :: api

text \<open>A value of type int converted to uint16 keeps its low 16 bits.\<close>

definition create_listener :: "(string \<Rightarrow> string) \<Rightarrow> listener_options \<Rightarrow> listener" where
  "create_listener env l =
     \<lparr>ls_host = load_string env (lo_host l), ls_port = word_of_int (load_int env (lo_port l))\<rparr>"

definition default_timeout :: "node_options \<Rightarrow> int" where
  "default_timeout no =
     (if 0 < no_default_timeout no then wrap64 (no_default_timeout no * second)
      else 10 * second)"

definition primary_host :: "listener \<Rightarrow> string" where
  "primary_host l = ls_host l @ '':'' @ itoa (unat (ls_port l))"

definition create_api ::
    "(string \<Rightarrow> string) \<Rightarrow> wg_config \<Rightarrow> user_api \<Rightarrow> node_options \<Rightarrow> server_options \<Rightarrow> listener \<Rightarrow>
     log_level \<Rightarrow> api" where
  "create_api env cfg ud no so listener level =
     \<lparr>api_primary_host = primary_host listener,
      api_hosts = load_strings env (ud_hosts ud),
      api_path_prefix = path_join [wg_api_name cfg, wg_deployment_name cfg],
      api_engine = ud_engine ud,
      api_single_flight = True,
      api_graphql_endpoint = wg_enable_graphql cfg,
      api_operations = ud_operations ud,
      api_cors = ud_cors ud,
      api_deployment_id = [],
      api_cache = Some \<lparr>cc_kind = IN_MEMORY_CACHE,
        cc_in_memory = Some \<lparr>im_max_size = 1000000000\<rparr>, cc_redis = None\<rparr>,
      api_config_hash = [],
      api_auth = ud_auth ud,
      api_s3 = ud_s3 ud,
      api_webhooks = ud_webhooks ud,
      api_opts = \<lparr>ao_server_url = load_string env (so_server_url so),
                  ao_public_url = load_string env (no_public_url no),
                  ao_listener = listener,
                  ao_log_level = level,
                  ao_timeout = default_timeout no\<rparr>\<rparr>"

definition CreateConfig ::
    "(string \<Rightarrow> string) \<Rightarrow> wg_config \<Rightarrow> wundernode_config res outcome" where
  "CreateConfig env cfg =
     bind_out (deref (wg_api cfg)) (\<lambda>ud.
     bind_out (deref (ud_node ud)) (\<lambda>no.
     bind_out (deref (no_logger no)) (\<lambda>logger.
     (case FindLogLevel (load_string env (nl_level logger)) of
        Inl err \<Rightarrow> Returned (Inl err)
      | Inr level \<Rightarrow>
          bind_out (deref (no_listen no)) (\<lambda>lis.
          bind_out (deref (ud_server ud)) (\<lambda>so.
          Returned (Inr
            \<lparr>wn_server = \<lparr>sv_graceful = 0, sv_keep_alive = 5, sv_read = 5, sv_write = 5, sv_idle = 10\<rparr>,
             wn_api = create_api env cfg ud no so (create_listener env lis) level\<rparr>)))))))"

section \<open>The options\<close>

record rate_limit =
  rl_enable :: bool
  rl_requests :: int
  rl_per_duration :: int

record github_auth_demo =
  gd_client_id :: string
  gd_client_secret :: string

record options =
  op_static_config :: "wundernode_config option"
  op_fs_config :: "string option"
  op_debug :: bool
  op_force_https :: bool
  op_introspection :: bool
  op_config_change :: bool
  op_rate_limit :: rate_limit
  op_no_graceful :: bool
  op_insecure_cookies :: bool
  op_auth_demo :: github_auth_demo
  op_dev_mode :: bool
  op_idle_timeout :: int
  op_idle_handler :: bool
  op_hooks_health :: bool
  op_health_timeout :: int

definition zero_options :: options where
  "zero_options = \<lparr>op_static_config = None, op_fs_config = None, op_debug = False,
     op_force_https = False, op_introspection = False, op_config_change = False,
     op_rate_limit = \<lparr>rl_enable = False, rl_requests = 0, rl_per_duration = 0\<rparr>,
     op_no_graceful = False, op_insecure_cookies = False,
     op_auth_demo = \<lparr>gd_client_id = [], gd_client_secret = []\<rparr>, op_dev_mode = False,
     op_idle_timeout = 0, op_idle_handler = False, op_hooks_health = False, op_health_timeout = 0\<rparr>"

datatype option_fn =
    WithHooksServerHealthCheck int
  | WithStaticWunderNodeConfig wundernode_config
  | WithGitHubAuthDemo github_auth_demo
  | WithDevMode
  | WithInsecureCookies
  | WithIntrospection bool
  | WithGlobalRateLimit int int
  | WithFileSystemConfig string
  | WithConfigFileChange bool
  | WithDebugMode bool
  | WithForceHttpsRedirects bool
  | WithIdleTimeout int

text \<open>
  What an option function does. A channel or a handler is represented by whether it is
  present (not nil).
\<close>

fun apply_option :: "options \<Rightarrow> option_fn \<Rightarrow> options" where
  "apply_option o1 (WithHooksServerHealthCheck t) =
     o1\<lparr>op_hooks_health := True, op_health_timeout := t\<rparr>"
| "apply_option o1 (WithStaticWunderNodeConfig c) = o1\<lparr>op_static_config := Some c\<rparr>"
| "apply_option o1 (WithGitHubAuthDemo d) = o1\<lparr>op_auth_demo := d\<rparr>"
| "apply_option o1 WithDevMode = o1\<lparr>op_dev_mode := True\<rparr>"
| "apply_option o1 WithInsecureCookies = o1\<lparr>op_insecure_cookies := True\<rparr>"
| "apply_option o1 (WithIntrospection b) = o1\<lparr>op_introspection := b\<rparr>"
| "apply_option o1 (WithGlobalRateLimit n d) =
     o1\<lparr>op_rate_limit := \<lparr>rl_enable = True, rl_requests = n, rl_per_duration = d\<rparr>\<rparr>"
| "apply_option o1 (WithFileSystemConfig p) = o1\<lparr>op_fs_config := Some p\<rparr>"
| "apply_option o1 (WithConfigFileChange b) = o1\<lparr>op_config_change := b\<rparr>"
| "apply_option o1 (WithDebugMode b) = o1\<lparr>op_debug := b\<rparr>"
| "apply_option o1 (WithForceHttpsRedirects b) = o1\<lparr>op_force_https := b\<rparr>"
| "apply_option o1 (WithIdleTimeout d) = o1\<lparr>op_idle_timeout := d, op_idle_handler := True\<rparr>"

definition apply_options :: "option_fn list \<Rightarrow> options" where
  "apply_options opts = foldl apply_option zero_options opts"

text \<open>The goroutines StartBlocking starts before it waits for them.\<close>

datatype goroutine = StartServer wundernode_config | ReconfigureOnConfigUpdate | FilePollConfig string

definition StartBlocking :: "option_fn list \<Rightarrow> goroutine list res" where
  "StartBlocking opts =
     (let o1 = apply_options opts in
      case op_static_config o1 of
        Some c \<Rightarrow> Inr [StartServer c]
      | None \<Rightarrow>
          (case op_fs_config o1 of
             Some p \<Rightarrow>
               (if op_config_change o1 then Inr [ReconfigureOnConfigUpdate, FilePollConfig p]
                else Inr [])
           | None \<Rightarrow> Inl (Err ''could not start a node. no config present'')))"

section \<open>Development defaults\<close>

definition dev_default :: "(string \<Rightarrow> string) \<Rightarrow> cvar \<Rightarrow> nat \<Rightarrow> cvar" where
  "dev_default env v n =
     (if load_string env v = [] then static_var (replicate n (CHR ''a'')) else v)"

definition setApiDevConfigDefaults :: "(string \<Rightarrow> string) \<Rightarrow> options \<Rightarrow> api \<Rightarrow> api" where
  "setApiDevConfigDefaults env o1 api =
     (if op_dev_mode o1 then
        (case api_auth api of
           None \<Rightarrow> api
         | Some auth \<Rightarrow>
             (case ac_cookie auth of
                None \<Rightarrow> api
              | Some c \<Rightarrow>
                  api\<lparr>api_auth := Some (auth\<lparr>ac_cookie := Some
                    (c\<lparr>ca_csrf_secret := dev_default env (ca_csrf_secret c) 11,
                       ca_block_key := dev_default env (ca_block_key c) 32,
                       ca_hash_key := dev_default env (ca_hash_key c) 32\<rparr>)\<rparr>)\<rparr>))
      else api)"

section \<open>Hosts\<close>

fun filter_hosts_loop :: "string list \<Rightarrow> string list \<Rightarrow> string list" where
  "filter_hosts_loop hosts [] = hosts"
| "filter_hosts_loop hosts (host # rest) =
     (if host \<in> set hosts then filter_hosts_loop hosts rest
      else filter_hosts_loop (hosts @ [host]) rest)"

definition filterHosts :: "api \<Rightarrow> string list" where
  "filterHosts api =
     filter (\<lambda>h. h \<noteq> []) (filter_hosts_loop [api_primary_host api] (api_hosts api))"

fun unique_loop :: "(string \<Rightarrow> bool) \<Rightarrow> string list \<Rightarrow> string list \<Rightarrow> string list" where
  "unique_loop keys acc [] = acc"
| "unique_loop keys acc (entry # rest) =
     (if \<not> keys entry then unique_loop (keys(entry := True)) (acc @ [entry]) rest
      else unique_loop keys acc rest)"

definition uniqueStrings :: "string list \<Rightarrow> string list" where
  "uniqueStrings entries = unique_loop (\<lambda>_. False) [] entries"

section \<open>Listeners\<close>

text \<open>
  \<open>listen\<close> answers a call to ListenConfig.Listen, given the calls (network and address)
  made so far, the latest first; \<open>calls\<close> are those of the loop before this point.
\<close>

type_synonym 'l listen = "(string \<times> string) list \<Rightarrow> 'l res"

fun listen_ips ::
    "'l listen \<Rightarrow> string \<Rightarrow> (string \<times> string) list \<Rightarrow> 'l list \<Rightarrow> string list \<Rightarrow> ('l list) res" where
  "listen_ips listen port calls acc [] = Inr acc"
| "listen_ips listen port calls acc (nip # ips) =
     (if contains nip '':'' then
        (let calls' = (''tcp6'', ''['' @ nip @ '']:'' @ port) # calls in
         case listen calls' of
           Inr l \<Rightarrow> listen_ips listen port calls' (acc @ [l]) ips
         | Inl err \<Rightarrow> listen_ips listen port calls' acc ips)
      else
        (let calls' = (''tcp4'', nip @ '':'' @ port) # calls in
         case listen calls' of
           Inl err \<Rightarrow> Inl err
         | Inr l \<Rightarrow> listen_ips listen port calls' (acc @ [l]) ips))"

definition newListeners :: "string list \<Rightarrow> 'l listen \<Rightarrow> listener \<Rightarrow> ('l list) res" where
  "newListeners lookup listen cfg =
     (let port = itoa (unat (ls_port cfg));
          ips = (if ls_host cfg = ''localhost'' then lookup else []) in
      case listen_ips listen port [] [] ips of
        Inl err \<Rightarrow> Inl err
      | Inr ls \<Rightarrow>
          (if length ips = 0 then
             (case listen [(''tcp'', ls_host cfg @ '':'' @ port)] of
                Inl err \<Rightarrow> Inl err
              | Inr l \<Rightarrow> Inr (ls @ [l]))
           else Inr ls))"

section \<open>Reloading a changed configuration file\<close>

text \<open>
  What the polling loop can receive: the end of the context, the closing of the change
  channel, or a change together with what reading the file then gives. \<open>decode\<close> is the
  decoding of the generated message type from JSON.
\<close>

datatype poll_event = CtxDone | ChangeClosed | Changed "bytes res"

definition reloadFileConfig ::
    "(string \<Rightarrow> string) \<Rightarrow> (bytes \<Rightarrow> wg_config res) \<Rightarrow> bytes res \<Rightarrow> wundernode_config res outcome" where
  "reloadFileConfig env decode file =
     (case file of
        Inl err \<Rightarrow> Returned (Inl err)
      | Inr data \<Rightarrow>
          (if length data = 0 then Returned (Inl (Err ''empty config file''))
           else
             (case decode data of
                Inl err \<Rightarrow> Returned (Inl err)
              | Inr graphConfig \<Rightarrow> CreateConfig env graphConfig)))"

text \<open>
  The configurations sent to the channel of the node, and the result of the loop, which is
  \<open>None\<close> as long as it waits for another event.
\<close>

fun filePollConfig ::
    "(string \<Rightarrow> string) \<Rightarrow> (bytes \<Rightarrow> wg_config res) \<Rightarrow> poll_event list \<Rightarrow>
     wundernode_config list \<times> (unit res outcome) option" where
  "filePollConfig env decode [] = ([], None)"
| "filePollConfig env decode (CtxDone # es) = ([], Some (Returned (Inr ())))"
| "filePollConfig env decode (ChangeClosed # es) = ([], Some (Returned (Inr ())))"
| "filePollConfig env decode (Changed file # es) =
     (case reloadFileConfig env decode file of
        Panicked m \<Rightarrow> ([], Some (Panicked m))
      | Returned (Inl err) \<Rightarrow> ([], Some (Returned (Inl err)))
      | Returned (Inr config) \<Rightarrow>
          (let (sent, r) = filePollConfig env decode es in (config # sent, r)))"


section \<open>Facts\<close>

lemma filter_hosts_loop_eq: "filter_hosts_loop (keep_first hs) rest = keep_first (hs @ rest)"
proof (induction rest arbitrary: hs)
  case (Cons h rest)
  show ?case
  proof (cases "h \<in> set hs")
    case True
    then have "keep_first (hs @ [h]) = keep_first hs" by (simp add: keep_first_snoc)
    with True Cons [of "hs @ [h]"] show ?thesis by simp
  next
    case False
    then have "keep_first (hs @ [h]) = keep_first hs @ [h]" by (simp add: keep_first_snoc)
    with False Cons [of "hs @ [h]"] show ?thesis by simp
  qed
qed simp

lemma unique_loop_eq:
  "unique_loop (\<lambda>x. x \<in> set done1) (keep_first done1) rest = keep_first (done1 @ rest)"
proof (induction rest arbitrary: done1)
  case (Cons x rest)
  have keys: "(\<lambda>y. y \<in> set done1)(x := True) = (\<lambda>y. y \<in> set (done1 @ [x]))"
    by (rule ext) simp
  show ?case
  proof (cases "x \<in> set done1")
    case True
    then have "(\<lambda>y. y \<in> set done1) = (\<lambda>y. y \<in> set (done1 @ [x]))" by auto
    moreover have "keep_first (done1 @ [x]) = keep_first done1"
      using True by (simp add: keep_first_snoc)
    ultimately show ?thesis using True Cons [of "done1 @ [x]"] by simp
  next
    case False
    then have "keep_first (done1 @ [x]) = keep_first done1 @ [x]" by (simp add: keep_first_snoc)
    with False keys Cons [of "done1 @ [x]"] show ?thesis by simp
  qed
qed simp

lemma uniqueStrings_keep_first: "uniqueStrings xs = keep_first xs"
  using unique_loop_eq [of "[]" xs] by (simp add: uniqueStrings_def)

interpretation unique_strings: deduplicator uniqueStrings
  by unfold_locales (simp_all add: uniqueStrings_keep_first subseq_keep_first)

lemma load_string_dev_default:
  "load_string env (dev_default env v n)
     = (if load_string env v = [] then replicate n (CHR ''a'') else load_string env v)"
  by (simp add: dev_default_def)

lemma ApiConfig_cookie:
  assumes "api_auth api = Some auth" "ac_cookie auth = Some c" "ca_providers c \<noteq> []"
  shows "(\<exists>msgs. ApiConfig env api = Some (True, msgs))
    \<longleftrightarrow> length (load_string env (ca_csrf_secret c)) = 11
      \<and> length (load_string env (ca_block_key c)) = 32
      \<and> length (load_string env (ca_hash_key c)) = 32"
  using assms
  by (auto simp: ApiConfig_def has_cookie_auth_enabled_def check_secret_cases)

lemma dev_defaults_cookie:
  assumes "op_dev_mode o1" "api_auth api = Some auth" "ac_cookie auth = Some c"
  shows "\<exists>auth' c'. api_auth (setApiDevConfigDefaults env o1 api) = Some auth'
    \<and> ac_cookie auth' = Some c' \<and> ca_providers c' = ca_providers c
    \<and> ca_csrf_secret c' = dev_default env (ca_csrf_secret c) 11
    \<and> ca_block_key c' = dev_default env (ca_block_key c) 32
    \<and> ca_hash_key c' = dev_default env (ca_hash_key c) 32"
  using assms by (simp add: setApiDevConfigDefaults_def)

lemma listen_ips_IPv6_failing:
  "\<forall>ip \<in> set ips. contains ip '':'' \<Longrightarrow> \<forall>calls. \<exists>e. listen calls = Inl e
    \<Longrightarrow> listen_ips listen port calls acc ips = Inr acc"
proof (induction ips arbitrary: calls)
  case (Cons ip ips)
  then obtain e where "listen ((''tcp6'', ''['' @ ip @ '']:'' @ port) # calls) = Inl e" by blast
  with Cons show ?case by (simp add: Let_def)
qed simp

lemma filePollConfig_error:
  assumes "filePollConfig env decode es = (sent, Some (Returned (Inl err)))"
  shows "\<exists>pre file post. es = pre @ Changed file # post
    \<and> reloadFileConfig env decode file = Returned (Inl err)
    \<and> list_all2 (\<lambda>e c. \<exists>f. e = Changed f \<and> reloadFileConfig env decode f = Returned (Inr c)) pre sent"
  using assms
proof (induction es arbitrary: sent)
  case (Cons e es)
  show ?case
  proof (cases e)
    case (Changed rd)
    show ?thesis
    proof (cases "reloadFileConfig env decode rd")
      case (Panicked m)
      with Cons.prems Changed show ?thesis by simp
    next
      case (Returned r)
      show ?thesis
      proof (cases r)
        case (Inl e')
        with Returned Changed Cons.prems show ?thesis
          by (intro exI [of _ "[]"]) auto
      next
        case (Inr c)
        obtain sent' where sent: "sent = c # sent'"
          "filePollConfig env decode es = (sent', Some (Returned (Inl err)))"
          using Returned Inr Changed Cons.prems by (auto split: prod.splits)
        from Cons.IH [OF sent(2)] obtain pre rd' post where
          "es = pre @ Changed rd' # post"
          "reloadFileConfig env decode rd' = Returned (Inl err)"
          "list_all2 (\<lambda>e c. \<exists>f. e = Changed f \<and> reloadFileConfig env decode f = Returned (Inr c)) pre sent'"
          by blast
        with Returned Inr Changed sent(1) show ?thesis
          by (intro exI [of _ "e # pre"] exI [of _ rd'] exI [of _ post]) auto
      qed
    qed
  qed (use Cons.prems in auto)
qed simp

lemma CreateConfig_Inr:
  assumes "CreateConfig env cfg = Returned (Inr wn)" "wg_api cfg = Some ud"
    "ud_node ud = Some no" "no_listen no = Some l"
  obtains so level where
    "wn_api wn = create_api env cfg ud no so (create_listener env l) level"
proof -
  from assms obtain logger level where
    "FindLogLevel (load_string env (nl_level logger)) = Inr level" "no_logger no = Some logger"
    by (cases "no_logger no")
      (auto simp: CreateConfig_def split: sum.splits)
  with assms that show thesis
    by (cases "ud_server ud") (auto simp: CreateConfig_def)
qed

lemma create_api_simps [simp]:
  "api_operations (create_api env cfg ud no so lis level) = ud_operations ud"
  "api_auth (create_api env cfg ud no so lis level) = ud_auth ud"
  "api_engine (create_api env cfg ud no so lis level) = ud_engine ud"
  "ao_listener (api_opts (create_api env cfg ud no so lis level)) = lis"
  by (simp_all add: create_api_def)

lemma create_listener_port:
  "uint (ls_port (create_listener env l)) = atoi_value (load_string env (lo_port l)) mod 65536"
  by (simp add: create_listener_def load_int_int64 load_int64_string uint_word_of_int)

section \<open>Properties\<close>

text \<open>in development mode the defaults of \<open>setApiDevConfigDefaults\<close> replace exactly the
  secrets that load as the empty string, so an API with cookie providers passes
  \<open>validate.ApiConfig\<close> if and only if every secret that is set has the length the validation
  asks for; an unset secret never makes it fail.\<close>

theorem dev_mode_config_valid:
  assumes "op_dev_mode o1" "api_auth api = Some auth" "ac_cookie auth = Some c"
    "ca_providers c \<noteq> []"
  shows "(\<exists>msgs. ApiConfig env (setApiDevConfigDefaults env o1 api) = Some (True, msgs))
    \<longleftrightarrow> length (load_string env (ca_csrf_secret c)) \<in> {0, 11}
      \<and> length (load_string env (ca_block_key c)) \<in> {0, 32}
      \<and> length (load_string env (ca_hash_key c)) \<in> {0, 32}"
proof -
  obtain auth' c' where c': "api_auth (setApiDevConfigDefaults env o1 api) = Some auth'"
    "ac_cookie auth' = Some c'" "ca_providers c' \<noteq> []"
    "ca_csrf_secret c' = dev_default env (ca_csrf_secret c) 11"
    "ca_block_key c' = dev_default env (ca_block_key c) 32"
    "ca_hash_key c' = dev_default env (ca_hash_key c) 32"
    using dev_defaults_cookie [OF assms(1-3)] assms(4) by metis
  show ?thesis
    by (subst ApiConfig_cookie [OF c'(1-3)]) (auto simp: c' load_string_dev_default)
qed

definition sample_cookie :: cookie_auth where
  "sample_cookie =
     \<lparr>ca_providers = [\<lparr>ap_id = ''github'', ap_kind = ProviderGithub, ap_github = None, ap_oidc = None\<rparr>],
      ca_redirect_uris = [], ca_redirect_regexes = [], ca_hash_key = None,
      ca_block_key = static_var (replicate 32 (CHR ''k'')), ca_csrf_secret = None\<rparr>"

definition sample_api :: api where
  "sample_api =
     \<lparr>api_primary_host = ''localhost:9991'', api_hosts = [], api_path_prefix = ''app/main'',
      api_engine = None, api_single_flight = True, api_graphql_endpoint = False,
      api_operations = [], api_cors = None, api_deployment_id = [], api_cache = None,
      api_config_hash = [],
      api_auth = Some \<lparr>ac_cookie = Some sample_cookie, ac_hooks = None, ac_jwks = None\<rparr>,
      api_s3 = [], api_webhooks = [],
      api_opts = \<lparr>ao_server_url = [], ao_public_url = [],
                  ao_listener = \<lparr>ls_host = ''localhost'', ls_port = 9991\<rparr>,
                  ao_log_level = InfoLevel, ao_timeout = 10 * second\<rparr>\<rparr>"

theorem dev_mode_config_valid_witness:
  "\<exists>msgs. ApiConfig (\<lambda>_. []) (setApiDevConfigDefaults (\<lambda>_. []) (apply_options [WithDevMode]) sample_api)
     = Some (True, msgs)"
  by (subst dev_mode_config_valid
      [where auth = "\<lparr>ac_cookie = Some sample_cookie, ac_hooks = None, ac_jwks = None\<rparr>"
         and c = sample_cookie])
    (simp_all add: apply_options_def zero_options_def sample_api_def sample_cookie_def)

text \<open>the port of a created configuration is the configured number reduced modulo 65536,
  so that a port outside the range of uint16 is not rejected but replaced by another one;
  every other part of the API is taken over unchanged.\<close>

theorem CreateConfig_port_wraps:
  assumes "CreateConfig env cfg = Returned (Inr wn)" "wg_api cfg = Some ud"
    "ud_node ud = Some no" "no_listen no = Some l"
  shows "uint (ls_port (ao_listener (api_opts (wn_api wn))))
      = atoi_value (load_string env (lo_port l)) mod 65536
    \<and> api_operations (wn_api wn) = ud_operations ud
    \<and> api_auth (wn_api wn) = ud_auth ud
    \<and> api_engine (wn_api wn) = ud_engine ud"
proof -
  obtain so level where "wn_api wn = create_api env cfg ud no so (create_listener env l) level"
    using CreateConfig_Inr [OF assms] .
  then show ?thesis by (simp add: create_listener_port)
qed

definition sample_wg_config :: "string \<Rightarrow> wg_config" where
  "sample_wg_config port =
     \<lparr>wg_api = Some
        \<lparr>ud_engine = None, ud_enable_graphql = False, ud_operations = [], ud_cors = None,
         ud_auth = None, ud_s3 = [], ud_hosts = [], ud_webhooks = [],
         ud_server = Some \<lparr>so_server_url = None, so_listen = None, so_logger = None\<rparr>,
         ud_node = Some
           \<lparr>no_node_url = None, no_public_url = None,
            no_listen = Some \<lparr>lo_host = static_var ''localhost'', lo_port = static_var port\<rparr>,
            no_logger = Some \<lparr>nl_level = static_var ''info''\<rparr>, no_default_timeout = 0\<rparr>\<rparr>,
      wg_api_id = [], wg_deployment_name = ''main'', wg_environment_ids = [],
      wg_api_name = ''app'', wg_enable_graphql = False\<rparr>"

lemma sample_wg_config_created:
  "\<exists>wn. CreateConfig env (sample_wg_config port) = Returned (Inr wn)"
proof -
  have "FindLogLevel ''info'' = Inr InfoLevel" by code_simp
  then show ?thesis by (simp add: sample_wg_config_def CreateConfig_def)
qed

theorem CreateConfig_port_wraps_witness:
  "\<exists>wn. CreateConfig (\<lambda>_. []) (sample_wg_config ''65616'') = Returned (Inr wn)
     \<and> uint (ls_port (ao_listener (api_opts (wn_api wn)))) = 80"
proof -
  obtain wn where wn: "CreateConfig (\<lambda>_. []) (sample_wg_config ''65616'') = Returned (Inr wn)"
    using sample_wg_config_created by blast
  have "atoi_value ''65616'' = 65616"
    by (simp add: atoi_value_def atoi_signed_def is_digit_def digit_val_def)
  moreover obtain ud no l where "wg_api (sample_wg_config ''65616'') = Some ud"
    "ud_node ud = Some no" "no_listen no = Some l" "lo_port l = static_var ''65616''"
    by (simp add: sample_wg_config_def)
  ultimately show ?thesis
    using wn CreateConfig_port_wraps [OF wn, of ud no l] by simp
qed

text \<open>the polling of the configuration file hands over the configuration of every change,
  in order, up to the first file that cannot be read, decoded or turned into a
  configuration; that file ends the polling with its error, and no later change is seen.\<close>

theorem filePollConfig_stops_at_first_error:
  assumes "filePollConfig env decode es = (sent, Some (Returned (Inl err)))"
  shows "\<exists>pre file1 post. es = pre @ Changed file1 # post
    \<and> reloadFileConfig env decode file1 = Returned (Inl err)
    \<and> list_all2 (\<lambda>e c. \<exists>f. e = Changed f \<and> reloadFileConfig env decode f = Returned (Inr c)) pre sent
    \<and> filePollConfig env decode es = filePollConfig env decode (pre @ [Changed file1])"
proof -
  obtain pre file1 post where *: "es = pre @ Changed file1 # post"
    "reloadFileConfig env decode file1 = Returned (Inl err)"
    "list_all2 (\<lambda>e c. \<exists>f. e = Changed f \<and> reloadFileConfig env decode f = Returned (Inr c)) pre sent"
    using filePollConfig_error [OF assms] by blast
  from *(3) have "filePollConfig env decode (pre @ Changed file1 # post)
      = filePollConfig env decode (pre @ [Changed file1])"
    using *(2) by (induction pre sent rule: list_all2_induct) auto
  with * show ?thesis by auto
qed

theorem filePollConfig_stops_at_first_error_witness:
  "\<exists>pre file1 post. [Changed (Inr []), Changed (Inr ''{}'')] = pre @ Changed file1 # post
    \<and> reloadFileConfig (\<lambda>_. []) (\<lambda>_. Inr (sample_wg_config ''80'')) file1
        = Returned (Inl (Err ''empty config file''))"
proof -
  have "filePollConfig (\<lambda>_. []) (\<lambda>_. Inr (sample_wg_config ''80''))
      [Changed (Inr []), Changed (Inr ''{}'')]
    = ([], Some (Returned (Inl (Err ''empty config file''))))"
    by (simp add: reloadFileConfig_def)
  from filePollConfig_stops_at_first_error [OF this] show ?thesis by blast
qed

text \<open>\<open>filterHosts\<close> is the primary host followed by the configured hosts, without the empty
  ones, each host once, at the place of its first occurrence.\<close>

theorem filterHosts_spec:
  "filterHosts api = keep_first (filter (\<lambda>h. h \<noteq> []) (api_primary_host api # api_hosts api))"
proof -
  have "keep_first [api_primary_host api] = [api_primary_host api]" by simp
  then have "filter_hosts_loop [api_primary_host api] (api_hosts api)
      = keep_first (api_primary_host api # api_hosts api)"
    using filter_hosts_loop_eq [of "[api_primary_host api]" "api_hosts api"]
    by (metis append_Cons append_Nil)
  then show ?thesis by (simp only: filterHosts_def filter_keep_first)
qed

text \<open>a node that is to listen on localhost tolerates every failure to listen on an IPv6
  address: when localhost resolves to IPv6 addresses only and none can be listened on,
  \<open>newListeners\<close> succeeds with no listener at all, while the same failure for any other
  host is an error.\<close>

theorem newListeners_localhost_IPv6:
  assumes "\<forall>ip \<in> set ips. contains ip '':''" "ips \<noteq> []"
    "\<And>calls. listen calls = Inl (e calls)"
  shows "newListeners ips listen \<lparr>ls_host = ''localhost'', ls_port = port\<rparr> = Inr []
    \<and> (host \<noteq> ''localhost'' \<longrightarrow>
        (\<exists>err. newListeners ips listen \<lparr>ls_host = host, ls_port = port\<rparr> = Inl err))"
  using assms by (auto simp: newListeners_def listen_ips_IPv6_failing)

theorem newListeners_localhost_IPv6_witness:
  "newListeners [''::1''] (\<lambda>calls. Inl (Err ''unavailable'') :: nat res)
     \<lparr>ls_host = ''localhost'', ls_port = 9991\<rparr> = Inr []"
  using newListeners_localhost_IPv6
    [of "[''::1'']" "\<lambda>calls. Inl (Err ''unavailable'') :: nat res" "\<lambda>_. Err ''unavailable''" 9991]
  by (simp add: contains_def has_prefix_def)

text \<open>StartBlocking with the options applied in order: a static configuration takes
  precedence over a file, a file without a change channel starts no goroutine (so the call
  returns at once without an error and without serving), and no configuration is an error.\<close>

theorem StartBlocking_cases:
  "(\<forall>c. op_static_config (apply_options opts) = Some c \<longrightarrow> StartBlocking opts = Inr [StartServer c])
   \<and> (StartBlocking opts = Inr [] \<longleftrightarrow>
        op_static_config (apply_options opts) = None \<and> op_fs_config (apply_options opts) \<noteq> None
        \<and> \<not> op_config_change (apply_options opts))
   \<and> ((\<exists>e. StartBlocking opts = Inl e) \<longleftrightarrow>
        op_static_config (apply_options opts) = None \<and> op_fs_config (apply_options opts) = None)"
  by (auto simp: StartBlocking_def Let_def split: option.splits)

theorem StartBlocking_cases_witness:
  "StartBlocking [WithFileSystemConfig ''wundergraph.config.json''] = Inr []"
  using StartBlocking_cases [of "[WithFileSystemConfig ''wundergraph.config.json'']"]
  by (simp add: apply_options_def zero_options_def)

end
