(* ===== verification/ApiBuilder.thy ===== *)
theory ApiBuilder
  imports Endpoints UserHandlers NodeConfig
begin

text \<open>
  The builder of the public API (Builder in pkg/apihandler/apihandler.go): which middlewares
  and which routes it mounts for a configuration, in the order of the code. A route names its
  methods, its path below the API prefix, its endpoint, and whether the endpoint is wrapped in
  RequiresAuthentication. The GraphQL engine, the router library and the clients it creates
  are parameters.
\<close>

section \<open>Routes\<close>

record cors_options =
  cr_max_age :: int
  cr_credentials :: bool
  cr_headers :: "string list"
  cr_methods :: "string list"
  cr_origins :: "string list"
  cr_exposed :: "string list"

datatype mount_middleware =
    HostFilter "string list"
  | RequestLog
  | CorsFilter cors_options
  | LoadUserFilter "jwks_provider list"
  | CsrfFilter string bool bytes
  | RedirectAuthenticated "string list" "string list"
  | ValidateRedirect "string list" "string list"

datatype endpoint =
    QueryEndpoint op_handler
  | MutationEndpoint op_handler
  | SubscriptionEndpoint op_handler
  | UnavailableEndpoint string
  | GraphQLEndpoint
  | PlaygroundEndpoint string string
  | UploadEndpoint s3_config
  | WebhookEndpoint webhook_handler
  | TokenUserEndpoint
  | CookieUserEndpoint bool
  | CsrfEndpoint
  | LogoutEndpoint "string \<rightharpoonup> string"
  | LoginEndpoint provider_kind login_config
  | CallbackEndpoint provider_kind login_config

record route =
  rt_methods :: "string list"
  rt_path :: string
  rt_endpoint :: endpoint
  rt_auth :: bool

record mount =
  mo_middlewares :: "(string \<times> mount_middleware) list"
  mo_routes :: "route list"

definition empty_mount :: mount where
  "empty_mount = \<lparr>mo_middlewares = [], mo_routes = []\<rparr>"

text \<open>A middleware is mounted below a path prefix, the empty one for the whole API.\<close>

definition use :: "string \<Rightarrow> mount_middleware \<Rightarrow> mount \<Rightarrow> mount" where
  "use at mw m = m\<lparr>mo_middlewares := mo_middlewares m @ [(at, mw)]\<rparr>"

definition handle :: "string list \<Rightarrow> string \<Rightarrow> endpoint \<Rightarrow> bool \<Rightarrow> mount \<Rightarrow> mount" where
  "handle methods path e auth m =
     m\<lparr>mo_routes := mo_routes m @ [\<lparr>rt_methods = methods, rt_path = path, rt_endpoint = e, rt_auth = auth\<rparr>]\<rparr>"

definition get_options :: "string list" where "get_options = [''GET'', ''OPTIONS'']"
definition post_options :: "string list" where "post_options = [''POST'', ''OPTIONS'']"

section \<open>The environment\<close>

datatype planned = SyncPlanned | SubscriptionPlanned | OtherPlanned

text \<open>
  What a parsed, normalised and planned operation yields: its plan, the variables extracted
  from it, and its type, which is absent when it is unknown.
\<close>

record builder_lib =
  bl_getenv :: "string \<Rightarrow> string"
  bl_load :: "engine_config \<Rightarrow> go_error option"
  bl_schema :: "string \<Rightarrow> go_error option"
  bl_introspection :: "go_error option"
  bl_parse :: "string \<Rightarrow> go_error option"
  bl_validate :: "operation \<Rightarrow> go_error option"
  bl_plan :: "operation \<Rightarrow> planned \<times> bytes \<times> op_type option"
  bl_variables :: "string \<Rightarrow> go_error option"
  bl_interp :: "string \<Rightarrow> (bytes \<Rightarrow> bytes) res"
  bl_json_interp :: "string \<Rightarrow> (bytes \<Rightarrow> bytes) res"
  bl_transformer :: "transformation list \<Rightarrow> bytes \<Rightarrow> bytes res"
  bl_properties :: "string \<Rightarrow> string list"
  bl_new_cache :: "cache_config \<Rightarrow> string \<Rightarrow> go_error option"
  bl_s3 :: "s3_config \<Rightarrow> go_error option"
  bl_parse_url :: "string \<Rightarrow> go_error option"
  bl_request_uri :: "string \<Rightarrow> go_error option"
  bl_provider :: "string \<Rightarrow> oidc_endpoint res"
  bl_claims :: "string \<Rightarrow> go_error option"
  bl_securecookie :: "bytes option \<Rightarrow> bytes option \<Rightarrow> secure_cookie"
  bl_discover :: "string \<Rightarrow> (nat \<times> bytes res) res"
  bl_end_session :: "bytes \<Rightarrow> string res"

record builder =
  bu_insecure :: bool
  bu_force_https :: bool
  bu_debug :: bool
  bu_introspection :: bool
  bu_demo_id :: string
  bu_demo_secret :: string
  bu_hook_url :: string

section \<open>Schemas\<close>

definition cleanupJsonSchema :: "string \<Rightarrow> string" where
  "cleanupJsonSchema schema =
     replace_all (replace_all schema ''/definitions/'' ''/$defs/'')
       (json_string ''definitions'') (json_string ''$defs'')"

definition generateQueryArgumentsAllowList :: "builder_lib \<Rightarrow> string \<Rightarrow> string list" where
  "generateQueryArgumentsAllowList lib schema = bl_properties lib (cleanupJsonSchema schema)"

fun add_required :: "string list \<Rightarrow> string list \<Rightarrow> string list" where
  "add_required flds [] = flds"
| "add_required flds (a # as) =
     add_required (if a \<in> set flds then flds else flds @ [a]) as"

text \<open>\<open>mergeRequiredFields\<close>: the required fields join those of the first configuration of the field.\<close>

fun merge_required :: "field_config \<Rightarrow> field_config list \<Rightarrow> field_config list" where
  "merge_required required [] = [required]"
| "merge_required required (f # fs) =
     (if fd_type required = fd_type f \<and> fd_field required = fd_field f
      then f\<lparr>fd_requires := add_required (fd_requires f) (fd_requires required)\<rparr> # fs
      else f # merge_required required fs)"

definition mergeRequiredFields :: "field_config list \<Rightarrow> field_config list \<Rightarrow> field_config list" where
  "mergeRequiredFields flds fieldsRequired = foldl (\<lambda>fs r. merge_required r fs) flds fieldsRequired"

section \<open>Operations\<close>

definition live_of :: "operation \<Rightarrow> live_config" where
  "live_of operation =
     (case op_live operation of
        Some l \<Rightarrow> (if lq_enable l then \<lparr>lv_enabled = True, lv_interval = lq_interval l\<rparr>
                   else \<lparr>lv_enabled = False, lv_interval = 0\<rparr>)
      | None \<Rightarrow> \<lparr>lv_enabled = False, lv_interval = 0\<rparr>)"

definition cache_of :: "operation \<Rightarrow> op_cache" where
  "cache_of operation =
     (let none = \<lparr>oe_enable = False, oe_max_age = 0, oe_public = False, oe_swr = 0\<rparr> in
      case op_cache operation of
        Some c \<Rightarrow>
          (if oc_enable c then \<lparr>oe_enable = oc_enable c, oe_max_age = oc_max_age c,
             oe_public = oc_public c, oe_swr = oc_swr c\<rparr>
           else none)
      | None \<Rightarrow> none)"

definition auth_required :: "operation \<Rightarrow> bool" where
  "auth_required operation = (case op_auth operation of None \<Rightarrow> False | Some a \<Rightarrow> oa_required a)"

definition operation_path :: "operation \<Rightarrow> string" where
  "operation_path operation = ''/operations/'' @ op_name operation"

text \<open>
  The handler of an operation. A nil hooks or roles configuration makes the construction, or
  the log message after it, panic.
\<close>

definition build_handler ::
    "builder_lib \<Rightarrow> string \<Rightarrow> operation \<Rightarrow> bytes \<Rightarrow> (bytes \<Rightarrow> bytes) \<Rightarrow> (bytes \<Rightarrow> bytes) \<Rightarrow> op_handler outcome" where
  "build_handler lib config_hash operation extracted interp json_interp =
     bind_out (buildHooksConfig (Some operation)) (\<lambda>hooks.
     bind_out (NewRBACEnforcer operation) (\<lambda>rbac.
     bind_out (deref (op_hooks_cfg operation)) (\<lambda>config.
     bind_out (deref (oh_mock config)) (\<lambda>mock. Returned
       \<lparr>hd_op = operation, hd_extracted = extracted, hd_hooks = hooks, hd_rbac = rbac,
        hd_interp = interp, hd_json_interp = json_interp,
        hd_transform = bl_transformer lib (op_transformations operation),
        hd_allow = generateQueryArgumentsAllowList lib (op_variables_schema operation),
        hd_cache = cache_of operation, hd_config_hash = config_hash, hd_live = live_of operation\<rparr>))))"

definition unavailable :: "operation \<Rightarrow> mount \<Rightarrow> mount" where
  "unavailable operation m =
     handle [''GET'', ''POST'', ''OPTIONS''] (operation_path operation)
       (UnavailableEndpoint (op_name operation)) False m"

definition mount_operation ::
    "builder_lib \<Rightarrow> string \<Rightarrow> operation \<Rightarrow> (bytes \<Rightarrow> bytes) \<Rightarrow> (bytes \<Rightarrow> bytes) \<Rightarrow> mount \<Rightarrow> mount outcome" where
  "mount_operation lib config_hash operation interp json_interp m =
     (let (plan, extracted, kind) = bl_plan lib operation;
          path = operation_path operation;
          register = (\<lambda>methods endpoint.
            bind_out (build_handler lib config_hash operation extracted interp json_interp) (\<lambda>h.
              Returned (handle methods path (endpoint h) (auth_required operation) m))) in
      case kind of
        Some QUERY \<Rightarrow>
          (if plan = SyncPlanned then register get_options QueryEndpoint else Returned (unavailable operation m))
      | Some MUTATION \<Rightarrow>
          (if plan = SyncPlanned then register post_options MutationEndpoint else Returned (unavailable operation m))
      | Some SUBSCRIPTION \<Rightarrow>
          (if plan = SubscriptionPlanned then register get_options SubscriptionEndpoint
           else Returned (unavailable operation m))
      | None \<Rightarrow> Returned (unavailable operation m))"

definition registerOperation ::
    "builder_lib \<Rightarrow> string \<Rightarrow> operation \<Rightarrow> mount \<Rightarrow> (mount \<times> go_error option) outcome" where
  "registerOperation lib config_hash operation m =
     (let fail = (\<lambda>err. Returned (unavailable operation m, Some err));
          schema = cleanupJsonSchema (op_variables_schema operation) in
      if op_internal operation then Returned (m, None)
      else
        (case bl_parse lib (op_content operation) of
           Some report \<Rightarrow> fail report
         | None \<Rightarrow>
        (case bl_validate lib operation of
           Some report \<Rightarrow> fail report
         | None \<Rightarrow>
        (case bl_variables lib schema of
           Some err \<Rightarrow> fail err
         | None \<Rightarrow>
        (case bl_interp lib schema of
           Inl err \<Rightarrow> fail err
         | Inr interp \<Rightarrow>
        (case bl_json_interp lib (cleanupJsonSchema (op_interp_schema operation)) of
           Inl err \<Rightarrow> fail err
         | Inr json_interp \<Rightarrow>
             bind_out (mount_operation lib config_hash operation interp json_interp m) (\<lambda>m.
               Returned (m, None))))))))"

text \<open>Every operation is registered; the error that is kept is that of the last one.\<close>

fun register_operations ::
    "builder_lib \<Rightarrow> string \<Rightarrow> operation list \<Rightarrow> mount \<Rightarrow> go_error option \<Rightarrow> (mount \<times> go_error option) outcome" where
  "register_operations lib config_hash [] m err = Returned (m, err)"
| "register_operations lib config_hash (operation # operations) m err =
     bind_out (registerOperation lib config_hash operation m) (\<lambda>(m, err).
       register_operations lib config_hash operations m err)"

section \<open>Authentication\<close>

definition secret_bytes :: "builder_lib \<Rightarrow> cvar \<Rightarrow> bytes option" where
  "secret_bytes lib v = (let s = load_string (bl_getenv lib) v in if s \<noteq> [] then Some s else None)"

text \<open>
  The logout URLs of the OpenID Connect providers, by issuer. A provider that cannot be asked
  is skipped. The key is the issuer without its final slash.
\<close>

definition logout_url :: "builder_lib \<Rightarrow> auth_provider \<Rightarrow> (string \<times> string) option" where
  "logout_url lib provider =
     (if ap_kind provider \<noteq> ProviderOIDC then None
      else
        (case ap_oidc provider of
           None \<Rightarrow> None
         | Some oidc \<Rightarrow>
             (let issuer = load_string (bl_getenv lib) (oi_issuer oidc) in
              if issuer = [] then None
              else if bl_request_uri lib issuer \<noteq> None then None
              else
                (let issuer = trim_suffix issuer ''/'' in
                 case bl_discover lib (issuer @ ''/.well-known/openid-configuration'') of
                   Inl err \<Rightarrow> None
                 | Inr (status, content) \<Rightarrow>
                     (if status \<noteq> 200 then None
                      else
                        (case bind_res content (bl_end_session lib) of
                           Inl err \<Rightarrow> None
                         | Inr endpoint \<Rightarrow> if endpoint = [] then None else Some (issuer, endpoint)))))))"

fun configureOpenIDConnectIssuerLogoutURLs :: "builder_lib \<Rightarrow> auth_provider list \<Rightarrow> (string \<rightharpoonup> string) \<Rightarrow> (string \<rightharpoonup> string)" where
  "configureOpenIDConnectIssuerLogoutURLs lib [] urls = urls"
| "configureOpenIDConnectIssuerLogoutURLs lib (p # ps) urls =
     configureOpenIDConnectIssuerLogoutURLs lib ps
       (case logout_url lib p of None \<Rightarrow> urls | Some (issuer, endpoint) \<Rightarrow> urls(issuer \<mapsto> endpoint))"

definition demo_github :: "builder_lib \<Rightarrow> builder \<Rightarrow> github_provider \<Rightarrow> github_provider" where
  "demo_github lib b g =
     (if load_string (bl_getenv lib) (gh_client_id g) = ''demo''
      then g\<lparr>gh_client_id := static_var (bu_demo_id b), gh_client_secret := static_var (bu_demo_secret b)\<rparr>
      else g)"

definition login_routes :: "provider_kind \<Rightarrow> login_config \<Rightarrow> mount \<Rightarrow> mount" where
  "login_routes kind cfg m =
     handle [''GET''] (''/auth/cookie/callback/'' @ lg_provider_id cfg) (CallbackEndpoint kind cfg) False
       (handle [''GET''] (''/auth/cookie/authorize/'' @ lg_provider_id cfg) (LoginEndpoint kind cfg) False m)"

text \<open>Registering an OpenID Connect provider that is not usable adds no route.\<close>

definition oidc_usable :: "builder_lib \<Rightarrow> string \<Rightarrow> bool" where
  "oidc_usable lib issuer \<longleftrightarrow>
     bl_request_uri lib issuer = None \<and> createProvider (bl_provider lib) issuer \<noteq> None
     \<and> bl_claims lib issuer = None"

definition configureCookieProvider ::
    "builder_lib \<Rightarrow> builder \<Rightarrow> cookie_auth \<Rightarrow> secure_cookie \<Rightarrow> string \<Rightarrow> auth_provider \<Rightarrow> mount \<Rightarrow> mount" where
  "configureCookieProvider lib b auth cookie pathPrefix provider m =
     (let env = bl_getenv lib;
          uris = load_strings env (ca_redirect_uris auth);
          regexes = load_strings env (ca_redirect_regexes auth);
          m = use ''/auth/cookie/authorize'' (ValidateRedirect uris regexes)
            (use ''/auth/cookie'' (RedirectAuthenticated uris regexes) m) in
      case ap_kind provider of
        ProviderGithub \<Rightarrow>
          (case ap_github provider of
             None \<Rightarrow> m
           | Some g \<Rightarrow>
               (let g = demo_github lib b g in
                login_routes ProviderGithub
                  \<lparr>lg_client_id = load_string env (gh_client_id g),
                   lg_client_secret = load_string env (gh_client_secret g),
                   lg_provider_id = ap_id provider, lg_path_prefix = pathPrefix,
                   lg_insecure = bu_insecure b, lg_force_https = bu_force_https b,
                   lg_cookie = cookie, lg_query = [], lg_issuer = []\<rparr> m))
      | ProviderOIDC \<Rightarrow>
          (case ap_oidc provider of
             None \<Rightarrow> m
           | Some o1 \<Rightarrow>
               (let issuer = load_string env (oi_issuer o1) in
                if \<not> oidc_usable lib issuer then m
                else
                  login_routes ProviderOIDC
                    \<lparr>lg_client_id = load_string env (oi_client_id o1),
                     lg_client_secret = load_string env (oi_client_secret o1),
                     lg_provider_id = ap_id provider, lg_path_prefix = pathPrefix,
                     lg_insecure = bu_insecure b, lg_force_https = bu_force_https b,
                     lg_cookie = cookie,
                     lg_query = map (\<lambda>p. (load_string env (oq_name p), load_string env (oq_value p)))
                       (oi_query o1),
                     lg_issuer = issuer\<rparr> m)))"

definition registerCookieAuthHandlers ::
    "builder_lib \<Rightarrow> builder \<Rightarrow> cookie_auth \<Rightarrow> secure_cookie \<Rightarrow> string \<Rightarrow> mount \<Rightarrow> mount" where
  "registerCookieAuthHandlers lib b auth cookie pathPrefix m =
     foldl (\<lambda>m p. configureCookieProvider lib b auth cookie pathPrefix p m)
       (handle get_options ''/auth/cookie/user/logout''
          (LogoutEndpoint (configureOpenIDConnectIssuerLogoutURLs lib (ca_providers auth) Map.empty)) False m)
       (ca_providers auth)"

definition broken_auth :: string where
  "broken_auth = ''API is nil or hashkey, blockkey, csrfsecret invalid''"

definition registerAuth :: "builder_lib \<Rightarrow> builder \<Rightarrow> api \<Rightarrow> mount \<Rightarrow> mount outcome" where
  "registerAuth lib b api m =
     bind_out (deref (api_auth api)) (\<lambda>config.
     bind_out (deref (ac_cookie config)) (\<lambda>auth.
       let hashKey = secret_bytes lib (ca_hash_key auth);
           blockKey = secret_bytes lib (ca_block_key auth);
           csrfSecret = secret_bytes lib (ca_csrf_secret auth) in
       if has_cookie_auth_enabled api \<and> (hashKey = None \<or> blockKey = None \<or> csrfSecret = None)
       then Panicked broken_auth
       else
         bind_out (deref (ac_hooks config)) (\<lambda>hooks. Returned
           (let cookie = bl_securecookie lib hashKey blockKey;
                jwksProviders = (case ac_jwks config of None \<Rightarrow> [] | Some j \<Rightarrow> ja_providers j);
                m = use [] (LoadUserFilter jwksProviders) m;
                m = use [] (CsrfFilter (api_path_prefix api) (bu_insecure b)
                      (case csrfSecret of None \<Rightarrow> [] | Some s \<Rightarrow> s)) m;
                m = handle get_options ''/auth/token/user'' TokenUserEndpoint False m;
                m = handle get_options ''/auth/cookie/user'' (CookieUserEndpoint (ah_revalidate hooks)) False m;
                m = handle get_options ''/auth/cookie/csrf'' CsrfEndpoint False m in
            registerCookieAuthHandlers lib b auth cookie (api_path_prefix api) m))))"

section \<open>The API\<close>

definition configureCache :: "builder_lib \<Rightarrow> cache_config \<Rightarrow> go_error option outcome" where
  "configureCache lib config =
     (case cc_kind config of
        IN_MEMORY_CACHE \<Rightarrow>
          bind_out (deref (cc_in_memory config)) (\<lambda>c. Returned (bl_new_cache lib config []))
      | REDIS_CACHE \<Rightarrow>
          bind_out (deref (cc_redis config)) (\<lambda>c.
            Returned (bl_new_cache lib config (bl_getenv lib (rd_url_env c))))
      | NO_CACHE \<Rightarrow> Returned None)"

fun register_webhooks :: "builder_lib \<Rightarrow> builder \<Rightarrow> string \<Rightarrow> webhook_config list \<Rightarrow> mount \<Rightarrow> mount" where
  "register_webhooks lib b pathPrefix [] m = m"
| "register_webhooks lib b pathPrefix (w # ws) m =
     register_webhooks lib b pathPrefix ws
       (case NewWebhook (bl_getenv lib) (bl_parse_url lib) w pathPrefix (bu_hook_url b) of
          Inl err \<Rightarrow> m
        | Inr h \<Rightarrow> handle [''POST'', ''GET''] (''/webhooks/'' @ wh_name w) (WebhookEndpoint h) False m)"

fun register_uploads :: "builder_lib \<Rightarrow> s3_config list \<Rightarrow> mount \<Rightarrow> mount" where
  "register_uploads lib [] m = m"
| "register_uploads lib (s # ss) m =
     register_uploads lib ss
       (case bl_s3 lib s of
          Some err \<Rightarrow> m
        | None \<Rightarrow> handle [] (''/s3/'' @ s3_name s @ ''/upload'') (UploadEndpoint s) False m)"

definition cors_of :: "builder_lib \<Rightarrow> cors_config \<Rightarrow> cors_options" where
  "cors_of lib c =
     \<lparr>cr_max_age = co_max_age c, cr_credentials = co_credentials c, cr_headers = co_headers c,
      cr_methods = co_methods c, cr_origins = load_strings (bl_getenv lib) (co_origins c),
      cr_exposed = co_exposed c\<rparr>"

definition mount_graphql :: "api \<Rightarrow> mount \<Rightarrow> mount" where
  "mount_graphql api m =
     (if api_graphql_endpoint api then
        handle get_options ''/graphql''
          (PlaygroundEndpoint (ao_public_url (api_opts api)) (api_path_prefix api)) False
          (handle post_options ''/graphql'' GraphQLEndpoint False m)
      else m)"

definition mount_filters :: "builder_lib \<Rightarrow> builder \<Rightarrow> api \<Rightarrow> mount \<Rightarrow> mount" where
  "mount_filters lib b api m =
     (let m = (if 0 < length (api_hosts api) then use [] (HostFilter (api_hosts api)) m else m);
          m = (if bu_debug b then use [] RequestLog m else m) in
      case api_cors api of None \<Rightarrow> m | Some c \<Rightarrow> use [] (CorsFilter (cors_of lib c)) m)"

definition mount_api :: "builder_lib \<Rightarrow> builder \<Rightarrow> api \<Rightarrow> mount \<Rightarrow> (mount \<times> go_error option) outcome" where
  "mount_api lib b api m =
     bind_out (registerAuth lib b api (mount_filters lib b api m)) (\<lambda>m.
     bind_out (register_operations lib (api_config_hash api) (api_operations api)
         (register_uploads lib (api_s3 api) m) None) (\<lambda>(m, err).
       Returned (mount_graphql api m, err)))"

definition BuildAndMountApiHandler :: "builder_lib \<Rightarrow> builder \<Rightarrow> api \<Rightarrow> (mount \<times> go_error option) outcome" where
  "BuildAndMountApiHandler lib b api =
     bind_out (case api_cache api of None \<Rightarrow> Returned None | Some c \<Rightarrow> configureCache lib c) (\<lambda>cache_err.
       if cache_err \<noteq> None then Returned (empty_mount, cache_err)
       else
         (let m = register_webhooks lib b (api_path_prefix api) (api_webhooks api) empty_mount in
          case api_engine api of
            None \<Rightarrow> Returned (m, None)
          | Some engine \<Rightarrow>
              (if (case api_auth api of None \<Rightarrow> True | Some auth \<Rightarrow> ac_hooks auth = None)
               then Returned (m, Some (Err ''authentication config missing''))
               else if bl_load lib engine \<noteq> None then Returned (m, bl_load lib engine)
               else if bl_schema lib (ec_schema engine) \<noteq> None
               then Returned (m, bl_schema lib (ec_schema engine))
               else if bu_introspection b \<and> bl_introspection lib \<noteq> None
               then Returned (m, bl_introspection lib)
               else mount_api lib b api m)))"

section \<open>The routes of the operations\<close>

fun operation_endpoint :: "endpoint \<Rightarrow> bool" where
  "operation_endpoint (QueryEndpoint h) = True"
| "operation_endpoint (MutationEndpoint h) = True"
| "operation_endpoint (SubscriptionEndpoint h) = True"
| "operation_endpoint (UnavailableEndpoint name) = True"
| "operation_endpoint e = False"

definition operation_routes :: "mount \<Rightarrow> route list" where
  "operation_routes m = filter (\<lambda>r. operation_endpoint (rt_endpoint r)) (mo_routes m)"

text \<open>
  Whether an operation comes as far as its plan: it parses and is valid, and its schemas give a
  validator and interpolators; and the kind of endpoint its plan fits, if any.
\<close>

definition prepared_operation :: "builder_lib \<Rightarrow> operation \<Rightarrow> bool" where
  "prepared_operation lib operation \<longleftrightarrow>
     bl_parse lib (op_content operation) = None \<and> bl_validate lib operation = None
     \<and> bl_variables lib (cleanupJsonSchema (op_variables_schema operation)) = None
     \<and> (\<exists>f. bl_interp lib (cleanupJsonSchema (op_variables_schema operation)) = Inr f)
     \<and> (\<exists>f. bl_json_interp lib (cleanupJsonSchema (op_interp_schema operation)) = Inr f)"

definition served_kind :: "builder_lib \<Rightarrow> operation \<Rightarrow> op_type option" where
  "served_kind lib operation =
     (if prepared_operation lib operation then
        (case bl_plan lib operation of
           (SyncPlanned, _, Some QUERY) \<Rightarrow> Some QUERY
         | (SyncPlanned, _, Some MUTATION) \<Rightarrow> Some MUTATION
         | (SubscriptionPlanned, _, Some SUBSCRIPTION) \<Rightarrow> Some SUBSCRIPTION
         | _ \<Rightarrow> None)
      else None)"

fun kind_endpoint :: "op_type \<Rightarrow> op_handler \<Rightarrow> endpoint" where
  "kind_endpoint QUERY h = QueryEndpoint h"
| "kind_endpoint MUTATION h = MutationEndpoint h"
| "kind_endpoint SUBSCRIPTION h = SubscriptionEndpoint h"

fun kind_methods :: "op_type \<Rightarrow> string list" where
  "kind_methods MUTATION = [''POST'', ''OPTIONS'']"
| "kind_methods kind = [''GET'', ''OPTIONS'']"

text \<open>
  The route of an operation. When its plan fits its kind, the endpoint of this kind serves it with its
  own role rules, hooks and extracted variables, behind the authentication check exactly when the
  operation asks for it; otherwise, and only then, it is unavailable.
\<close>

definition serves :: "builder_lib \<Rightarrow> operation \<Rightarrow> route \<Rightarrow> bool" where
  "serves lib operation r \<longleftrightarrow> rt_path r = ''/operations/'' @ op_name operation
     \<and> (case served_kind lib operation of
          Some kind \<Rightarrow> (\<exists>h. rt_endpoint r = kind_endpoint kind h \<and> rt_methods r = kind_methods kind
            \<and> rt_auth r = auth_required operation \<and> hd_op h = operation
            \<and> NewRBACEnforcer operation = Returned (hd_rbac h) \<and> buildHooksConfig (Some operation) = Returned (hd_hooks h)
            \<and> hd_extracted h = fst (snd (bl_plan lib operation)))
        | None \<Rightarrow> rt_endpoint r = UnavailableEndpoint (op_name operation)
            \<and> rt_methods r = [''GET'', ''POST'', ''OPTIONS''])"

lemma operation_routes_handle [simp]:
  "operation_routes (handle ms p e auth m) = operation_routes m
     @ (if operation_endpoint e then [\<lparr>rt_methods = ms, rt_path = p, rt_endpoint = e, rt_auth = auth\<rparr>] else [])"
  by (simp add: operation_routes_def handle_def)

lemma operation_routes_use [simp]: "operation_routes (use at mw m) = operation_routes m"
  by (simp add: operation_routes_def use_def)

lemma operation_routes_empty [simp]: "operation_routes empty_mount = []"
  by (simp add: operation_routes_def empty_mount_def)

lemma build_handler_fields:
  "build_handler lib c operation ex i j = Returned h \<Longrightarrow> hd_op h = operation \<and> hd_extracted h = ex
    \<and> NewRBACEnforcer operation = Returned (hd_rbac h) \<and> buildHooksConfig (Some operation) = Returned (hd_hooks h)"
  by (auto simp: build_handler_def bind_out_Returned_iff)

lemma serves_unavailable:
  "served_kind lib operation = None \<Longrightarrow>
    \<exists>r. operation_routes (unavailable operation m) = operation_routes m @ [r] \<and> serves lib operation r"
  by (simp add: unavailable_def serves_def operation_path_def)

lemma mount_operation_routes:
  assumes "mount_operation lib c operation i j m = Returned m'" "prepared_operation lib operation"
  shows "\<exists>r. operation_routes m' = operation_routes m @ [r] \<and> serves lib operation r"
proof -
  obtain plan extracted kind where p: "bl_plan lib operation = (plan, extracted, kind)" by (cases "bl_plan lib operation")
  have handled: "\<exists>r. operation_routes m' = operation_routes m @ [r] \<and> serves lib operation r"
    if "served_kind lib operation = Some k" "build_handler lib c operation extracted i j = Returned h"
      "m' = handle (kind_methods k) (operation_path operation) (kind_endpoint k h) (auth_required operation) m" for k h
  proof -
    have "operation_endpoint (kind_endpoint k h)" by (cases k) simp_all
    with that build_handler_fields [OF that(2)] p show ?thesis by (auto simp: serves_def operation_path_def)
  qed
  show ?thesis
  proof (cases "served_kind lib operation")
    case None
    with assms have "m' = unavailable operation m"
      by (auto simp: served_kind_def mount_operation_def p Let_def bind_out_Returned_iff
          split: option.splits op_type.splits planned.splits if_splits)
    with serves_unavailable [OF None] show ?thesis by simp
  next
    case (Some k)
    with assms obtain h where "build_handler lib c operation extracted i j = Returned h"
      "m' = handle (kind_methods k) (operation_path operation) (kind_endpoint k h) (auth_required operation) m"
      by (auto simp: served_kind_def mount_operation_def p Let_def bind_out_Returned_iff get_options_def post_options_def
          split: option.splits op_type.splits planned.splits if_splits)
    with handled [OF Some] show ?thesis by blast
  qed
qed

lemma registerOperation_routes:
  assumes "registerOperation lib c operation m = Returned (m', err)"
  shows "\<exists>rs. operation_routes m' = operation_routes m @ rs
    \<and> list_all2 (serves lib) (filter (\<lambda>x. \<not> op_internal x) [operation]) rs"
proof (cases "op_internal operation")
  case True
  then show ?thesis using assms by (simp add: registerOperation_def)
next
  case False
  have "\<exists>r. operation_routes m' = operation_routes m @ [r] \<and> serves lib operation r"
  proof (cases "prepared_operation lib operation")
    case True
    then obtain i j where "mount_operation lib c operation i j m = Returned m'"
      using assms False
      by (auto simp: registerOperation_def prepared_operation_def Let_def bind_out_Returned_iff)
    then show ?thesis using True by (rule mount_operation_routes)
  next
    case bad: False
    then have "m' = unavailable operation m"
      using assms False
      by (auto simp: registerOperation_def prepared_operation_def Let_def bind_out_Returned_iff
          split: option.splits sum.splits)
    moreover have "served_kind lib operation = None" using bad by (simp add: served_kind_def)
    ultimately show ?thesis using serves_unavailable by blast
  qed
  with False show ?thesis by auto
qed

lemma register_operations_routes:
  "register_operations lib c operations m err = Returned (m', err') \<Longrightarrow>
     \<exists>rs. operation_routes m' = operation_routes m @ rs
       \<and> list_all2 (serves lib) (filter (\<lambda>x. \<not> op_internal x) operations) rs"
proof (induction operations arbitrary: m err)
  case (Cons operation operations)
  from Cons.prems obtain m1 err1 where reg: "registerOperation lib c operation m = Returned (m1, err1)"
    and rest: "register_operations lib c operations m1 err1 = Returned (m', err')"
    by (auto simp: bind_out_Returned_iff)
  from registerOperation_routes [OF reg] obtain rs1 where
    rs1: "operation_routes m1 = operation_routes m @ rs1"
      "list_all2 (serves lib) (filter (\<lambda>x. \<not> op_internal x) [operation]) rs1" by blast
  from Cons.IH [OF rest] obtain rs2 where
    rs2: "operation_routes m' = operation_routes m1 @ rs2"
      "list_all2 (serves lib) (filter (\<lambda>x. \<not> op_internal x) operations) rs2" by blast
  from list_all2_appendI [OF rs1(2) rs2(2)] rs1(1) rs2(1) show ?case
    by (intro exI [of _ "rs1 @ rs2"]) (simp split: if_splits)
qed simp

lemma operation_routes_login [simp]: "operation_routes (login_routes kind cfg m) = operation_routes m"
  by (simp add: login_routes_def)

lemma operation_routes_provider [simp]:
  "operation_routes (configureCookieProvider lib b auth cookie p provider m) = operation_routes m"
  by (simp add: configureCookieProvider_def Let_def split: provider_kind.split option.split)

lemma operation_routes_providers [simp]:
  "operation_routes (foldl (\<lambda>m p. configureCookieProvider lib b auth cookie pathPrefix p m) m ps) = operation_routes m"
  by (induction ps arbitrary: m) simp_all

lemma operation_routes_auth: "registerAuth lib b api m = Returned m' \<Longrightarrow> operation_routes m' = operation_routes m"
  by (auto simp: registerAuth_def registerCookieAuthHandlers_def Let_def bind_out_Returned_iff split: if_splits)

lemma operation_routes_webhooks [simp]: "operation_routes (register_webhooks lib b p ws m) = operation_routes m"
  by (induction ws arbitrary: m) (simp_all split: sum.split)

lemma operation_routes_uploads [simp]: "operation_routes (register_uploads lib ss m) = operation_routes m"
  by (induction ss arbitrary: m) (simp_all split: option.split)

lemma operation_routes_filters [simp]: "operation_routes (mount_filters lib b api m) = operation_routes m"
  by (simp add: mount_filters_def Let_def split: option.split)

lemma operation_routes_graphql [simp]: "operation_routes (mount_graphql api m) = operation_routes m"
  by (simp add: mount_graphql_def)

lemma mount_api_routes:
  assumes "mount_api lib b api m = Returned (m', err)"
  shows "\<exists>rs. operation_routes m' = operation_routes m @ rs
    \<and> list_all2 (serves lib) (filter (\<lambda>x. \<not> op_internal x) (api_operations api)) rs"
proof -
  from assms obtain m1 m2 where auth: "registerAuth lib b api (mount_filters lib b api m) = Returned m1"
    and ops: "register_operations lib (api_config_hash api) (api_operations api)
        (register_uploads lib (api_s3 api) m1) None = Returned (m2, err)"
    and m': "m' = mount_graphql api m2"
    by (auto simp: mount_api_def bind_out_Returned_iff)
  from register_operations_routes [OF ops] operation_routes_auth [OF auth] show ?thesis
    by (simp add: m')
qed

section \<open>Panics\<close>

text \<open>Code that panics only where it dereferences a nil pointer.\<close>

definition nil_panics :: "'a outcome \<Rightarrow> bool" where
  "nil_panics r \<longleftrightarrow> (\<forall>msg. r = Panicked msg \<longrightarrow> msg = ''nil pointer dereference'')"

lemma nil_panics_Returned [simp]: "nil_panics (Returned x)"
  by (simp add: nil_panics_def)

lemma nil_panics_deref [simp]: "nil_panics (deref p)"
  by (cases p) (simp_all add: nil_panics_def)

lemma nil_panics_bind: "nil_panics r \<Longrightarrow> (\<And>x. nil_panics (f x)) \<Longrightarrow> nil_panics (bind_out r f)"
  by (cases r) (simp_all add: nil_panics_def)

lemma nil_panics_hooks [simp]: "nil_panics (buildHooksConfig operation)"
  by (auto simp: buildHooksConfig_def Let_def split: option.split intro: nil_panics_bind)

lemma nil_panics_rbac [simp]: "nil_panics (NewRBACEnforcer operation)"
  by (auto simp: NewRBACEnforcer_def intro!: nil_panics_bind)

lemma nil_panics_build [simp]: "nil_panics (build_handler lib c operation ex i j)"
  by (auto simp: build_handler_def intro!: nil_panics_bind)

lemma nil_panics_mount [simp]: "nil_panics (mount_operation lib c operation i j m)"
  by (auto simp: mount_operation_def Let_def split: prod.split option.split op_type.split intro!: nil_panics_bind)

lemma nil_panics_register [simp]: "nil_panics (registerOperation lib c operation m)"
  by (auto simp: registerOperation_def Let_def split: option.split sum.split intro!: nil_panics_bind)

lemma nil_panics_operations [simp]: "nil_panics (register_operations lib c operations m err)"
  by (induction operations arbitrary: m err) (auto intro!: nil_panics_bind split: prod.split)

lemma nil_panics_cache [simp]: "nil_panics (configureCache lib config)"
  by (auto simp: configureCache_def split: cache_kind.split intro!: nil_panics_bind)

lemma nil_panics_broken: "nil_panics r \<Longrightarrow> r \<noteq> Panicked broken_auth"
  by (auto simp: nil_panics_def broken_auth_def)

lemma valid_secrets:
  assumes "ApiConfig (bl_getenv lib) api = Some (True, msgs)" "has_cookie_auth_enabled api"
    "api_auth api = Some config" "ac_cookie config = Some auth"
  shows "secret_bytes lib (ca_hash_key auth) \<noteq> None" "secret_bytes lib (ca_block_key auth) \<noteq> None"
    "secret_bytes lib (ca_csrf_secret auth) \<noteq> None"
proof -
  have "ca_providers auth \<noteq> []" using assms(2-4) by (simp add: has_cookie_auth_enabled_def)
  from ApiConfig_cookie [OF assms(3,4) this, of "bl_getenv lib"] assms(1)
  have "length (load_string (bl_getenv lib) (ca_csrf_secret auth)) = 11"
    "length (load_string (bl_getenv lib) (ca_block_key auth)) = 32"
    "length (load_string (bl_getenv lib) (ca_hash_key auth)) = 32" by blast+
  then show "secret_bytes lib (ca_hash_key auth) \<noteq> None" "secret_bytes lib (ca_block_key auth) \<noteq> None"
    "secret_bytes lib (ca_csrf_secret auth) \<noteq> None"
    by (auto simp: secret_bytes_def Let_def)
qed

lemma validated_registerAuth:
  assumes "ApiConfig (bl_getenv lib) api = Some (True, msgs)"
  shows "nil_panics (registerAuth lib b api m)"
proof (cases "api_auth api")
  case None
  then show ?thesis by (simp add: registerAuth_def nil_panics_def)
next
  case (Some config)
  show ?thesis
  proof (cases "ac_cookie config")
    case None
    with Some show ?thesis by (simp add: registerAuth_def nil_panics_def)
  next
    case cookie: (Some auth)
    have "\<not> (has_cookie_auth_enabled api \<and> (secret_bytes lib (ca_hash_key auth) = None
        \<or> secret_bytes lib (ca_block_key auth) = None \<or> secret_bytes lib (ca_csrf_secret auth) = None))"
      using valid_secrets [OF assms _ Some cookie] by blast
    then show ?thesis
      by (simp only: registerAuth_def Some cookie Let_def deref.simps bind_out.simps if_False)
        (simp add: nil_panics_bind)
  qed
qed

section \<open>The issuers of the logout URLs\<close>

lemma trim_slash_once: "\<not> has_suffix s ''//'' \<Longrightarrow> \<not> has_suffix (trim_suffix s ''/'') ''/''"
proof -
  assume "\<not> has_suffix s ''//''"
  then have "\<nexists>u. s = (u @ ''/'') @ ''/''" by (simp add: has_suffix_iff)
  then show ?thesis
    by (cases "has_suffix s ''/''") (auto simp: has_suffix_iff trim_suffix_def)
qed

lemma logout_url_trimmed:
  "logout_url lib p = Some (issuer, e) \<Longrightarrow>
     \<exists>o1. ap_oidc p = Some o1 \<and> issuer = trim_suffix (load_string (bl_getenv lib) (oi_issuer o1)) ''/''"
  by (auto simp: logout_url_def Let_def split: option.splits sum.splits prod.splits if_splits)

lemma logout_urls_dom:
  "issuer \<in> dom (configureOpenIDConnectIssuerLogoutURLs lib ps urls) \<Longrightarrow>
     issuer \<in> dom urls \<or> (\<exists>p \<in> set ps. \<exists>e. logout_url lib p = Some (issuer, e))"
proof (induction ps arbitrary: urls)
  case (Cons p ps)
  from Cons.IH [of "case logout_url lib p of None \<Rightarrow> urls | Some (i, e) \<Rightarrow> urls(i \<mapsto> e)"] Cons.prems
  show ?case by (auto split: option.splits if_splits)
qed simp

section \<open>Properties\<close>

text \<open>when the public API is mounted, every operation that is not internal has exactly one
  route, in the order of the configuration: it serves a handler of that operation, behind the
  authentication check exactly when the operation requires it, or says that the endpoint is
  unavailable; internal operations have none. An API that is not mounted has no operation at all.\<close>

theorem operations_mounted_once:
  assumes "BuildAndMountApiHandler lib b api = Returned (m, err)"
  shows "operation_routes m = []
    \<or> list_all2 (serves lib) (filter (\<lambda>x. \<not> op_internal x) (api_operations api)) (operation_routes m)"
proof -
  let ?m = "register_webhooks lib b (api_path_prefix api) (api_webhooks api) empty_mount"
  have "operation_routes m = [] \<or> mount_api lib b api ?m = Returned (m, err)"
    using assms
    by (auto simp: BuildAndMountApiHandler_def Let_def bind_out_Returned_iff split: option.splits if_splits)
  then show ?thesis using mount_api_routes [of lib b api ?m m err] by auto
qed

definition sample_lib :: builder_lib where
  "sample_lib =
     \<lparr>bl_getenv = (\<lambda>_. []), bl_load = (\<lambda>_. None), bl_schema = (\<lambda>_. None), bl_introspection = None,
      bl_parse = (\<lambda>_. None), bl_validate = (\<lambda>_. None), bl_plan = (\<lambda>_. (SyncPlanned, [], Some QUERY)),
      bl_variables = (\<lambda>_. None), bl_interp = (\<lambda>_. Inr id), bl_json_interp = (\<lambda>_. Inr id),
      bl_transformer = (\<lambda>_. Inr), bl_properties = (\<lambda>_. []), bl_new_cache = (\<lambda>_ _. None),
      bl_s3 = (\<lambda>_. None), bl_parse_url = (\<lambda>_. None), bl_request_uri = (\<lambda>_. None),
      bl_provider = (\<lambda>_. Inl (Err ''no provider'')), bl_claims = (\<lambda>_. None),
      bl_securecookie = (\<lambda>_ _. sample_cookies), bl_discover = (\<lambda>_. Inr (200, Inr [])),
      bl_end_session = (\<lambda>_. Inr ''https://idp/logout'')\<rparr>"

definition sample_builder :: builder where
  "sample_builder = \<lparr>bu_insecure = True, bu_force_https = False, bu_debug = False, bu_introspection = False,
     bu_demo_id = [], bu_demo_secret = [], bu_hook_url = []\<rparr>"

definition mounted_operation :: operation where
  "mounted_operation = sample_operation
     \<lparr>op_internal := False, op_auth := Some \<lparr>oa_required = True\<rparr>,
      op_hooks_cfg := Some \<lparr>oh_pre = False, oh_post = False, oh_mut_pre = False, oh_mut_post = False,
        oh_mock = Some \<lparr>mh_enable = False, mh_interval = 0\<rparr>, oh_on_request = False,
        oh_on_response = False, oh_custom = False\<rparr>,
      op_authz := Some \<lparr>az_claims = [], az_roles = Some \<lparr>rc_require_all = [], rc_require_any = [],
        rc_deny_all = [], rc_deny_any = []\<rparr>\<rparr>\<rparr>"

definition inner_operation :: operation where
  "inner_operation = mounted_operation\<lparr>op_name := ''Inner'', op_internal := True\<rparr>"

definition mounted_api :: api where
  "mounted_api = sample_api
     \<lparr>api_operations := [mounted_operation, inner_operation],
      api_engine := Some \<lparr>ec_flush = 0, ec_datasources = [], ec_fields = [], ec_schema = [], ec_types = []\<rparr>,
      api_auth := Some
        \<lparr>ac_cookie = Some (sample_cookie\<lparr>ca_hash_key := static_var (replicate 32 (CHR ''h'')),
           ca_csrf_secret := static_var (replicate 11 (CHR ''c''))\<rparr>),
         ac_hooks = Some \<lparr>ah_post_auth = False, ah_mut_post_auth = False, ah_revalidate = False,
           ah_post_logout = False\<rparr>,
         ac_jwks = None\<rparr>\<rparr>"

theorem operations_mounted_once_witness:
  "\<exists>m err r. BuildAndMountApiHandler sample_lib sample_builder mounted_api = Returned (m, err)
     \<and> operation_routes m = [r] \<and> serves sample_lib mounted_operation r \<and> rt_auth r"
proof -
  define res where "res = BuildAndMountApiHandler sample_lib sample_builder mounted_api"
  have auth: "(case res of Returned (m, err) \<Rightarrow> map rt_auth (operation_routes m) | Panicked msg \<Rightarrow> []) = [True]"
    unfolding res_def by code_simp
  then obtain m err where run: "res = Returned (m, err)" by (cases res) auto
  with auth obtain r where r: "operation_routes m = [r]" "rt_auth r" by auto
  have "filter (\<lambda>x. \<not> op_internal x) (api_operations mounted_api) = [mounted_operation]"
    by (simp add: mounted_api_def inner_operation_def mounted_operation_def)
  with operations_mounted_once [OF run [unfolded res_def]] r(1) have "serves sample_lib mounted_operation r" by simp
  with run r show ?thesis unfolding res_def by blast
qed

text \<open>an API configuration that passes \<open>validate.ApiConfig\<close> never makes \<open>registerAuth\<close> panic
  over missing secrets: the builder panics, if at all, on a nil pointer.\<close>

theorem validated_api_has_secrets:
  assumes "ApiConfig (bl_getenv lib) api = Some (True, msgs)"
  shows "BuildAndMountApiHandler lib b api \<noteq> Panicked broken_auth"
proof -
  have "nil_panics (mount_api lib b api m)" for m
    using validated_registerAuth [OF assms]
    by (auto simp: mount_api_def intro!: nil_panics_bind split: prod.split)
  then have "nil_panics (BuildAndMountApiHandler lib b api)"
    by (auto simp: BuildAndMountApiHandler_def Let_def intro!: nil_panics_bind split: option.split)
  then show ?thesis by (rule nil_panics_broken)
qed

theorem validated_api_has_secrets_witness:
  "BuildAndMountApiHandler sample_lib sample_builder mounted_api \<noteq> Panicked broken_auth
   \<and> BuildAndMountApiHandler sample_lib sample_builder
       (mounted_api\<lparr>api_auth := map_option (ac_cookie_update (\<lambda>_. Some sample_cookie)) (api_auth mounted_api)\<rparr>)
     = Panicked broken_auth"
proof
  have "ApiConfig (bl_getenv sample_lib) mounted_api = Some (True, [])" by code_simp
  then show "BuildAndMountApiHandler sample_lib sample_builder mounted_api \<noteq> Panicked broken_auth"
    by (rule validated_api_has_secrets)
  show "BuildAndMountApiHandler sample_lib sample_builder
       (mounted_api\<lparr>api_auth := map_option (ac_cookie_update (\<lambda>_. Some sample_cookie)) (api_auth mounted_api)\<rparr>)
     = Panicked broken_auth"
    by (simp add: BuildAndMountApiHandler_def mounted_api_def sample_api_def sample_lib_def sample_builder_def
        mount_api_def registerAuth_def sample_cookie_def secret_bytes_def has_cookie_auth_enabled_def
        load_string_def static_var_def Let_def)
qed

text \<open>the logout URLs are kept by issuer without its final slash, and looked up by the issuer
  of the identity token as it is: a user whose provider writes its issuer with a final slash is
  never logged out at the provider.\<close>

theorem slash_issuers_stay_logged_in:
  assumes "\<forall>p \<in> set providers. \<forall>o1. ap_oidc p = Some o1 \<longrightarrow>
      \<not> has_suffix (load_string (bl_getenv lib) (oi_issuer o1)) ''//''"
    and "lh_logout_urls u = configureOpenIDConnectIssuerLogoutURLs lib providers Map.empty"
    and "rq_user r = Some user" "us_id_token user = Some t" "iss t = Inr issuer" "has_suffix issuer ''/''"
  shows "snd (snd (UserLogoutHandler iss u r w)) = []"
proof -
  have "issuer \<notin> dom (lh_logout_urls u)"
  proof
    assume "issuer \<in> dom (lh_logout_urls u)"
    then obtain p e where p: "p \<in> set providers" "logout_url lib p = Some (issuer, e)"
      using logout_urls_dom [of issuer lib providers Map.empty] by (auto simp: assms(2))
    from logout_url_trimmed [OF p(2)] obtain o1 where
      "ap_oidc p = Some o1" "issuer = trim_suffix (load_string (bl_getenv lib) (oi_issuer o1)) ''/''" by blast
    with assms(1,6) p(1) trim_slash_once show False by metis
  qed
  then have "lh_logout_urls u issuer = None" by auto
  with assms(3-5) show ?thesis by (simp add: UserLogoutHandler_def Let_def)
qed

definition slash_provider :: auth_provider where
  "slash_provider = \<lparr>ap_id = ''idp'', ap_kind = ProviderOIDC, ap_github = None,
     ap_oidc = Some \<lparr>oi_issuer = static_var ''https://idp/'', oi_client_id = None, oi_client_secret = None,
       oi_query = []\<rparr>\<rparr>"

theorem slash_issuers_stay_logged_in_witness:
  "configureOpenIDConnectIssuerLogoutURLs sample_lib [slash_provider] Map.empty ''https://idp'' = Some ''https://idp/logout''
   \<and> snd (snd (UserLogoutHandler (\<lambda>_. Inr ''https://idp/'')
        \<lparr>lh_insecure = True,
         lh_logout_urls = configureOpenIDConnectIssuerLogoutURLs sample_lib [slash_provider] Map.empty,
         lh_hooks = sample_hooks\<rparr>
        (empty_request\<lparr>rq_user := Some (zero_user\<lparr>us_provider := ''oidc'', us_id_token := Some ''{}''\<rparr>)\<rparr>) new_writer)) = []"
proof
  show "configureOpenIDConnectIssuerLogoutURLs sample_lib [slash_provider] Map.empty ''https://idp'' = Some ''https://idp/logout''"
    by code_simp
  show "snd (snd (UserLogoutHandler (\<lambda>_. Inr ''https://idp/'')
        \<lparr>lh_insecure = True,
         lh_logout_urls = configureOpenIDConnectIssuerLogoutURLs sample_lib [slash_provider] Map.empty,
         lh_hooks = sample_hooks\<rparr>
        (empty_request\<lparr>rq_user := Some (zero_user\<lparr>us_provider := ''oidc'', us_id_token := Some ''{}''\<rparr>)\<rparr>) new_writer)) = []"
    by (rule slash_issuers_stay_logged_in [where lib = sample_lib and providers = "[slash_provider]"
          and issuer = "''https://idp/''" and t = "''{}''"
          and user = "zero_user\<lparr>us_provider := ''oidc'', us_id_token := Some ''{}''\<rparr>"])
      (simp_all add: slash_provider_def static_var_def load_string_def has_suffix_def)
qed

end
