(* ===== verification/Transition.thy ===== *)
theory Transition
  imports Prelude
begin

text \<open>
  Labelled transition systems for the components whose goroutines interleave: the states an
  execution can be in, executions under a scheduling discipline, and the contract of an
  invariant.
\<close>

section \<open>Executions\<close>

text \<open>
  \<open>allowed\<close> is the scheduling discipline: an execution may take a step with a label only in
  a state that allows it.
\<close>

inductive runs ::
    "('s \<Rightarrow> 'l \<Rightarrow> bool) \<Rightarrow> ('s \<Rightarrow> 'l \<Rightarrow> 's \<Rightarrow> bool) \<Rightarrow> 's \<Rightarrow> 'l list \<Rightarrow> 's \<Rightarrow> bool"
  for allowed step where
  runs_Nil: "runs allowed step s [] s"
| runs_Cons: "allowed s l \<Longrightarrow> step s l s' \<Longrightarrow> runs allowed step s' ls s''
    \<Longrightarrow> runs allowed step s (l # ls) s''"

inductive_cases runs_NilE: "runs allowed step s [] s'"
inductive_cases runs_ConsE: "runs allowed step s (l # ls) s'"

inductive_simps runs_Nil_iff [simp]: "runs allowed step s [] s'"
inductive_simps runs_Cons_iff: "runs allowed step s (l # ls) s'"

definition any_schedule :: "'s \<Rightarrow> 'l \<Rightarrow> bool" where
  "any_schedule s l = True"

lemma any_schedule_simp [simp]: "any_schedule s l" by (simp add: any_schedule_def)

lemma runs_mono:
  "runs allowed step s ls s' \<Longrightarrow> (\<And>s l. allowed s l \<Longrightarrow> allowed' s l) \<Longrightarrow> runs allowed' step s ls s'"
  by (induction rule: runs.induct) (auto intro: runs.intros)

lemma runs_append:
  "runs allowed step s (ls @ ls') s'' \<longleftrightarrow>
   (\<exists>s'. runs allowed step s ls s' \<and> runs allowed step s' ls' s'')"
  by (induction ls arbitrary: s) (auto simp: runs_Cons_iff)

section \<open>Invariants\<close>

text \<open>
  What a component shows of an invariant: every allowed step keeps it. A state that
  satisfies it satisfies it ever after.
\<close>

locale step_invariant =
  fixes allowed :: "'s \<Rightarrow> 'l \<Rightarrow> bool"
    and step :: "'s \<Rightarrow> 'l \<Rightarrow> 's \<Rightarrow> bool"
    and inv :: "'s \<Rightarrow> bool"
  assumes step_inv: "inv s \<Longrightarrow> allowed s l \<Longrightarrow> step s l s' \<Longrightarrow> inv s'"
begin

lemma runs_inv: "runs allowed step s ls s' \<Longrightarrow> inv s \<Longrightarrow> inv s'"
  by (induction rule: runs.induct) (auto intro: step_inv)

text \<open>A state that excludes a step excludes it from every execution.\<close>

lemma excluded_label:
  assumes "runs allowed step s ls s'" "inv s" "\<And>s s'. inv s \<Longrightarrow> \<not> step s l s'"
  shows "l \<notin> set ls"
  using assms(1,2)
  by (induction rule: runs.induct) (auto dest: step_inv assms(3))

end

end
