(* ===== verification/IdleTimeout.thy ===== *)
theory IdleTimeout
  imports Transition "HOL-Library.Word"
begin

text \<open>
  The idle timeout of the node (httpidletimeout.go, options.go): the counter of requests in
  flight, the channel of timer events, and the goroutine that owns the timer. The requests
  interleave freely, and an atomic addition and the send that follows it are two steps.
\<close>

unbundle bit_operations_syntax

section \<open>Data\<close>

datatype event = eventResetTimer | eventStartTimer | eventStop

text \<open>A time.Timer: running or not, its duration, and whether its channel holds a value.\<close>

record timer =
  tm_active :: bool
  tm_duration :: int
  tm_fired :: bool

datatype phase = Waiting | Unwatched | SendReset | Serving | SendStart | Finished

datatype goroutine = NotStarted | Running | Exited

record idle_middleware =
  im_timeout :: int
  im_counter :: "64 word"
  im_events :: "event list"
  im_notify :: bool
  im_timer :: timer
  im_loop :: goroutine
  im_phase :: "nat \<Rightarrow> phase"

definition infiniteDuration :: int where
  "infiniteDuration = 2 ^ 63 - 1"

section \<open>Options\<close>

type_synonym skip = "(nat \<Rightarrow> bool) option"

type_synonym idle_option = "skip \<Rightarrow> skip"

definition WithSkip :: "(nat \<Rightarrow> bool) \<Rightarrow> idle_option" where
  "WithSkip fn = (\<lambda>o1. Some fn)"

definition applyOptions :: "idle_option list \<Rightarrow> skip" where
  "applyOptions opts = foldl (\<lambda>o1 fn. fn o1) None opts"

definition watched :: "skip \<Rightarrow> nat \<Rightarrow> bool" where
  "watched skip r = (case skip of None \<Rightarrow> True | Some f \<Rightarrow> \<not> f r)"

section \<open>The operations\<close>

definition New :: "int \<Rightarrow> idle_middleware" where
  "New timeout = \<lparr>im_timeout = timeout, im_counter = 0, im_events = [], im_notify = False,
     im_timer = \<lparr>tm_active = False, tm_duration = timeout, tm_fired = False\<rparr>,
     im_loop = NotStarted, im_phase = (\<lambda>_. Waiting)\<rparr>"

definition set_phase :: "nat \<Rightarrow> phase \<Rightarrow> idle_middleware \<Rightarrow> idle_middleware" where
  "set_phase r p m = m\<lparr>im_phase := (im_phase m)(r := p)\<rparr>"

text \<open>The atomic part of \<open>startRequest\<close> and \<open>endRequest\<close>: what the request does next.\<close>

definition startRequest :: "nat \<Rightarrow> idle_middleware \<Rightarrow> idle_middleware" where
  "startRequest r m =
     (let m = m\<lparr>im_counter := im_counter m + 1\<rparr> in
      set_phase r (if im_counter m = 1 then SendReset else Serving) m)"

definition endRequest :: "nat \<Rightarrow> idle_middleware \<Rightarrow> idle_middleware" where
  "endRequest r m =
     (let m = m\<lparr>im_counter := im_counter m + NOT 0\<rparr> in
      set_phase r (if im_counter m = 0 then SendStart else Finished) m)"

text \<open>The channel has room for one event; a send on a full channel blocks.\<close>

definition can_send :: "idle_middleware \<Rightarrow> bool" where
  "can_send m = (length (im_events m) < 1)"

definition send :: "event \<Rightarrow> idle_middleware \<Rightarrow> idle_middleware" where
  "send ev m = m\<lparr>im_events := im_events m @ [ev]\<rparr>"

definition timer_reset :: "int \<Rightarrow> idle_middleware \<Rightarrow> idle_middleware" where
  "timer_reset d m =
     m\<lparr>im_timer := (im_timer m)\<lparr>tm_active := True, tm_duration := d\<rparr>\<rparr>"

text \<open>The branches of the loop of \<open>Start\<close>. Draining an empty channel would block.\<close>

definition on_deadline :: "idle_middleware \<Rightarrow> idle_middleware" where
  "on_deadline m =
     (let m = m\<lparr>im_timer := (im_timer m)\<lparr>tm_fired := False\<rparr>, im_notify := True\<rparr> in
      timer_reset (im_timeout m) m)"

definition stop_and_drain :: "idle_middleware \<Rightarrow> idle_middleware option" where
  "stop_and_drain m =
     (let t = im_timer m in
      if tm_active t then Some (m\<lparr>im_timer := t\<lparr>tm_active := False\<rparr>\<rparr>)
      else if tm_fired t then Some (m\<lparr>im_timer := t\<lparr>tm_fired := False\<rparr>\<rparr>)
      else None)"

definition on_event :: "event \<Rightarrow> idle_middleware \<Rightarrow> idle_middleware option" where
  "on_event ev m =
     (case stop_and_drain m of
        None \<Rightarrow> None
      | Some m \<Rightarrow>
          (case ev of
             eventResetTimer \<Rightarrow> Some (timer_reset infiniteDuration m)
           | eventStartTimer \<Rightarrow> Some (timer_reset (im_timeout m) m)
           | eventStop \<Rightarrow> Some (m\<lparr>im_loop := Exited\<rparr>)))"

section \<open>Steps\<close>

datatype idle_label =
    LStart | LBegin nat | LSendReset nat | LEnd nat | LSendStart nat
  | LExpire | LDeadline | LEvent | LCancel | LWait

text \<open>
  The steps of the system. Whether a request is skipped is decided when it arrives; a request
  ends whether its handler returns or panics. A timer of infinite duration never expires.
\<close>

inductive idle_step :: "skip \<Rightarrow> idle_middleware \<Rightarrow> idle_label \<Rightarrow> idle_middleware \<Rightarrow> bool"
  for skip where
  Start: "im_loop m = NotStarted
    \<Longrightarrow> idle_step skip m LStart (timer_reset (im_timeout m) (m\<lparr>im_loop := Running\<rparr>))"
| Begin: "im_phase m r = Waiting \<Longrightarrow> watched skip r
    \<Longrightarrow> idle_step skip m (LBegin r) (startRequest r m)"
| BeginSkipped: "im_phase m r = Waiting \<Longrightarrow> \<not> watched skip r
    \<Longrightarrow> idle_step skip m (LBegin r) (set_phase r Unwatched m)"
| SentReset: "im_phase m r = SendReset \<Longrightarrow> can_send m
    \<Longrightarrow> idle_step skip m (LSendReset r) (set_phase r Serving (send eventResetTimer m))"
| End: "im_phase m r = Serving \<Longrightarrow> idle_step skip m (LEnd r) (endRequest r m)"
| EndSkipped: "im_phase m r = Unwatched \<Longrightarrow> idle_step skip m (LEnd r) (set_phase r Finished m)"
| SentStart: "im_phase m r = SendStart \<Longrightarrow> can_send m
    \<Longrightarrow> idle_step skip m (LSendStart r) (set_phase r Finished (send eventStartTimer m))"
| Expire: "tm_active (im_timer m) \<Longrightarrow> tm_duration (im_timer m) < infiniteDuration
    \<Longrightarrow> idle_step skip m LExpire
          (m\<lparr>im_timer := (im_timer m)\<lparr>tm_active := False, tm_fired := True\<rparr>\<rparr>)"
| Deadline: "im_loop m = Running \<Longrightarrow> tm_fired (im_timer m)
    \<Longrightarrow> idle_step skip m LDeadline (on_deadline m)"
| Event: "im_loop m = Running \<Longrightarrow> im_events m = ev # evs
    \<Longrightarrow> on_event ev (m\<lparr>im_events := evs\<rparr>) = Some m' \<Longrightarrow> idle_step skip m LEvent m'"
| Cancel: "can_send m \<Longrightarrow> idle_step skip m LCancel (send eventStop m)"
| Wait: "im_notify m \<Longrightarrow> idle_step skip m LWait (m\<lparr>im_notify := False\<rparr>)"

inductive_cases idle_stepE: "idle_step skip m l m'"
inductive_simps idle_label_iffs:
  "idle_step skip m LStart m'" "idle_step skip m (LBegin r) m'" "idle_step skip m (LSendReset r) m'"
  "idle_step skip m (LEnd r) m'" "idle_step skip m (LSendStart r) m'" "idle_step skip m LExpire m'"
  "idle_step skip m LDeadline m'" "idle_step skip m LEvent m'" "idle_step skip m LCancel m'"
  "idle_step skip m LWait m'"

lemmas idle_ops = startRequest_def endRequest_def send_def set_phase_def timer_reset_def
  on_deadline_def on_event_def stop_and_drain_def can_send_def Let_def

section \<open>Invariants\<close>

definition in_flight :: "(nat \<Rightarrow> phase) \<Rightarrow> nat set" where
  "in_flight ph = {r. ph r \<in> {SendReset, Serving}}"

text \<open>
  The counter is the number of requests in flight. While the goroutine is at its select, the
  timer runs or its channel holds a value, never both; only a finite timer has fired.
\<close>

definition counts :: "64 word \<Rightarrow> (nat \<Rightarrow> phase) \<Rightarrow> bool" where
  "counts c ph \<longleftrightarrow> finite (in_flight ph) \<and> c = of_nat (card (in_flight ph))"

definition counter_inv :: "idle_middleware \<Rightarrow> bool" where
  "counter_inv m = counts (im_counter m) (im_phase m)"

definition timer_inv :: "idle_middleware \<Rightarrow> bool" where
  "timer_inv m \<longleftrightarrow>
     (im_loop m = NotStarted \<longrightarrow>
        \<not> tm_active (im_timer m) \<and> \<not> tm_fired (im_timer m) \<and> tm_duration (im_timer m) = im_timeout m)
   \<and> (im_loop m = Running \<longrightarrow> tm_active (im_timer m) \<noteq> tm_fired (im_timer m))
   \<and> (tm_fired (im_timer m) \<longrightarrow> tm_duration (im_timer m) < infiniteDuration)"

lemma in_flight_upd [simp]:
  "in_flight (ph(r := p)) =
     (if p \<in> {SendReset, Serving} then insert r (in_flight ph) else in_flight ph - {r})"
  by (auto simp: in_flight_def)

lemma mem_in_flight [simp]: "r \<in> in_flight ph \<longleftrightarrow> ph r = SendReset \<or> ph r = Serving"
  by (simp add: in_flight_def)

lemma counts_start: "counts c ph \<Longrightarrow> ph r = Waiting \<Longrightarrow> p \<in> {SendReset, Serving}
    \<Longrightarrow> counts (c + 1) (ph(r := p))"
  by (simp add: counts_def)

lemma counts_end:
  assumes "counts c ph" "ph r = Serving" "p \<notin> {SendReset, Serving}"
  shows "counts (c + NOT 0) (ph(r := p))"
proof -
  have r: "r \<in> in_flight ph" using assms(2) by simp
  have fin: "finite (in_flight ph)" and c: "c = of_nat (card (in_flight ph))"
    using assms(1) by (simp_all add: counts_def)
  define n where "n = card (in_flight ph - {r})"
  have "c = of_nat n + 1" using card.remove [OF fin r] by (simp add: c n_def)
  moreover have "in_flight (ph(r := p)) = in_flight ph - {r}" using assms(3) by simp
  ultimately show ?thesis using fin by (simp only: counts_def n_def) simp
qed

lemma counts_phase:
  "counts c ph \<Longrightarrow> (p \<in> {SendReset, Serving} \<longleftrightarrow> ph r \<in> {SendReset, Serving}) \<Longrightarrow> counts c (ph(r := p))"
  by (cases "p \<in> {SendReset, Serving}") (auto simp: counts_def insert_absorb)

lemma on_event_frame:
  "on_event ev m = Some m' \<Longrightarrow> im_phase m' = im_phase m \<and> im_counter m' = im_counter m
     \<and> im_events m' = im_events m \<and> im_notify m' = im_notify m \<and> im_timeout m' = im_timeout m"
  by (auto simp: idle_ops split: event.splits if_splits)

lemma counter_inv_start:
  "counter_inv m \<Longrightarrow> im_phase m r = Waiting \<Longrightarrow> counter_inv (startRequest r m)"
  by (simp add: counter_inv_def idle_ops counts_start)

lemma counter_inv_end:
  "counter_inv m \<Longrightarrow> im_phase m r = Serving \<Longrightarrow> counter_inv (endRequest r m)"
  using counts_end [of "im_counter m" "im_phase m" r]
  by (simp add: counter_inv_def idle_ops)

lemma counter_inv_step: "counter_inv m \<Longrightarrow> idle_step skip m l m' \<Longrightarrow> counter_inv m'"
proof (erule idle_stepE, goal_cases)
  case (10 ev evs)
  then show ?case by (auto simp: counter_inv_def dest: on_event_frame)
qed (simp_all add: counter_inv_start counter_inv_end,
     simp_all add: counter_inv_def counts_phase set_phase_def send_def timer_reset_def
       on_deadline_def Let_def)

lemma timer_inv_step: "timer_inv m \<Longrightarrow> idle_step skip m l m' \<Longrightarrow> timer_inv m'"
  by (erule idle_stepE) (auto simp: timer_inv_def idle_ops split: event.splits if_splits)

lemma counter_inv_New: "counter_inv (New t)"
  by (simp add: counter_inv_def counts_def New_def in_flight_def)

lemma timer_inv_New: "timer_inv (New t)"
  by (simp add: timer_inv_def New_def)

section \<open>Requests that do not overlap the end of an idle period\<close>

text \<open>
  A schedule is orderly when no request begins between the last decrement of the counter and
  the send of the event that belongs to it. \<open>latest\<close> is what the channel and the timer
  will have made of the events sent so far.
\<close>

definition orderly :: "idle_middleware \<Rightarrow> idle_label \<Rightarrow> bool" where
  "orderly m l = (case l of
      LBegin r \<Rightarrow> (\<forall>r'. im_phase m r' \<noteq> SendStart) \<and> Suc (card (in_flight (im_phase m))) < 2 ^ 64
    | _ \<Rightarrow> True)"

definition latest :: "idle_middleware \<Rightarrow> event" where
  "latest m =
     (if im_events m \<noteq> [] then last (im_events m)
      else if tm_duration (im_timer m) = infiniteDuration then eventResetTimer else eventStartTimer)"

definition cancelled :: "idle_middleware \<Rightarrow> bool" where
  "cancelled m \<longleftrightarrow> im_loop m = Exited \<or> eventStop \<in> set (im_events m)"

definition paused_inv :: "idle_middleware \<Rightarrow> bool" where
  "paused_inv m \<longleftrightarrow> counter_inv m \<and> timer_inv m
     \<and> card (in_flight (im_phase m)) < 2 ^ 64
     \<and> ((\<exists>r. im_phase m r = SendStart) \<longrightarrow> in_flight (im_phase m) = {})
     \<and> (cancelled m \<or> (\<exists>r. im_phase m r = SendReset) \<or> in_flight (im_phase m) = {}
        \<or> latest m = eventResetTimer)"

lemma paused_invD:
  assumes "paused_inv m"
  shows "counter_inv m" "timer_inv m" "finite (in_flight (im_phase m))"
    "im_counter m = of_nat (card (in_flight (im_phase m)))" "card (in_flight (im_phase m)) < 2 ^ 64"
    "im_phase m r = SendStart \<Longrightarrow> in_flight (im_phase m) = {}"
    "cancelled m \<or> (\<exists>r. im_phase m r = SendReset) \<or> in_flight (im_phase m) = {}
       \<or> latest m = eventResetTimer"
  using assms by (auto simp: paused_inv_def counter_inv_def counts_def)

lemma of_nat_zero_iff:
  assumes "n < 2 ^ 64"
  shows "(of_nat n :: 64 word) = 0 \<longleftrightarrow> n = 0"
proof -
  have "(of_nat n :: 64 word) = 0 \<longleftrightarrow> 2 ^ 64 dvd n" by (simp add: word_of_nat_eq_0_iff)
  then show ?thesis using assms nat_dvd_not_less [of n "2 ^ 64"] by auto
qed

text \<open>The counting steps change neither the timer nor the channel.\<close>

lemma counting_frame:
  "im_phase (startRequest r m) = (im_phase m)(r := if im_counter m = 0 then SendReset else Serving)"
  "im_phase (endRequest r m) = (im_phase m)(r := if im_counter m = 1 then SendStart else Finished)"
  "timer_inv (startRequest r m) = timer_inv m" "timer_inv (endRequest r m) = timer_inv m"
  "cancelled (startRequest r m) = cancelled m" "cancelled (endRequest r m) = cancelled m"
  "latest (startRequest r m) = latest m" "latest (endRequest r m) = latest m"
  by (simp_all add: idle_ops timer_inv_def cancelled_def latest_def)

lemma paused_begin:
  assumes "paused_inv m" "im_phase m r = Waiting" "orderly m (LBegin r)"
  shows "paused_inv (startRequest r m)"
proof -
  note inv = paused_invD [OF assms(1)]
  have quiet: "im_phase m r' \<noteq> SendStart" and bound: "Suc (card (in_flight (im_phase m))) < 2 ^ 64" for r'
    using assms(3) by (simp_all add: orderly_def)
  have "in_flight (im_phase (startRequest r m)) = insert r (in_flight (im_phase m))"
    by (simp add: counting_frame)
  moreover have "card (insert r (in_flight (im_phase m))) < 2 ^ 64"
    using bound inv(3) assms(2) by simp
  moreover have "\<not> (\<exists>r'. im_phase (startRequest r m) r' = SendStart)"
    using quiet by (simp add: counting_frame)
  moreover have "(\<exists>r'. im_phase (startRequest r m) r' = SendReset)
      \<or> in_flight (im_phase m) \<noteq> {} \<and> (\<forall>r'. im_phase (startRequest r m) r' = SendReset \<longleftrightarrow> im_phase m r' = SendReset)"
  proof (cases "im_counter m = 0")
    case False
    then have "in_flight (im_phase m) \<noteq> {}" using inv(4) by auto
    with False assms(2) show ?thesis by (auto simp: counting_frame)
  qed (auto simp: counting_frame)
  ultimately show ?thesis
    using inv(2,7) counter_inv_start [OF inv(1) assms(2)]
    by (auto simp: paused_inv_def counting_frame(3-8))
qed

lemma paused_end:
  assumes "paused_inv m" "im_phase m r = Serving"
  shows "paused_inv (endRequest r m)"
proof -
  note inv = paused_invD [OF assms(1)]
  have r: "r \<in> in_flight (im_phase m)" using assms(2) by simp
  have flight: "in_flight (im_phase (endRequest r m)) = in_flight (im_phase m) - {r}"
    by (simp add: counting_frame)
  have quiet: "im_phase m r' \<noteq> SendStart" for r' using inv(6) r by blast
  have same: "im_phase (endRequest r m) r' = SendReset \<longleftrightarrow> im_phase m r' = SendReset" for r'
    using assms(2) by (simp add: counting_frame)
  have "in_flight (im_phase m) - {r} = {}" if "im_counter m = 1"
  proof -
    have "(of_nat (card (in_flight (im_phase m)) - 1) :: 64 word) = 0"
      using that inv(4) r card_gt_0_iff [of "in_flight (im_phase m)"] inv(3) by (auto simp: of_nat_diff)
    then have "card (in_flight (im_phase m)) \<le> 1"
      using inv(5) of_nat_zero_iff [of "card (in_flight (im_phase m)) - 1"] by auto
    then show ?thesis using r inv(3) by (metis card_le_Suc0_iff_eq Diff_eq_empty_iff One_nat_def singletonI subsetI)
  qed
  then have "(\<exists>r'. im_phase (endRequest r m) r' = SendStart) \<longrightarrow> in_flight (im_phase m) - {r} = {}"
    using quiet by (simp add: counting_frame)
  moreover have "card (in_flight (im_phase m) - {r}) < 2 ^ 64"
    using inv(5) card_Diff1_le [of "in_flight (im_phase m)" r] by linarith
  ultimately show ?thesis
    using inv(2,7) counter_inv_end [OF inv(1) assms(2)] r
    by (auto simp: paused_inv_def counting_frame(3-8) flight same)
qed

text \<open>A step that changes the phase of a request and the channel.\<close>

lemma paused_send_reset:
  assumes "paused_inv m" "im_phase m r = SendReset" "can_send m"
  shows "paused_inv (set_phase r Serving (send eventResetTimer m))" (is "paused_inv ?m'")
proof -
  note inv = paused_invD [OF assms(1)]
  have r: "r \<in> in_flight (im_phase m)" using assms(2) by simp
  have "idle_step None m (LSendReset r) ?m'" using assms(2,3) by (rule SentReset)
  then have "counter_inv ?m'" "timer_inv ?m'"
    using counter_inv_step [OF inv(1)] timer_inv_step [OF inv(2)] by blast+
  moreover have "im_phase ?m' = (im_phase m)(r := Serving)" "latest ?m' = eventResetTimer"
    by (simp_all add: set_phase_def send_def latest_def)
  moreover have "im_phase m r' \<noteq> SendStart" for r' using inv(6) r by blast
  ultimately show ?thesis using inv(5) r by (auto simp: paused_inv_def insert_absorb)
qed

lemma paused_send_start:
  assumes "paused_inv m" "im_phase m r = SendStart" "can_send m"
  shows "paused_inv (set_phase r Finished (send eventStartTimer m))" (is "paused_inv ?m'")
proof -
  note inv = paused_invD [OF assms(1)]
  have "idle_step None m (LSendStart r) ?m'" using assms(2,3) by (rule SentStart)
  then have "counter_inv ?m'" "timer_inv ?m'"
    using counter_inv_step [OF inv(1)] timer_inv_step [OF inv(2)] by blast+
  moreover have "im_phase ?m' = (im_phase m)(r := Finished)" by (simp add: set_phase_def send_def)
  ultimately show ?thesis using inv(6) [OF assms(2)] by (simp add: paused_inv_def)
qed

text \<open>A step of the goroutine, of the timer, of \<open>Cancel\<close> and of \<open>Wait\<close>.\<close>

lemma paused_other:
  assumes "paused_inv m" "counter_inv m'" "timer_inv m'" "im_phase m' = im_phase m"
    "cancelled m \<Longrightarrow> cancelled m'" "latest m = eventResetTimer \<Longrightarrow> cancelled m' \<or> latest m' = eventResetTimer"
  shows "paused_inv m'"
  using assms by (auto simp: paused_inv_def)

lemma paused_skipped:
  assumes "paused_inv m" "im_phase m r \<in> {Waiting, Unwatched}" "p \<in> {Unwatched, Finished}"
  shows "paused_inv (set_phase r p m)"
proof -
  have ph: "im_phase (set_phase r p m) = (im_phase m)(r := p)" by (simp add: set_phase_def)
  have flight: "in_flight ((im_phase m)(r := p)) = in_flight (im_phase m)" using assms(2,3) by auto
  have frame: "timer_inv (set_phase r p m) = timer_inv m" "cancelled (set_phase r p m) = cancelled m"
      "latest (set_phase r p m) = latest m"
    by (simp_all add: timer_inv_def cancelled_def latest_def set_phase_def)
  have "counter_inv (set_phase r p m) = counter_inv m"
    by (simp only: counter_inv_def counts_def ph flight) (simp add: set_phase_def)
  moreover have "(\<exists>r'. ((im_phase m)(r := p)) r' = q) \<longleftrightarrow> (\<exists>r'. im_phase m r' = q)"
    if "q = SendStart \<or> q = SendReset" for q
    by (intro arg_cong [where f = Ex] ext) (use that assms(2,3) in auto)
  ultimately show ?thesis using assms(1) by (simp only: paused_inv_def frame ph flight) blast
qed

lemma on_event_latest:
  assumes "im_loop m = Running" "im_events m = ev # evs" "on_event ev (m\<lparr>im_events := evs\<rparr>) = Some m'"
  shows "cancelled m \<Longrightarrow> cancelled m'"
    and "latest m = eventResetTimer \<Longrightarrow> cancelled m' \<or> latest m' = eventResetTimer"
proof -
  have "im_events m' = evs" using on_event_frame [OF assms(3)] by simp
  moreover have "cancelled m' \<or> ev \<noteq> eventStop \<and> (evs = [] \<longrightarrow> ev = eventResetTimer \<longrightarrow> latest m' = eventResetTimer)"
    using assms(1,3)
    by (cases ev) (auto simp: cancelled_def latest_def idle_ops split: if_splits)
  ultimately show "cancelled m \<Longrightarrow> cancelled m'"
    "latest m = eventResetTimer \<Longrightarrow> cancelled m' \<or> latest m' = eventResetTimer"
    using assms(1,2) by (cases "evs = []"; auto simp: cancelled_def latest_def)+
qed

lemma paused_inv_step:
  assumes "paused_inv m" "orderly m l" "idle_step skip m l m'"
  shows "paused_inv m'"
proof -
  note inv = paused_invD [OF assms(1)]
  have c: "counter_inv m'" using counter_inv_step [OF inv(1) assms(3)] .
  have t: "timer_inv m'" using timer_inv_step [OF inv(2) assms(3)] .
  from assms(3) show ?thesis
  proof cases
    case Start
    show ?thesis
      using Start inv(2) by (intro paused_other [OF assms(1) c t])
        (auto simp: cancelled_def latest_def timer_reset_def timer_inv_def)
  next
    case (Begin r)
    then show ?thesis using paused_begin assms(1,2) by simp
  next
    case (BeginSkipped r)
    then show ?thesis using paused_skipped assms(1) by simp
  next
    case (SentReset r)
    then show ?thesis using paused_send_reset assms(1) by simp
  next
    case (End r)
    then show ?thesis using paused_end assms(1) by simp
  next
    case (EndSkipped r)
    then show ?thesis using paused_skipped assms(1) by simp
  next
    case (SentStart r)
    then show ?thesis using paused_send_start assms(1) by simp
  next
    case Expire
    then show ?thesis
      by (intro paused_other [OF assms(1) c t]) (auto simp: cancelled_def latest_def)
  next
    case Deadline
    then show ?thesis using inv(2)
      by (intro paused_other [OF assms(1) c t])
        (auto simp: cancelled_def latest_def timer_inv_def on_deadline_def timer_reset_def Let_def split: if_splits)
  next
    case (Event ev evs)
    show ?thesis
      using on_event_latest [OF Event(2-4)] on_event_frame [OF Event(4)]
      by (intro paused_other [OF assms(1) c t]) simp_all
  next
    case Cancel
    then show ?thesis
      by (intro paused_other [OF assms(1) c t]) (auto simp: cancelled_def latest_def send_def)
  next
    case Wait
    then show ?thesis
      by (intro paused_other [OF assms(1) c t]) (auto simp: cancelled_def latest_def)
  qed
qed

lemma paused_inv_New: "paused_inv (New t)"
  by (simp add: paused_inv_def counter_inv_New timer_inv_New) (simp add: New_def in_flight_def)

interpretation idle_counter: step_invariant any_schedule "idle_step skip" "\<lambda>m. counter_inv m \<and> timer_inv m"
  by unfold_locales (blast intro: counter_inv_step timer_inv_step)

interpretation idle_paused: step_invariant orderly "idle_step skip" paused_inv
  by unfold_locales (blast intro: paused_inv_step)

section \<open>A request being served, and a middleware that was cancelled\<close>

definition keeps_serving :: "nat \<Rightarrow> idle_middleware \<Rightarrow> idle_label \<Rightarrow> bool" where
  "keeps_serving r m l \<longleftrightarrow> orderly m l \<and> l \<noteq> LEnd r \<and> l \<noteq> LCancel"

definition paused_for :: "nat \<Rightarrow> idle_middleware \<Rightarrow> bool" where
  "paused_for r m \<longleftrightarrow> paused_inv m \<and> im_phase m r = Serving \<and> im_events m = []
     \<and> im_loop m = Running \<and> (\<forall>r'. im_phase m r' \<notin> {SendReset, SendStart})
     \<and> tm_duration (im_timer m) = infiniteDuration \<and> \<not> tm_fired (im_timer m)"

lemma paused_forD:
  assumes "paused_for r m"
  shows "paused_inv m" "im_phase m r = Serving" "im_events m = []" "im_loop m = Running" "im_phase m r' \<noteq> SendReset"
    "im_phase m r' \<noteq> SendStart" "tm_duration (im_timer m) = infiniteDuration" "\<not> tm_fired (im_timer m)"
  using assms by (simp_all add: paused_for_def)

lemma paused_for_step:
  assumes "paused_for r m" "keeps_serving r m l" "idle_step skip m l m'"
  shows "paused_for r m'"
proof -
  note inv = paused_forD [OF assms(1)]
  have "paused_inv m'" using paused_inv_step [OF inv(1) _ assms(3)] assms(2) by (simp add: keeps_serving_def)
  moreover have "im_counter m \<noteq> 0"
    using paused_invD(3-5) [OF inv(1)] of_nat_zero_iff inv(2) by fastforce
  moreover have "im_counter m \<noteq> 1" if "im_phase m r' = Serving" "r' \<noteq> r" for r'
  proof -
    have "card {r, r'} \<le> card (in_flight (im_phase m))"
      using paused_invD(3) [OF inv(1)] inv(2) that by (intro card_mono) auto
    then have "2 \<le> card (in_flight (im_phase m))" using that(2) by simp
    moreover from this have "(of_nat (card (in_flight (im_phase m)) - 1) :: 64 word) = im_counter m - 1"
      using paused_invD(4) [OF inv(1)] by (simp add: of_nat_diff)
    ultimately show ?thesis
      using paused_invD(5) [OF inv(1)] of_nat_zero_iff [of "card (in_flight (im_phase m)) - 1"] by auto
  qed
  ultimately show ?thesis
    using assms(2,3) inv
    by (cases l) (auto simp: paused_for_def keeps_serving_def idle_label_iffs counting_frame
        set_phase_def timer_reset_def startRequest_def endRequest_def Let_def split: if_splits)
qed

interpretation idle_serving: step_invariant "keeps_serving r" "idle_step skip" "paused_for r"
  by unfold_locales (rule paused_for_step)

text \<open>Once the goroutine has returned nobody empties the channel.\<close>

definition hanging :: "nat \<Rightarrow> phase \<Rightarrow> idle_middleware \<Rightarrow> bool" where
  "hanging r p m \<longleftrightarrow> im_loop m = Exited \<and> \<not> can_send m \<and> im_phase m r = p
     \<and> (p = SendReset \<or> p = SendStart)"

lemma hanging_step: "hanging r p m \<Longrightarrow> idle_step skip m l m' \<Longrightarrow> hanging r p m'"
  by (cases l) (auto simp: hanging_def idle_label_iffs idle_ops)

interpretation idle_hanging: step_invariant any_schedule "idle_step skip" "hanging r p"
  by unfold_locales (rule hanging_step)

section \<open>Properties\<close>

text \<open>However the requests interleave, the counter of the idle timeout is the number of
  watched requests between their begin and their end, and the goroutine never blocks when it
  stops and drains its timer.\<close>

theorem idle_counter_exact:
  assumes "runs any_schedule (idle_step skip) (New t) ls m"
  shows "im_counter m = of_nat (card (in_flight (im_phase m)))
    \<and> (im_loop m = Running \<longrightarrow> stop_and_drain m \<noteq> None)"
  using idle_counter.runs_inv [OF assms] counter_inv_New timer_inv_New
  by (auto simp: counter_inv_def counts_def timer_inv_def stop_and_drain_def Let_def)

theorem idle_counter_exact_witness:
  "\<exists>m. runs any_schedule (idle_step None) (New 60) [LStart, LBegin 0, LBegin 1] m \<and> im_counter m = 2
    \<and> card (in_flight (im_phase m)) = 2"
proof -
  have "\<exists>m. runs any_schedule (idle_step None) (New 60) [LStart, LBegin 0, LBegin 1] m
      \<and> im_phase m = (\<lambda>_. Waiting)(0 := SendReset, Suc 0 := Serving) \<and> im_counter m = 2"
    by (simp add: runs_Cons_iff idle_label_iffs idle_ops New_def watched_def)
  then obtain m where run: "runs any_schedule (idle_step None) (New 60) [LStart, LBegin 0, LBegin 1] m"
    and ph: "im_phase m = (\<lambda>_. Waiting)(0 := SendReset, Suc 0 := Serving)" and two: "im_counter m = 2"
    by (elim exE conjE) (rule that)
  have "in_flight (im_phase m) = {0, 1}" by (auto simp: ph in_flight_def)
  then have "card (in_flight (im_phase m)) = 2" by simp
  with idle_counter_exact [OF run] run two show ?thesis by blast
qed

text \<open>C16: as long as no request begins before the event of the last idle period is sent, the
  idle timeout is safe: once the goroutine has received the event of a busy period, it does
  not notify a timeout while a request of that period is being served and \<open>Cancel\<close> is not
  called.\<close>

theorem idle_no_timeout_while_serving:
  assumes "runs orderly (idle_step skip) (New t) ls m" "im_phase m r = Serving" "im_loop m = Running"
    and "im_events m = []" "\<forall>r'. im_phase m r' \<noteq> SendReset"
    and "runs (keeps_serving r) (idle_step skip) m ls' m'"
  shows "LDeadline \<notin> set ls'"
proof -
  note inv = idle_paused.runs_inv [OF assms(1) paused_inv_New]
  have "tm_duration (im_timer m) = infiniteDuration"
    using paused_invD(7) [OF inv] assms(2-5)
    by (auto simp: cancelled_def latest_def in_flight_def split: if_splits)
  then have "paused_for r m"
    using inv paused_invD(2) [OF inv] paused_invD(6) [OF inv] assms(2-5)
    by (auto simp: paused_for_def timer_inv_def in_flight_def)
  then show ?thesis
    by (rule idle_serving.excluded_label [OF assms(6)]) (simp add: paused_for_def idle_label_iffs)
qed

definition served_once :: "idle_label list" where
  "served_once = [LStart, LBegin 0, LSendReset 0, LEvent]"

lemma served_once_runs:
  "\<exists>m. runs orderly (idle_step None) (New 60) served_once m \<and> im_phase m = (\<lambda>_. Waiting)(0 := Serving)
    \<and> im_loop m = Running \<and> im_events m = []"
  by (simp add: served_once_def runs_Cons_iff idle_label_iffs idle_ops New_def watched_def orderly_def
      in_flight_def infiniteDuration_def)

theorem idle_no_timeout_while_serving_witness:
  "\<exists>m. runs orderly (idle_step None) (New 60) served_once m \<and> im_phase m 0 = Serving
    \<and> (\<forall>m' ls. runs (keeps_serving 0) (idle_step None) m ls m' \<longrightarrow> LDeadline \<notin> set ls)"
proof -
  obtain m where run: "runs orderly (idle_step None) (New 60) served_once m"
    and ph: "im_phase m = (\<lambda>_. Waiting)(0 := Serving)" and m: "im_loop m = Running" "im_events m = []"
    using served_once_runs by (elim exE conjE) (rule that)
  have "im_phase m 0 = Serving" "\<forall>r'. im_phase m r' \<noteq> SendReset" by (simp_all add: ph)
  with run idle_no_timeout_while_serving [OF run _ m] show ?thesis by blast
qed

text \<open>without that discipline the idle timeout is not safe: the decrement of one request
  and the increment of the next can be overtaken by their sends in the opposite order, after
  which the timer runs, and the timeout is notified, while a request is being served.\<close>

theorem idle_timeout_while_serving:
  assumes "t < infiniteDuration"
  shows "\<exists>m. runs any_schedule (idle_step None) (New t)
      [LStart, LBegin 0, LSendReset 0, LEvent, LEnd 0, LBegin 1, LSendReset 1, LEvent, LSendStart 0, LEvent,
       LExpire, LDeadline] m
    \<and> im_phase m 1 = Serving \<and> im_counter m = 1 \<and> im_notify m"
  using assms
  by (simp add: runs_Cons_iff idle_label_iffs idle_ops New_def watched_def)

theorem idle_timeout_while_serving_witness:
  "\<exists>ls m. runs any_schedule (idle_step None) (New (60 * 10 ^ 9)) ls m \<and> im_phase m 1 = Serving \<and> im_notify m"
  using idle_timeout_while_serving [of "60 * 10 ^ 9"] by (auto simp: infiniteDuration_def)

text \<open>after \<open>Cancel\<close> has been received nobody receives from the channel: once it is full, a
  request that is to send an event, before or after its handler, never gets any further.\<close>

theorem cancelled_requests_hang:
  assumes "im_loop m = Exited" "im_events m \<noteq> []" "im_phase m r \<in> {SendReset, SendStart}"
    and "runs any_schedule (idle_step skip) m ls m'"
  shows "im_phase m' r = im_phase m r"
  using idle_hanging.runs_inv [OF assms(4), of r "im_phase m r"] assms(1-3)
  by (simp add: hanging_def can_send_def)

theorem cancelled_requests_hang_witness:
  "\<exists>m. runs any_schedule (idle_step None) (New 60)
      [LStart, LCancel, LEvent, LBegin 0, LSendReset 0, LEnd 0] m
    \<and> (\<forall>ls m'. runs any_schedule (idle_step None) m ls m' \<longrightarrow> im_phase m' 0 = SendStart)"
proof -
  have "\<exists>m. runs any_schedule (idle_step None) (New 60)
      [LStart, LCancel, LEvent, LBegin 0, LSendReset 0, LEnd 0] m
    \<and> im_loop m = Exited \<and> im_events m = [eventResetTimer] \<and> im_phase m 0 = SendStart"
    by (simp add: runs_Cons_iff idle_label_iffs idle_ops New_def watched_def)
  then obtain m where run: "runs any_schedule (idle_step None) (New 60)
      [LStart, LCancel, LEvent, LBegin 0, LSendReset 0, LEnd 0] m"
    and m: "im_loop m = Exited" "im_events m = [eventResetTimer]" "im_phase m 0 = SendStart"
    by (elim exE conjE) (rule that)
  have "im_phase m' 0 = SendStart" if "runs any_schedule (idle_step None) m ls m'" for ls m'
    using cancelled_requests_hang [OF m(1) _ _ that] m by simp
  with run show ?thesis by blast
qed

end
