(* ===== verification/LazyEngine.thy ===== *)
theory LazyEngine
  imports Transition
begin

text \<open>
  The lazily started engine of the database data source (datasource.go): a goroutine that
  stops the engine after idle time or when the node closes, and requests that start it on
  demand. They synchronise by a read-write mutex and an unbuffered channel.
\<close>

section \<open>Data\<close>

text \<open>
  Where a request is in \<open>Execute\<close> and \<open>initEngineAndExecute\<close>. An engine is a number: the
  process it stands for runs from its start to its \<open>Close\<close>.
\<close>

datatype request_phase =
    Arriving | Checking | Executing nat | Sending | Unlocking
  | Missed | Locking | Creating | AwaitingReady nat | ExecutingFirst nat | SendingFirst | UnlockingFirst
  | Returned

datatype starter_phase = Starting | Selecting | WantStop | WantClose | Stopped

datatype holder = Nobody | Writer nat

record lazy_engine =
  le_engine :: "nat option"
  le_closed :: bool
  le_channel :: bool
  le_stop_armed :: bool
  le_starter :: starter_phase
  le_holder :: holder
  le_readers :: "nat set"
  le_phase :: "nat \<Rightarrow> request_phase"
  le_running :: "nat set"
  le_next :: nat

definition new_engine :: lazy_engine where
  "new_engine = \<lparr>le_engine = None, le_closed = False, le_channel = False, le_stop_armed = False,
     le_starter = Starting, le_holder = Nobody, le_readers = {}, le_phase = (\<lambda>_. Arriving),
     le_running = {}, le_next = 0\<rparr>"

section \<open>Operations\<close>

definition at_phase :: "nat \<Rightarrow> request_phase \<Rightarrow> lazy_engine \<Rightarrow> lazy_engine" where
  "at_phase r p e = e\<lparr>le_phase := (le_phase e)(r := p)\<rparr>"

definition can_lock :: "lazy_engine \<Rightarrow> bool" where
  "can_lock e \<longleftrightarrow> le_holder e = Nobody \<and> le_readers e = {}"

definition RLock :: "nat \<Rightarrow> lazy_engine \<Rightarrow> lazy_engine" where
  "RLock r e = e\<lparr>le_readers := insert r (le_readers e)\<rparr>"

definition RUnlock :: "nat \<Rightarrow> lazy_engine \<Rightarrow> lazy_engine" where
  "RUnlock r e = e\<lparr>le_readers := le_readers e - {r}\<rparr>"

definition Unlock :: "lazy_engine \<Rightarrow> lazy_engine" where
  "Unlock e = e\<lparr>le_holder := Nobody\<rparr>"

text \<open>The body of the goroutine under the lock: the engine is closed and set to nil.\<close>

definition stop_engine :: "lazy_engine \<Rightarrow> lazy_engine" where
  "stop_engine e =
     (case le_engine e of
        None \<Rightarrow> e
      | Some n \<Rightarrow> e\<lparr>le_running := le_running e - {n}, le_engine := None\<rparr>)"

text \<open>\<open>Execute\<close> with the read lock held: what it finds.\<close>

definition check :: "nat \<Rightarrow> lazy_engine \<Rightarrow> lazy_engine" where
  "check r e =
     (if le_closed e then at_phase r Returned (RUnlock r e)
      else
        (case le_engine e of
           None \<Rightarrow> at_phase r Missed (RUnlock r e)
         | Some n \<Rightarrow> at_phase r (Executing n) e))"

text \<open>\<open>initEngineAndExecute\<close> with the lock held: a new engine replaces the field.\<close>

definition create :: "nat \<Rightarrow> bool \<Rightarrow> lazy_engine \<Rightarrow> lazy_engine" where
  "create r ok e =
     (if \<not> ok then at_phase r Returned (Unlock (e\<lparr>le_engine := None\<rparr>))
      else
        (let n = le_next e in
         at_phase r (AwaitingReady n)
           (e\<lparr>le_engine := Some n, le_running := insert n (le_running e), le_next := Suc n\<rparr>)))"

definition awaited :: "nat \<Rightarrow> bool \<Rightarrow> lazy_engine \<Rightarrow> lazy_engine" where
  "awaited r ok e =
     (if \<not> ok then at_phase r Returned (Unlock e)
      else (case le_engine e of
          None \<Rightarrow> e
        | Some n \<Rightarrow> at_phase r (ExecutingFirst n) e))"

definition processed :: "nat \<Rightarrow> request_phase \<Rightarrow> lazy_engine \<Rightarrow> lazy_engine" where
  "processed r p e = at_phase r p (e\<lparr>le_stop_armed := True\<rparr>)"

definition can_receive :: "lazy_engine \<Rightarrow> bool" where
  "can_receive e \<longleftrightarrow> le_channel e \<and> le_starter e = Selecting"

section \<open>Steps\<close>

datatype lazy_label =
    LStart | LTimer | LStop | LCloser | LClose
  | LRLock nat | LCheck nat | LExecuted nat | LSent nat | LUnlocked nat
  | LWantLock nat | LLock nat | LCreate nat bool | LReady nat bool

text \<open>
  The steps of the goroutine and of the requests. A read lock is granted unless a writer
  holds the lock; that the mutex also prefers waiting writers is the discipline
  \<open>prefer_writers\<close> below. The send on the channel waits for the goroutine at its select.
\<close>

inductive lazy_step :: "lazy_engine \<Rightarrow> lazy_label \<Rightarrow> lazy_engine \<Rightarrow> bool" where
  Start: "le_starter e = Starting
    \<Longrightarrow> lazy_step e LStart (e\<lparr>le_channel := True, le_starter := Selecting\<rparr>)"
| Timer: "le_starter e = Selecting \<Longrightarrow> le_stop_armed e
    \<Longrightarrow> lazy_step e LTimer (e\<lparr>le_stop_armed := False, le_starter := WantStop\<rparr>)"
| Stop: "le_starter e = WantStop \<Longrightarrow> can_lock e
    \<Longrightarrow> lazy_step e LStop ((stop_engine e)\<lparr>le_starter := Selecting\<rparr>)"
| Closer: "le_starter e = Selecting \<Longrightarrow> lazy_step e LCloser (e\<lparr>le_starter := WantClose\<rparr>)"
| Close: "le_starter e = WantClose \<Longrightarrow> can_lock e
    \<Longrightarrow> lazy_step e LClose ((stop_engine e)\<lparr>le_closed := True, le_starter := Stopped\<rparr>)"
| ReadLock: "le_phase e r = Arriving \<Longrightarrow> le_holder e = Nobody
    \<Longrightarrow> lazy_step e (LRLock r) (at_phase r Checking (RLock r e))"
| Check: "le_phase e r = Checking \<Longrightarrow> lazy_step e (LCheck r) (check r e)"
| Executed: "le_phase e r = Executing n \<Longrightarrow> lazy_step e (LExecuted r) (at_phase r Sending e)"
| Sent: "le_phase e r = Sending \<Longrightarrow> can_receive e
    \<Longrightarrow> lazy_step e (LSent r) (processed r Unlocking e)"
| Unlocked: "le_phase e r = Unlocking
    \<Longrightarrow> lazy_step e (LUnlocked r) (at_phase r Returned (RUnlock r e))"
| WantLock: "le_phase e r = Missed \<Longrightarrow> lazy_step e (LWantLock r) (at_phase r Locking e)"
| Lock: "le_phase e r = Locking \<Longrightarrow> can_lock e
    \<Longrightarrow> lazy_step e (LLock r) (at_phase r Creating (e\<lparr>le_holder := Writer r\<rparr>))"
| Create: "le_phase e r = Creating \<Longrightarrow> lazy_step e (LCreate r ok) (create r ok e)"
| Ready: "le_phase e r = AwaitingReady n \<Longrightarrow> lazy_step e (LReady r ok) (awaited r ok e)"
| ExecutedFirst: "le_phase e r = ExecutingFirst n
    \<Longrightarrow> lazy_step e (LExecuted r) (at_phase r SendingFirst e)"
| SentFirst: "le_phase e r = SendingFirst \<Longrightarrow> can_receive e
    \<Longrightarrow> lazy_step e (LSent r) (processed r UnlockingFirst e)"
| UnlockedFirst: "le_phase e r = UnlockingFirst
    \<Longrightarrow> lazy_step e (LUnlocked r) (at_phase r Returned (Unlock e))"

inductive_cases lazy_stepE: "lazy_step e l e'"
inductive_simps lazy_label_iffs:
  "lazy_step e LStart e'" "lazy_step e LTimer e'" "lazy_step e LStop e'" "lazy_step e LCloser e'"
  "lazy_step e LClose e'" "lazy_step e (LRLock r) e'" "lazy_step e (LCheck r) e'"
  "lazy_step e (LExecuted r) e'" "lazy_step e (LSent r) e'" "lazy_step e (LUnlocked r) e'"
  "lazy_step e (LWantLock r) e'" "lazy_step e (LLock r) e'" "lazy_step e (LCreate r ok) e'"
  "lazy_step e (LReady r ok) e'"

lemmas lazy_ops = at_phase_def can_lock_def RLock_def RUnlock_def Unlock_def stop_engine_def check_def
  create_def awaited_def processed_def can_receive_def Let_def

text \<open>A waiting writer keeps new readers out.\<close>

definition writer_waits :: "lazy_engine \<Rightarrow> bool" where
  "writer_waits e \<longleftrightarrow> le_starter e \<in> {WantStop, WantClose} \<or> (\<exists>r. le_phase e r = Locking)"

definition prefer_writers :: "lazy_engine \<Rightarrow> lazy_label \<Rightarrow> bool" where
  "prefer_writers e l = (case l of LRLock r \<Rightarrow> \<not> writer_waits e | _ \<Rightarrow> True)"

section \<open>The lock protects the engine\<close>

text \<open>What a request may rely on where it is.\<close>

fun request_ok :: "lazy_engine \<Rightarrow> nat \<Rightarrow> request_phase \<Rightarrow> bool" where
  "request_ok e r (Executing n) \<longleftrightarrow> r \<in> le_readers e \<and> le_engine e = Some n \<and> \<not> le_closed e"
| "request_ok e r (AwaitingReady n) \<longleftrightarrow> le_holder e = Writer r \<and> le_engine e = Some n"
| "request_ok e r (ExecutingFirst n) \<longleftrightarrow> le_holder e = Writer r \<and> le_engine e = Some n"
| "request_ok e r Creating \<longleftrightarrow> le_holder e = Writer r"
| "request_ok e r SendingFirst \<longleftrightarrow> le_holder e = Writer r"
| "request_ok e r UnlockingFirst \<longleftrightarrow> le_holder e = Writer r"
| "request_ok e r Checking \<longleftrightarrow> r \<in> le_readers e"
| "request_ok e r Sending \<longleftrightarrow> r \<in> le_readers e"
| "request_ok e r Unlocking \<longleftrightarrow> r \<in> le_readers e"
| "request_ok e r p \<longleftrightarrow> r \<notin> le_readers e \<and> le_holder e \<noteq> Writer r"

definition lazy_inv :: "lazy_engine \<Rightarrow> bool" where
  "lazy_inv e \<longleftrightarrow> (\<forall>r. request_ok e r (le_phase e r))
     \<and> (le_holder e = Nobody \<or> le_readers e = {})
     \<and> (\<forall>n. le_engine e = Some n \<longrightarrow> n \<in> le_running e)
     \<and> (\<forall>n \<in> le_running e. n < le_next e)"

lemma lazy_invD:
  assumes "lazy_inv e"
  shows "request_ok e r (le_phase e r)" "le_holder e = Nobody \<or> le_readers e = {}"
    "le_engine e = Some n \<Longrightarrow> n \<in> le_running e" "n \<in> le_running e \<Longrightarrow> n < le_next e"
  using assms by (auto simp: lazy_inv_def)

lemma lazy_inv_new: "lazy_inv new_engine"
  by (simp add: lazy_inv_def new_engine_def)

fun uses_engine :: "request_phase \<Rightarrow> bool" where
  "uses_engine (Executing n) = True"
| "uses_engine (AwaitingReady n) = True"
| "uses_engine (ExecutingFirst n) = True"
| "uses_engine p = False"

text \<open>A request keeps what it relies on when the lock and the engine stay as they are for it.\<close>

lemma request_ok_frame:
  assumes "request_ok e r p" "r \<in> le_readers e' \<longleftrightarrow> r \<in> le_readers e"
    "le_holder e' = Writer r \<longleftrightarrow> le_holder e = Writer r"
    "uses_engine p \<Longrightarrow> le_engine e' = le_engine e \<and> le_closed e' = le_closed e"
  shows "request_ok e' r p"
  using assms by (cases p) auto

lemma uses_engine_locked:
  "request_ok e r p \<Longrightarrow> uses_engine p \<Longrightarrow> r \<in> le_readers e \<or> le_holder e = Writer r"
  by (cases p) auto

lemma lazy_inv_move:
  assumes "lazy_inv e" "le_phase e' = (le_phase e)(r := p)" "request_ok e' r p"
    and "\<And>r'. r' \<noteq> r \<Longrightarrow> r' \<in> le_readers e' \<longleftrightarrow> r' \<in> le_readers e"
    and "\<And>r'. r' \<noteq> r \<Longrightarrow> le_holder e' = Writer r' \<longleftrightarrow> le_holder e = Writer r'"
    and "le_holder e' = Nobody \<or> le_readers e' = {}"
    and "le_closed e' = le_closed e"
    and "le_engine e' = le_engine e \<and> le_running e' = le_running e \<and> le_next e' = le_next e"
  shows "lazy_inv e'"
proof -
  have "request_ok e' r' (le_phase e' r')" for r'
    using request_ok_frame [OF lazy_invD(1) [OF assms(1), of r'], of e'] assms by (cases "r' = r") auto
  then show ?thesis using assms(1,6,8) by (auto simp: lazy_inv_def)
qed

lemma lazy_inv_quiet:
  assumes "lazy_inv e" "le_phase e' = le_phase e" "le_readers e' = le_readers e" "le_holder e' = le_holder e"
    "le_closed e' = le_closed e" "le_engine e' = le_engine e" "le_running e' = le_running e" "le_next e' = le_next e"
  shows "lazy_inv e'"
  using assms request_ok_frame [OF lazy_invD(1) [OF assms(1)], where e' = e'] by (auto simp: lazy_inv_def)

lemma lazy_inv_stop:
  assumes "lazy_inv e" "can_lock e"
  shows "lazy_inv ((stop_engine e)\<lparr>le_starter := p\<rparr>)" "lazy_inv ((stop_engine e)\<lparr>le_closed := c, le_starter := p\<rparr>)"
proof -
  have "\<not> uses_engine (le_phase e r)" for r
    using uses_engine_locked [OF lazy_invD(1) [OF assms(1)]] assms(2) by (auto simp: can_lock_def)
  then have ok: "request_ok e' r (le_phase e r)"
    if "le_readers e' = le_readers e" "le_holder e' = le_holder e" for e' r
    using request_ok_frame [OF lazy_invD(1) [OF assms(1)]] that by simp
  show "lazy_inv ((stop_engine e)\<lparr>le_starter := p\<rparr>)" "lazy_inv ((stop_engine e)\<lparr>le_closed := c, le_starter := p\<rparr>)"
    using assms by (auto simp: lazy_inv_def stop_engine_def can_lock_def intro!: ok split: option.split)
qed

lemma lazy_inv_create:
  assumes "lazy_inv e" "le_phase e r = Creating"
  shows "lazy_inv (create r ok e)"
proof -
  have r: "le_holder e = Writer r" using lazy_invD(1) [OF assms(1), of r] assms(2) by simp
  then have "le_readers e = {}" using lazy_invD(2) [OF assms(1)] by simp
  with r have "\<not> uses_engine (le_phase e r')" if "r' \<noteq> r" for r'
    using uses_engine_locked [OF lazy_invD(1) [OF assms(1)], of r'] that by auto
  then have "request_ok (create r ok e) r' (le_phase e r')" if "r' \<noteq> r" for r'
    using request_ok_frame [OF lazy_invD(1) [OF assms(1), of r']] that r
    by (auto simp: create_def at_phase_def Unlock_def Let_def)
  moreover have "request_ok (create r ok e) r (le_phase (create r ok e) r)"
    using r \<open>le_readers e = {}\<close> by (simp add: create_def at_phase_def Unlock_def Let_def)
  ultimately have "request_ok (create r ok e) r' (le_phase (create r ok e) r')" for r'
    by (cases "r' = r") (auto simp: create_def at_phase_def Unlock_def Let_def split: if_splits)
  then show ?thesis
    using assms(1) \<open>le_readers e = {}\<close>
    by (auto simp: lazy_inv_def create_def at_phase_def Unlock_def Let_def intro: less_SucI)
qed

lemma lazy_inv_step:
  assumes inv: "lazy_inv e" and step: "lazy_step e l e'"
  shows "lazy_inv e'"
proof -
  have ok: "request_ok e r (le_phase e r)" for r using lazy_invD(1) [OF inv] .
  note excl = lazy_invD(2) [OF inv]
  note move = lazy_inv_move [OF inv, where e' = e']
  from step show ?thesis
  proof cases
    case (ReadLock r)
    then show ?thesis by (intro move [where r = r and p = Checking]) (auto simp: lazy_ops)
  next
    case (Check r)
    then have "r \<in> le_readers e" "le_holder e = Nobody" using ok [of r] excl by auto
    with Check show ?thesis
      by (intro move [where r = r and p = "le_phase e' r"]) (auto simp: lazy_ops split: option.split)
  next
    case (Executed r n)
    then show ?thesis using ok [of r] excl by (intro move [where r = r and p = Sending]) (auto simp: lazy_ops)
  next
    case (Sent r)
    then show ?thesis using ok [of r] excl by (intro move [where r = r and p = Unlocking]) (auto simp: lazy_ops)
  next
    case (Unlocked r)
    then show ?thesis using ok [of r] excl by (intro move [where r = r and p = Returned]) (auto simp: lazy_ops)
  next
    case (WantLock r)
    then show ?thesis using ok [of r] excl by (intro move [where r = r and p = Locking]) (auto simp: lazy_ops)
  next
    case (Lock r)
    then show ?thesis using ok [of r] excl by (intro move [where r = r and p = Creating]) (auto simp: lazy_ops)
  next
    case (Ready r n ok)
    then show ?thesis using lazy_invD(1) [OF inv, of r] excl
      by (intro move [where r = r and p = "le_phase e' r"]) (auto simp: lazy_ops)
  next
    case (ExecutedFirst r n)
    then show ?thesis using ok [of r] excl
      by (intro move [where r = r and p = SendingFirst]) (auto simp: lazy_ops)
  next
    case (SentFirst r)
    then show ?thesis using ok [of r] excl
      by (intro move [where r = r and p = UnlockingFirst]) (auto simp: lazy_ops)
  next
    case (UnlockedFirst r)
    then show ?thesis using ok [of r] excl
      by (intro move [where r = r and p = Returned]) (auto simp: lazy_ops)
  qed (auto intro: lazy_inv_quiet [OF inv] simp: lazy_inv_stop lazy_inv_create inv)
qed

interpretation lazy_lock: step_invariant any_schedule lazy_step lazy_inv
  by unfold_locales (rule lazy_inv_step)

section \<open>Requests that nobody waits for, engines that nobody stops\<close>

text \<open>
  A request that is to report to the goroutine is lost when the goroutine waits for the lock
  that the request holds, or has returned.
\<close>

definition lost :: "nat \<Rightarrow> request_phase \<Rightarrow> lazy_engine \<Rightarrow> bool" where
  "lost r p e \<longleftrightarrow> le_phase e r = p
     \<and> (le_starter e \<in> {WantStop, WantClose} \<and> p = Sending \<or> le_starter e = Stopped \<and> p \<in> {Sending, SendingFirst})"

lemma lost_step:
  assumes "lazy_inv e \<and> lost r p e" "lazy_step e l e'"
  shows "lazy_inv e' \<and> lost r p e'"
proof
  show "lazy_inv e'" using assms lazy_inv_step by blast
  have "r \<in> le_readers e" if "p = Sending"
    using assms(1) that lazy_invD(1) [of e r] by (auto simp: lost_def)
  then show "lost r p e'"
    using assms by (cases l) (auto simp: lost_def lazy_label_iffs lazy_ops split: option.splits)
qed

interpretation lazy_lost: step_invariant any_schedule lazy_step "\<lambda>e. lazy_inv e \<and> lost r p e"
  by unfold_locales (rule lost_step)

definition orphaned :: "nat \<Rightarrow> lazy_engine \<Rightarrow> bool" where
  "orphaned n e \<longleftrightarrow> n \<in> le_running e \<and> le_engine e \<noteq> Some n"

lemma orphaned_step:
  assumes "lazy_inv e \<and> orphaned n e" "lazy_step e l e'"
  shows "lazy_inv e' \<and> orphaned n e'"
proof
  show "lazy_inv e'" using assms lazy_inv_step by blast
  have "n \<noteq> le_next e" using assms(1) lazy_invD(4) [of e n] by (auto simp: orphaned_def)
  then show "orphaned n e'"
    using assms by (cases l) (auto simp: orphaned_def lazy_label_iffs lazy_ops split: option.splits if_splits)
qed

interpretation lazy_orphans: step_invariant any_schedule lazy_step "\<lambda>e. lazy_inv e \<and> orphaned n e"
  by unfold_locales (rule orphaned_step)

definition first_request :: "nat \<Rightarrow> lazy_label list" where
  "first_request r = [LRLock r, LCheck r, LWantLock r, LLock r, LCreate r True, LReady r True,
     LExecuted r, LSent r, LUnlocked r]"

section \<open>Properties\<close>

text \<open>C17: however the requests and the goroutine interleave, an engine that executes a request
  is the current engine and has not been closed.\<close>

theorem executing_engine_runs:
  assumes "runs any_schedule lazy_step new_engine ls e"
    and "le_phase e r = Executing n \<or> le_phase e r = ExecutingFirst n"
  shows "n \<in> le_running e \<and> le_engine e = Some n"
proof -
  note inv = lazy_lock.runs_inv [OF assms(1) lazy_inv_new]
  from lazy_invD(1) [OF inv, of r] assms(2) have "le_engine e = Some n" by auto
  with lazy_invD(3) [OF inv] show ?thesis by blast
qed

lemma first_request_runs:
  "\<exists>e. runs any_schedule lazy_step new_engine (LStart # first_request 0 @ [LRLock 1, LCheck 1]) e
     \<and> le_phase e 1 = Executing 0"
  by (simp add: first_request_def runs_Cons_iff lazy_label_iffs lazy_ops new_engine_def)

theorem executing_engine_runs_witness:
  "\<exists>e. runs any_schedule lazy_step new_engine (LStart # first_request 0 @ [LRLock 1, LCheck 1]) e
     \<and> 0 \<in> le_running e"
proof -
  obtain e where run: "runs any_schedule lazy_step new_engine (LStart # first_request 0 @ [LRLock 1, LCheck 1]) e"
    and ph: "le_phase e 1 = Executing 0"
    using first_request_runs by (elim exE conjE) (rule that)
  from executing_engine_runs [OF run disjI1 [OF ph]] run show ?thesis by blast
qed

text \<open>the goroutine and a request can wait for each other: when the idle time ends, or the
  node closes, while a request that holds the read lock executes, the goroutine waits for the
  lock and the request for the goroutine, in every continuation. The same holds for a request
  that starts an engine after the goroutine has returned.\<close>

theorem unreceived_request_hangs:
  assumes "runs any_schedule lazy_step new_engine ls e" "runs any_schedule lazy_step e ls' e'"
    and "le_starter e \<in> {WantStop, WantClose} \<and> le_phase e r = Sending
      \<or> le_starter e = Stopped \<and> le_phase e r \<in> {Sending, SendingFirst}"
  shows "le_phase e' r = le_phase e r \<and> \<not> can_lock e'"
proof -
  have e: "lazy_inv e \<and> lost r (le_phase e r) e"
    using lazy_lock.runs_inv [OF assms(1) lazy_inv_new] assms(3) by (auto simp: lost_def)
  from lazy_lost.runs_inv [OF assms(2) this]
  have e': "lazy_inv e'" "lost r (le_phase e r) e'" by auto
  then have "le_phase e' r = le_phase e r" "le_phase e' r \<in> {Sending, SendingFirst}"
    by (auto simp: lost_def)
  with lazy_invD(1) [OF e'(1), of r] show ?thesis by (auto simp: can_lock_def)
qed

lemma stopping_runs:
  "\<exists>e. runs prefer_writers lazy_step new_engine
       (LStart # first_request 0 @ [LRLock 1, LCheck 1, LTimer, LExecuted 1]) e
     \<and> le_starter e = WantStop \<and> le_phase e 1 = Sending"
  by (simp add: first_request_def runs_Cons_iff lazy_label_iffs lazy_ops new_engine_def prefer_writers_def
      writer_waits_def)

theorem unreceived_request_hangs_witness:
  "\<exists>e. runs prefer_writers lazy_step new_engine
       (LStart # first_request 0 @ [LRLock 1, LCheck 1, LTimer, LExecuted 1]) e
     \<and> (\<forall>ls e'. runs any_schedule lazy_step e ls e' \<longrightarrow> le_phase e' 1 = Sending)"
proof -
  obtain e where run: "runs prefer_writers lazy_step new_engine
       (LStart # first_request 0 @ [LRLock 1, LCheck 1, LTimer, LExecuted 1]) e"
    and e: "le_starter e = WantStop" "le_phase e 1 = Sending"
    using stopping_runs by (elim exE conjE) (rule that)
  have "runs any_schedule lazy_step new_engine
       (LStart # first_request 0 @ [LRLock 1, LCheck 1, LTimer, LExecuted 1]) e"
    using run by (rule runs_mono) simp
  from unreceived_request_hangs [OF this, where r = 1] e run show ?thesis by auto
qed

text \<open>two requests that both miss the engine both start one; the engine of the first is
  overwritten and never stopped, neither after the idle time nor when the node closes.\<close>

theorem overwritten_engine_never_stops:
  assumes "runs any_schedule lazy_step new_engine ls e" "n \<in> le_running e" "le_engine e \<noteq> Some n"
    and "runs any_schedule lazy_step e ls' e'"
  shows "n \<in> le_running e'"
proof -
  have "lazy_inv e \<and> orphaned n e"
    using lazy_lock.runs_inv [OF assms(1) lazy_inv_new] assms(2,3) by (simp add: orphaned_def)
  from lazy_orphans.runs_inv [OF assms(4) this] show ?thesis by (simp add: orphaned_def)
qed

definition double_start :: "lazy_label list" where
  "double_start = LStart # [LRLock 1, LCheck 1] @ first_request 0 @ [LWantLock 1, LLock 1, LCreate 1 True]"

lemma double_start_runs:
  "\<exists>e. runs any_schedule lazy_step new_engine double_start e \<and> le_running e = {0, 1} \<and> le_engine e = Some 1"
  by (simp add: double_start_def first_request_def runs_Cons_iff lazy_label_iffs lazy_ops new_engine_def insert_commute)

theorem overwritten_engine_never_stops_witness:
  "\<exists>e. runs any_schedule lazy_step new_engine double_start e
     \<and> (\<forall>ls e'. runs any_schedule lazy_step e ls e' \<longrightarrow> 0 \<in> le_running e')"
proof -
  obtain e where run: "runs any_schedule lazy_step new_engine double_start e"
    and e: "le_running e = {0, 1}" "le_engine e = Some 1"
    using double_start_runs by (elim exE conjE) (rule that)
  from overwritten_engine_never_stops [OF run, of 0] e run show ?thesis by auto
qed

end
