(* ===== verification/DatabaseSource.thy ===== *)
theory DatabaseSource
  imports LazyEngine Hooks
begin

text \<open>
  The rest of the execution side of the database data source: the clean-up of a request, the
  retry loop of \<open>Source.Load\<close> and the engines by schema (datasource.go), and the process
  client (engine.go). The engine process and its HTTP endpoint are parameters.
\<close>

section \<open>Searching\<close>

text \<open>bytes.LastIndex of one byte.\<close>

fun last_index :: "bytes \<Rightarrow> char \<Rightarrow> int" where
  "last_index [] c = -1"
| "last_index (b # bs) c =
     (let i = last_index bs c in if i \<noteq> -1 then i + 1 else if b = c then 0 else -1)"

lemma index_of_Some:
  "index_of s sub = Some i \<Longrightarrow> i + length sub \<le> length s \<and> take (length sub) (drop i s) = sub"
proof (induction s arbitrary: i)
  case (Cons c cs)
  then show ?case
    by (auto simp: has_prefix_def split: if_splits option.splits)
      (metis length_take min.absorb_iff2 min.cobounded1 length_Cons)
qed (simp split: if_splits)

lemma last_index_bounds: "- 1 \<le> last_index s c \<and> last_index s c < int (length s)"
  by (induction s) (auto simp: Let_def)

section \<open>Requests without nulls\<close>

definition max_index :: "int \<Rightarrow> int \<Rightarrow> int \<Rightarrow> int \<Rightarrow> int" where
  "max_index a b c d =
     (if b < a then
        (if c < a then (if d < a then a else d)
         else if d < c then c
         else d)
      else if c < b then (if d < b then b else d)
      else if d < c then c
      else d)"

lemma max_index_eq: "max_index a b c d = max (max a b) (max c d)"
  by (auto simp: max_index_def max_def)

definition null_start :: "bytes \<Rightarrow> int" where
  "null_start pre = max_index (last_index pre (CHR ''{'')) (last_index pre (CHR ''(''))
     (last_index pre (CHR '','')) (last_index pre (CHR '' ''))"

lemma null_start_bounds: "- 1 \<le> null_start pre \<and> null_start pre < int (length pre)"
  using last_index_bounds [of pre "CHR ''{''"] last_index_bounds [of pre "CHR ''(''"]
    last_index_bounds [of pre "CHR '',''"] last_index_bounds [of pre "CHR '' ''"]
  by (simp add: null_start_def max_index_eq le_max_iff_disj)

definition null_field :: bytes where
  "null_field = '': null''"

lemma index_of_less: "index_of s null_field = Some e \<Longrightarrow> e + 6 \<le> length s"
  using index_of_Some [of s null_field e] by (simp add: null_field_def)

function unNullRequest :: "bytes \<Rightarrow> bytes" where
  "unNullRequest request =
     (case index_of request null_field of
        None \<Rightarrow> request
      | Some end1 \<Rightarrow>
          (let start = null_start (take end1 request) in
           unNullRequest (take (nat (start + 1)) request @ drop (end1 + 6) request)))"
  by pat_completeness auto

lemma unNull_shorter:
  assumes "index_of request null_field = Some e"
  shows "length (take (nat (null_start (take e request) + 1)) request @ drop (e + 6) request) < length request"
  using null_start_bounds [of "take e request"] index_of_less [OF assms] by auto

termination unNullRequest
  by (relation "measure length") (simp_all only: in_measure wf_measure unNull_shorter)

declare unNullRequest.simps [simp del]

lemma unNull_subseq: "subseq (unNullRequest s) s"
proof (induction s rule: unNullRequest.induct)
  case (1 s)
  show ?case
  proof (cases "index_of s null_field")
    case (Some e)
    let ?t = "take (nat (null_start (take e s) + 1)) s @ drop (e + 6) s"
    have "nat (null_start (take e s) + 1) \<le> e + 6"
      using null_start_bounds [of "take e s"] by auto
    then have "subseq ?t (take (e + 6) s @ drop (e + 6) s)"
      by (intro list_emb_append_mono prefix_imp_subseq)
        (metis min.absorb_iff2 min.commute take_is_prefix take_take, simp)
    moreover have "subseq (unNullRequest ?t) ?t" using 1 [OF Some refl] .
    ultimately show ?thesis
      by (subst unNullRequest.simps) (simp add: Some Let_def subseq_order.trans)
  qed (subst unNullRequest.simps, simp)
qed

lemma unNull_none: "index_of (unNullRequest s) null_field = None"
proof (induction s rule: unNullRequest.induct)
  case (1 s)
  then show ?case
    by (cases "index_of s null_field") (subst unNullRequest.simps, simp add: Let_def)+
qed

section \<open>The retry loop\<close>

text \<open>
  \<open>Source.Load\<close> with its clock in milliseconds. \<open>exec i\<close> is the i-th execution: how long it
  takes, what it writes and its error. The context ends after 5 seconds, or earlier when that
  of the caller does. The result comes with the number of executions.
\<close>

type_synonym execution = "nat \<times> bytes \<times> go_error option"

function load_loop :: "(nat \<Rightarrow> execution) \<Rightarrow> nat \<Rightarrow> nat \<Rightarrow> nat \<Rightarrow> bytes res \<times> nat" where
  "load_loop exec deadline now i =
     (let (d, buf, err) = exec i; now = now + d in
      case err of
        None \<Rightarrow> (Inr buf, Suc i)
      | Some e \<Rightarrow>
          (if deadline \<le> now then (Inl e, Suc i)
           else load_loop exec deadline (now + 500) (Suc i)))"
  by pat_completeness auto
termination
  by (relation "measure (\<lambda>(_, deadline, now, _). deadline - now)") auto

declare load_loop.simps [simp del]

definition Load :: "jsonlib \<Rightarrow> (bytes \<Rightarrow> nat \<Rightarrow> execution) \<Rightarrow> nat \<Rightarrow> bytes \<Rightarrow> bytes res \<times> nat" where
  "Load js exec parent_deadline input =
     (let request = js_put js input ''{}'' [''variables''];
          request = unNullRequest request in
      load_loop (exec request) (min 5000 parent_deadline) 0 0)"

lemma load_loop_attempts:
  "500 * i \<le> now \<Longrightarrow> deadline \<le> 5000 \<Longrightarrow> i \<le> 10 \<Longrightarrow> snd (load_loop exec deadline now i) \<le> 11"
proof (induction exec deadline now i rule: load_loop.induct)
  case (1 exec deadline now i)
  obtain d buf err where e: "exec i = (d, buf, err)" by (cases "exec i")
  show ?case
  proof (cases err)
    case None
    then show ?thesis using 1 by (subst load_loop.simps) (simp add: e)
  next
    case (Some er)
    show ?thesis
    proof (cases "deadline \<le> now + d")
      case True
      with Some 1 show ?thesis by (subst load_loop.simps) (simp add: e)
    next
      case False
      from 1(1) [OF e [symmetric] refl refl refl Some False] 1(2-) False
      have "snd (load_loop exec deadline (now + d + 500) (Suc i)) \<le> 11" by simp
      with Some False show ?thesis by (subst load_loop.simps) (simp add: e)
    qed
  qed
qed

section \<open>Engines by schema\<close>

text \<open>
  \<open>LazyEngineFactory.Engine\<close>: one engine per schema, whatever directory and timeout the later
  calls ask for.
\<close>

record engine_settings =
  es_schema :: string
  es_dir :: string
  es_close_timeout :: int

definition Engine ::
    "string \<Rightarrow> string \<Rightarrow> int \<Rightarrow> (string \<rightharpoonup> engine_settings) \<Rightarrow>
     (string \<rightharpoonup> engine_settings) \<times> engine_settings" where
  "Engine prismaSchema wundergraphDir closeTimeoutSeconds engines =
     (case engines prismaSchema of
        Some e \<Rightarrow> (engines, e)
      | None \<Rightarrow>
          (let e = \<lparr>es_schema = prismaSchema, es_dir = wundergraphDir,
                 es_close_timeout = closeTimeoutSeconds\<rparr> in
           (engines(prismaSchema \<mapsto> e), e)))"

section \<open>The process client\<close>

datatype lstat = Found | NotExist | StatError go_error

record prisma_env =
  pe_mkdir :: "string \<Rightarrow> go_error option"
  pe_lstat :: "string \<Rightarrow> lstat"
  pe_fetch :: "string \<Rightarrow> go_error option"
  pe_version :: string
  pe_platform :: string
  pe_port :: "int res"

definition engine_path :: "prisma_env \<Rightarrow> string \<Rightarrow> string \<Rightarrow> string" where
  "engine_path pe dir name =
     path_join [path_join [dir, ''generated'', ''prisma''], pe_version pe, name @ ''-'' @ pe_platform pe]"

text \<open>
  \<open>ensurePrisma\<close>: what it downloads, and its error. Only the error of the last check is
  returned, and not when the file was missing.
\<close>

definition ensurePrisma :: "prisma_env \<Rightarrow> string \<Rightarrow> string list \<times> go_error option" where
  "ensurePrisma pe dir =
     (case pe_mkdir pe (path_join [dir, ''generated'', ''prisma'']) of
        Some err \<Rightarrow> ([], Some err)
      | None \<Rightarrow>
          (let query_missing = (pe_lstat pe (engine_path pe dir ''prisma-query-engine'') = NotExist);
               queried = (if query_missing then [''query-engine''] else []);
               query_err = (if query_missing then pe_fetch pe ''query-engine'' else None) in
           if query_err \<noteq> None then (queried, query_err)
           else
             (case pe_lstat pe (engine_path pe dir ''prisma-introspection-engine'') of
                NotExist \<Rightarrow> (queried @ [''introspection-engine''], pe_fetch pe ''introspection-engine'')
              | StatError err \<Rightarrow> (queried, Some err)
              | Found \<Rightarrow> (queried, None))))"

definition StartQueryEngine :: "prisma_env \<Rightarrow> string \<Rightarrow> string list \<times> string res" where
  "StartQueryEngine pe dir =
     (case ensurePrisma pe dir of
        (fetched, Some err) \<Rightarrow> (fetched, Inl err)
      | (fetched, None) \<Rightarrow>
          (case pe_port pe of
             Inl err \<Rightarrow> (fetched, Inl err)
           | Inr port \<Rightarrow> (fetched, Inr (''http://localhost:'' @ itoa_int port))))"

text \<open>\<open>Request\<close>: the answer of the endpoint is its status and what reading its body gives.\<close>

definition Request ::
    "(string \<Rightarrow> bytes \<Rightarrow> (nat \<times> bytes \<times> go_error option) res) \<Rightarrow> string \<Rightarrow> bytes \<Rightarrow>
     bytes \<times> go_error option" where
  "Request post url request =
     (case post (url @ ''/'') request of
        Inl err \<Rightarrow> ([], Some err)
      | Inr (status, body, err) \<Rightarrow>
          (if status \<noteq> 200 then ([], Some (Err ''http status != 200'')) else (body, err)))"

text \<open>
  \<open>WaitUntilReady\<close>, driven by what each turn of its loop finds: whether the context is done,
  and otherwise whether the engine answers.
\<close>

fun WaitUntilReady :: "(bool \<times> bool) list \<Rightarrow> go_error option option" where
  "WaitUntilReady [] = None"
| "WaitUntilReady ((ctx_done, answers) # turns) =
     (if ctx_done then Some (Some (Err ''WaitUntilReady: context cancelled''))
      else if \<not> answers then WaitUntilReady turns
      else Some None)"

text \<open>
  The loop of \<open>IntrospectPrismaDatabaseSchema\<close> over what its select statement receives. Text is
  collected until it is a JSON document; \<open>decode\<close> gives the message of its error or its data
  model.
\<close>

datatype prisma_event =
    CtxDone go_error | Exited int | StdoutLine string | StdoutClosed | StderrLine string | StderrClosed

fun introspect_loop ::
    "(bytes \<Rightarrow> (string + string) option) \<Rightarrow> bytes \<Rightarrow> prisma_event list \<Rightarrow> string res option" where
  "introspect_loop decode responseData [] = None"
| "introspect_loop decode responseData (ev # evs) =
     (case ev of
        CtxDone err \<Rightarrow> Some (Inl (Wrap ''prisma query cancelled'' err))
      | Exited status \<Rightarrow> Some (Inl (Err (''prisma exited with status '' @ itoa_int status)))
      | StdoutClosed \<Rightarrow> Some (Inl (Err ''prisma exited too early''))
      | StderrClosed \<Rightarrow> Some (Inl (Err ''prisma exited too early''))
      | StderrLine line \<Rightarrow> Some (Inl (Err (''prisma reported an error: '' @ line)))
      | StdoutLine line \<Rightarrow>
          (let responseData = responseData @ line in
           case decode responseData of
             None \<Rightarrow> introspect_loop decode responseData evs
           | Some (Inl message) \<Rightarrow> Some (Inl (Err message))
           | Some (Inr dataModel) \<Rightarrow> Some (Inr (replace_all dataModel '' Bytes'' '' String''))))"

definition IntrospectPrismaDatabaseSchema ::
    "prisma_env \<Rightarrow> string \<Rightarrow> (bytes \<Rightarrow> (string + string) option) \<Rightarrow> prisma_event list \<Rightarrow> string res option" where
  "IntrospectPrismaDatabaseSchema pe dir decode evs =
     (case snd (ensurePrisma pe dir) of
        Some err \<Rightarrow> Some (Inl err)
      | None \<Rightarrow> introspect_loop decode [] evs)"

section \<open>Properties\<close>

text \<open>the clean-up of a request ends, and its result is the request with some bytes removed,
  without any text that reads as a null value of a field; a request without such text is left
  as it is.\<close>

theorem unNullRequest_spec:
  "subseq (unNullRequest s) s \<and> index_of (unNullRequest s) '': null'' = None
   \<and> (unNullRequest s = s \<longleftrightarrow> index_of s '': null'' = None)"
proof -
  have "unNullRequest s = s" if "index_of s null_field = None"
    using that by (subst unNullRequest.simps) simp
  then show ?thesis using unNull_subseq [of s] unNull_none [of s] by (auto simp: null_field_def)
qed

text \<open>a request to a database is executed at most eleven times: the retries end with the
  5 seconds of its context, however long the executions take.\<close>

theorem load_attempts_bounded:
  "snd (Load js exec parent_deadline input) \<le> 11"
  by (simp add: Load_def Let_def load_loop_attempts)

end
