(* ===== verification/PostResolve.thy ===== *)
theory PostResolve
  imports Wgpb Hooks
begin

text \<open>
  pkg/postresolvetransform: the transformations of a response. A path may contain the step
  \<open>[]\<close>, every element of an array; it is resolved against the document before the values are
  copied. The JSON parser is a parameter.
\<close>

section \<open>Paths\<close>

type_synonym jpath = "string list"

definition each_step :: string where
  "each_step = ''[]''"

definition index_step :: "nat \<Rightarrow> string" where
  "index_step i = ''['' @ itoa i @ '']''"

fun pathContainsArray :: "jpath \<Rightarrow> bool \<times> nat" where
  "pathContainsArray [] = (False, 0)"
| "pathContainsArray (p # ps) =
     (if p = each_step then (True, 0)
      else case pathContainsArray ps of (True, i) \<Rightarrow> (True, i + 1) | (False, _) \<Rightarrow> (False, 0))"

definition pathsContainArray :: "jpath list \<Rightarrow> bool" where
  "pathsContainArray paths = list_ex (\<lambda>p. fst (pathContainsArray p)) paths"

text \<open>The loop body of resolvePaths: the paths that replace one path.\<close>

definition resolve_path :: "json_doc \<Rightarrow> bytes \<Rightarrow> jpath \<Rightarrow> jpath list" where
  "resolve_path js input path =
     (case pathContainsArray path of
        (False, _) \<Rightarrow> [path]
      | (True, j) \<Rightarrow>
          map (\<lambda>index. take j path @ [index_step index] @ drop (j + 1) path)
            [0..<length (js_each js input (take j path))])"

definition holes :: "jpath \<Rightarrow> nat" where
  "holes path = length (filter (\<lambda>p. p = each_step) path)"

definition max_holes :: "jpath list \<Rightarrow> nat" where
  "max_holes paths = foldr (\<lambda>p. max (holes p)) paths 0"

lemma index_step_neq [simp]: "index_step i \<noteq> each_step" "each_step \<noteq> index_step i"
  by (cases "itoa i") (auto simp: index_step_def each_step_def itoa_nonempty)

lemma pathContainsArray_None [simp]:
  "fst (pathContainsArray path) \<longleftrightarrow> each_step \<in> set path"
  by (induction path) (auto split: prod.split bool.split)

lemma pathContainsArray_split:
  "pathContainsArray path = (True, j) \<Longrightarrow>
    path = take j path @ each_step # drop (j + 1) path \<and> each_step \<notin> set (take j path)"
  by (induction path arbitrary: j) (auto split: prod.splits bool.splits if_splits)

lemma holes_simps [simp]:
  "holes [] = 0"
  "holes (p # ps) = (if p = each_step then Suc (holes ps) else holes ps)"
  "holes (ps @ qs) = holes ps + holes qs"
  by (auto simp: holes_def)

lemma holes_0_iff: "holes path = 0 \<longleftrightarrow> each_step \<notin> set path"
  by (induction path) auto

lemma resolve_path_complete: "each_step \<notin> set path \<Longrightarrow> resolve_path js input path = [path]"
  using pathContainsArray_None [of path]
  by (cases "pathContainsArray path") (simp add: resolve_path_def split: bool.split)

lemma resolve_path_split:
  assumes "each_step \<notin> set pre"
  shows "resolve_path js input (pre @ each_step # post)
    = map (\<lambda>i. pre @ index_step i # post) [0..<length (js_each js input pre)]"
proof -
  have "pathContainsArray (pre @ each_step # post) = (True, length pre)"
    using assms by (induction pre) auto
  then show ?thesis by (simp add: resolve_path_def)
qed

lemma resolve_path_holes: "p \<in> set (resolve_path js input path) \<Longrightarrow> holes p = holes path - 1"
proof (cases "each_step \<in> set path")
  case True
  then obtain pre post where path: "path = pre @ each_step # post" "each_step \<notin> set pre"
    by (metis split_list_first)
  assume "p \<in> set (resolve_path js input path)"
  with path show ?thesis by (auto simp: resolve_path_split)
qed (auto simp: resolve_path_complete holes_0_iff [symmetric])

lemma max_holes_le: "max_holes paths \<le> n \<longleftrightarrow> (\<forall>p \<in> set paths. holes p \<le> n)"
  by (induction paths) (auto simp: max_holes_def)

lemma max_holes_pos: "pathsContainArray paths \<longleftrightarrow> 0 < max_holes paths"
proof -
  have "max_holes paths = 0 \<longleftrightarrow> (\<forall>p \<in> set paths. holes p = 0)"
    using max_holes_le [of paths 0] by simp
  then show ?thesis
    by (auto simp: pathsContainArray_def list_ex_iff holes_0_iff)
qed

lemma resolve_path_decreases:
  assumes "pathsContainArray paths"
  shows "max_holes (concat (map (resolve_path js input) paths)) < max_holes paths"
proof -
  have "max_holes (concat (map (resolve_path js input) paths)) \<le> max_holes paths - 1"
    using max_holes_le [of paths "max_holes paths"]
    by (auto simp: max_holes_le dest!: resolve_path_holes intro: diff_le_mono)
  with assms show ?thesis by (simp add: max_holes_pos)
qed

function resolvePaths :: "json_doc \<Rightarrow> bytes \<Rightarrow> jpath list \<Rightarrow> jpath list" where
  "resolvePaths js input paths =
     (if \<not> pathsContainArray paths then paths
      else
        let out = concat (map (resolve_path js input) paths) in
        if pathsContainArray out then resolvePaths js input out else out)"
  by pat_completeness auto
termination
  by (relation "measure (\<lambda>(js, input, paths). max_holes paths)")
    (simp_all add: resolve_path_decreases)

declare resolvePaths.simps [simp del]

text \<open>
  What resolving a path should give, by recursion on the path: the concrete paths below
  \<open>pre\<close>, in the order of the elements.
\<close>

fun instances :: "json_doc \<Rightarrow> bytes \<Rightarrow> jpath \<Rightarrow> jpath \<Rightarrow> jpath list" where
  "instances js input pre [] = [pre]"
| "instances js input pre (p # ps) =
     (if p = each_step
      then concat (map (\<lambda>i. instances js input (pre @ [index_step i]) ps)
        [0..<length (js_each js input pre)])
      else instances js input (pre @ [p]) ps)"

lemma instances_append_complete:
  "each_step \<notin> set ps \<Longrightarrow> instances js input pre (ps @ qs) = instances js input (pre @ ps) qs"
  by (induction ps arbitrary: pre) auto

lemma instances_complete: "each_step \<notin> set ps \<Longrightarrow> instances js input [] ps = [ps]"
  using instances_append_complete [of ps js input "[]" "[]"] by simp

lemma instances_resolve_path:
  "concat (map (instances js input []) (resolve_path js input path)) = instances js input [] path"
proof (cases "each_step \<in> set path")
  case True
  then obtain pre post where path: "path = pre @ each_step # post" "each_step \<notin> set pre"
    by (metis split_list_first)
  have "instances js input [] (pre @ index_step i # post)
      = instances js input (pre @ [index_step i]) post" for i
    using instances_append_complete [of "pre @ [index_step i]" js input "[]" post] path by simp
  then show ?thesis
    using path by (simp add: resolve_path_split instances_append_complete comp_def)
qed (simp add: resolve_path_complete)

lemma instances_resolve_paths:
  "concat (map (instances js input []) (concat (map (resolve_path js input) paths)))
    = concat (map (instances js input []) paths)"
  by (induction paths) (simp_all add: instances_resolve_path)

lemma instances_no_array:
  "\<not> pathsContainArray paths \<Longrightarrow> concat (map (instances js input []) paths) = paths"
  by (induction paths) (auto simp: pathsContainArray_def instances_complete)

text \<open>C25: Resolving a list of paths step by step, one array level of every path in each round,
  gives exactly the concrete paths that the recursive reading of each path gives, in the order
  of the paths and of the array elements.\<close>

theorem resolvePaths_instances:
  "resolvePaths js input paths = concat (map (instances js input []) paths)"
proof (induction js input paths rule: resolvePaths.induct)
  case (1 js input paths)
  show ?case
  proof (cases "pathsContainArray paths")
    case True
    let ?out = "concat (map (resolve_path js input) paths)"
    have "resolvePaths js input paths = (if pathsContainArray ?out then resolvePaths js input ?out else ?out)"
      using True by (simp add: resolvePaths.simps [of js input paths])
    also have "\<dots> = concat (map (instances js input []) ?out)"
      using 1 True by (simp add: instances_no_array)
    finally show ?thesis by (simp only: instances_resolve_paths)
  qed (simp add: resolvePaths.simps instances_no_array)
qed

section \<open>Transformations\<close>

text \<open>
  The loop of applyGet over the pairs of source and destination. A value that is missing is
  copied as null; a string is copied with its quotes, which stand around the value that Get
  found in the document.
\<close>

fun apply_get_loop :: "json_doc \<Rightarrow> (jpath \<times> jpath) list \<Rightarrow> bytes \<Rightarrow> bytes res outcome" where
  "apply_get_loop js [] input = Returned (Inr input)"
| "apply_get_loop js ((from, to) # rest) input =
     (case js_get js input from of
        (value, valueType, Some err) \<Rightarrow>
          (case js_set js input ''null'' to of
             (input', None) \<Rightarrow> apply_get_loop js rest input'
           | (_, Some err') \<Rightarrow> Returned (Inl err'))
      | (value, valueType, None) \<Rightarrow>
          (let offset = js_offset js input from in
           bind_out (if valueType = StringT then go_slice input (offset - int (length value) - 2) offset
                     else Returned value)
             (\<lambda>value. case js_set js input value to of
                (input', None) \<Rightarrow> apply_get_loop js rest input'
              | (_, Some err') \<Rightarrow> Returned (Inl (Err (''applyGet: '' @ err_text err'))))))"

definition applyGet :: "json_doc \<Rightarrow> bytes \<Rightarrow> get_transformation \<Rightarrow> bytes res outcome" where
  "applyGet js input get =
     (let froms = resolvePaths js input [gt_from get];
          tos = resolvePaths js input [gt_to get] in
      if length froms \<noteq> length tos
      then Returned (Inl (Err ''applyGet: from and to must have the same length''))
      else apply_get_loop js (zip froms tos) input)"

fun transform_loop :: "json_doc \<Rightarrow> transformation list \<Rightarrow> bytes \<Rightarrow> bytes res outcome" where
  "transform_loop js [] output = Returned (Inr output)"
| "transform_loop js (t # ts) output =
     (case tr_kind t of GET_TRANSFORMATION \<Rightarrow>
        bind_out (deref (tr_get t)) (\<lambda>get.
          bind_out (applyGet js output get) (\<lambda>r.
            case r of Inl err \<Rightarrow> Returned (Inl err) | Inr output \<Rightarrow> transform_loop js ts output)))"

definition Transform :: "json_doc \<Rightarrow> transformation list \<Rightarrow> bytes \<Rightarrow> bytes res outcome" where
  "Transform js transformations input =
     (if length transformations = 0 then Returned (Inr input)
      else transform_loop js transformations input)"

lemma Transform_loop: "Transform js ts = transform_loop js ts"
  by (rule ext, cases ts) (simp_all add: Transform_def)

lemma Transform_Nil [simp]: "Transform js [] input = Returned (Inr input)"
  by (simp add: Transform_def)

text \<open>Transforming in two parts is transforming the result of the first part.\<close>

lemma Transform_append:
  "Transform js (ts @ us) input =
    bind_out (Transform js ts input) (\<lambda>r. case r of
      Inl err \<Rightarrow> Returned (Inl err) | Inr output \<Rightarrow> Transform js us output)"
proof -
  have "transform_loop js (ts @ us) input =
    bind_out (transform_loop js ts input) (\<lambda>r. case r of
      Inl err \<Rightarrow> Returned (Inl err) | Inr output \<Rightarrow> transform_loop js us output)" for input
  proof (induction ts arbitrary: input)
    case (Cons t ts)
    have kind: "tr_kind t = GET_TRANSFORMATION" by (cases "tr_kind t")
    show ?case
    proof (cases "tr_get t")
      case (Some get)
      with kind Cons show ?thesis
        by (cases "applyGet js input get") (auto split: sum.split)
    qed (simp add: kind)
  qed simp
  then show ?thesis unfolding Transform_loop .
qed

end
