(* ===== verification/Interpolate.thy ===== *)
theory Interpolate
  imports PostResolve
begin

text \<open>
  pkg/interpolate: the variables of a request are adapted to the JSON schema of the operation.
  One interpolator turns numbers and booleans into strings where the schema wants a string, the
  other (JSON only) turns any value into a string where the schema gives no type. Both walk over
  the schema, which may refer to its definitions and so to itself: a walk is a partial function,
  and \<open>None\<close> is a walk that never returns. The fields of an object are listed in the order in
  which the map is ranged over; the JSON libraries are parameters.
\<close>

section \<open>Schemas\<close>

text \<open>
  A schema as json.Unmarshal leaves it: the type may be any JSON value, of which a string or an
  array of values matters, and a field that is null is a nil pointer.
\<close>

datatype type_value = TypeString string | TypeList "string option list" | TypeOther

datatype schema = Schema
  (sc_type: type_value)
  (sc_properties: "(string \<times> schema option) list option")
  (sc_items: "schema option")
  (sc_required: "string list")
  (sc_ref: string)
  (sc_defs: "(string \<times> schema option) list")

fun first_type :: "string option list \<Rightarrow> string" where
  "first_type [] = ''''"
| "first_type (None # ts) = first_type ts"
| "first_type (Some t # ts) = (if t \<noteq> ''null'' then t else first_type ts)"

definition typeString :: "schema \<Rightarrow> string" where
  "typeString s =
     (case sc_type s of TypeString t \<Rightarrow> t | TypeList ts \<Rightarrow> first_type ts | TypeOther \<Rightarrow> '''')"

definition IsRequired :: "schema \<Rightarrow> string \<Rightarrow> bool" where
  "IsRequired s name = list_ex (\<lambda>required. required = name) (sc_required s)"

record interpolator =
  ip_schema :: schema
  ip_has :: bool
  ip_json_only :: bool
  ip_defs :: "(string \<times> schema option) list"

definition definition_name :: "string \<Rightarrow> string" where
  "definition_name ref = trim_prefix ref ''#/$defs/''"

section \<open>Walks\<close>

text \<open>A loop whose body may panic or never return.\<close>

fun each_out :: "('a \<Rightarrow> 's \<Rightarrow> 's outcome option) \<Rightarrow> 'a list \<Rightarrow> 's \<Rightarrow> 's outcome option" where
  "each_out f [] s = Some (Returned s)"
| "each_out f (x # xs) s =
     Option.bind (f x s) (\<lambda>r. case r of
       Panicked m \<Rightarrow> Some (Panicked m) | Returned s' \<Rightarrow> each_out f xs s')"

lemma each_out_mono [partial_function_mono]:
  assumes "\<And>x s. mono_option (\<lambda>g. B g x s)"
  shows "mono_option (\<lambda>g. each_out (B g) xs s)"
proof (induction xs arbitrary: s)
  case Nil
  show ?case by (simp add: option.const_mono)
next
  case (Cons x xs)
  have "mono_option (\<lambda>g. case r of Panicked m \<Rightarrow> Some (Panicked m) | Returned s' \<Rightarrow> each_out (B g) xs s')" for r
    using Cons by (cases r) (simp_all add: option.const_mono)
  with assms show ?case by (simp add: bind_mono)
qed

lemma each_out_cong [fundef_cong]:
  "xs = ys \<Longrightarrow> s = t \<Longrightarrow> (\<And>x u. x \<in> set ys \<Longrightarrow> f x u = g x u) \<Longrightarrow> each_out f xs s = each_out g ys t"
proof (induction xs arbitrary: s t ys)
  case (Cons x xs)
  then show ?case
    by (auto intro!: Option.bind_cong split: outcome.split)
qed simp

text \<open>A relation that every call respects is respected by the loop.\<close>

lemma each_out_total:
  assumes body: "\<And>x u. x \<in> set xs \<Longrightarrow> R s u \<Longrightarrow> \<exists>r. f x u = Some r \<and> (\<forall>v. r = Returned v \<longrightarrow> R u v)"
    and refl: "R s s" and trans: "\<And>u v. R s u \<Longrightarrow> R u v \<Longrightarrow> R s v"
  shows "\<exists>r. each_out f xs s = Some r \<and> (\<forall>v. r = Returned v \<longrightarrow> R s v)"
proof -
  have "R s u \<Longrightarrow> set ys \<subseteq> set xs \<Longrightarrow>
      \<exists>r. each_out f ys u = Some r \<and> (\<forall>v. r = Returned v \<longrightarrow> R s v)" for u ys
  proof (induction ys arbitrary: u)
    case (Cons y ys)
    from body [of y u] Cons.prems obtain r
      where r: "f y u = Some r" "\<And>v. r = Returned v \<Longrightarrow> R u v" by auto
    show ?case
    proof (cases r)
      case (Returned v)
      with r trans [of u v] Cons.prems have "R s v" by simp
      with Cons.IH [of v] Cons.prems r Returned show ?thesis by simp
    qed (use r in simp)
  qed simp
  from this [of s xs] refl show ?thesis by simp
qed

section \<open>Does a schema need interpolation?\<close>

text \<open>
  configure changes two fields of the interpolator: whether there is something to interpolate,
  and the references it has looked at.
\<close>

type_synonym configured = "bool \<times> string list"

partial_function (option) configure ::
    "bool \<Rightarrow> (string \<times> schema option) list \<Rightarrow> schema option \<Rightarrow> configured \<Rightarrow> configured outcome option" where
  "configure json_only defs schema st =
     (if fst st then Some (Returned st)
      else case schema of
        None \<Rightarrow> Some (Panicked ''nil pointer dereference'')
      | Some sc \<Rightarrow>
          if sc_ref sc \<noteq> '''' then
            if sc_ref sc \<in> set (snd st) then Some (Returned st)
            else
              let st = (fst st, sc_ref sc # snd st) in
              case map_of defs (definition_name (sc_ref sc)) of
                None \<Rightarrow> Some (Returned st)
              | Some definition \<Rightarrow> configure json_only defs definition st
          else if typeString sc = ''string'' then
            Some (Returned (if json_only then st else (True, snd st)))
          else if typeString sc = ''object'' then
            (case sc_properties sc of
               None \<Rightarrow> Some (Returned st)
             | Some properties \<Rightarrow>
                 each_out (\<lambda>p. configure json_only defs (snd p)) properties st)
          else if typeString sc = ''array'' then
            (case sc_items sc of
               None \<Rightarrow> Some (Returned st)
             | Some items \<Rightarrow> configure json_only defs (Some items) st)
          else if typeString sc = '''' then Some (Returned (True, snd st))
          else Some (Returned st))"

text \<open>The references that can still lead to a definition.\<close>

definition open_refs :: "(string \<times> schema option) list \<Rightarrow> string list \<Rightarrow> string set" where
  "open_refs defs conf =
     (\<Union>n \<in> fst ` set defs. {n, ''#/$defs/'' @ n}) - set conf"

lemma finite_open_refs [simp]: "finite (open_refs defs conf)"
  by (simp add: open_refs_def)

lemma open_refs_antimono: "set conf \<subseteq> set conf' \<Longrightarrow> open_refs defs conf' \<subseteq> open_refs defs conf"
  by (auto simp: open_refs_def)

lemma trim_prefix_cases: "s = trim_prefix s p \<or> s = p @ trim_prefix s p"
  unfolding trim_prefix_def has_prefix_def by (metis append_take_drop_id)

lemma ref_cases: "ref = definition_name ref \<or> ref = ''#/$defs/'' @ definition_name ref"
  unfolding definition_name_def by (rule trim_prefix_cases)

lemma open_refs_shrinks:
  assumes "map_of defs (definition_name ref) = Some d" "ref \<notin> set conf"
  shows "card (open_refs defs (ref # conf)) < card (open_refs defs conf)"
proof -
  from assms(1) have "definition_name ref \<in> fst ` set defs" by (force dest: map_of_SomeD)
  then have "ref \<in> (\<Union>n \<in> fst ` set defs. {n, ''#/$defs/'' @ n})" using ref_cases [of ref] by blast
  with assms(2) have "ref \<in> open_refs defs conf" by (simp add: open_refs_def)
  moreover have "open_refs defs (ref # conf) = open_refs defs conf - {ref}"
    by (auto simp: open_refs_def)
  ultimately show ?thesis by (metis card_Diff1_less finite_open_refs)
qed

lemma card_open_refs_le: "set conf \<subseteq> set conf' \<Longrightarrow> card (open_refs defs conf') \<le> card (open_refs defs conf)"
  by (rule card_mono [OF finite_open_refs open_refs_antimono])

text \<open>The size of a schema pointer, for the recursion into fields and elements.\<close>

definition pointer_size :: "schema option \<Rightarrow> nat" where
  "pointer_size p = (case p of None \<Rightarrow> 0 | Some s \<Rightarrow> Suc (size s))"

lemma pointer_size_items: "sc_items sc = Some i \<Longrightarrow> pointer_size (Some i) < pointer_size (Some sc)"
  by (cases sc) (simp add: pointer_size_def)

lemma size_list_member: "x \<in> set xs \<Longrightarrow> f x < Suc (size_list f xs)"
  by (induction xs) auto

lemma pointer_size_property:
  assumes "sc_properties sc = Some ps" "p \<in> set ps"
  shows "pointer_size (snd p) < pointer_size (Some sc)"
proof -
  have "size_prod (\<lambda>_. 0) (size_option size) p < Suc (size_list (size_prod (\<lambda>_. 0) (size_option size)) ps)"
    using assms(2) by (rule size_list_member)
  with assms(1) show ?thesis
    by (cases sc; cases p; cases "snd p") (auto simp: pointer_size_def)
qed

definition grows :: "configured \<Rightarrow> configured \<Rightarrow> bool" where
  "grows st st' = (set (snd st) \<subseteq> set (snd st') \<and> (fst st \<longrightarrow> fst st'))"

lemma grows_refl [simp]: "grows st st"
  by (simp add: grows_def)

lemma grows_trans: "grows s t \<Longrightarrow> grows t u \<Longrightarrow> grows s u"
  by (auto simp: grows_def)

text \<open>The recursion of configure: a reference is looked at once, and fields are smaller.\<close>

lemma configure_induct [case_names step]:
  fixes P :: "schema option \<Rightarrow> configured \<Rightarrow> bool"
  assumes "\<And>schema st. (\<And>schema' st'.
      card (open_refs defs (snd st')) < card (open_refs defs (snd st))
      \<or> card (open_refs defs (snd st')) \<le> card (open_refs defs (snd st))
        \<and> pointer_size schema' < pointer_size schema \<Longrightarrow> P schema' st') \<Longrightarrow> P schema st"
  shows "P schema st"
proof -
  have "P (fst x) (snd x)" for x
  proof (induction x rule: wf_induct_rule [OF wf_measures
      [of "[\<lambda>x. card (open_refs defs (snd (snd x))), \<lambda>x. pointer_size (fst x)]"]])
    case (1 x)
    show ?case
    proof (rule assms)
      fix schema' :: "schema option" and st' :: configured
      assume "card (open_refs defs (snd st')) < card (open_refs defs (snd (snd x)))
        \<or> card (open_refs defs (snd st')) \<le> card (open_refs defs (snd (snd x)))
          \<and> pointer_size schema' < pointer_size (fst x)"
      then show "P schema' st'" using 1 [of "(schema', st')"] by (auto simp: le_less)
    qed
  qed
  from this [of "(schema, st)"] show ?thesis by simp
qed

lemma configure_grows:
  "\<exists>r. configure j defs schema st = Some r \<and> (\<forall>st'. r = Returned st' \<longrightarrow> grows st st')"
proof (induction schema st rule: configure_induct [where defs = defs])
  case (step schema st)
  show ?case
  proof (cases "fst st \<or> schema = None")
    case True
    then show ?thesis by (cases schema) (auto simp: configure.simps)
  next
    case False
    then obtain sc where schema: "schema = Some sc" and st: "\<not> fst st" by auto
    note unfold = configure.simps [of j defs schema st]
    have items: "\<exists>r. configure j defs (Some i) st = Some r \<and> (\<forall>st'. r = Returned st' \<longrightarrow> grows st st')"
      if "sc_items sc = Some i" for i
      by (rule step) (simp add: schema pointer_size_items that)
    have properties: "\<exists>r. each_out (\<lambda>p. configure j defs (snd p)) ps st = Some r
        \<and> (\<forall>st'. r = Returned st' \<longrightarrow> grows st st')"
      if ps: "sc_properties sc = Some ps" for ps
    proof (rule each_out_total)
      fix p u
      assume "p \<in> set ps" "grows st u"
      then show "\<exists>r. configure j defs (snd p) u = Some r \<and> (\<forall>v. r = Returned v \<longrightarrow> grows u v)"
        by (intro step) (simp add: schema pointer_size_property [OF ps] grows_def card_open_refs_le)
    qed (auto intro: grows_trans)
    have ref: "\<exists>r. configure j defs d (fst st, sc_ref sc # snd st) = Some r
        \<and> (\<forall>st'. r = Returned st' \<longrightarrow> grows st st')"
      if "map_of defs (definition_name (sc_ref sc)) = Some d" "sc_ref sc \<notin> set (snd st)" for d
    proof -
      have "grows st (fst st, sc_ref sc # snd st)" by (auto simp: grows_def)
      with step [of "(fst st, sc_ref sc # snd st)" d] show ?thesis
        by (auto simp: open_refs_shrinks [OF that] intro: grows_trans)
    qed
    from st show ?thesis
      unfolding unfold
      by (auto simp: schema grows_def [of st] Let_def split: option.split
          dest: items [unfolded grows_def] properties [unfolded grows_def] ref [unfolded grows_def])
  qed
qed

text \<open>configure always returns (or panics), also for a schema whose definitions refer to each
  other in a circle.
\<close>

theorem configure_returns: "\<exists>r. configure json_only defs schema st = Some r"
  using configure_grows by blast

text \<open>
  The specification of configure: a schema needs interpolation when a node that is to be
  interpolated can be reached over fields, elements and references.
\<close>

definition interpolating :: "bool \<Rightarrow> schema \<Rightarrow> bool" where
  "interpolating json_only sc =
     (sc_ref sc = '''' \<and> (typeString sc = ''string'' \<and> \<not> json_only \<or> typeString sc = ''''))"

inductive child :: "schema \<Rightarrow> schema option \<Rightarrow> bool" where
  property: "sc_ref sc = '''' \<Longrightarrow> typeString sc = ''object'' \<Longrightarrow> sc_properties sc = Some ps
    \<Longrightarrow> p \<in> set ps \<Longrightarrow> child sc (snd p)"
| element: "sc_ref sc = '''' \<Longrightarrow> typeString sc = ''array'' \<Longrightarrow> sc_items sc = Some i \<Longrightarrow> child sc (Some i)"

inductive needs :: "bool \<Rightarrow> (string \<times> schema option) list \<Rightarrow> schema option \<Rightarrow> bool"
  for json_only defs where
  here: "interpolating json_only sc \<Longrightarrow> needs json_only defs (Some sc)"
| child: "child sc p \<Longrightarrow> needs json_only defs p \<Longrightarrow> needs json_only defs (Some sc)"
| ref: "sc_ref sc \<noteq> '''' \<Longrightarrow> map_of defs (definition_name (sc_ref sc)) = Some d
    \<Longrightarrow> needs json_only defs d \<Longrightarrow> needs json_only defs (Some sc)"

text \<open>
  A node is quiet when it needs no interpolation as long as the references in \<open>C\<close> need none.
\<close>

inductive quiet :: "bool \<Rightarrow> string set \<Rightarrow> schema option \<Rightarrow> bool" for json_only C where
  ref: "sc_ref sc \<noteq> '''' \<Longrightarrow> sc_ref sc \<in> C \<Longrightarrow> quiet json_only C (Some sc)"
| node: "sc_ref sc = '''' \<Longrightarrow> \<not> interpolating json_only sc \<Longrightarrow> (\<And>p. child sc p \<Longrightarrow> quiet json_only C p)
    \<Longrightarrow> quiet json_only C (Some sc)"

lemma quiet_mono: "quiet j C p \<Longrightarrow> C \<subseteq> D \<Longrightarrow> quiet j D p"
  by (induction rule: quiet.induct) (blast intro: quiet.intros)+

definition explores :: "bool \<Rightarrow> (string \<times> schema option) list \<Rightarrow> configured \<Rightarrow> configured \<Rightarrow> bool" where
  "explores j defs u v =
     (\<forall>r \<in> set (snd v) - set (snd u). \<forall>d. map_of defs (definition_name r) = Some d
        \<longrightarrow> quiet j (set (snd v)) d)"

lemma explores_refl [simp]: "explores j defs u u"
  by (simp add: explores_def)

lemma explores_trans:
  "explores j defs s u \<Longrightarrow> explores j defs u v \<Longrightarrow> grows u v \<Longrightarrow> explores j defs s v"
  unfolding explores_def grows_def by (blast intro: quiet_mono)

lemma needs_not_quiet:
  assumes "needs j defs p" "quiet j C p"
    and closed: "\<And>r d. r \<in> C \<Longrightarrow> map_of defs (definition_name r) = Some d \<Longrightarrow> quiet j C d"
  shows False
  using assms(1,2)
proof (induction rule: needs.induct)
  case (here sc)
  then show ?case by (auto elim: quiet.cases simp: interpolating_def)
next
  case (child sc p)
  then have "sc_ref sc = ''''" by (auto elim: child.cases)
  with child show ?case by (auto elim: quiet.cases)
next
  case (ref sc d)
  then show ?case by (auto elim: quiet.cases intro: closed)
qed

lemma each_out_Cons_iff:
  "each_out f (x # xs) s = Some (Returned s') \<longleftrightarrow>
    (\<exists>v. f x s = Some (Returned v) \<and> each_out f xs v = Some (Returned s'))"
proof (cases "f x s")
  case (Some r)
  then show ?thesis by (cases r) auto
qed simp

lemma each_out_spec:
  assumes "each_out f xs s = Some (Returned s')"
    and body: "\<And>x u v. x \<in> set xs \<Longrightarrow> R s u \<Longrightarrow> f x u = Some (Returned v) \<Longrightarrow> R u v \<and> Q x v"
    and refl: "\<And>u. R u u" and trans: "\<And>s u v. R s u \<Longrightarrow> R u v \<Longrightarrow> R s v"
    and keep: "\<And>x u v. Q x u \<Longrightarrow> R u v \<Longrightarrow> Q x v"
  shows "R s s' \<and> (\<forall>x \<in> set xs. Q x s')"
proof -
  have "R u s' \<and> (\<forall>y \<in> set ys. Q y s')"
    if "R s u" "set ys \<subseteq> set xs" "each_out f ys u = Some (Returned s')" for u ys
    using that
  proof (induction ys arbitrary: u)
    case (Cons y ys)
    from Cons.prems(3) obtain v where v: "f y u = Some (Returned v)" "each_out f ys v = Some (Returned s')"
      unfolding each_out_Cons_iff by blast
    with Cons.prems body [of y u v] have uv: "R u v" "Q y v" by auto
    with Cons.IH [of v] Cons.prems v trans have "R v s' \<and> (\<forall>y \<in> set ys. Q y s')" by auto
    with uv show ?case by (auto intro: trans keep)
  qed (simp add: refl)
  from this [of s xs] assms(1) refl show ?thesis by simp
qed

text \<open>What a run of configure on one node leaves behind.\<close>

definition configured_ok ::
    "bool \<Rightarrow> (string \<times> schema option) list \<Rightarrow> schema option set \<Rightarrow> configured \<Rightarrow> configured \<Rightarrow> bool" where
  "configured_ok j defs ps u v =
     (grows u v \<and> (fst v \<longrightarrow> fst u \<or> (\<exists>p \<in> ps. needs j defs p)) \<and> (\<not> fst v \<longrightarrow> explores j defs u v))"

lemma configured_ok_refl [simp]: "configured_ok j defs ps u u"
  by (simp add: configured_ok_def)

lemma configured_ok_trans:
  "configured_ok j defs ps s u \<Longrightarrow> configured_ok j defs ps u v \<Longrightarrow> configured_ok j defs ps s v"
  unfolding configured_ok_def by (metis explores_trans grows_def grows_trans)

lemma configured_ok_mono:
  "configured_ok j defs ps u v \<Longrightarrow> (\<And>p. p \<in> ps \<Longrightarrow> needs j defs p \<Longrightarrow> \<exists>q \<in> qs. needs j defs q)
    \<Longrightarrow> configured_ok j defs qs u v"
  unfolding configured_ok_def by blast

definition quiet_after :: "bool \<Rightarrow> schema option \<Rightarrow> configured \<Rightarrow> bool" where
  "quiet_after j p v = (\<not> fst v \<longrightarrow> quiet j (set (snd v)) p)"

lemma quiet_after_keep: "quiet_after j p u \<Longrightarrow> configured_ok j defs ps u v \<Longrightarrow> quiet_after j p v"
  unfolding quiet_after_def configured_ok_def grows_def by (blast intro: quiet_mono)

text \<open>A node without reference: what its children leave behind is what it leaves behind.\<close>

lemma node_ok:
  assumes "sc_ref sc = ''''" "\<not> interpolating j sc"
    and "\<And>p. child sc p \<Longrightarrow> p \<in> ps \<and> quiet_after j p v" "\<And>p. p \<in> ps \<Longrightarrow> child sc p"
    and "configured_ok j defs ps u v"
  shows "configured_ok j defs {Some sc} u v \<and> quiet_after j (Some sc) v"
proof
  show "configured_ok j defs {Some sc} u v"
    using assms(5) by (rule configured_ok_mono) (auto intro: needs.child assms(4))
  show "quiet_after j (Some sc) v"
    using assms(1-3) by (auto simp: quiet_after_def intro: quiet.node)
qed

lemma leaf_ok:
  assumes "sc_ref sc = ''''" "\<not> interpolating j sc" "\<And>p. \<not> child sc p"
  shows "configured_ok j defs {Some sc} u u \<and> quiet_after j (Some sc) u"
  by (rule node_ok [where ps = "{}"]) (use assms in auto)

inductive_simps child_iff: "child sc p"

abbreviation runs_ok ::
    "bool \<Rightarrow> (string \<times> schema option) list \<Rightarrow> schema option \<Rightarrow> configured \<Rightarrow> configured \<Rightarrow> bool" where
  "runs_ok j defs p u v \<equiv> configured_ok j defs {p} u v \<and> quiet_after j p v"

lemma ref_ok:
  assumes run: "configure j defs (Some sc) st = Some (Returned st')"
    and st: "\<not> fst st" and ref: "sc_ref sc \<noteq> ''''"
    and IH: "\<And>d. map_of defs (definition_name (sc_ref sc)) = Some d \<Longrightarrow> sc_ref sc \<notin> set (snd st)
      \<Longrightarrow> configure j defs d (fst st, sc_ref sc # snd st) = Some (Returned st')
      \<Longrightarrow> runs_ok j defs d (fst st, sc_ref sc # snd st) st'"
  shows "runs_ok j defs (Some sc) st st'"
proof (cases "sc_ref sc \<in> set (snd st)")
  case True
  with run st ref have "st' = st" by (simp add: configure.simps [of j defs "Some sc" st])
  with True ref show ?thesis by (simp add: quiet_after_def quiet.ref)
next
  case new: False
  let ?st = "(fst st, sc_ref sc # snd st)"
  show ?thesis
  proof (cases "map_of defs (definition_name (sc_ref sc))")
    case None
    with run st ref new have "st' = ?st" by (simp add: configure.simps [of j defs "Some sc" st])
    with None st ref show ?thesis
      by (auto simp: quiet_after_def configured_ok_def grows_def explores_def quiet.ref)
  next
    case (Some d)
    with run st ref new have "configure j defs d ?st = Some (Returned st')"
      by (simp add: configure.simps [of j defs "Some sc" st])
    with Some new have d: "configured_ok j defs {d} ?st st'" "quiet_after j d st'"
      by (auto dest: IH)
    from d Some ref st have "fst st' \<longrightarrow> needs j defs (Some sc)"
      by (auto simp: configured_ok_def intro: needs.ref)
    moreover from d have "sc_ref sc \<in> set (snd st')" "grows st st'"
      by (auto simp: configured_ok_def grows_def)
    moreover from d Some have "\<not> fst st' \<longrightarrow> explores j defs st st'"
      by (auto simp: configured_ok_def explores_def quiet_after_def)
    ultimately show ?thesis
      using ref by (auto simp: configured_ok_def quiet_after_def quiet.ref)
  qed
qed

lemma properties_ok:
  assumes "each_out (\<lambda>p. configure j defs (snd p)) ps st = Some (Returned st')"
    and "\<And>p u v. p \<in> set ps \<Longrightarrow> grows st u \<Longrightarrow> configure j defs (snd p) u = Some (Returned v)
      \<Longrightarrow> runs_ok j defs (snd p) u v"
  shows "configured_ok j defs (snd ` set ps) st st' \<and> (\<forall>p \<in> set ps. quiet_after j (snd p) st')"
proof (rule each_out_spec [OF assms(1)])
  fix p u v
  assume p: "p \<in> set ps" "configured_ok j defs (snd ` set ps) st u"
    "configure j defs (snd p) u = Some (Returned v)"
  then have "runs_ok j defs (snd p) u v" by (intro assms(2)) (auto simp: configured_ok_def)
  with p show "configured_ok j defs (snd ` set ps) u v \<and> quiet_after j (snd p) v"
    by (auto intro: configured_ok_mono)
qed (auto intro: configured_ok_trans quiet_after_keep)

lemma noref_ok:
  assumes run: "configure j defs (Some sc) st = Some (Returned st')"
    and st: "\<not> fst st" and ref: "sc_ref sc = ''''"
    and IH: "\<And>p u v. pointer_size p < pointer_size (Some sc) \<Longrightarrow> grows st u
      \<Longrightarrow> configure j defs p u = Some (Returned v) \<Longrightarrow> runs_ok j defs p u v"
  shows "runs_ok j defs (Some sc) st st'"
proof (cases "interpolating j sc")
  case True
  with run st ref have "st' = (True, snd st)"
    by (auto simp: interpolating_def configure.simps [of j defs "Some sc" st])
  with True show ?thesis
    by (auto simp: configured_ok_def grows_def quiet_after_def intro: needs.here)
next
  case int: False
  note unfold = configure.simps [of j defs "Some sc" st]
  consider (object) ps where "typeString sc = ''object''" "sc_properties sc = Some ps"
    | (array) i where "typeString sc = ''array''" "sc_items sc = Some i"
    | (leaf) "typeString sc = ''object'' \<longrightarrow> sc_properties sc = None"
        "typeString sc = ''array'' \<longrightarrow> sc_items sc = None"
    by fastforce
  then show ?thesis
  proof cases
    case object
    with run st ref have "each_out (\<lambda>p. configure j defs (snd p)) ps st = Some (Returned st')"
      by (simp add: unfold)
    then have "configured_ok j defs (snd ` set ps) st st' \<and> (\<forall>p \<in> set ps. quiet_after j (snd p) st')"
      by (rule properties_ok) (rule IH [OF pointer_size_property [OF object(2)]])
    with ref int object show ?thesis
      by (intro node_ok [where ps = "snd ` set ps"]) (auto simp: child_iff intro: rev_image_eqI)
  next
    case array
    with run st ref have "configure j defs (Some i) st = Some (Returned st')" by (simp add: unfold)
    then have "runs_ok j defs (Some i) st st'"
      by (intro IH) (simp_all add: pointer_size_items [OF array(2)])
    with ref int array show ?thesis
      by (intro node_ok [where ps = "{Some i}"]) (auto simp: child_iff)
  next
    case leaf
    with run st ref int have "st' = st"
      by (auto simp: unfold interpolating_def split: if_splits)
    moreover from leaf have "\<not> child sc p" for p by (auto simp: child_iff)
    ultimately show ?thesis using leaf_ok [OF ref int, of defs st] by simp
  qed
qed

lemma configure_ok: "configure j defs schema st = Some (Returned st') \<Longrightarrow> runs_ok j defs schema st st'"
proof (induction schema st arbitrary: st' rule: configure_induct [where defs = defs])
  case (step schema st)
  show ?case
  proof (cases "fst st")
    case True
    with step.prems show ?thesis by (simp add: configure.simps quiet_after_def)
  next
    case False
    with step.prems obtain sc where schema: "schema = Some sc"
      by (cases schema) (simp_all add: configure.simps)
    note run = step.prems [unfolded schema]
    show ?thesis
    proof (cases "sc_ref sc = ''''")
      case True
      with run False show ?thesis unfolding schema
        by (rule noref_ok) (rule step.IH, simp add: schema grows_def card_open_refs_le)
    next
      case False
      with run \<open>\<not> fst st\<close> show ?thesis unfolding schema
        by (rule ref_ok) (rule step.IH, use open_refs_shrinks in auto)
    qed
  qed
qed

section \<open>The interpolators\<close>

text \<open>\<open>unmarshal\<close> is json.Unmarshal into a Schema.\<close>

definition new_interpolator ::
    "bool \<Rightarrow> (string \<times> schema option) list \<Rightarrow> schema \<Rightarrow> interpolator res outcome option" where
  "new_interpolator json_only defs jsSchema =
     Option.bind (configure json_only defs (Some jsSchema) (False, [])) (\<lambda>r. Some (bind_out r (\<lambda>st.
       Returned (Inr \<lparr>ip_schema = jsSchema, ip_has = fst st, ip_json_only = json_only, ip_defs = defs\<rparr>))))"

definition NewStringInterpolator :: "(string \<Rightarrow> schema res) \<Rightarrow> string \<Rightarrow> interpolator res outcome option" where
  "NewStringInterpolator unmarshal schema =
     (case unmarshal schema of
        Inl err \<Rightarrow> Some (Returned (Inl err))
      | Inr jsSchema \<Rightarrow> new_interpolator False (sc_defs jsSchema) jsSchema)"

text \<open>The interpolator for JSON only leaves its map of definitions nil.\<close>

definition NewStringInterpolatorJSONOnly ::
    "(string \<Rightarrow> schema res) \<Rightarrow> string \<Rightarrow> interpolator res outcome option" where
  "NewStringInterpolatorJSONOnly unmarshal schema =
     (case unmarshal schema of
        Inl err \<Rightarrow> Some (Returned (Inl err))
      | Inr jsSchema \<Rightarrow> new_interpolator True [] jsSchema)"

lemma new_interpolator_iff:
  "new_interpolator j defs sc = Some (Returned (Inr ip)) \<longleftrightarrow>
    (\<exists>st. configure j defs (Some sc) (False, []) = Some (Returned st)
       \<and> ip = \<lparr>ip_schema = sc, ip_has = fst st, ip_json_only = j, ip_defs = defs\<rparr>)"
proof (cases "configure j defs (Some sc) (False, [])")
  case (Some r)
  then show ?thesis by (cases r) (auto simp: new_interpolator_def)
qed (simp add: new_interpolator_def)

lemma new_interpolator_has:
  assumes "new_interpolator j defs sc = Some (Returned (Inr ip))"
  shows "ip_has ip \<longleftrightarrow> needs j defs (Some sc)"
proof -
  from assms obtain st where run: "configure j defs (Some sc) (False, []) = Some (Returned st)"
    and st: "ip_has ip = fst st"
    by (auto simp: new_interpolator_iff)
  then have ok: "configured_ok j defs {Some sc} (False, []) st" "quiet_after j (Some sc) st"
    using configure_ok by blast+
  have "\<not> needs j defs (Some sc)" if "\<not> fst st"
  proof
    assume "needs j defs (Some sc)"
    moreover have "quiet j (set (snd st)) (Some sc)" using ok that by (simp add: quiet_after_def)
    ultimately show False
    proof (rule needs_not_quiet)
      fix r d assume "r \<in> set (snd st)" "map_of defs (definition_name r) = Some d"
      then show "quiet j (set (snd st)) d"
        using ok that by (auto simp: configured_ok_def explores_def)
    qed
  qed
  then show ?thesis using ok st by (auto simp: configured_ok_def)
qed

lemma new_interpolator_fields:
  "new_interpolator j defs sc = Some (Returned (Inr ip)) \<Longrightarrow>
    ip_schema ip = sc \<and> ip_json_only ip = j \<and> ip_defs ip = defs"
  by (auto simp: new_interpolator_iff)

text \<open>A new interpolator has something to interpolate exactly when its schema reaches, over
  fields, elements and definitions, a node of type string or of no type.
\<close>

theorem NewStringInterpolator_has:
  assumes "NewStringInterpolator unmarshal schema = Some (Returned (Inr ip))"
  shows "ip_has ip \<longleftrightarrow> needs False (ip_defs ip) (Some (ip_schema ip))"
  using assms
  by (auto simp: NewStringInterpolator_def new_interpolator_has new_interpolator_fields split: sum.splits)

section \<open>Interpolation\<close>

definition quoted :: "bytes \<Rightarrow> bytes" where
  "quoted value = [CHR 0x22] @ value @ [CHR 0x22]"

text \<open>The schema that a node stands for: its definition, or nothing when that is missing.\<close>

definition resolve_ref :: "(string \<times> schema option) list \<Rightarrow> schema \<Rightarrow> schema option" where
  "resolve_ref defs schema =
     (if sc_ref schema \<noteq> '''' then
        (case map_of defs (definition_name (sc_ref schema)) of Some (Some d) \<Rightarrow> Some d | _ \<Rightarrow> None)
      else Some schema)"

definition interpolate_string :: "json_doc \<Rightarrow> jpath \<Rightarrow> bytes \<Rightarrow> bytes" where
  "interpolate_string js path data =
     (case js_get js data path of
        (value, dataType, Some err) \<Rightarrow> data
      | (value, dataType, None) \<Rightarrow>
          if dataType = NumberT \<or> dataType = BooleanT then js_put js data (quoted value) path else data)"

text \<open>\<open>marshal\<close> is json.Marshal of a string.\<close>

definition interpolate_json :: "json_doc \<Rightarrow> (bytes \<Rightarrow> bytes res) \<Rightarrow> jpath \<Rightarrow> bytes \<Rightarrow> bytes" where
  "interpolate_json js marshal path data =
     (case js_get js data path of
        (value, valueType, Some err) \<Rightarrow> data
      | (value, valueType, None) \<Rightarrow>
          if valueType = StringT then js_put js data (quoted value) path
          else (case marshal value of
                  Inl err \<Rightarrow> data
                | Inr stringified \<Rightarrow> js_put js data stringified path))"

text \<open>
  The switch over the type of a node; \<open>walk\<close> stands for the recursive call. The data are changed
  in place while the fields are walked over; the number of elements of an array is taken before
  its first element is changed.
\<close>

type_synonym walk = "schema option \<Rightarrow> jpath \<Rightarrow> bytes \<Rightarrow> bytes outcome option"

definition traverse_field ::
    "json_doc \<Rightarrow> walk \<Rightarrow> schema \<Rightarrow> jpath \<Rightarrow> string \<times> schema option \<Rightarrow> bytes \<Rightarrow> bytes outcome option" where
  "traverse_field js walk schema path p data =
     (let path = path @ [fst p] in
      if snd (snd (js_get js data path)) \<noteq> None \<and> \<not> IsRequired schema (fst p) then
        (case snd p of
           None \<Rightarrow> Some (Panicked ''nil pointer dereference'')
         | Some _ \<Rightarrow> Some (Returned data))
      else walk (snd p) path data)"

definition traverse_node ::
    "json_doc \<Rightarrow> (bytes \<Rightarrow> bytes res) \<Rightarrow> bool \<Rightarrow> walk \<Rightarrow> schema \<Rightarrow> jpath \<Rightarrow> bytes \<Rightarrow> bytes outcome option" where
  "traverse_node js marshal json_only walk schema path data =
     (if typeString schema = ''string'' then
        Some (Returned (if json_only then data else interpolate_string js path data))
      else if typeString schema = ''object'' then
        (case sc_properties schema of
           None \<Rightarrow> Some (Returned data)
         | Some properties \<Rightarrow>
             each_out (traverse_field js walk schema path) properties data)
      else if typeString schema = ''array'' then
        (case sc_items schema of
           None \<Rightarrow> Some (Returned data)
         | Some items \<Rightarrow>
             each_out (\<lambda>i. walk (Some items) (path @ [index_step i]))
               [0..<length (js_each js data path)] data)
      else if typeString schema = '''' then
        Some (Returned (if \<not> json_only then data else interpolate_json js marshal path data))
      else Some (Returned data))"

lemma traverse_node_mono [partial_function_mono]:
  assumes "\<And>p path d. mono_option (\<lambda>f. W f p path d)"
  shows "mono_option (\<lambda>f. traverse_node js marshal j (W f) sc path data)"
  unfolding traverse_node_def traverse_field_def Let_def
  by (cases "sc_properties sc"; cases "sc_items sc"; simp only: option.case)
    (intro partial_function_mono assms each_out_mono; simp add: assms option.const_mono split: option.split)+

partial_function (option) traverse ::
    "json_doc \<Rightarrow> (bytes \<Rightarrow> bytes res) \<Rightarrow> bool \<Rightarrow> (string \<times> schema option) list \<Rightarrow> walk" where
  "traverse js marshal json_only defs schema path data =
     (case schema of
        None \<Rightarrow> Some (Panicked ''nil pointer dereference'')
      | Some schema \<Rightarrow>
          case resolve_ref defs schema of
            None \<Rightarrow> Some (Returned data)
          | Some schema \<Rightarrow>
              traverse_node js marshal json_only (traverse js marshal json_only defs) schema path data)"

definition Interpolate ::
    "json_doc \<Rightarrow> (bytes \<Rightarrow> bytes res) \<Rightarrow> interpolator \<Rightarrow> bytes \<Rightarrow> bytes outcome option" where
  "Interpolate js marshal s data =
     (if \<not> ip_has s then Some (Returned data)
      else traverse js marshal (ip_json_only s) (ip_defs s) (Some (ip_schema s)) [] data)"

subsection \<open>What interpolation may change\<close>

text \<open>
  Where the walk finds a schema node: \<open>locates defs root path schema\<close>. An element of an array
  is located at any index.
\<close>

inductive locates :: "(string \<times> schema option) list \<Rightarrow> schema \<Rightarrow> jpath \<Rightarrow> schema \<Rightarrow> bool" for defs root where
  root: "resolve_ref defs root = Some sc \<Longrightarrow> locates defs root [] sc"
| property: "locates defs root path sc \<Longrightarrow> typeString sc = ''object'' \<Longrightarrow> sc_properties sc = Some ps
    \<Longrightarrow> (prop, Some q) \<in> set ps \<Longrightarrow> resolve_ref defs q = Some sc' \<Longrightarrow> locates defs root (path @ [prop]) sc'"
| element: "locates defs root path sc \<Longrightarrow> typeString sc = ''array'' \<Longrightarrow> sc_items sc = Some q
    \<Longrightarrow> resolve_ref defs q = Some sc' \<Longrightarrow> locates defs root (path @ [index_step i]) sc'"

text \<open>One change: a located value is quoted, or written as a string.\<close>

inductive adapts ::
    "json_doc \<Rightarrow> (bytes \<Rightarrow> bytes res) \<Rightarrow> bool \<Rightarrow> (string \<times> schema option) list \<Rightarrow> schema \<Rightarrow> bytes \<Rightarrow> bytes \<Rightarrow> bool"
  for js marshal json_only defs root where
  scalar: "\<not> json_only \<Longrightarrow> locates defs root path sc \<Longrightarrow> typeString sc = ''string''
    \<Longrightarrow> js_get js data path = (value, ty, None) \<Longrightarrow> ty = NumberT \<or> ty = BooleanT
    \<Longrightarrow> adapts js marshal json_only defs root data (js_put js data (quoted value) path)"
| raw: "json_only \<Longrightarrow> locates defs root path sc \<Longrightarrow> typeString sc = ''''
    \<Longrightarrow> js_get js data path = (value, StringT, None)
    \<Longrightarrow> adapts js marshal json_only defs root data (js_put js data (quoted value) path)"
| json: "json_only \<Longrightarrow> locates defs root path sc \<Longrightarrow> typeString sc = ''''
    \<Longrightarrow> js_get js data path = (value, ty, None) \<Longrightarrow> ty \<noteq> StringT \<Longrightarrow> marshal value = Inr stringified
    \<Longrightarrow> adapts js marshal json_only defs root data (js_put js data stringified path)"

lemma interpolate_string_adapts:
  "\<not> j \<Longrightarrow> locates defs root path sc \<Longrightarrow> typeString sc = ''string'' \<Longrightarrow>
    (adapts js marshal j defs root)\<^sup>*\<^sup>* data (interpolate_string js path data)"
  by (cases "js_get js data path"; cases "snd (snd (js_get js data path))")
    (auto simp: interpolate_string_def intro!: r_into_rtranclp adapts.scalar)

lemma interpolate_json_adapts:
  "j \<Longrightarrow> locates defs root path sc \<Longrightarrow> typeString sc = '''' \<Longrightarrow>
    (adapts js marshal j defs root)\<^sup>*\<^sup>* data (interpolate_json js marshal path data)"
  by (cases "js_get js data path"; cases "snd (snd (js_get js data path))")
    (auto simp: interpolate_json_def split: sum.split
      intro!: r_into_rtranclp intro: adapts.raw adapts.json)

lemma each_out_rtranclp:
  assumes "each_out f xs s = Some (Returned s')"
    and "\<And>x u v. x \<in> set xs \<Longrightarrow> f x u = Some (Returned v) \<Longrightarrow> R\<^sup>*\<^sup>* u v"
  shows "R\<^sup>*\<^sup>* s s'"
  using each_out_spec [OF assms(1), of "R\<^sup>*\<^sup>*" "\<lambda>_ _. True"] assms(2) by auto

text \<open>The pointer at a path, before it is resolved.\<close>

definition located :: "(string \<times> schema option) list \<Rightarrow> schema \<Rightarrow> jpath \<Rightarrow> schema option \<Rightarrow> bool" where
  "located defs root path p = (\<forall>q sc. p = Some q \<longrightarrow> resolve_ref defs q = Some sc \<longrightarrow> locates defs root path sc)"

inductive node_child :: "schema \<Rightarrow> string \<Rightarrow> schema option \<Rightarrow> bool" where
  "typeString sc = ''object'' \<Longrightarrow> sc_properties sc = Some ps \<Longrightarrow> p \<in> set ps \<Longrightarrow> node_child sc (fst p) (snd p)"
| "typeString sc = ''array'' \<Longrightarrow> sc_items sc = Some q \<Longrightarrow> node_child sc (index_step i) (Some q)"

lemma locates_child:
  "locates defs root path sc \<Longrightarrow> node_child sc step p \<Longrightarrow> located defs root (path @ [step]) p"
  by (auto simp: located_def elim!: node_child.cases intro: locates.intros)

lemma traverse_node_adapts:
  assumes run: "traverse_node js marshal j walk sc path data = Some (Returned data')"
    and at: "locates defs root path sc"
    and walk: "\<And>p step u v. node_child sc step p \<Longrightarrow> walk p (path @ [step]) u = Some (Returned v)
      \<Longrightarrow> (adapts js marshal j defs root)\<^sup>*\<^sup>* u v"
  shows "(adapts js marshal j defs root)\<^sup>*\<^sup>* data data'"
proof -
  consider (string) "typeString sc = ''string''" | (untyped) "typeString sc = ''''"
    | (object) ps where "typeString sc = ''object''" "sc_properties sc = Some ps"
    | (array) q where "typeString sc = ''array''" "sc_items sc = Some q"
    | (other) "data' = data"
    using run by (auto simp: traverse_node_def split: if_splits option.splits)
  then show ?thesis
  proof cases
    case object
    with run have "each_out (traverse_field js walk sc path) ps data = Some (Returned data')"
      by (simp add: traverse_node_def)
    then show ?thesis
    proof (rule each_out_rtranclp)
      fix p u v
      assume "p \<in> set ps" and v: "traverse_field js walk sc path p u = Some (Returned v)"
      then have "node_child sc (fst p) (snd p)" using object by (blast intro: node_child.intros)
      with v walk show "(adapts js marshal j defs root)\<^sup>*\<^sup>* u v"
        by (auto simp: traverse_field_def Let_def split: if_splits option.splits)
    qed
  next
    case array
    with run have "each_out (\<lambda>i. walk (Some q) (path @ [index_step i])) [0..<length (js_each js data path)] data
        = Some (Returned data')" by (simp add: traverse_node_def)
    then show ?thesis
      by (rule each_out_rtranclp) (rule walk, rule node_child.intros(2) [OF array])
  qed (use run at interpolate_string_adapts interpolate_json_adapts in
    \<open>auto simp: traverse_node_def split: if_splits\<close>)
qed

lemma traverse_adapts:
  assumes "traverse js marshal j defs p path data = Some r"
  shows "located defs root path p \<longrightarrow> (\<forall>data'. r = Returned data' \<longrightarrow> (adapts js marshal j defs root)\<^sup>*\<^sup>* data data')"
proof (rule traverse.raw_induct [OF _ assms, where
    P = "\<lambda>js marshal j defs p path data r. located defs root path p \<longrightarrow>
      (\<forall>data'. r = Returned data' \<longrightarrow> (adapts js marshal j defs root)\<^sup>*\<^sup>* data data')"],
    intro impI allI)
  fix trav js marshal j defs p path data r data'
  assume IH: "\<And>js marshal j defs p path data r. trav js marshal j defs p path data = Some r \<Longrightarrow>
      located defs root path p \<longrightarrow>
      (\<forall>data'. r = Returned data' \<longrightarrow> (adapts js marshal j defs root)\<^sup>*\<^sup>* data data')"
    and at: "located defs root path p" and r: "r = Returned data'"
    and run: "(case p of None \<Rightarrow> Some (Panicked ''nil pointer dereference'')
      | Some schema \<Rightarrow> (case resolve_ref defs schema of None \<Rightarrow> Some (Returned data)
        | Some schema \<Rightarrow> traverse_node js marshal j (trav js marshal j defs) schema path data)) = Some r"
  from run r obtain q where p: "p = Some q" by (cases p) auto
  show "(adapts js marshal j defs root)\<^sup>*\<^sup>* data data'"
  proof (cases "resolve_ref defs q")
    case (Some sc)
    with at p have sc: "locates defs root path sc" by (simp add: located_def)
    from run r p Some have "traverse_node js marshal j (trav js marshal j defs) sc path data = Some (Returned data')"
      by simp
    then show ?thesis using sc
      by (rule traverse_node_adapts) (use IH locates_child [OF sc] in blast)
  qed (use run r p in simp)
qed

text \<open>C28: Interpolation changes data only by adapting values in place: it quotes a number or a boolean
  where the schema has type string, and in JSON only mode writes a value as a string where the
  schema has no type.
\<close>

theorem Interpolate_adapts:
  assumes "Interpolate js marshal ip data = Some (Returned data')"
  shows "(adapts js marshal (ip_json_only ip) (ip_defs ip) (ip_schema ip))\<^sup>*\<^sup>* data data'"
proof (cases "ip_has ip")
  case True
  with assms have "traverse js marshal (ip_json_only ip) (ip_defs ip) (Some (ip_schema ip)) [] data
      = Some (Returned data')" by (simp add: Interpolate_def)
  from traverse_adapts [OF this, of "ip_schema ip"] show ?thesis
    by (auto simp: located_def intro: locates.root)
qed (use assms in \<open>simp add: Interpolate_def\<close>)

subsection \<open>When interpolation ends\<close>

text \<open>
  A node can be walked over without data: no circle of references leads from it over required
  fields.
\<close>

inductive required_ok :: "(string \<times> schema option) list \<Rightarrow> schema \<Rightarrow> bool" for defs where
  "(\<And>p q sc'. typeString sc = ''object'' \<Longrightarrow> IsRequired sc p \<Longrightarrow> node_child sc p (Some q)
      \<Longrightarrow> resolve_ref defs q = Some sc' \<Longrightarrow> required_ok defs sc') \<Longrightarrow> required_ok defs sc"

lemma node_child_size: "node_child sc step (Some q) \<Longrightarrow> size q < size sc"
  using pointer_size_property [of sc] pointer_size_items [of sc]
  by (fastforce simp: pointer_size_def elim!: node_child.cases)

lemma required_ok_all:
  assumes defs: "\<And>n d. (n, Some d) \<in> set defs \<Longrightarrow> required_ok defs d"
  shows "required_ok defs sc"
proof (induction sc rule: measure_induct_rule [where f = size])
  case (less sc)
  show ?case
  proof (rule required_ok.intros)
    fix p q sc'
    assume "node_child sc p (Some q)" and q: "resolve_ref defs q = Some sc'"
    then have "required_ok defs q" by (blast intro: less node_child_size)
    then show "required_ok defs sc'"
      using q defs by (auto simp: resolve_ref_def split: if_splits option.splits dest!: map_of_SomeD)
  qed
qed

lemma traverse_Some:
  "traverse js marshal j defs (Some q) path data =
    (case resolve_ref defs q of None \<Rightarrow> Some (Returned data)
     | Some sc \<Rightarrow> traverse_node js marshal j (traverse js marshal j defs) sc path data)"
  by (simp add: traverse.simps [of js marshal j defs "Some q"])

lemma traverse_None: "traverse js marshal j defs None path data = Some (Panicked ''nil pointer dereference'')"
  by (simp add: traverse.simps)

text \<open>
  Documents of bounded depth: \<open>shallow\<close> holds of the documents that interpolation meets, and below
  depth \<open>n\<close> they have neither values nor elements.
\<close>

definition bounded_docs ::
    "json_doc \<Rightarrow> (bytes \<Rightarrow> bytes res) \<Rightarrow> interpolator \<Rightarrow> nat \<Rightarrow> (bytes \<Rightarrow> bool) \<Rightarrow> bool" where
  "bounded_docs js marshal ip n shallow =
     ((\<forall>d path. shallow d \<longrightarrow> n < length path \<longrightarrow> snd (snd (js_get js d path)) \<noteq> None \<and> js_each js d path = [])
      \<and> (\<forall>d d'. shallow d \<longrightarrow> adapts js marshal (ip_json_only ip) (ip_defs ip) (ip_schema ip) d d' \<longrightarrow> shallow d'))"

lemma bounded_docsD:
  assumes "bounded_docs js marshal ip n shallow" "shallow d"
  shows "n < length path \<Longrightarrow> snd (snd (js_get js d path)) \<noteq> None"
    and "n < length path \<Longrightarrow> js_each js d path = []"
    and "(adapts js marshal (ip_json_only ip) (ip_defs ip) (ip_schema ip))\<^sup>*\<^sup>* d d' \<Longrightarrow> shallow d'"
proof -
  show "(adapts js marshal (ip_json_only ip) (ip_defs ip) (ip_schema ip))\<^sup>*\<^sup>* d d' \<Longrightarrow> shallow d'"
    by (induction rule: rtranclp_induct) (use assms in \<open>auto simp: bounded_docs_def\<close>)
qed (use assms in \<open>auto simp: bounded_docs_def\<close>)

lemma traverse_node_total:
  assumes child: "\<And>step p u. node_child sc step p \<Longrightarrow> (js_each js data path = [] \<longrightarrow> typeString sc = ''object'')
      \<Longrightarrow> snd (snd (js_get js u (path @ [step]))) = None \<or> IsRequired sc step \<or> typeString sc = ''array''
      \<Longrightarrow> S u \<Longrightarrow> \<exists>r. walk p (path @ [step]) u = Some r \<and> (\<forall>v. r = Returned v \<longrightarrow> S v)"
    and S: "S data"
  shows "\<exists>r. traverse_node js marshal j walk sc path data = Some r"
proof -
  have fields: "\<exists>r. each_out (traverse_field js walk sc path) ps data = Some r \<and> (\<forall>v. r = Returned v \<longrightarrow> S data \<longrightarrow> S v)"
    if ps: "typeString sc = ''object''" "sc_properties sc = Some ps" for ps
  proof (rule each_out_total [where R = "\<lambda>u v. S u \<longrightarrow> S v"])
    fix p u assume "p \<in> set ps" "S data \<longrightarrow> S u"
    then show "\<exists>r. traverse_field js walk sc path p u = Some r \<and> (\<forall>v. r = Returned v \<longrightarrow> S u \<longrightarrow> S v)"
      using child [OF node_child.intros(1) [OF ps, of p], of u] S ps
      by (cases "snd p") (auto simp: traverse_field_def Let_def)
  qed auto
  have elements: "\<exists>r. each_out (\<lambda>i. walk (Some q) (path @ [index_step i])) [0..<length (js_each js data path)] data = Some r
      \<and> (\<forall>v. r = Returned v \<longrightarrow> S data \<longrightarrow> S v)"
    if q: "typeString sc = ''array''" "sc_items sc = Some q" for q
  proof (rule each_out_total [where R = "\<lambda>u v. S u \<longrightarrow> S v"])
    fix i u assume "i \<in> set [0..<length (js_each js data path)]" "S data \<longrightarrow> S u"
    then have "js_each js data path \<noteq> []" "S u" using S by auto
    then show "\<exists>r. walk (Some q) (path @ [index_step i]) u = Some r \<and> (\<forall>v. r = Returned v \<longrightarrow> S u \<longrightarrow> S v)"
      using child [OF node_child.intros(2) [OF q, of i], of u] q by auto
  qed auto
  show ?thesis
    using fields elements by (fastforce simp: traverse_node_def split: option.split)
qed

abbreviation "walk_of js marshal ip \<equiv> traverse js marshal (ip_json_only ip) (ip_defs ip)"

abbreviation "node_of js marshal ip \<equiv>
  traverse_node js marshal (ip_json_only ip) (walk_of js marshal ip)"

abbreviation "at_node ip \<equiv> locates (ip_defs ip) (ip_schema ip)"

text \<open>A pointer is walked over when the node it stands for is; what is left stays shallow.\<close>

lemma walk_of_total:
  assumes docs: "bounded_docs js marshal ip n shallow"
    and at: "located (ip_defs ip) (ip_schema ip) path p" and u: "shallow u"
    and node: "\<And>q sc. p = Some q \<Longrightarrow> resolve_ref (ip_defs ip) q = Some sc \<Longrightarrow> at_node ip path sc
      \<Longrightarrow> \<exists>r. node_of js marshal ip sc path u = Some r"
  shows "\<exists>r. walk_of js marshal ip p path u = Some r \<and> (\<forall>v. r = Returned v \<longrightarrow> shallow v)"
proof -
  have "\<exists>r. walk_of js marshal ip p path u = Some r"
  proof (cases p)
    case (Some q)
    then show ?thesis using at node by (auto simp: traverse_Some located_def split: option.split)
  qed (simp add: traverse_None)
  then show ?thesis
    using traverse_adapts at bounded_docsD(3) [OF docs u] by blast
qed

lemma node_of_total:
  assumes docs: "bounded_docs js marshal ip n shallow"
    and defs: "\<And>name d. (name, Some d) \<in> set (ip_defs ip) \<Longrightarrow> required_ok (ip_defs ip) d"
  shows "at_node ip path sc \<Longrightarrow> shallow data \<Longrightarrow> \<exists>r. node_of js marshal ip sc path data = Some r"
proof (induction "Suc n - length path" arbitrary: path sc data rule: less_induct)
  case outer: less
  have "required_ok (ip_defs ip) sc" using defs by (rule required_ok_all)
  from this outer.prems outer.hyps show ?case
  proof (induction arbitrary: path data rule: required_ok.induct)
    case (1 sc path data)
    show ?case
    proof (rule traverse_node_total [where S = shallow])
      fix step p u
      assume c: "node_child sc step p" and each: "js_each js data path = [] \<longrightarrow> typeString sc = ''object''"
        and get: "snd (snd (js_get js u (path @ [step]))) = None \<or> IsRequired sc step \<or> typeString sc = ''array''"
        and u: "shallow u"
      from \<open>at_node ip path sc\<close> c have at: "located (ip_defs ip) (ip_schema ip) (path @ [step]) p"
        by (rule locates_child)
      show "\<exists>r. walk_of js marshal ip p (path @ [step]) u = Some r \<and> (\<forall>v. r = Returned v \<longrightarrow> shallow v)"
        using docs at u
      proof (rule walk_of_total)
        fix q sc' assume p: "p = Some q" "resolve_ref (ip_defs ip) q = Some sc'"
          and sc': "at_node ip (path @ [step]) sc'"
        show "\<exists>r. node_of js marshal ip sc' (path @ [step]) u = Some r"
        proof (cases "length path \<le> n")
          case True
          then show ?thesis using "1.prems"(3) [of "path @ [step]" sc' u] sc' u by simp
        next
          case False
          then have "typeString sc = ''object''" "IsRequired sc step"
            using each get bounded_docsD(1,2) [OF docs] u \<open>shallow data\<close> by auto
          then show ?thesis
            using "1.IH" [of step q sc' "path @ [step]" u] c p sc' u False by simp
        qed
      qed
    next
      show "shallow data" using "1.prems" by simp
    qed
  qed
qed

text \<open>C29: Interpolation returns (or panics) on every document of bounded depth, also for a schema that
  refers to itself, as long as no definition requires itself over required fields only.
\<close>

theorem Interpolate_returns:
  assumes "bounded_docs js marshal ip n shallow"
    and "\<And>name d. (name, Some d) \<in> set (ip_defs ip) \<Longrightarrow> required_ok (ip_defs ip) d"
    and "shallow data"
  shows "\<exists>r. Interpolate js marshal ip data = Some r"
proof -
  have "\<exists>r. walk_of js marshal ip (Some (ip_schema ip)) [] data = Some r
      \<and> (\<forall>v. r = Returned v \<longrightarrow> shallow v)"
    by (rule walk_of_total [OF assms(1) _ assms(3)])
      (auto simp: located_def intro: locates.root node_of_total [OF assms(1,2) _ assms(3)])
  then show ?thesis by (auto simp: Interpolate_def)
qed

lemma each_out_member:
  assumes "each_out f xs s = Some (Returned s')" "x \<in> set xs"
  shows "\<exists>u v. f x u = Some (Returned v)"
  using assms
proof (induction xs arbitrary: s)
  case (Cons y ys)
  then show ?case by (auto simp: each_out_Cons_iff simp del: each_out.simps)
qed simp

text \<open>When a definition requires a field that refers to this definition again, no walk that comes
  to the reference returns, whatever the data are.
\<close>

theorem required_circle_never_returns:
  assumes circle: "sc_ref q = ref" "ref \<noteq> ''''" "map_of defs (definition_name ref) = Some (Some d)"
    and d: "typeString d = ''object''" "sc_properties d = Some ps" "(name, Some q) \<in> set ps" "IsRequired d name"
  shows "traverse js marshal json_only defs (Some q) path data \<noteq> Some (Returned data')"
proof
  assume run: "traverse js marshal json_only defs (Some q) path data = Some (Returned data')"
  have "defs = defs \<longrightarrow> Some q = Some q \<longrightarrow> (\<forall>v. Returned data' \<noteq> Returned v)"
  proof (rule traverse.raw_induct [OF _ run, where
      P = "\<lambda>_ _ _ defs' p _ _ r. defs' = defs \<longrightarrow> p = Some q \<longrightarrow> (\<forall>v. r \<noteq> Returned v)"], intro impI allI notI)
    fix trav js marshal j defs' p path data r v
    assume IH: "\<And>js marshal j defs' p path data r. trav js marshal j defs' p path data = Some r \<Longrightarrow>
        defs' = defs \<longrightarrow> p = Some q \<longrightarrow> (\<forall>v. r \<noteq> Returned v)"
      and run: "(case p of None \<Rightarrow> Some (Panicked ''nil pointer dereference'')
        | Some schema \<Rightarrow> (case resolve_ref defs' schema of None \<Rightarrow> Some (Returned data)
          | Some schema \<Rightarrow> traverse_node js marshal j (trav js marshal j defs') schema path data)) = Some r"
      and args: "defs' = defs" "p = Some q" "r = Returned v"
    from circle have "resolve_ref defs q = Some d" by (simp add: resolve_ref_def)
    with run args d have "each_out (traverse_field js (trav js marshal j defs) d path) ps data = Some (Returned v)"
      by (simp add: traverse_node_def)
    from each_out_member [OF this d(3)] obtain u w where
      "traverse_field js (trav js marshal j defs) d path (name, Some q) u = Some (Returned w)" by blast
    with d(4) have "trav js marshal j defs (Some q) (path @ [name]) u = Some (Returned w)"
      by (simp add: traverse_field_def)
    from IH [OF this] show False by simp
  qed
  then show False by simp
qed

text \<open>The JSON interpolator does not know the definitions of its schema: when all fields of an
  object refer to definitions, it changes nothing, whatever the definitions say.
\<close>

theorem json_only_ignores_definitions:
  assumes "NewStringInterpolatorJSONOnly unmarshal schema = Some (Returned (Inr ip))"
    and "unmarshal schema = Inr sc" "typeString sc = ''object''" "sc_properties sc = Some ps"
    and "\<And>name q. (name, Some q) \<in> set ps \<Longrightarrow> sc_ref q \<noteq> ''''"
  shows "Interpolate js marshal ip data = Some (Returned data)"
proof -
  from assms(1,2) have new: "new_interpolator True [] sc = Some (Returned (Inr ip))"
    by (simp add: NewStringInterpolatorJSONOnly_def)
  have "\<not> needs True [] (Some sc)"
  proof
    have fields: "needs True [] p \<Longrightarrow> p = Some q \<Longrightarrow> sc_ref q = ''''" for p q
      by (induction arbitrary: q rule: needs.induct) (auto simp: interpolating_def child_iff)
    assume "needs True [] (Some sc)"
    then show False
    proof cases
      case (child p)
      then obtain name where "(name, p) \<in> set ps" using assms(3,4) by (auto simp: child_iff)
      moreover from child obtain q where "p = Some q" by (auto elim: needs.cases)
      ultimately show False using child assms(5) fields by blast
    qed (use assms(3) in \<open>simp_all add: interpolating_def\<close>)
  qed
  with new show ?thesis by (simp add: new_interpolator_has Interpolate_def)
qed

section \<open>A sample schema\<close>

declare configure.simps [code] traverse.simps [code]

text \<open>A filter over a list of filters, as the database data source has them.\<close>

definition ref_schema :: "string \<Rightarrow> schema" where
  "ref_schema name = Schema TypeOther None None [] (''#/$defs/'' @ name) []"

definition sample_filter :: schema where
  "sample_filter = Schema (TypeString ''object'')
     (Some [(''name'', Some (Schema (TypeList [Some ''null'', Some ''string'']) None None [] '''' [])),
            (''AND'', Some (Schema (TypeString ''array'') None (Some (ref_schema ''Filter'')) [] '''' []))])
     None [] '''' []"

definition sample_schema :: schema where
  "sample_schema = Schema (TypeString ''object'') (Some [(''where'', Some (ref_schema ''Filter''))]) None
     [''where''] '''' [(''Filter'', Some sample_filter)]"

definition sample_ip :: interpolator where
  "sample_ip = \<lparr>ip_schema = sample_schema, ip_has = True, ip_json_only = False,
     ip_defs = [(''Filter'', Some sample_filter)]\<rparr>"

text \<open>A document whose only value is the number at \<open>where.name\<close>.\<close>

definition sample_doc :: json_doc where
  "sample_doc = \<lparr>js_get = (\<lambda>d path. if path = [''where'', ''name''] then (d, NumberT, None)
       else if path = [''where''] then (d, ObjectT, None) else ([], NotExist, Some (Err ''Key path not found''))),
     js_set = (\<lambda>d v path. (v, None)), js_delete = (\<lambda>d _. d), js_offset = (\<lambda>_ _. 0), js_each = (\<lambda>_ _. [])\<rparr>"

lemma sample_new: "NewStringInterpolator (\<lambda>_. Inr sample_schema) [] = Some (Returned (Inr sample_ip))"
  by code_simp

lemma sample_run: "Interpolate sample_doc Inr sample_ip ''7'' = Some (Returned (quoted ''7''))"
  by code_simp

theorem NewStringInterpolator_has_witness: "needs False (ip_defs sample_ip) (Some (ip_schema sample_ip))"
  using NewStringInterpolator_has [OF sample_new] by (simp add: sample_ip_def)

theorem Interpolate_adapts_witness:
  "(adapts sample_doc Inr False (ip_defs sample_ip) sample_schema)\<^sup>*\<^sup>* ''7'' (quoted ''7'')"
  using Interpolate_adapts [OF sample_run] by (simp add: sample_ip_def)

lemma sample_required_ok: "required_ok (ip_defs sample_ip) sample_filter"
  by (rule required_ok.intros) (simp add: sample_filter_def IsRequired_def)

theorem Interpolate_returns_witness: "\<exists>r. Interpolate sample_doc Inr sample_ip ''7'' = Some r"
proof (rule Interpolate_returns [where n = 2 and shallow = "\<lambda>_. True"])
  show "bounded_docs sample_doc Inr sample_ip 2 (\<lambda>_. True)"
    by (simp add: bounded_docs_def sample_doc_def)
  show "required_ok (ip_defs sample_ip) d" if "(name, Some d) \<in> set (ip_defs sample_ip)" for name d
    using that sample_required_ok by (simp add: sample_ip_def)
qed simp

text \<open>The same filter where the name of the inner filter is required.\<close>

definition circle_schema :: schema where
  "circle_schema = Schema (TypeString ''object'') (Some [(''not'', Some (ref_schema ''Filter''))]) None
     [''not''] '''' []"

theorem required_circle_never_returns_witness:
  "traverse sample_doc Inr False [(''Filter'', Some circle_schema)] (Some (ref_schema ''Filter'')) [] ''7''
     \<noteq> Some (Returned data')"
  by (rule required_circle_never_returns [where ref = "''#/$defs/Filter''" and d = circle_schema
        and name = "''not''" and ps = "[(''not'', Some (ref_schema ''Filter''))]"])
    (simp_all add: circle_schema_def ref_schema_def definition_name_def trim_prefix_def has_prefix_def
      typeString_def IsRequired_def)

text \<open>An untyped field behind a definition: what the JSON interpolator should turn into a string.\<close>

definition json_schema :: schema where
  "json_schema = Schema (TypeString ''object'') (Some [(''where'', Some (ref_schema ''Json''))]) None
     [''where''] '''' [(''Json'', Some (Schema TypeOther None None [] '''' []))]"

definition json_ip :: interpolator where
  "json_ip = \<lparr>ip_schema = json_schema, ip_has = False, ip_json_only = True, ip_defs = []\<rparr>"

lemma json_new: "NewStringInterpolatorJSONOnly (\<lambda>_. Inr json_schema) [] = Some (Returned (Inr json_ip))"
  by code_simp

theorem json_only_ignores_definitions_witness:
  "Interpolate sample_doc Inr json_ip ''7'' = Some (Returned ''7'')"
  by (rule json_only_ignores_definitions [OF json_new refl])
    (auto simp: json_schema_def typeString_def ref_schema_def)

section \<open>The validator of the variables\<close>

text \<open>
  pkg/inputvariables: the JSON schema library reads a schema and lists what is wrong with a
  document. The debug mode only prints.
\<close>

record 's variables_validator =
  vv_schema :: 's
  vv_schema_string :: string
  vv_debug :: bool

definition NewValidator :: "(string \<Rightarrow> 's res) \<Rightarrow> string \<Rightarrow> bool \<Rightarrow> 's variables_validator res" where
  "NewValidator unmarshal schema enableDebugMode =
     (case unmarshal schema of
        Inl err \<Rightarrow> Inl err
      | Inr sc \<Rightarrow> Inr \<lparr>vv_schema = sc, vv_schema_string = schema, vv_debug = enableDebugMode\<rparr>)"

definition ValidateVariables ::
    "('s \<Rightarrow> bytes \<Rightarrow> 'e list \<times> go_error option) \<Rightarrow> 's variables_validator \<Rightarrow> bytes \<Rightarrow> bool" where
  "ValidateVariables validate_bytes v variables =
     (case validate_bytes (vv_schema v) variables of (errs, err) \<Rightarrow> err = None \<and> length errs = 0)"

end
