(* ===== verification/EngineConfig.thy ===== *)
theory EngineConfig
  imports LoadVariable Hooks
begin

text \<open>
  pkg/engineconfigloader: the plan configuration of the GraphQL engine from the messages of the
  WunderGraph configuration, and the factory and HTTP client of every data source. Parameters are
  the environment, the X.509 parser, the JSON codecs and the transport that wraps a client. The
  custom part of a data source stands for the JSON text that its planner reads back.
\<close>

section \<open>Clients and factories\<close>

record tls_transport =
  tt_cert :: string
  tt_key :: string
  tt_root_cas :: "string list"
  tt_insecure :: bool
  tt_dial_timeout :: int
  tt_keep_alive :: int
  tt_max_idle :: int
  tt_idle_timeout :: int
  tt_handshake_timeout :: int

datatype base_transport = BaseTransport | TlsTransport tls_transport

text \<open>An http.Client: its timeout (0 is none), and the transport that RoundTripper wraps.\<close>

record http_client =
  cl_timeout :: int
  cl_transport :: base_transport
  cl_streaming :: bool

datatype planner_factory =
    GraphqlFactory (gf_client: http_client) (gf_streaming: http_client) (gf_ws_init: "string option")
  | RestFactory (rf_client: http_client)
  | StaticFactory
  | DatabaseFactory (df_client: http_client)

text \<open>
  What the loader gets from outside: the environment, tls.X509KeyPair of a certificate and a key,
  and the timeout of the API transport factory.
\<close>

record loader_env =
  le_getenv :: "string \<Rightarrow> string"
  le_key_pair :: "string \<Rightarrow> string \<Rightarrow> go_error option"
  le_timeout :: int

record default_resolver =
  dr_graphql_client :: http_client
  dr_graphql_streaming :: http_client
  dr_rest_client :: http_client
  dr_database_client :: http_client

definition NewDefaultFactoryResolver :: "loader_env \<Rightarrow> default_resolver" where
  "NewDefaultFactoryResolver env =
     (let defaultHttpClient = \<lparr>cl_timeout = le_timeout env, cl_transport = BaseTransport, cl_streaming = False\<rparr>;
          streamingClient = \<lparr>cl_timeout = 0, cl_transport = BaseTransport, cl_streaming = True\<rparr> in
      \<lparr>dr_graphql_client = defaultHttpClient, dr_graphql_streaming = streamingClient,
       dr_rest_client = defaultHttpClient, dr_database_client = defaultHttpClient\<rparr>)"

definition requiresCustomHTTPClient :: "datasource option \<Rightarrow> fetch_config option \<Rightarrow> bool" where
  "requiresCustomHTTPClient ds cfg =
     (if (case ds of Some ds \<Rightarrow> 0 < ds_timeout_seconds ds | None \<Rightarrow> False) then True
      else (case cfg of Some cfg \<Rightarrow> fc_mtls cfg \<noteq> None | None \<Rightarrow> False))"

definition customTLSRoundTripper :: "loader_env \<Rightarrow> mtls_config \<Rightarrow> base_transport res" where
  "customTLSRoundTripper env mTLS =
     (let privateKey = load_string (le_getenv env) (mt_key mTLS);
          caCert = load_string (le_getenv env) (mt_cert mTLS) in
      if privateKey = '''' \<or> caCert = '''' then Inl (Err ''invalid key/cert in mTLS configuration'')
      else
        (case le_key_pair env caCert privateKey of
           Some err \<Rightarrow> Inl (Wrap ''unable to build key pair'' err)
         | None \<Rightarrow> Inr (TlsTransport
             \<lparr>tt_cert = caCert, tt_key = privateKey, tt_root_cas = [caCert],
              tt_insecure = mt_insecure mTLS, tt_dial_timeout = 10 * second, tt_keep_alive = 90 * second,
              tt_max_idle = 1024, tt_idle_timeout = 90 * second, tt_handshake_timeout = 10 * second\<rparr>)))"

definition newHTTPClient ::
    "loader_env \<Rightarrow> datasource option \<Rightarrow> fetch_config option \<Rightarrow> http_client res" where
  "newHTTPClient env ds cfg =
     (let timeout = (case ds of
            Some ds \<Rightarrow> (if 0 < ds_timeout_seconds ds then wrap64 (ds_timeout_seconds ds * second)
                         else le_timeout env)
          | None \<Rightarrow> le_timeout env) in
      bind_res
        (case cfg of
           Some cfg \<Rightarrow> (case fc_mtls cfg of Some mTLS \<Rightarrow> customTLSRoundTripper env mTLS | None \<Rightarrow> Inr BaseTransport)
         | None \<Rightarrow> Inr BaseTransport)
        (\<lambda>transport. Inr \<lparr>cl_timeout = timeout, cl_transport = transport, cl_streaming = False\<rparr>))"

definition database_kinds :: "ds_kind list" where
  "database_kinds = [DS_POSTGRESQL, DS_MYSQL, DS_SQLSERVER, DS_MONGODB, DS_SQLITE]"

text \<open>
  The factory of a data source: a client of its own when its timeout or mTLS asks for one. A
  missing part of the configuration is dereferenced.
\<close>

definition own_client ::
    "loader_env \<Rightarrow> datasource \<Rightarrow> fetch_config option \<Rightarrow> http_client \<Rightarrow> http_client res" where
  "own_client env ds cfg shared =
     (if requiresCustomHTTPClient (Some ds) cfg then newHTTPClient env (Some ds) cfg else Inr shared)"

definition Resolve ::
    "loader_env \<Rightarrow> default_resolver \<Rightarrow> datasource \<Rightarrow> planner_factory option res outcome" where
  "Resolve env d ds =
     (case ds_kind ds of
        DS_GRAPHQL \<Rightarrow>
          bind_out (deref (ds_graphql ds)) (\<lambda>graphql.
            case own_client env ds (gd_fetch graphql) (dr_graphql_client d) of
              Inl err \<Rightarrow> Returned (Inl err)
            | Inr client \<Rightarrow>
                bind_out (deref (gd_hooks graphql)) (\<lambda>hooks.
                  Returned (Inr (Some (GraphqlFactory client (dr_graphql_streaming d)
                    (if gk_ws_init hooks then Some (ds_id ds) else None))))))
      | DS_REST \<Rightarrow>
          bind_out (deref (ds_rest ds)) (\<lambda>rest.
            Returned (bind_res (own_client env ds (rest_fetch rest) (dr_rest_client d))
              (\<lambda>client. Inr (Some (RestFactory client)))))
      | DS_STATIC \<Rightarrow> Returned (Inr (Some StaticFactory))
      | _ \<Rightarrow>
          Returned (bind_res (own_client env ds None (dr_database_client d))
            (\<lambda>client. Inr (Some (DatabaseFactory client)))))"

text \<open>
  The callback of a GraphQL data source at the start of a websocket connection. \<open>marshal\<close>,
  \<open>marshal_user\<close> and \<open>unmarshal\<close> are the JSON codecs of its payload, the user and its answer.
\<close>

definition onWsConnectionInitCallback ::
    "hook_client \<Rightarrow> (string \<Rightarrow> wg_request \<Rightarrow> bytes res) \<Rightarrow> (user \<Rightarrow> bytes res) \<Rightarrow> (bytes option \<Rightarrow> bytes res)
      \<Rightarrow> string \<Rightarrow> user option \<Rightarrow> request option \<Rightarrow> string \<Rightarrow> header \<Rightarrow> bytes res" where
  "onWsConnectionInitCallback client marshal marshal_user unmarshal dataSourceID user clientRequest url header =
     (case marshal dataSourceID \<lparr>wr_method = '''', wr_uri = url, wr_headers = HeaderSliceToCSV header, wr_body = []\<rparr> of
        Inl err \<Rightarrow> Inl err
      | Inr hookData \<Rightarrow>
          (let hookData = (case user of
                 None \<Rightarrow> hookData
               | Some user \<Rightarrow> (case marshal_user user of
                     Inl _ \<Rightarrow> hookData
                   | Inr userJson \<Rightarrow> js_put (hc_json client) hookData userJson [''__wg'', ''user''])) in
           case DoWsTransportRequest client clientRequest WsTransportOnConnectionInit hookData of
             Inl err \<Rightarrow> Inl err
           | Inr out \<Rightarrow> unmarshal (hr_response out)))"

lemma own_client_mtls:
  assumes "own_client env ds (Some cfg) shared = Inr client" "fc_mtls cfg = Some mTLS"
  shows "customTLSRoundTripper env mTLS = Inr (cl_transport client)"
proof -
  from assms have "newHTTPClient env (Some ds) (Some cfg) = Inr client"
    by (simp add: own_client_def requiresCustomHTTPClient_def split: if_splits)
  then show ?thesis using assms(2) by (auto simp: newHTTPClient_def bind_res_Inr_iff)
qed

section \<open>The plan configuration\<close>

datatype plan_source = FieldArgumentSource | ObjectFieldSource
datatype plan_render = RenderArgumentDefault | RenderArgumentAsArrayCSV | RenderArgumentAsGraphQLValue

record plan_argument =
  pa_name :: string
  pa_path :: "string list"
  pa_source :: plan_source
  pa_render :: plan_render

record plan_field =
  pf_type :: string
  pf_field :: string
  pf_disable_mapping :: bool
  pf_path :: "string list"
  pf_args :: "plan_argument list"
  pf_requires :: "string list"
  pf_unescape :: bool

record oas_mapping =
  om_code :: int
  om_code_text :: bytes
  om_inject :: bool
  om_type :: bytes

record oas_fetch =
  of_url :: string
  of_method :: string
  of_header :: header
  of_query :: "url_query list"
  of_body :: string
  of_url_encode :: bool

record oas_config =
  oc_fetch :: oas_fetch
  oc_interval :: int
  oc_skip_same :: bool
  oc_mappings :: "oas_mapping list"
  oc_default_type :: string

record graphql_config =
  gc_url :: string
  gc_method :: string
  gc_header :: header
  gc_federation :: bool
  gc_sdl :: string
  gc_subscription_url :: string
  gc_sse :: bool
  gc_schema :: string

record database_config =
  dbc_url :: string
  dbc_prisma :: string
  dbc_graphql :: string
  dbc_close_timeout :: int
  dbc_json_fields :: "single_type_field list"
  dbc_json_inputs :: "string list"
  dbc_dir :: string

datatype custom_config =
    RestConfig oas_config | StaticConfig string | GraphqlConfig graphql_config | DatabaseConfig database_config

record plan_datasource =
  pd_factory :: planner_factory
  pd_custom :: custom_config
  pd_root_nodes :: "type_field list"
  pd_child_nodes :: "type_field list"
  pd_directives :: "directive_config list"

record plan_config =
  pc_flush :: int
  pc_fields :: "plan_field list"
  pc_types :: "type_config list"
  pc_datasources :: "plan_datasource list"

definition load_argument :: "argument_config \<Rightarrow> plan_argument" where
  "load_argument a =
     \<lparr>pa_name = ag_name a, pa_path = ag_path a,
      pa_source = (case ag_source a of FIELD_ARGUMENT \<Rightarrow> FieldArgumentSource | OBJECT_FIELD \<Rightarrow> ObjectFieldSource),
      pa_render = (case ag_render a of
          RENDER_DEFAULT \<Rightarrow> RenderArgumentDefault
        | RENDER_ARRAY_CSV \<Rightarrow> RenderArgumentAsArrayCSV
        | RENDER_GRAPHQL_VALUE \<Rightarrow> RenderArgumentAsGraphQLValue)\<rparr>"

definition load_field :: "field_config \<Rightarrow> plan_field" where
  "load_field c =
     \<lparr>pf_type = fd_type c, pf_field = fd_field c, pf_disable_mapping = fd_disable_mapping c,
      pf_path = fd_path c, pf_args = map load_argument (fd_args c), pf_requires = fd_requires c,
      pf_unescape = fd_unescape c\<rparr>"

definition buildFetchUrl :: "string \<Rightarrow> string \<Rightarrow> string \<Rightarrow> string" where
  "buildFetchUrl url baseUrl path =
     (if url \<noteq> '''' then url else trim_suffix baseUrl ''/'' @ ''/'' @ trim_prefix path ''/'')"

text \<open>The method String of an HTTP method.\<close>

fun method_name :: "http_method \<Rightarrow> string" where
  "method_name HTTP_GET = ''GET''"
| "method_name HTTP_POST = ''POST''"
| "method_name HTTP_PUT = ''PUT''"
| "method_name HTTP_DELETE = ''DELETE''"
| "method_name HTTP_OPTIONS = ''OPTIONS''"

definition provider_of :: "ds_kind \<Rightarrow> string" where
  "provider_of kind =
     (case kind of DS_POSTGRESQL \<Rightarrow> ''postgresql'' | DS_MONGODB \<Rightarrow> ''mongodb'' | DS_MYSQL \<Rightarrow> ''mysql''
      | DS_SQLSERVER \<Rightarrow> ''sqlserver'' | DS_SQLITE \<Rightarrow> ''sqlite'' | _ \<Rightarrow> '''')"

definition newline :: string where
  "newline = [char_of (10 :: nat)]"

definition addDataSourceToPrismaSchema :: "string \<Rightarrow> string \<Rightarrow> ds_kind \<Rightarrow> string" where
  "addDataSourceToPrismaSchema schema databaseURL kind =
     (let provider = provider_of kind; q = [CHR 0x22] in
      if provider = '''' then schema
      else ''datasource db {'' @ newline
        @ ''  url      = '' @ q @ databaseURL @ q @ newline
        @ ''  provider = '' @ q @ provider @ q @ newline
        @ ''}'' @ newline @ newline @ schema)"

text \<open>The headers of a data source, in the order in which the map is ranged over.\<close>

fun add_values :: "(string \<Rightarrow> string) \<Rightarrow> string \<Rightarrow> cvar list \<Rightarrow> header \<Rightarrow> header" where
  "add_values env s [] h = h"
| "add_values env s (v # vs) h = add_values env s vs (header_add s (load_string env v) h)"

fun load_header :: "(string \<Rightarrow> string) \<Rightarrow> (string \<times> http_header) list \<Rightarrow> header \<Rightarrow> header" where
  "load_header env [] h = h"
| "load_header env ((s, httpHeader) # hs) h = load_header env hs (add_values env s (hh_values httpHeader) h)"

definition fetch_url :: "(string \<Rightarrow> string) \<Rightarrow> fetch_config \<Rightarrow> string" where
  "fetch_url env fetch =
     buildFetchUrl (load_string env (fc_url fetch)) (load_string env (fc_base_url fetch)) (load_string env (fc_path fetch))"

definition load_mapping :: "status_mapping \<Rightarrow> oas_mapping" where
  "load_mapping m =
     \<lparr>om_code = sm_code m, om_code_text = itoa_int (sm_code m), om_inject = sm_inject m,
      om_type = [CHR 0x22] @ sm_type m @ [CHR 0x22]\<rparr>"

definition load_rest :: "(string \<Rightarrow> string) \<Rightarrow> datasource \<Rightarrow> custom_config outcome" where
  "load_rest env ds =
     bind_out (deref (ds_rest ds)) (\<lambda>rest.
     bind_out (deref (rest_fetch rest)) (\<lambda>fetch.
     bind_out (deref (rest_subscription rest)) (\<lambda>subscription.
       Returned (RestConfig
         \<lparr>oc_fetch = \<lparr>of_url = fetch_url env fetch, of_method = method_name (fc_method fetch),
            of_header = load_header env (fc_header fetch) no_header, of_query = fc_query fetch,
            of_body = load_string env (fc_body fetch), of_url_encode = fc_url_encode fetch\<rparr>,
          oc_interval = rs_interval subscription, oc_skip_same = rs_skip_same subscription,
          oc_mappings = map load_mapping (rest_mappings rest), oc_default_type = rest_default_type rest\<rparr>))))"

definition load_graphql :: "(string \<Rightarrow> string) \<Rightarrow> datasource \<Rightarrow> custom_config outcome" where
  "load_graphql env ds =
     bind_out (deref (ds_graphql ds)) (\<lambda>graphql.
     bind_out (deref (gd_fetch graphql)) (\<lambda>fetch.
     bind_out (deref (gd_subscription graphql)) (\<lambda>subscription.
     bind_out (deref (gd_federation graphql)) (\<lambda>federation.
       let fetchUrl = fetch_url env fetch;
           subscriptionUrl = load_string env (gs_url subscription) in
       Returned (GraphqlConfig
         \<lparr>gc_url = fetchUrl, gc_method = method_name (fc_method fetch),
          gc_header = load_header env (fc_header fetch) no_header,
          gc_federation = gf_enabled federation, gc_sdl = gf_sdl federation,
          gc_subscription_url = (if subscriptionUrl = '''' then fetchUrl else subscriptionUrl),
          gc_sse = gs_sse subscription, gc_schema = gd_schema graphql\<rparr>)))))"

definition load_database :: "(string \<Rightarrow> string) \<Rightarrow> string \<Rightarrow> ds_kind \<Rightarrow> database_ds \<Rightarrow> custom_config" where
  "load_database env dir kind db =
     (let databaseURL = load_string env (db_url db) in
      DatabaseConfig
        \<lparr>dbc_url = databaseURL, dbc_prisma = addDataSourceToPrismaSchema (db_prisma db) databaseURL kind,
         dbc_graphql = db_graphql db,
         dbc_close_timeout = (if db_close_timeout db = 0 then 30 else db_close_timeout db),
         dbc_json_fields = db_json_fields db, dbc_json_inputs = db_json_inputs db, dbc_dir = dir\<rparr>)"

text \<open>The custom part by kind; a database without configuration is skipped (\<open>None\<close>).\<close>

definition load_custom :: "(string \<Rightarrow> string) \<Rightarrow> string \<Rightarrow> datasource \<Rightarrow> custom_config option outcome" where
  "load_custom env dir ds =
     (case ds_kind ds of
        DS_REST \<Rightarrow> bind_out (load_rest env ds) (\<lambda>c. Returned (Some c))
      | DS_STATIC \<Rightarrow> bind_out (deref (ds_static ds)) (\<lambda>static. Returned (Some (StaticConfig (load_string env (sd_data static)))))
      | DS_GRAPHQL \<Rightarrow> bind_out (load_graphql env ds) (\<lambda>c. Returned (Some c))
      | kind \<Rightarrow> Returned (map_option (load_database env dir kind) (ds_database ds)))"

definition load_directive :: "directive_config \<Rightarrow> directive_config" where
  "load_directive d = \<lparr>dc_name = dc_name d, dc_rename = dc_name d\<rparr>"

type_synonym resolver = "datasource \<Rightarrow> planner_factory option res outcome"

fun resolveFactory :: "resolver list \<Rightarrow> resolver" where
  "resolveFactory [] ds = Returned (Inr None)"
| "resolveFactory (r # rs) ds =
     bind_out (r ds) (\<lambda>res. case res of
       Inl err \<Rightarrow> Returned (Inl err)
     | Inr (Some factory) \<Rightarrow> Returned (Inr (Some factory))
     | Inr None \<Rightarrow> resolveFactory rs ds)"

fun load_datasources ::
    "(string \<Rightarrow> string) \<Rightarrow> string \<Rightarrow> resolver list \<Rightarrow> datasource list \<Rightarrow> plan_datasource list
      \<Rightarrow> plan_datasource list res outcome" where
  "load_datasources env dir resolvers [] acc = Returned (Inr acc)"
| "load_datasources env dir resolvers (ds # dss) acc =
     bind_out (resolveFactory resolvers ds) (\<lambda>res. case res of
       Inl err \<Rightarrow> Returned (Inl err)
     | Inr None \<Rightarrow> load_datasources env dir resolvers dss acc
     | Inr (Some factory) \<Rightarrow>
         bind_out (load_custom env dir ds) (\<lambda>custom. case custom of
           None \<Rightarrow> load_datasources env dir resolvers dss acc
         | Some custom \<Rightarrow> load_datasources env dir resolvers dss (acc @
             [\<lparr>pd_factory = factory, pd_custom = custom, pd_root_nodes = ds_root_nodes ds,
               pd_child_nodes = ds_child_nodes ds, pd_directives = map load_directive (ds_directives ds)\<rparr>])))"

definition Load ::
    "(string \<Rightarrow> string) \<Rightarrow> string \<Rightarrow> resolver list \<Rightarrow> engine_config \<Rightarrow> plan_config res outcome" where
  "Load env dir resolvers engineConfig =
     bind_out (load_datasources env dir resolvers (ec_datasources engineConfig) []) (\<lambda>res.
       Returned (bind_res res (\<lambda>dss. Inr
         \<lparr>pc_flush = ec_flush engineConfig, pc_fields = map load_field (ec_fields engineConfig),
          pc_types = ec_types engineConfig, pc_datasources = dss\<rparr>)))"

definition LoadJson ::
    "(string \<Rightarrow> string) \<Rightarrow> string \<Rightarrow> resolver list \<Rightarrow> (bytes \<Rightarrow> engine_config res) \<Rightarrow> bytes \<Rightarrow> plan_config res outcome" where
  "LoadJson env dir resolvers unmarshal engineConfigJson =
     (case unmarshal engineConfigJson of
        Inl err \<Rightarrow> Returned (Inl err)
      | Inr engineConfig \<Rightarrow> Load env dir resolvers engineConfig)"

section \<open>Properties\<close>

text \<open>What a loaded data source has to do with its configuration.\<close>

definition loaded :: "(string \<Rightarrow> string) \<Rightarrow> string \<Rightarrow> resolver list \<Rightarrow> datasource \<Rightarrow> plan_datasource \<Rightarrow> bool" where
  "loaded env dir resolvers ds pd =
     (resolveFactory resolvers ds = Returned (Inr (Some (pd_factory pd)))
      \<and> load_custom env dir ds = Returned (Some (pd_custom pd))
      \<and> pd_root_nodes pd = ds_root_nodes ds \<and> pd_child_nodes pd = ds_child_nodes ds
      \<and> pd_directives pd = map load_directive (ds_directives ds))"

definition skipped :: "(string \<Rightarrow> string) \<Rightarrow> string \<Rightarrow> resolver list \<Rightarrow> datasource \<Rightarrow> bool" where
  "skipped env dir resolvers ds =
     (resolveFactory resolvers ds = Returned (Inr None)
      \<or> (\<exists>factory. resolveFactory resolvers ds = Returned (Inr (Some factory)))
        \<and> load_custom env dir ds = Returned None)"

text \<open>
  A successful loop loads the data sources that are not skipped, in their order.
\<close>

lemma load_datasources_list_all2:
  "load_datasources env dir resolvers dss acc = Returned (Inr out) \<Longrightarrow>
    \<exists>pds. out = acc @ pds
      \<and> list_all2 (loaded env dir resolvers) (filter (\<lambda>ds. \<not> skipped env dir resolvers ds) dss) pds"
proof (induction dss arbitrary: acc)
  case (Cons ds dss)
  obtain res where res: "resolveFactory resolvers ds = Returned res"
    using Cons.prems by (cases "resolveFactory resolvers ds") auto
  show ?case
  proof (cases res)
    case (Inr found)
    show ?thesis
    proof (cases found)
      case None
      with res Inr have "skipped env dir resolvers ds" by (simp add: skipped_def)
      with Cons.IH [of acc] Cons.prems res Inr None show ?thesis by simp
    next
      case (Some factory)
      with res Inr have factory: "resolveFactory resolvers ds = Returned (Inr (Some factory))" by simp
      obtain custom where custom: "load_custom env dir ds = Returned custom"
        using Cons.prems factory by (cases "load_custom env dir ds") auto
      show ?thesis
      proof (cases custom)
        case None
        with factory custom have "skipped env dir resolvers ds" by (simp add: skipped_def)
        with Cons.IH [of acc] Cons.prems factory custom None show ?thesis by simp
      next
        case (Some c)
        with factory custom have "\<not> skipped env dir resolvers ds" by (simp add: skipped_def)
        moreover define pd where "pd = \<lparr>pd_factory = factory, pd_custom = c, pd_root_nodes = ds_root_nodes ds,
          pd_child_nodes = ds_child_nodes ds, pd_directives = map load_directive (ds_directives ds)\<rparr>"
        moreover have "loaded env dir resolvers ds pd"
          using factory custom Some by (simp add: loaded_def pd_def)
        ultimately show ?thesis
          using Cons.IH [of "acc @ [pd]"] Cons.prems factory custom Some by fastforce
      qed
    qed
  qed (use Cons.prems res in simp)
qed simp

lemma Load_list_all2:
  assumes "Load env dir resolvers cfg = Returned (Inr out)"
  shows "list_all2 (loaded env dir resolvers)
    (filter (\<lambda>ds. \<not> skipped env dir resolvers ds) (ec_datasources cfg)) (pc_datasources out)"
proof -
  from assms obtain dss where "load_datasources env dir resolvers (ec_datasources cfg) [] = Returned (Inr dss)"
    and "pc_datasources out = dss"
    by (auto simp: Load_def bind_out_Returned_iff bind_res_Inr_iff)
  with load_datasources_list_all2 show ?thesis by fastforce
qed

text \<open>The resolver of the node has a factory for every kind of data source.\<close>

lemma Resolve_not_None: "Resolve env d ds \<noteq> Returned (Inr None)"
  by (cases "ds_kind ds")
    (auto simp: Resolve_def bind_out_Returned_iff bind_res_Inr_iff split: sum.splits)

lemma resolveFactory_single: "resolveFactory [r] ds = r ds"
proof (cases "r ds")
  case (Returned res)
  then show ?thesis by (cases res) (auto split: option.split)
qed simp

declare resolveFactory.simps [simp del]

definition unconfigured_database :: "datasource \<Rightarrow> bool" where
  "unconfigured_database ds = (ds_kind ds \<in> set database_kinds \<and> ds_database ds = None)"

lemma load_custom_None: "load_custom env dir ds = Returned None \<longleftrightarrow> unconfigured_database ds"
  by (cases "ds_kind ds")
    (auto simp: load_custom_def unconfigured_database_def database_kinds_def bind_out_Returned_iff)

lemma skipped_unconfigured:
  "Resolve env d ds = Returned (Inr (Some f)) \<Longrightarrow>
    skipped genv dir [Resolve env d] ds \<longleftrightarrow> unconfigured_database ds"
  by (auto simp: skipped_def resolveFactory_single load_custom_None)

lemma load_datasources_resolves:
  "load_datasources env dir resolvers dss acc = Returned (Inr out) \<Longrightarrow> ds \<in> set dss \<Longrightarrow>
    \<exists>f. resolveFactory resolvers ds = Returned (Inr f)"
proof (induction dss arbitrary: acc)
  case (Cons d dss)
  obtain res where res: "resolveFactory resolvers d = Returned res"
    using Cons.prems(1) by (cases "resolveFactory resolvers d") auto
  with Cons.prems(1) obtain found where found: "res = Inr found" by (cases res) auto
  have "\<exists>acc. load_datasources env dir resolvers dss acc = Returned (Inr out)"
  proof (cases found)
    case None
    with Cons.prems(1) res found show ?thesis by auto
  next
    case (Some f)
    with Cons.prems(1) res found show ?thesis
      by (cases "load_custom env dir d") (auto split: option.splits)
  qed
  with Cons.IH Cons.prems(2) res found show ?case by auto
qed simp

lemma Load_resolves:
  assumes "Load genv dir [Resolve env d] cfg = Returned (Inr out)" "ds \<in> set (ec_datasources cfg)"
  shows "\<exists>f. Resolve env d ds = Returned (Inr (Some f))"
proof -
  from assms(1) obtain dss where
    "load_datasources genv dir [Resolve env d] (ec_datasources cfg) [] = Returned (Inr dss)"
    by (auto simp: Load_def bind_out_Returned_iff bind_res_Inr_iff)
  from load_datasources_resolves [OF this assms(2)] obtain f where
    f: "resolveFactory [Resolve env d] ds = Returned (Inr f)" by blast
  then show ?thesis
    using Resolve_not_None [of env d ds]
    by (cases f) (auto simp: resolveFactory_single)
qed

definition configured_sources :: "engine_config \<Rightarrow> datasource list" where
  "configured_sources cfg = filter (\<lambda>ds. \<not> unconfigured_database ds) (ec_datasources cfg)"

lemma Load_configured:
  assumes "Load genv dir [Resolve env d] cfg = Returned (Inr out)"
  shows "list_all2 (loaded genv dir [Resolve env d]) (configured_sources cfg) (pc_datasources out)"
proof -
  have "filter (\<lambda>ds. \<not> skipped genv dir [Resolve env d] ds) (ec_datasources cfg) = configured_sources cfg"
    unfolding configured_sources_def
    using Load_resolves [OF assms] by (intro filter_cong) (auto dest: skipped_unconfigured)
  with Load_list_all2 [OF assms] show ?thesis by simp
qed

text \<open>A loaded plan has exactly one data source for every configured one, in the order of the
  configuration, with its root and child nodes; only databases without configuration are left out.\<close>

theorem Load_keeps_datasources:
  assumes "Load genv dir [Resolve env d] cfg = Returned (Inr out)"
  shows "map (\<lambda>pd. (pd_root_nodes pd, pd_child_nodes pd)) (pc_datasources out)
    = map (\<lambda>ds. (ds_root_nodes ds, ds_child_nodes ds)) (configured_sources cfg)"
  using Load_configured [OF assms] by (induction rule: list_all2_induct) (auto simp: loaded_def)

text \<open>The mTLS configuration of a data source that is fetched over HTTP, and its client.\<close>

definition source_fetch :: "datasource \<Rightarrow> fetch_config option" where
  "source_fetch ds =
     (case ds_kind ds of
        DS_REST \<Rightarrow> Option.bind (ds_rest ds) rest_fetch
      | DS_GRAPHQL \<Rightarrow> Option.bind (ds_graphql ds) gd_fetch
      | _ \<Rightarrow> None)"

definition source_mtls :: "datasource \<Rightarrow> mtls_config option" where
  "source_mtls ds = Option.bind (source_fetch ds) fc_mtls"

fun fetch_client :: "planner_factory \<Rightarrow> http_client option" where
  "fetch_client (GraphqlFactory c s w) = Some c"
| "fetch_client (RestFactory c) = Some c"
| "fetch_client (DatabaseFactory c) = Some c"
| "fetch_client StaticFactory = None"

lemma Resolve_mtls:
  assumes "Resolve env d ds = Returned (Inr (Some f))" "source_mtls ds = Some mTLS"
  shows "\<exists>c. fetch_client f = Some c \<and> customTLSRoundTripper env mTLS = Inr (cl_transport c)"
proof -
  from assms(2) obtain cfg where cfg: "source_fetch ds = Some cfg" "fc_mtls cfg = Some mTLS"
    by (auto simp: source_mtls_def bind_eq_Some_conv)
  consider (rest) "ds_kind ds = DS_REST" | (graphql) "ds_kind ds = DS_GRAPHQL"
    using cfg(1) by (cases "ds_kind ds") (auto simp: source_fetch_def)
  then show ?thesis
  proof cases
    case rest
    with cfg(1) obtain r where r: "ds_rest ds = Some r" "rest_fetch r = Some cfg"
      by (auto simp: source_fetch_def bind_eq_Some_conv)
    with assms(1) rest obtain c where "own_client env ds (Some cfg) (dr_rest_client d) = Inr c" "f = RestFactory c"
      by (auto simp: Resolve_def bind_res_Inr_iff)
    with own_client_mtls [OF _ cfg(2)] show ?thesis by simp
  next
    case graphql
    with cfg(1) obtain g where g: "ds_graphql ds = Some g" "gd_fetch g = Some cfg"
      by (auto simp: source_fetch_def bind_eq_Some_conv)
    with assms(1) graphql obtain c where "own_client env ds (Some cfg) (dr_graphql_client d) = Inr c"
      "fetch_client f = Some c"
      by (auto simp: Resolve_def bind_out_Returned_iff split: sum.splits)
    with own_client_mtls [OF _ cfg(2)] show ?thesis by simp
  qed
qed

text \<open>The transport that presents the configured key pair: the certificate and the key are the loaded
  ones, neither is empty, they match, and the servers accepted are those of the certificate alone.\<close>

definition presents_pair :: "loader_env \<Rightarrow> mtls_config \<Rightarrow> tls_transport \<Rightarrow> bool" where
  "presents_pair env mTLS tls \<longleftrightarrow>
     tt_key tls = load_string (le_getenv env) (mt_key mTLS) \<and> tt_key tls \<noteq> ''''
     \<and> tt_cert tls = load_string (le_getenv env) (mt_cert mTLS) \<and> tt_cert tls \<noteq> ''''
     \<and> le_key_pair env (tt_cert tls) (tt_key tls) = None
     \<and> tt_root_cas tls = [tt_cert tls] \<and> tt_insecure tls = mt_insecure mTLS"

lemma customTLSRoundTripper_presents:
  "customTLSRoundTripper env mTLS = Inr t \<Longrightarrow> \<exists>tls. t = TlsTransport tls \<and> presents_pair env mTLS tls"
  by (auto simp: customTLSRoundTripper_def presents_pair_def Let_def split: if_splits option.splits)

lemma own_client_plain:
  assumes "own_client env ds cfg shared = Inr client" "Option.bind cfg fc_mtls = None"
    and "cl_transport shared = BaseTransport"
  shows "cl_transport client = BaseTransport"
  using assms by (cases cfg) (auto simp: own_client_def newHTTPClient_def bind_res_Inr_iff split: if_splits)

lemma Resolve_plain:
  assumes "Resolve env (NewDefaultFactoryResolver env) ds = Returned (Inr (Some f))" "source_mtls ds = None"
    and "fetch_client f = Some c"
  shows "cl_transport c = BaseTransport"
proof -
  have shared: "cl_transport (dr_graphql_client (NewDefaultFactoryResolver env)) = BaseTransport"
    "cl_transport (dr_rest_client (NewDefaultFactoryResolver env)) = BaseTransport"
    "cl_transport (dr_database_client (NewDefaultFactoryResolver env)) = BaseTransport"
    by (simp_all add: NewDefaultFactoryResolver_def Let_def)
  consider (rest) r where "ds_kind ds = DS_REST" "ds_rest ds = Some r"
    | (graphql) g where "ds_kind ds = DS_GRAPHQL" "ds_graphql ds = Some g"
    | (static) "ds_kind ds = DS_STATIC" | (database) "ds_kind ds \<in> set database_kinds"
    using assms(1) by (cases "ds_kind ds"; cases "ds_rest ds"; cases "ds_graphql ds")
      (auto simp: Resolve_def database_kinds_def)
  then show ?thesis
  proof cases
    case rest
    with assms(2) have "Option.bind (rest_fetch r) fc_mtls = None" by (simp add: source_mtls_def source_fetch_def)
    moreover from assms(1,3) rest have "own_client env ds (rest_fetch r) (dr_rest_client (NewDefaultFactoryResolver env)) = Inr c"
      by (auto simp: Resolve_def bind_res_Inr_iff)
    ultimately show ?thesis using own_client_plain shared(2) by blast
  next
    case graphql
    with assms(2) have "Option.bind (gd_fetch g) fc_mtls = None" by (simp add: source_mtls_def source_fetch_def)
    moreover from assms(1,3) graphql have "own_client env ds (gd_fetch g) (dr_graphql_client (NewDefaultFactoryResolver env)) = Inr c"
      by (auto simp: Resolve_def bind_out_Returned_iff split: sum.splits)
    ultimately show ?thesis using own_client_plain shared(1) by blast
  next
    case static
    with assms(1,3) show ?thesis by (auto simp: Resolve_def)
  next
    case database
    with assms(1,3) have "own_client env ds None (dr_database_client (NewDefaultFactoryResolver env)) = Inr c"
      by (auto simp: Resolve_def database_kinds_def bind_res_Inr_iff)
    from own_client_plain [OF this _ shared(3)] show ?thesis by simp
  qed
qed

text \<open>C30: The client of a REST or GraphQL data source with mTLS presents exactly the configured key
  pair: its certificate and key are the loaded ones, neither empty and matching each other, and it
  accepts servers by the configured certificate alone. A configuration that lacks the key or the
  certificate, or whose pair does not match, makes loading fail instead of falling back to a plain
  connection. The clients of the other data sources present no key pair at all.\<close>

theorem mtls_never_dropped:
  assumes "Load genv dir [Resolve env (NewDefaultFactoryResolver env)] cfg = Returned (Inr out)"
  shows "list_all2 (\<lambda>ds pd. case source_mtls ds of
        Some mTLS \<Rightarrow> (\<exists>c tls. fetch_client (pd_factory pd) = Some c \<and> cl_transport c = TlsTransport tls
          \<and> presents_pair env mTLS tls)
      | None \<Rightarrow> (\<forall>c. fetch_client (pd_factory pd) = Some c \<longrightarrow> cl_transport c = BaseTransport))
    (configured_sources cfg) (pc_datasources out)"
  using Load_configured [OF assms]
proof (rule list_all2_mono)
  fix ds pd
  assume "loaded genv dir [Resolve env (NewDefaultFactoryResolver env)] ds pd"
  then have resolved: "Resolve env (NewDefaultFactoryResolver env) ds = Returned (Inr (Some (pd_factory pd)))"
    by (simp add: loaded_def resolveFactory_single)
  show "case source_mtls ds of
        Some mTLS \<Rightarrow> (\<exists>c tls. fetch_client (pd_factory pd) = Some c \<and> cl_transport c = TlsTransport tls
          \<and> presents_pair env mTLS tls)
      | None \<Rightarrow> (\<forall>c. fetch_client (pd_factory pd) = Some c \<longrightarrow> cl_transport c = BaseTransport)"
  proof (cases "source_mtls ds")
    case None
    with Resolve_plain [OF resolved] show ?thesis by simp
  next
    case (Some mTLS)
    from Resolve_mtls [OF resolved Some] customTLSRoundTripper_presents obtain c tls where
      "fetch_client (pd_factory pd) = Some c" "cl_transport c = TlsTransport tls" "presents_pair env mTLS tls"
      by blast
    with Some show ?thesis by auto
  qed
qed

lemma Resolve_streaming:
  assumes run: "Resolve env d ds = Returned (Inr (Some (GraphqlFactory c s w)))"
  shows "s = dr_graphql_streaming d"
proof -
  have kind: "ds_kind ds = DS_GRAPHQL"
    using run by (cases "ds_kind ds") (auto simp: Resolve_def bind_out_Returned_iff bind_res_Inr_iff)
  with run obtain g where g: "ds_graphql ds = Some g" by (cases "ds_graphql ds") (auto simp: Resolve_def)
  with run kind show ?thesis
    by (cases "own_client env ds (gd_fetch g) (dr_graphql_client d)")
      (auto simp: Resolve_def bind_out_Returned_iff)
qed

text \<open>The streaming client of a GraphQL data source, over which its subscriptions run, is the
  shared one in every case: it never presents the key pair of the data source.\<close>

theorem streaming_ignores_mtls:
  assumes "Load genv dir [Resolve env (NewDefaultFactoryResolver env)] cfg = Returned (Inr out)"
    and "pd \<in> set (pc_datasources out)" "pd_factory pd = GraphqlFactory c s w"
  shows "cl_transport s = BaseTransport"
proof -
  from Load_configured [OF assms(1)] assms(2) obtain ds where
    "loaded genv dir [Resolve env (NewDefaultFactoryResolver env)] ds pd"
    by (metis in_set_conv_nth list_all2_conv_all_nth)
  with assms(3) have "s = dr_graphql_streaming (NewDefaultFactoryResolver env)"
    by (auto simp: loaded_def resolveFactory_single intro: Resolve_streaming)
  then show ?thesis by (simp add: NewDefaultFactoryResolver_def Let_def)
qed

text \<open>A directive is never renamed: its new name is its own.\<close>

lemma directives_keep_their_names:
  assumes "Load genv dir [Resolve env d] cfg = Returned (Inr out)" "pd \<in> set (pc_datasources out)"
    and "dir' \<in> set (pd_directives pd)"
  shows "dc_rename dir' = dc_name dir'"
proof -
  from Load_configured [OF assms(1)] assms(2) obtain ds where "loaded genv dir [Resolve env d] ds pd"
    by (metis in_set_conv_nth list_all2_conv_all_nth)
  with assms(3) show ?thesis by (auto simp: loaded_def load_directive_def)
qed

section \<open>A sample configuration\<close>

definition sample_fetch :: fetch_config where
  "sample_fetch =
     \<lparr>fc_url = None, fc_method = HTTP_POST, fc_header = [],
      fc_body = None, fc_query = [], fc_upstream = None, fc_url_encode = False,
      fc_mtls = Some \<lparr>mt_key = static_var ''key'', mt_cert = static_var ''cert'', mt_insecure = False\<rparr>,
      fc_base_url = static_var ''b/'', fc_path = static_var ''/q''\<rparr>"

definition sample_graphql :: graphql_ds where
  "sample_graphql =
     \<lparr>gd_fetch = Some sample_fetch, gd_subscription = Some \<lparr>gs_enabled = True, gs_url = None, gs_sse = True\<rparr>,
      gd_federation = Some \<lparr>gf_enabled = False, gf_sdl = ''''\<rparr>, gd_schema = ''q'',
      gd_hooks = Some \<lparr>gk_ws_init = False\<rparr>\<rparr>"

definition sample_source :: "ds_kind \<Rightarrow> datasource" where
  "sample_source kind =
     \<lparr>ds_kind = kind, ds_root_nodes = [\<lparr>tf_type = ''Query'', tf_fields = [''a'']\<rparr>], ds_child_nodes = [],
      ds_override_alias = False, ds_rest = None, ds_graphql = Some sample_graphql,
      ds_static = Some \<lparr>sd_data = static_var ''1''\<rparr>, ds_database = None,
      ds_directives = [\<lparr>dc_name = ''include'', dc_rename = ''other''\<rparr>], ds_timeout_seconds = 0, ds_id = ''1''\<rparr>"

definition sample_config :: engine_config where
  "sample_config =
     \<lparr>ec_flush = 500, ec_datasources = [sample_source DS_GRAPHQL, sample_source DS_SQLITE, sample_source DS_STATIC],
      ec_fields = [], ec_schema = '''', ec_types = []\<rparr>"

definition sample_env :: loader_env where
  "sample_env = \<lparr>le_getenv = (\<lambda>_. ''''), le_key_pair = (\<lambda>_ _. None), le_timeout = 10 * second\<rparr>"

definition sample_load :: "plan_config res outcome" where
  "sample_load = Load (\<lambda>_. '''') ''/app'' [Resolve sample_env (NewDefaultFactoryResolver sample_env)] sample_config"

fun plan_of :: "plan_config res outcome \<Rightarrow> plan_config option" where
  "plan_of (Returned (Inr out)) = Some out"
| "plan_of _ = None"

definition sample_plan :: plan_config where
  "sample_plan = the (plan_of sample_load)"

lemmas sample_defs = sample_load_def Load_def sample_config_def resolveFactory_single Resolve_def
  own_client_def requiresCustomHTTPClient_def newHTTPClient_def customTLSRoundTripper_def sample_env_def
  sample_source_def sample_graphql_def sample_fetch_def load_custom_def load_graphql_def

lemma sample_load_datasources:
  "\<exists>custom static c s w. sample_load = Returned (Inr \<lparr>pc_flush = 500, pc_fields = [], pc_types = [], pc_datasources =
     [\<lparr>pd_factory = GraphqlFactory c s w, pd_custom = custom, pd_root_nodes = [\<lparr>tf_type = ''Query'', tf_fields = [''a'']\<rparr>],
       pd_child_nodes = [], pd_directives = [\<lparr>dc_name = ''include'', dc_rename = ''include''\<rparr>]\<rparr>,
      \<lparr>pd_factory = StaticFactory, pd_custom = static, pd_root_nodes = [\<lparr>tf_type = ''Query'', tf_fields = [''a'']\<rparr>],
       pd_child_nodes = [], pd_directives = [\<lparr>dc_name = ''include'', dc_rename = ''include''\<rparr>]\<rparr>]\<rparr>)"
  by (simp add: sample_defs load_directive_def Let_def)

lemma sample_loaded:
  "Load (\<lambda>_. '''') ''/app'' [Resolve sample_env (NewDefaultFactoryResolver sample_env)] sample_config
    = Returned (Inr sample_plan)"
  using sample_load_datasources unfolding sample_plan_def by (auto simp: sample_load_def)

lemma sample_graphql_factory:
  "\<exists>c s w. pd_factory (hd (pc_datasources sample_plan)) = GraphqlFactory c s w \<and> pc_datasources sample_plan \<noteq> []"
proof -
  from sample_load_datasources obtain out where out: "sample_load = Returned (Inr out)"
    "\<exists>c s w. pd_factory (hd (pc_datasources out)) = GraphqlFactory c s w \<and> pc_datasources out \<noteq> []"
    by fastforce
  have "sample_plan = out" unfolding sample_plan_def out(1) by simp
  with out(2) show ?thesis by simp
qed

theorem Load_keeps_datasources_witness:
  "length (pc_datasources sample_plan) = 2 \<and>
    map (\<lambda>pd. (pd_root_nodes pd, pd_child_nodes pd)) (pc_datasources sample_plan)
      = map (\<lambda>ds. (ds_root_nodes ds, ds_child_nodes ds)) [sample_source DS_GRAPHQL, sample_source DS_STATIC]"
proof -
  have sources: "configured_sources sample_config = [sample_source DS_GRAPHQL, sample_source DS_STATIC]"
    by (simp add: configured_sources_def sample_config_def sample_source_def unconfigured_database_def
        database_kinds_def)
  note kept = Load_keeps_datasources [OF sample_loaded, unfolded sources]
  from arg_cong [OF kept, of length] have "length (pc_datasources sample_plan) = 2" by simp
  with kept show ?thesis by blast
qed

theorem mtls_never_dropped_witness:
  "list_all2 (\<lambda>ds pd. case source_mtls ds of
        Some mTLS \<Rightarrow> (\<exists>c tls. fetch_client (pd_factory pd) = Some c \<and> cl_transport c = TlsTransport tls
          \<and> presents_pair sample_env mTLS tls)
      | None \<Rightarrow> (\<forall>c. fetch_client (pd_factory pd) = Some c \<longrightarrow> cl_transport c = BaseTransport))
    (configured_sources sample_config) (pc_datasources sample_plan)
   \<and> source_mtls (sample_source DS_GRAPHQL) \<noteq> None"
  by (rule conjI, rule mtls_never_dropped [OF sample_loaded])
    (simp add: source_mtls_def source_fetch_def sample_source_def sample_graphql_def sample_fetch_def)

theorem streaming_ignores_mtls_witness:
  "cl_transport (gf_streaming (pd_factory (hd (pc_datasources sample_plan)))) = BaseTransport"
  using sample_graphql_factory streaming_ignores_mtls [OF sample_loaded hd_in_set]
  by (metis planner_factory.sel(2))

end
