(* ===== verification/RestSource.thy ===== *)
theory RestSource
  imports EngineConfig
begin

text \<open>
  The REST data source: pkg/datasources/oas, which plans a fetch and adapts its response, and
  pkg/customhttpclient, which builds the request from the planned input and sends it. Parameters
  are the JSON parser, the URL and query codecs, the decompressors, the network, and the GraphQL
  operation that is planned.
\<close>

section \<open>The HTTP client\<close>

text \<open>
  \<open>hl_key\<close> is jsonparser.EachKey for one path, \<open>hl_object\<close> the pairs ObjectEach visits and its own
  error, \<open>hl_array\<close> the elements ArrayEach visits (each with an error) and its own error.
  \<open>hl_request\<close> is the error of http.NewRequest, \<open>hl_raw_query\<close> the query of a URL. A reader is its
  bytes with the error behind them.
\<close>

type_synonym reader = "bytes \<times> go_error option"

record out_request =
  or_method :: string
  or_url :: string
  or_raw_query :: string
  or_header :: header
  or_body :: "bytes option"

record in_response =
  ir_status :: int
  ir_header :: header
  ir_body :: reader

record http_lib =
  hl_key :: "bytes \<Rightarrow> string \<Rightarrow> bytes option"
  hl_object :: "bytes \<Rightarrow> (string \<times> bytes) list \<times> go_error option"
  hl_array :: "bytes \<Rightarrow> (bytes \<times> go_error option) list \<times> go_error option"
  hl_request :: "string \<Rightarrow> string \<Rightarrow> go_error option"
  hl_raw_query :: "string \<Rightarrow> string"
  hl_query :: "string \<Rightarrow> (string \<times> string) list"
  hl_encode :: "(string \<times> string) list \<Rightarrow> string"
  hl_unmarshal :: "bytes \<Rightarrow> go_error option"
  hl_urlquery :: "bytes \<Rightarrow> string res"
  hl_do :: "out_request \<Rightarrow> in_response res"
  hl_gunzip :: "reader \<Rightarrow> reader res"
  hl_inflate :: "reader \<Rightarrow> reader"

record request_params =
  rp_url :: bytes
  rp_method :: bytes
  rp_body :: bytes
  rp_headers :: "bytes option"
  rp_query :: "bytes option"
  rp_url_encode :: bytes

definition nil_bytes :: "bytes option \<Rightarrow> bytes" where
  "nil_bytes b = (case b of None \<Rightarrow> [] | Some b \<Rightarrow> b)"

definition requestInputParams :: "http_lib \<Rightarrow> bytes \<Rightarrow> request_params" where
  "requestInputParams lib input =
     \<lparr>rp_url = nil_bytes (hl_key lib input ''url''), rp_method = nil_bytes (hl_key lib input ''method''),
      rp_body = nil_bytes (hl_key lib input ''body''), rp_headers = hl_key lib input ''header'',
      rp_query = hl_key lib input ''query_params'',
      rp_url_encode = nil_bytes (hl_key lib input ''url_encode_body'')\<rparr>"

definition urlEncodeBody :: "http_lib \<Rightarrow> bytes \<Rightarrow> string res" where
  "urlEncodeBody lib body =
     (case hl_unmarshal lib body of Some err \<Rightarrow> Inl err | None \<Rightarrow> hl_urlquery lib body)"

text \<open>The values of one header; an element with an error is skipped.\<close>

fun add_header_values :: "string \<Rightarrow> (bytes \<times> go_error option) list \<Rightarrow> header \<Rightarrow> header" where
  "add_header_values key [] h = h"
| "add_header_values key ((value, err) # vs) h =
     add_header_values key vs (if err \<noteq> None then h else header_add key value h)"

text \<open>The loop over the headers, which the first bad value list ends.\<close>

fun add_headers :: "http_lib \<Rightarrow> (string \<times> bytes) list \<Rightarrow> header \<Rightarrow> header res" where
  "add_headers lib [] h = Inr h"
| "add_headers lib ((key, value) # kvs) h =
     (let (elements, err) = hl_array lib value;
          h = add_header_values key elements h in
      case err of Some err \<Rightarrow> Inl err | None \<Rightarrow> add_headers lib kvs h)"

definition request_headers :: "http_lib \<Rightarrow> bytes option \<Rightarrow> header res" where
  "request_headers lib headers =
     (case headers of
        None \<Rightarrow> Inr no_header
      | Some headers \<Rightarrow>
          (let (pairs, err) = hl_object lib headers in
           case add_headers lib pairs no_header of
             Inl err \<Rightarrow> Inl err
           | Inr h \<Rightarrow> (case err of Some err \<Rightarrow> Inl err | None \<Rightarrow> Inr h)))"

text \<open>One element of the query parameters: a name with a value, or with a list of values.\<close>

definition query_entries :: "http_lib \<Rightarrow> bytes \<Rightarrow> (string \<times> string) list" where
  "query_entries lib value =
     (let parameterName = nil_bytes (hl_key lib value ''name'');
          parameterValue = nil_bytes (hl_key lib value ''value'') in
      if parameterName \<noteq> [] \<and> parameterValue \<noteq> [] then
        (if take 1 parameterValue = ''[''
         then map (\<lambda>(v, err). (parameterName, v)) (fst (hl_array lib parameterValue))
         else [(parameterName, parameterValue)])
      else [])"

definition add_query :: "http_lib \<Rightarrow> bytes option \<Rightarrow> string \<Rightarrow> string res" where
  "add_query lib queryParams rawQuery =
     (case queryParams of
        None \<Rightarrow> Inr rawQuery
      | Some params \<Rightarrow>
          (let (elements, err) = hl_array lib params;
               query = hl_query lib rawQuery @ concat (map (\<lambda>(value, err). query_entries lib value) elements) in
           case err of Some err \<Rightarrow> Inl err | None \<Rightarrow> Inr (hl_encode lib query)))"

definition respBodyReader :: "http_lib \<Rightarrow> out_request \<Rightarrow> in_response \<Rightarrow> reader res" where
  "respBodyReader lib req resp =
     (if header_get (or_header req) ''Accept-Encoding'' = '''' then Inr (ir_body resp)
      else
        (let encoding = header_get (ir_header resp) ''Content-Encoding'' in
         if encoding = ''gzip'' then hl_gunzip lib (ir_body resp)
         else if encoding = ''deflate'' then Inr (hl_inflate lib (ir_body resp))
         else Inr (ir_body resp)))"

text \<open>The request that DoWithStatus builds from the input.\<close>

definition build_request :: "http_lib \<Rightarrow> bytes \<Rightarrow> out_request res" where
  "build_request lib requestInput =
     (let p = requestInputParams lib requestInput;
          hasURLEncodeBody = (rp_url_encode p = ''true'') in
      case hl_request lib (rp_method p) (rp_url p) of
        Some err \<Rightarrow> Inl err
      | None \<Rightarrow>
          bind_res (request_headers lib (rp_headers p)) (\<lambda>h.
          let h = header_add ''accept'' ''application/json'' h in
          bind_res
            (if hasURLEncodeBody then
               bind_res (urlEncodeBody lib (rp_body p)) (\<lambda>rawQuery.
                 Inr (header_set ''content-type'' ''application/x-www-form-urlencoded'' h, rawQuery))
             else Inr (header_add ''content-type'' ''application/json'' h, hl_raw_query lib (rp_url p)))
            (\<lambda>(h, rawQuery).
          bind_res (add_query lib (rp_query p) rawQuery) (\<lambda>rawQuery.
            Inr \<lparr>or_method = rp_method p, or_url = rp_url p, or_raw_query = rawQuery, or_header = h,
                 or_body = (if \<not> hasURLEncodeBody \<and> length (rp_body p) \<noteq> 0 then Some (rp_body p) else None)\<rparr>))))"

text \<open>The status, the bytes that were copied to the output, and the error.\<close>

definition DoWithStatus :: "http_lib \<Rightarrow> bytes \<Rightarrow> int \<times> bytes \<times> go_error option" where
  "DoWithStatus lib requestInput =
     (case build_request lib requestInput of
        Inl err \<Rightarrow> (0, [], Some err)
      | Inr request \<Rightarrow>
          (case hl_do lib request of
             Inl err \<Rightarrow> (500, [], Some err)
           | Inr response \<Rightarrow>
               (case respBodyReader lib request response of
                  Inl err \<Rightarrow> (ir_status response, [], Some err)
                | Inr (out, err) \<Rightarrow> (ir_status response, out, err))))"

definition Do :: "http_lib \<Rightarrow> bytes \<Rightarrow> bytes \<times> go_error option" where
  "Do lib requestInput = snd (DoWithStatus lib requestInput)"

section \<open>The data source\<close>

record rest_source =
  sr_mappings :: "oas_mapping list"
  sr_default_type :: bytes

fun find_mapping :: "oas_mapping list \<Rightarrow> int \<Rightarrow> oas_mapping option" where
  "find_mapping [] status = None"
| "find_mapping (m # ms) status = (if status = om_code m then Some m else find_mapping ms status)"

definition set_field :: "jsonlib \<Rightarrow> bytes \<Rightarrow> bytes \<Rightarrow> string \<Rightarrow> bytes res" where
  "set_field js data value name =
     (case js_set js data value [name] of (data, None) \<Rightarrow> Inr data | (_, Some err) \<Rightarrow> Inl err)"

text \<open>What Load writes, or its error.\<close>

definition source_load :: "jsonlib \<Rightarrow> http_lib \<Rightarrow> rest_source \<Rightarrow> bytes \<Rightarrow> bytes res" where
  "source_load js lib s input =
     (case DoWithStatus lib input of
        (status, out, Some err) \<Rightarrow> Inl err
      | (status, out, None) \<Rightarrow>
          (let data = (if length out = 0 then ''{}'' else out) in
           case find_mapping (sr_mappings s) status of
             Some m \<Rightarrow>
               bind_res (set_field js data (om_type m) ''__typename'') (\<lambda>data.
                 if om_inject m then set_field js data (om_code_text m) ''statusCode'' else Inr data)
           | None \<Rightarrow>
               (if length (sr_default_type s) \<noteq> 0 then
                  bind_res (set_field js data (sr_default_type s) ''__typename'') (\<lambda>data.
                    set_field js data (itoa_int status) ''statusCode'')
                else Inr data)))"

lemma find_mapping_Some: "find_mapping ms status = Some m \<Longrightarrow> m \<in> set ms \<and> om_code m = status"
  by (induction ms) (auto split: if_splits)

lemma find_mapping_None: "find_mapping ms status = None \<longleftrightarrow> status \<notin> om_code ` set ms"
  by (induction ms) auto

section \<open>Planning\<close>

text \<open>
  The matches of the expression \<open>{{\s(.*?)\s}}\<close> in a text: \<open>close_selector\<close> reads the shortest group
  up to a space and two braces, within one line; matches do not overlap.
\<close>

definition is_space :: "char \<Rightarrow> bool" where
  "is_space c = ((of_char c :: nat) \<in> {9, 10, 12, 13, 32})"

fun close_selector :: "string \<Rightarrow> (string \<times> string) option" where
  "close_selector [] = None"
| "close_selector (c # cs) =
     (if is_space c \<and> has_prefix cs ''}}'' then Some ([], drop 2 cs)
      else if (of_char c :: nat) = 10 then None
      else map_option (\<lambda>(g, rest). (c # g, rest)) (close_selector cs))"

lemma close_selector_shorter: "close_selector s = Some (g, rest) \<Longrightarrow> length rest < length s"
  by (induction s arbitrary: g) (auto split: if_splits)

function selectors :: "string \<Rightarrow> string list" where
  "selectors s =
     (if s = [] then []
      else if has_prefix s ''{{'' \<and> drop 2 s \<noteq> [] \<and> is_space (s ! 2) then
        (case close_selector (drop 3 s) of
           Some (g, rest) \<Rightarrow> g # selectors rest
         | None \<Rightarrow> selectors (tl s))
      else selectors (tl s))"
  by pat_completeness auto
termination
  by (relation "measure length") (auto dest!: close_selector_shorter)

declare selectors.simps [simp del]

text \<open>
  The GraphQL operation that is planned: the value of an argument of a field, and the variables
  that the operation defines.
\<close>

datatype argument_value = VariableValue string | OtherValue

record operation_view =
  ov_argument :: "int \<Rightarrow> string \<Rightarrow> argument_value option"
  ov_defined :: "int \<Rightarrow> string \<Rightarrow> bool"

record rest_planner =
  rn_config :: oas_config
  rn_root_field :: int
  rn_operation :: int

definition rest_EnterField :: "int \<Rightarrow> rest_planner \<Rightarrow> rest_planner" where
  "rest_EnterField ref p = p\<lparr>rn_root_field := ref\<rparr>"

definition rest_EnterOperationDefinition :: "int \<Rightarrow> rest_planner \<Rightarrow> rest_planner" where
  "rest_EnterOperationDefinition ref p = p\<lparr>rn_operation := ref\<rparr>"

text \<open>One match: whether the loop over the matches goes on (the query stays).\<close>

definition keep_match :: "operation_view \<Rightarrow> int \<Rightarrow> int \<Rightarrow> string \<Rightarrow> bool" where
  "keep_match ov operationDefinition field match =
     (let elements = split_on (CHR ''.'') (trim_prefix match ''.'') in
      if length elements < 2 then True
      else if elements ! 0 \<noteq> ''arguments'' then True
      else
        (case ov_argument ov field (elements ! 1) of
           None \<Rightarrow> False
         | Some OtherValue \<Rightarrow> False
         | Some (VariableValue variableName) \<Rightarrow> ov_defined ov operationDefinition variableName))"

fun keep_query :: "operation_view \<Rightarrow> int \<Rightarrow> int \<Rightarrow> string list \<Rightarrow> bool" where
  "keep_query ov operationDefinition field [] = True"
| "keep_query ov operationDefinition field (m # ms) =
     (if keep_match ov operationDefinition field m then keep_query ov operationDefinition field ms else False)"

fun prepareQueryParams :: "operation_view \<Rightarrow> int \<Rightarrow> int \<Rightarrow> url_query list \<Rightarrow> url_query list" where
  "prepareQueryParams ov operationDefinition field [] = []"
| "prepareQueryParams ov operationDefinition field (q # qs) =
     (if keep_query ov operationDefinition field (selectors (uq_value q))
      then q # prepareQueryParams ov operationDefinition field qs
      else prepareQueryParams ov operationDefinition field qs)"

text \<open>
  The planned input, as the fields that are set in it; \<open>marshal_header\<close> and \<open>marshal_query\<close> are
  json.Marshal.
\<close>

datatype input_field =
    InputURL bytes | InputMethod bytes | InputBody bytes | InputURLEncodeBody bool
  | InputHeader bytes | InputQueryParams bytes

definition configureInput ::
    "(header \<Rightarrow> bytes res) \<Rightarrow> (url_query list \<Rightarrow> bytes res) \<Rightarrow> operation_view \<Rightarrow> rest_planner \<Rightarrow> input_field list" where
  "configureInput marshal_header marshal_query ov p =
     (let fetch = oc_fetch (rn_config p);
          input = [InputURL (of_url fetch), InputMethod (of_method fetch), InputBody (of_body fetch),
                   InputURLEncodeBody (of_url_encode fetch)];
          input = (case marshal_header (of_header fetch) of
              Inl _ \<Rightarrow> input
            | Inr header \<Rightarrow>
                (if length header \<noteq> 0 \<and> header \<noteq> ''null'' then input @ [InputHeader header] else input));
          preparedQuery = prepareQueryParams ov (rn_operation p) (rn_root_field p) (of_query fetch) in
      case marshal_query preparedQuery of
        Inl _ \<Rightarrow> input
      | Inr query \<Rightarrow> (if length preparedQuery \<noteq> 0 then input @ [InputQueryParams query] else input))"

record planned_fetch =
  pl_input :: "input_field list"
  pl_source :: rest_source
  pl_disallow_single_flight :: bool

definition rest_ConfigureFetch ::
    "(header \<Rightarrow> bytes res) \<Rightarrow> (url_query list \<Rightarrow> bytes res) \<Rightarrow> operation_view \<Rightarrow> rest_planner \<Rightarrow> planned_fetch" where
  "rest_ConfigureFetch marshal_header marshal_query ov p =
     (let c = rn_config p in
      \<lparr>pl_input = configureInput marshal_header marshal_query ov p,
       pl_source = \<lparr>sr_mappings = oc_mappings c,
         sr_default_type = (if oc_default_type c \<noteq> '''' then [CHR 0x22] @ oc_default_type c @ [CHR 0x22] else [])\<rparr>,
       pl_disallow_single_flight = (of_method (oc_fetch c) \<noteq> ''GET'')\<rparr>)"

section \<open>Properties\<close>

text \<open>An argument that a query value selects, and what the operation has to give for it.\<close>

definition selected_arguments :: "string \<Rightarrow> string list" where
  "selected_arguments value =
     [e ! 1. e \<leftarrow> map (\<lambda>m. split_on (CHR ''.'') (trim_prefix m ''.'')) (selectors value),
             2 \<le> length e \<and> e ! 0 = ''arguments'']"

definition bound_argument :: "operation_view \<Rightarrow> int \<Rightarrow> int \<Rightarrow> string \<Rightarrow> bool" where
  "bound_argument ov operationDefinition field name =
     (\<exists>v. ov_argument ov field name = Some (VariableValue v) \<and> ov_defined ov operationDefinition v)"

lemma keep_match_iff:
  "keep_match ov opd field m \<longleftrightarrow>
    (let e = split_on (CHR ''.'') (trim_prefix m ''.'') in
     2 \<le> length e \<and> e ! 0 = ''arguments'' \<longrightarrow> bound_argument ov opd field (e ! 1))"
  by (auto simp: keep_match_def bound_argument_def Let_def split: option.splits argument_value.splits)

lemma keep_query_iff: "keep_query ov opd field ms \<longleftrightarrow> (\<forall>m \<in> set ms. keep_match ov opd field m)"
  by (induction ms) auto

text \<open>A query parameter of a REST data source is planned exactly when every argument that its
  value selects is given by a variable which the operation defines; the order is kept.\<close>

theorem prepareQueryParams_spec:
  "prepareQueryParams ov opd field qs
    = filter (\<lambda>q. list_all (bound_argument ov opd field) (selected_arguments (uq_value q))) qs"
proof -
  have "keep_query ov opd field (selectors v) \<longleftrightarrow> list_all (bound_argument ov opd field) (selected_arguments v)" for v
    by (auto simp: keep_query_iff keep_match_iff Let_def selected_arguments_def list_all_iff)
  then show ?thesis by (induction qs) auto
qed

lemma selectors_example:
  "selectors ''a={{ .arguments.id }}&b={{ x }}'' = [''.arguments.id'', ''x'']"
  by code_simp

text \<open>
  A form-encoded body goes out as the query of the URL, in place of the query it had, and the
  request has no body.
\<close>

lemma form_body_replaces_query:
  assumes "build_request lib input = Inr r" "rp_url_encode (requestInputParams lib input) = ''true''"
    and "rp_query (requestInputParams lib input) = None"
  shows "or_body r = None" and "urlEncodeBody lib (rp_body (requestInputParams lib input)) = Inr (or_raw_query r)"
proof -
  have "or_body r = None \<and> urlEncodeBody lib (rp_body (requestInputParams lib input)) = Inr (or_raw_query r)"
    using assms by (auto simp: build_request_def Let_def bind_res_Inr_iff add_query_def split: option.splits)
  then show "or_body r = None" and "urlEncodeBody lib (rp_body (requestInputParams lib input)) = Inr (or_raw_query r)"
    by auto
qed

text \<open>
  The answer of a data source without status mappings and default type is passed on as data
  whatever its status is.
\<close>

lemma unmapped_status_is_data:
  "sr_mappings s = [] \<Longrightarrow> sr_default_type s = [] \<Longrightarrow> DoWithStatus lib input = (status, out, None) \<Longrightarrow> out \<noteq> []
    \<Longrightarrow> source_load js lib s input = Inr out"
  by (simp add: source_load_def)

end
