(* ===== verification/DatabasePlanner.thy ===== *)
theory DatabasePlanner
  imports EngineConfig
begin

text \<open>
  The planner of the database data source (Planner in datasource.go): a visitor of the downstream
  operation that builds the operation sent to the engine. The documents of the GraphQL library are
  a type \<open>'d\<close> with its operations as a parameter, the variables of the plan a type \<open>'v\<close>; an index
  out of range of the stack of nodes is a panic.
\<close>

section \<open>State\<close>

datatype node_kind = OperationDefinitionNode | SelectionSetNode | FieldNode | InlineFragmentNode

record ast_node =
  nd_kind :: node_kind
  nd_ref :: nat

record inlined_variable =
  nv_name :: string
  nv_type :: nat
  nv_json :: bool

record ('d, 'v) db_planner =
  dp_config :: database_config
  dp_doc :: 'd
  dp_upstream_variables :: bytes
  dp_nodes :: "ast_node list"
  dp_variables :: 'v
  dp_last_type :: string
  dp_disallow_single_flight :: bool
  dp_nested :: bool
  dp_root_type :: string
  dp_root_field :: string
  dp_root_ref :: int
  dp_inlined :: "inlined_variable list"
  dp_inside_json :: bool
  dp_json_ref :: nat

text \<open>
  What the planner calls of the upstream document. \<open>do_attach\<close> sets the selection set of a node,
  \<open>do_add_selection\<close> adds a field or a fragment to a set, \<open>do_var_argument\<close> adds an argument whose
  value is a variable and answers the value and the argument.
\<close>

datatype gql_value = VariableVal string | ObjectVal "gql_value list" | ListVal "gql_value list" | ScalarVal

record 'd doc_ops =
  do_new :: 'd
  do_reset :: "'d \<Rightarrow> 'd"
  do_add_operation :: "op_type \<Rightarrow> 'd \<Rightarrow> nat \<times> 'd"
  do_add_set :: "'d \<Rightarrow> nat \<times> 'd"
  do_attach :: "ast_node \<Rightarrow> nat \<Rightarrow> 'd \<Rightarrow> 'd"
  do_add_field :: "string \<Rightarrow> 'd \<Rightarrow> nat \<times> 'd"
  do_add_fragment :: "string \<Rightarrow> 'd \<Rightarrow> nat \<times> 'd"
  do_add_selection :: "nat \<Rightarrow> ast_node \<Rightarrow> 'd \<Rightarrow> 'd"
  do_var_argument :: "string \<Rightarrow> string \<Rightarrow> 'd \<Rightarrow> nat \<times> nat \<times> 'd"
  do_field_argument :: "nat \<Rightarrow> nat \<Rightarrow> 'd \<Rightarrow> 'd"
  do_import_argument :: "string \<Rightarrow> gql_value \<Rightarrow> 'd \<Rightarrow> nat \<times> 'd"
  do_unused_name :: "nat \<Rightarrow> 'd \<Rightarrow> string"
  do_add_variable :: "nat \<Rightarrow> nat \<Rightarrow> nat \<Rightarrow> 'd \<Rightarrow> 'd"

text \<open>
  The variables of the plan: \<open>vo_add\<close> is resolve.Variables.AddVariable, which answers the text
  that stands for the variable in the input and whether it was there. A renderer is made of a type,
  with or without validation, or of the schema of a JSON string.
\<close>

datatype renderer = JsonStringRenderer | PlainRenderer nat | ValidatingRenderer nat

datatype plan_variable = ContextVariable "string list" renderer | ObjectVariable "string list" renderer

record 'v var_ops =
  vo_empty :: 'v
  vo_add :: "plan_variable \<Rightarrow> 'v \<Rightarrow> (string \<times> bool) \<times> 'v"
  vo_plain :: "nat \<Rightarrow> go_error option"
  vo_validating :: "nat \<Rightarrow> go_error option"
  vo_set_raw :: "bytes \<Rightarrow> string \<Rightarrow> bytes \<Rightarrow> bytes"

text \<open>
  The downstream operation and the schema, as the planner asks them. \<open>vw_selections\<close> gives, for
  each selection of a set, the name of its field, or \<open>None\<close> for a fragment; \<open>vw_variable\<close> the type of a
  variable the operation defines, \<open>vw_query_argument\<close> the type of an argument of a field of the query type.
\<close>

record op_view =
  vw_field_name :: "nat \<Rightarrow> string"
  vw_alias_defined :: "nat \<Rightarrow> bool"
  vw_enclosing :: "nat \<Rightarrow> string"
  vw_selections :: "nat \<Rightarrow> string option list"
  vw_type_condition :: "nat \<Rightarrow> string option"
  vw_op_type :: "nat \<Rightarrow> op_type"
  vw_argument :: "nat \<Rightarrow> string \<Rightarrow> gql_value option"
  vw_variable :: "string \<Rightarrow> nat option"
  vw_type_name :: "nat \<Rightarrow> string"
  vw_fields :: "plan_field list"
  vw_for_type_field :: "string \<Rightarrow> string \<Rightarrow> plan_field option"
  vw_query_argument :: "string \<Rightarrow> string \<Rightarrow> nat option"

definition top_node :: "('d, 'v) db_planner \<Rightarrow> ast_node outcome" where
  "top_node p = (if dp_nodes p = [] then Panicked ''index out of range'' else Returned (last (dp_nodes p)))"

definition push_node :: "ast_node \<Rightarrow> ('d, 'v) db_planner \<Rightarrow> ('d, 'v) db_planner" where
  "push_node n p = p\<lparr>dp_nodes := dp_nodes p @ [n]\<rparr>"

definition pop_node :: "('d, 'v) db_planner \<Rightarrow> ('d, 'v) db_planner outcome" where
  "pop_node p =
     (if dp_nodes p = [] then Panicked ''slice bounds out of range''
      else Returned (p\<lparr>dp_nodes := butlast (dp_nodes p)\<rparr>))"

section \<open>Visiting\<close>

definition EnterDocument :: "'d doc_ops \<Rightarrow> 'v var_ops \<Rightarrow> 'd option \<Rightarrow> ('d, 'v) db_planner \<Rightarrow> ('d, 'v) db_planner" where
  "EnterDocument ops vo old p =
     p\<lparr>dp_doc := (case old of None \<Rightarrow> do_new ops | Some d \<Rightarrow> do_reset ops d), dp_nodes := [],
       dp_upstream_variables := [], dp_variables := vo_empty vo, dp_disallow_single_flight := False,
       dp_root_type := '''', dp_root_field := '''', dp_root_ref := -1\<rparr>"

definition EnterOperationDefinition ::
    "'d doc_ops \<Rightarrow> op_view \<Rightarrow> nat \<Rightarrow> ('d, 'v) db_planner \<Rightarrow> ('d, 'v) db_planner" where
  "EnterOperationDefinition ops vw ref p =
     (let operationType = (if dp_nested p then QUERY else vw_op_type vw ref);
          (definition_ref, d) = do_add_operation ops operationType (dp_doc p) in
      push_node \<lparr>nd_kind = OperationDefinitionNode, nd_ref = definition_ref\<rparr>
        (p\<lparr>dp_doc := d, dp_disallow_single_flight := (operationType = MUTATION)\<rparr>))"

definition LeaveOperationDefinition :: "('d, 'v) db_planner \<Rightarrow> ('d, 'v) db_planner outcome" where
  "LeaveOperationDefinition p = pop_node p"

fun add_typenames :: "'d doc_ops \<Rightarrow> nat \<Rightarrow> string option list \<Rightarrow> 'd \<Rightarrow> 'd" where
  "add_typenames ops set_ref [] d = d"
| "add_typenames ops set_ref (s # ss) d =
     (if s = Some ''__typename'' then
        (let (field, d) = do_add_field ops ''__typename'' d in
         add_typenames ops set_ref ss
           (do_add_selection ops set_ref \<lparr>nd_kind = FieldNode, nd_ref = field\<rparr> d))
      else add_typenames ops set_ref ss d)"

text \<open>The new set is attached to its parent unless that is a set itself.\<close>

definition EnterSelectionSet ::
    "'d doc_ops \<Rightarrow> op_view \<Rightarrow> nat \<Rightarrow> ('d, 'v) db_planner \<Rightarrow> ('d, 'v) db_planner outcome" where
  "EnterSelectionSet ops vw ref p =
     (if dp_inside_json p then Returned p
      else
        bind_out (top_node p) (\<lambda>parent.
          let (set_ref, d) = do_add_set ops (dp_doc p);
              d = (if nd_kind parent = SelectionSetNode then d else do_attach ops parent set_ref d) in
          Returned (push_node \<lparr>nd_kind = SelectionSetNode, nd_ref = set_ref\<rparr>
            (p\<lparr>dp_doc := add_typenames ops set_ref (vw_selections vw ref) d\<rparr>))))"

definition LeaveSelectionSet :: "('d, 'v) db_planner \<Rightarrow> ('d, 'v) db_planner outcome" where
  "LeaveSelectionSet p = (if dp_inside_json p then Returned p else pop_node p)"

definition EnterInlineFragment ::
    "'d doc_ops \<Rightarrow> op_view \<Rightarrow> nat \<Rightarrow> ('d, 'v) db_planner \<Rightarrow> ('d, 'v) db_planner outcome" where
  "EnterInlineFragment ops vw ref p =
     (if dp_inside_json p then Returned p
      else
        (case vw_type_condition vw ref of
           None \<Rightarrow> Returned p
         | Some typeCondition \<Rightarrow>
             (let (fragment, d) = do_add_fragment ops typeCondition (dp_doc p);
                  (typeNameField, d) = do_add_field ops ''__typename'' d in
              bind_out (top_node p) (\<lambda>parent.
                let d = do_add_selection ops (nd_ref parent) \<lparr>nd_kind = FieldNode, nd_ref = typeNameField\<rparr> d;
                    d = do_add_selection ops (nd_ref parent) \<lparr>nd_kind = InlineFragmentNode, nd_ref = fragment\<rparr> d in
                Returned (push_node \<lparr>nd_kind = InlineFragmentNode, nd_ref = fragment\<rparr> (p\<lparr>dp_doc := d\<rparr>))))))"

definition LeaveInlineFragment :: "('d, 'v) db_planner \<Rightarrow> ('d, 'v) db_planner outcome" where
  "LeaveInlineFragment p =
     (if dp_inside_json p then Returned p
      else bind_out (top_node p) (\<lambda>top_n.
        if nd_kind top_n \<noteq> InlineFragmentNode then Returned p else pop_node p))"

section \<open>Fields and their arguments\<close>

definition is_json_field :: "database_config \<Rightarrow> string \<Rightarrow> string \<Rightarrow> bool" where
  "is_json_field c typeName fieldName =
     list_ex (\<lambda>f. st_type f = typeName \<and> st_field f = fieldName) (dbc_json_fields c)"

definition addJsonField ::
    "'d doc_ops \<Rightarrow> op_view \<Rightarrow> nat \<Rightarrow> ('d, 'v) db_planner \<Rightarrow> ('d, 'v) db_planner outcome" where
  "addJsonField ops vw ref p =
     (let (field, d) = do_add_field ops (vw_field_name vw ref) (dp_doc p) in
      bind_out (top_node p) (\<lambda>parent.
        Returned (p\<lparr>dp_doc := do_add_selection ops (nd_ref parent) \<lparr>nd_kind = FieldNode, nd_ref = field\<rparr> d\<rparr>)))"

text \<open>The name of a field upstream: the first mapping of it to a path of one element.\<close>

fun mapped_name :: "plan_field list \<Rightarrow> string \<Rightarrow> string \<Rightarrow> string option" where
  "mapped_name [] typeName fieldName = None"
| "mapped_name (f # fs) typeName fieldName =
     (if pf_type f = typeName \<and> pf_field f = fieldName \<and> length (pf_path f) = 1 then Some (pf_path f ! 0)
      else mapped_name fs typeName fieldName)"

definition addField ::
    "'d doc_ops \<Rightarrow> op_view \<Rightarrow> nat \<Rightarrow> ('d, 'v) db_planner \<Rightarrow> ('d, 'v) db_planner outcome" where
  "addField ops vw ref p =
     (let fieldName = vw_field_name vw ref;
          mapped = mapped_name (vw_fields vw) (vw_enclosing vw ref) fieldName;
          fieldName = (case mapped of None \<Rightarrow> fieldName | Some name \<Rightarrow> name);
          p = (if mapped \<noteq> None \<and> int ref = dp_root_ref p then p\<lparr>dp_root_field := fieldName\<rparr> else p);
          (field, d) = do_add_field ops fieldName (dp_doc p);
          node = \<lparr>nd_kind = FieldNode, nd_ref = field\<rparr> in
      bind_out (top_node p) (\<lambda>parent.
        Returned (push_node node (p\<lparr>dp_doc := do_add_selection ops (nd_ref parent) node d\<rparr>))))"

definition inline_variable :: "op_view \<Rightarrow> string \<Rightarrow> nat \<Rightarrow> ('d, 'v) db_planner \<Rightarrow> ('d, 'v) db_planner" where
  "inline_variable vw variableName variableType p =
     (let typeName = vw_type_name vw variableType;
          isJSON = list_ex (\<lambda>t. typeName = t) (dbc_json_inputs (dp_config p)) in
      p\<lparr>dp_inlined := dp_inlined p @ [\<lparr>nv_name = variableName, nv_type = variableType, nv_json = isJSON\<rparr>]\<rparr>)"

text \<open>
  The variables in a value; one that the operation does not define is looked up at index \<open>-1\<close>.
\<close>

fun addVariableDefinitionsRecursively ::
    "op_view \<Rightarrow> gql_value \<Rightarrow> ('d, 'v) db_planner \<Rightarrow> ('d, 'v) db_planner outcome"
  and addVariableDefinitionsOfList ::
    "op_view \<Rightarrow> gql_value list \<Rightarrow> ('d, 'v) db_planner \<Rightarrow> ('d, 'v) db_planner outcome" where
  "addVariableDefinitionsRecursively vw (ObjectVal vs) p = addVariableDefinitionsOfList vw vs p"
| "addVariableDefinitionsRecursively vw (ListVal vs) p = addVariableDefinitionsOfList vw vs p"
| "addVariableDefinitionsRecursively vw ScalarVal p = Returned p"
| "addVariableDefinitionsRecursively vw (VariableVal name) p =
     (case vw_variable vw name of
        None \<Rightarrow> Panicked ''index out of range''
      | Some ty \<Rightarrow> Returned (inline_variable vw name ty p))"
| "addVariableDefinitionsOfList vw [] p = Returned p"
| "addVariableDefinitionsOfList vw (v # vs) p =
     bind_out (addVariableDefinitionsRecursively vw v p) (addVariableDefinitionsOfList vw vs)"

definition applyInlineFieldArgument ::
    "'d doc_ops \<Rightarrow> op_view \<Rightarrow> nat \<Rightarrow> nat \<Rightarrow> string \<Rightarrow> ('d, 'v) db_planner \<Rightarrow> ('d, 'v) db_planner outcome" where
  "applyInlineFieldArgument ops vw upstreamField downstreamField argumentName p =
     (case vw_argument vw downstreamField argumentName of
        None \<Rightarrow> Returned p
      | Some value \<Rightarrow>
          (let (arg, d) = do_import_argument ops argumentName value (dp_doc p) in
           addVariableDefinitionsRecursively vw value (p\<lparr>dp_doc := do_field_argument ops upstreamField arg d\<rparr>)))"

definition configureFieldArgumentSource ::
    "'d doc_ops \<Rightarrow> op_view \<Rightarrow> nat \<Rightarrow> nat \<Rightarrow> string \<Rightarrow> ('d, 'v) db_planner \<Rightarrow> ('d, 'v) db_planner outcome" where
  "configureFieldArgumentSource ops vw upstreamField downstreamField argumentName p =
     (case vw_argument vw downstreamField argumentName of
        None \<Rightarrow> Returned p
      | Some (VariableVal name) \<Rightarrow>
          (case vw_variable vw name of
             None \<Rightarrow> Returned p
           | Some ty \<Rightarrow>
               (let (value, arg, d) = do_var_argument ops argumentName name (dp_doc p) in
                Returned (inline_variable vw name ty (p\<lparr>dp_doc := do_field_argument ops upstreamField arg d\<rparr>))))
      | Some value \<Rightarrow> applyInlineFieldArgument ops vw upstreamField downstreamField argumentName p)"

definition configureObjectFieldSource ::
    "'d doc_ops \<Rightarrow> 'v var_ops \<Rightarrow> op_view \<Rightarrow> nat \<Rightarrow> nat \<Rightarrow> plan_field \<Rightarrow> plan_argument
      \<Rightarrow> ('d, 'v) db_planner \<Rightarrow> ('d, 'v) db_planner outcome" where
  "configureObjectFieldSource ops vo vw upstreamField downstreamField fieldConfiguration argumentConfiguration p =
     (if length (pa_path argumentConfiguration) < 1 then Returned p
      else
        (let fieldName = (if length (pf_path fieldConfiguration) = 1 then pf_path fieldConfiguration ! 0
                          else vw_field_name vw downstreamField) in
         case vw_query_argument vw fieldName (pa_name argumentConfiguration) of
           None \<Rightarrow> Returned p
         | Some argumentType \<Rightarrow>
             (case dp_nodes p of
                [] \<Rightarrow> Panicked ''index out of range''
              | root # _ \<Rightarrow>
                  (let variableName = do_unused_name ops (nd_ref root) (dp_doc p);
                       (value, arg, d) = do_var_argument ops (pa_name argumentConfiguration) variableName (dp_doc p);
                       d = do_field_argument ops upstreamField arg d;
                       p = p\<lparr>dp_doc := do_add_variable ops (nd_ref root) value argumentType d\<rparr> in
                   case vo_validating vo argumentType of
                     Some err \<Rightarrow> Returned p
                   | None \<Rightarrow>
                       (let ((name, exists), vs) = vo_add vo
                              (ObjectVariable (pa_path argumentConfiguration) (ValidatingRenderer argumentType))
                              (dp_variables p);
                            p = p\<lparr>dp_variables := vs\<rparr> in
                        Returned (if exists then p
                          else p\<lparr>dp_upstream_variables := vo_set_raw vo (dp_upstream_variables p) variableName name\<rparr>))))))"

definition configureArgument ::
    "'d doc_ops \<Rightarrow> 'v var_ops \<Rightarrow> op_view \<Rightarrow> nat \<Rightarrow> nat \<Rightarrow> plan_field \<Rightarrow> plan_argument
      \<Rightarrow> ('d, 'v) db_planner \<Rightarrow> ('d, 'v) db_planner outcome" where
  "configureArgument ops vo vw upstreamField downstreamField fieldConfig argumentConfiguration p =
     (case pa_source argumentConfiguration of
        FieldArgumentSource \<Rightarrow>
          configureFieldArgumentSource ops vw upstreamField downstreamField (pa_name argumentConfiguration) p
      | ObjectFieldSource \<Rightarrow>
          configureObjectFieldSource ops vo vw upstreamField downstreamField fieldConfig argumentConfiguration p)"

fun configure_arguments ::
    "'d doc_ops \<Rightarrow> 'v var_ops \<Rightarrow> op_view \<Rightarrow> nat \<Rightarrow> nat \<Rightarrow> plan_field \<Rightarrow> plan_argument list
      \<Rightarrow> ('d, 'v) db_planner \<Rightarrow> ('d, 'v) db_planner outcome" where
  "configure_arguments ops vo vw upstreamField downstreamField fieldConfig [] p = Returned p"
| "configure_arguments ops vo vw upstreamField downstreamField fieldConfig (a # as) p =
     bind_out (configureArgument ops vo vw upstreamField downstreamField fieldConfig a p)
       (configure_arguments ops vo vw upstreamField downstreamField fieldConfig as)"

definition EnterField ::
    "'d doc_ops \<Rightarrow> 'v var_ops \<Rightarrow> op_view \<Rightarrow> nat \<Rightarrow> ('d, 'v) db_planner \<Rightarrow> ('d, 'v) db_planner outcome" where
  "EnterField ops vo vw ref p =
     (if dp_inside_json p then Returned p
      else
        (let fieldName = vw_field_name vw ref;
             enclosingTypeName = vw_enclosing vw ref in
         if is_json_field (dp_config p) enclosingTypeName fieldName then
           addJsonField ops vw ref (p\<lparr>dp_inside_json := True, dp_json_ref := ref\<rparr>)
         else
           (let p = (if dp_root_field p = '''' then p\<lparr>dp_root_field := fieldName, dp_root_ref := int ref\<rparr> else p);
                p = (if dp_root_type p = '''' then p\<lparr>dp_root_type := enclosingTypeName\<rparr> else p);
                p = p\<lparr>dp_last_type := enclosingTypeName\<rparr> in
            bind_out (addField ops vw ref p) (\<lambda>p.
            bind_out (top_node p) (\<lambda>upstream.
              case vw_for_type_field vw (dp_last_type p) fieldName of
                None \<Rightarrow> Returned p
              | Some fieldConfiguration \<Rightarrow>
                  configure_arguments ops vo vw (nd_ref upstream) ref fieldConfiguration (pf_args fieldConfiguration) p)))))"

definition LeaveField :: "nat \<Rightarrow> ('d, 'v) db_planner \<Rightarrow> ('d, 'v) db_planner outcome" where
  "LeaveField ref p =
     (if dp_inside_json p then
        Returned (if dp_json_ref p = ref then p\<lparr>dp_inside_json := False, dp_json_ref := 0\<rparr> else p)
      else pop_node p)"

definition DownstreamResponseFieldAlias :: "op_view \<Rightarrow> nat \<Rightarrow> string \<times> bool" where
  "DownstreamResponseFieldAlias vw ref =
     (let fieldName = vw_field_name vw ref in
      if vw_alias_defined vw ref then ('''', False)
      else
        (case mapped_name (vw_fields vw) (vw_enclosing vw ref) fieldName of
           None \<Rightarrow> ('''', False)
         | Some path \<Rightarrow> (if path \<noteq> fieldName then (fieldName, True) else ('''', False))))"

section \<open>Operations for federation, which the planner does not call\<close>

definition addOneTypeInlineFragment :: "'d doc_ops \<Rightarrow> ('d, 'v) db_planner \<Rightarrow> ('d, 'v) db_planner outcome" where
  "addOneTypeInlineFragment ops p =
     (let (set_ref, d) = do_add_set ops (dp_doc p);
          (fragment, d) = do_add_fragment ops (dp_last_type p) d;
          d = do_attach ops \<lparr>nd_kind = InlineFragmentNode, nd_ref = fragment\<rparr> set_ref d in
      bind_out (top_node p) (\<lambda>parent.
        Returned (push_node \<lparr>nd_kind = SelectionSetNode, nd_ref = set_ref\<rparr>
          (p\<lparr>dp_doc := do_add_selection ops (nd_ref parent) \<lparr>nd_kind = InlineFragmentNode, nd_ref = fragment\<rparr> d\<rparr>))))"

text \<open>Of the type \<open>[_Any!]!\<close>: \<open>named\<close>, \<open>wrap\<close> and \<open>variable\<close> add a named type, a list or non-null type and a
  variable to the document.\<close>

datatype type_wrapper = NonNullType | ListType

definition addRepresentationsVariableDefinition ::
    "'d doc_ops \<Rightarrow> (string \<Rightarrow> 'd \<Rightarrow> nat \<times> 'd) \<Rightarrow> (type_wrapper \<Rightarrow> nat \<Rightarrow> 'd \<Rightarrow> nat \<times> 'd) \<Rightarrow> (string \<Rightarrow> 'd \<Rightarrow> nat \<times> 'd)
      \<Rightarrow> ('d, 'v) db_planner \<Rightarrow> ('d, 'v) db_planner outcome" where
  "addRepresentationsVariableDefinition ops named wrap variable p =
     (let (anyType, d) = named ''_Any'' (dp_doc p);
          (nonNullAnyType, d) = wrap NonNullType anyType d;
          (listOfNonNullAnyType, d) = wrap ListType nonNullAnyType d;
          (nonNullListOfNonNullAnyType, d) = wrap NonNullType listOfNonNullAnyType d;
          (representationsVariable, d) = variable ''representations'' d in
      case dp_nodes p of
        [] \<Rightarrow> Panicked ''index out of range''
      | root # _ \<Rightarrow>
          Returned (p\<lparr>dp_doc := do_add_variable ops (nd_ref root) representationsVariable nonNullListOfNonNullAnyType d\<rparr>))"

definition addEntitiesSelectionSet :: "'d doc_ops \<Rightarrow> ('d, 'v) db_planner \<Rightarrow> ('d, 'v) db_planner outcome" where
  "addEntitiesSelectionSet ops p =
     (let (value, arg, d) = do_var_argument ops ''representations'' ''representations'' (dp_doc p);
          (set_ref, d) = do_add_set ops d;
          (field, d) = do_add_field ops ''_entities'' d;
          node = \<lparr>nd_kind = FieldNode, nd_ref = field\<rparr>;
          d = do_attach ops node set_ref (do_field_argument ops field arg d) in
      bind_out (top_node p) (\<lambda>parent.
        Returned (push_node \<lparr>nd_kind = SelectionSetNode, nd_ref = set_ref\<rparr>
          (push_node node (p\<lparr>dp_doc := do_add_selection ops (nd_ref parent) node d\<rparr>)))))"

text \<open>The walk is in a nested request when no field is open and two selection sets are around it.\<close>

fun two_sets :: "node_kind list \<Rightarrow> nat \<Rightarrow> bool" where
  "two_sets [] n = False"
| "two_sets (k # ks) n =
     (if k = SelectionSetNode then (if n + 1 = 2 then True else two_sets ks (n + 1)) else two_sets ks n)"

definition isNestedRequest :: "node_kind list \<Rightarrow> ('d, 'v) db_planner \<Rightarrow> bool" where
  "isNestedRequest ancestors p =
     (if list_ex (\<lambda>n. nd_kind n = FieldNode) (dp_nodes p) then False else two_sets ancestors 0)"

section \<open>Printing and planning\<close>

text \<open>
  The printer, parser and normaliser of the GraphQL library, on operations \<open>'o\<close> and schemas \<open>'s\<close>.
  \<open>po_query_fields\<close> gives the fields of the query type when it is an object type.
\<close>

record ('d, 'o, 's) print_ops =
  po_print :: "'d \<Rightarrow> bytes res"
  po_parse_operation :: "bytes \<Rightarrow> 'o option"
  po_parse_schema :: "string \<Rightarrow> 's option"
  po_merge_base :: "'s \<Rightarrow> 's option"
  po_query_fields :: "'s \<Rightarrow> string list option"
  po_replace_query :: "string \<Rightarrow> 's \<Rightarrow> 's"
  po_normalize :: "'o \<Rightarrow> 's \<Rightarrow> 'o option"
  po_print_operation :: "'o \<Rightarrow> bytes res"

definition replaceQueryType :: "('d, 'o, 's) print_ops \<Rightarrow> ('d, 'v) db_planner \<Rightarrow> 's \<Rightarrow> 's" where
  "replaceQueryType po p schema =
     (if \<not> dp_nested p then schema
      else
        (case po_query_fields po schema of
           None \<Rightarrow> schema
         | Some names \<Rightarrow>
             (if dp_root_field p \<in> set names then schema else po_replace_query po (dp_root_type p) schema)))"

definition normalizeOperation :: "('d, 'o, 's) print_ops \<Rightarrow> 'o \<Rightarrow> 's \<Rightarrow> 'o option" where
  "normalizeOperation po op schema = po_normalize po op schema"

text \<open>The printed operation, or nothing with the error that stops the walk, if any.\<close>

definition printOperation :: "('d, 'o, 's) print_ops \<Rightarrow> ('d, 'v) db_planner \<Rightarrow> bytes \<times> string option" where
  "printOperation po p =
     (case po_print po (dp_doc p) of
        Inl err \<Rightarrow> ([], None)
      | Inr rawQuery \<Rightarrow>
          (case po_parse_operation po rawQuery of
             None \<Rightarrow> ([], Some ''printOperation: parse operation failed'')
           | Some op \<Rightarrow>
               (case po_parse_schema po (dbc_graphql (dp_config p)) of
                  None \<Rightarrow> ([], Some ''printOperation: parse definition failed'')
                | Some schema \<Rightarrow>
                    (case po_merge_base po schema of
                       None \<Rightarrow> ([], Some ''merging upstream schema with base schema failed'')
                     | Some schema \<Rightarrow>
                         (case normalizeOperation po op (replaceQueryType po p schema) of
                            None \<Rightarrow> ([], Some ''printOperation: normalization failed'')
                          | Some op \<Rightarrow>
                              (case po_print_operation po op of
                                 Inl err \<Rightarrow> ([], Some ''printOperation: normalization failed'')
                               | Inr out \<Rightarrow> (out, None)))))))"

text \<open>
  The variables are inlined one after the other: each replaces every occurrence of its name in the
  text of the query.
\<close>

fun inline_loop :: "'v var_ops \<Rightarrow> inlined_variable list \<Rightarrow> string \<Rightarrow> 'v \<Rightarrow> string \<times> 'v" where
  "inline_loop vo [] query vs = (query, vs)"
| "inline_loop vo (v # rest) query vs =
     (let currentName = ''$'' @ nv_name v in
      if nv_json v then
        (let ((replacement, _), vs) = vo_add vo (ContextVariable [nv_name v] JsonStringRenderer) vs in
         inline_loop vo rest (replace_all query currentName replacement) vs)
      else
        (case vo_plain vo (nv_type v) of
           Some err \<Rightarrow> inline_loop vo rest query vs
         | None \<Rightarrow>
             (let ((replacement, _), vs) = vo_add vo (ContextVariable [nv_name v] (PlainRenderer (nv_type v))) vs in
              inline_loop vo rest (replace_all query currentName replacement) vs)))"

record 'v db_fetch =
  df_input :: bytes
  df_schema :: string
  df_dir :: string
  df_close_timeout :: int
  df_variables :: 'v
  df_disallow_single_flight :: bool

text \<open>\<open>marshal\<close> is json.Marshal of a query and its variables.\<close>

definition ConfigureFetch ::
    "('d, 'o, 's) print_ops \<Rightarrow> 'v var_ops \<Rightarrow> (string \<Rightarrow> bytes \<Rightarrow> bytes res) \<Rightarrow> ('d, 'v) db_planner \<Rightarrow> 'v db_fetch" where
  "ConfigureFetch po vo marshal p =
     (let (query, vs) = inline_loop vo (dp_inlined p) (fst (printOperation po p)) (dp_variables p) in
      \<lparr>df_input = (case marshal query (dp_upstream_variables p) of
          Inl err \<Rightarrow> ''{'' @ [CHR 0x22] @ ''error'' @ [CHR 0x22] @ '':'' @ err_text err @ ''}''
        | Inr rawInput \<Rightarrow> rawInput),
       df_schema = dbc_prisma (dp_config p), df_dir = dbc_dir (dp_config p),
       df_close_timeout = dbc_close_timeout (dp_config p), df_variables = vs,
       df_disallow_single_flight = dp_disallow_single_flight p\<rparr>)"

text \<open>\<open>set_path\<close> is httpclient.SetInputBodyWithPath.\<close>

definition ConfigureSubscription ::
    "('d, 'o, 's) print_ops \<Rightarrow> (bytes \<Rightarrow> bytes \<Rightarrow> string \<Rightarrow> bytes) \<Rightarrow> ('d, 'v) db_planner \<Rightarrow> bytes \<times> 'v" where
  "ConfigureSubscription po set_path p =
     (let input = set_path [] (dp_upstream_variables p) ''variables'' in
      (set_path input (fst (printOperation po p)) ''query'', dp_variables p))"

text \<open>\<open>unmarshal\<close> reads the configuration of the data source.\<close>

definition Register ::
    "(bytes \<Rightarrow> database_config res) \<Rightarrow> bytes \<Rightarrow> bool \<Rightarrow> ('d, 'v) db_planner \<Rightarrow> ('d, 'v) db_planner res" where
  "Register unmarshal custom isNested p =
     (case unmarshal custom of
        Inl err \<Rightarrow> Inl err
      | Inr config \<Rightarrow>
          (let config = (if dbc_close_timeout config = 0 then config\<lparr>dbc_close_timeout := 10\<rparr> else config) in
           Inr (p\<lparr>dp_config := config, dp_nested := isNested\<rparr>)))"

section \<open>The walk over an operation\<close>

datatype db_event =
    EvEnterOperation nat | EvLeaveOperation nat
  | EvEnterSelectionSet nat | EvLeaveSelectionSet nat
  | EvEnterInlineFragment nat | EvLeaveInlineFragment nat
  | EvEnterField nat | EvLeaveField nat

fun visit ::
    "'d doc_ops \<Rightarrow> 'v var_ops \<Rightarrow> op_view \<Rightarrow> db_event \<Rightarrow> ('d, 'v) db_planner \<Rightarrow> ('d, 'v) db_planner outcome" where
  "visit ops vo vw (EvEnterOperation ref) p = Returned (EnterOperationDefinition ops vw ref p)"
| "visit ops vo vw (EvLeaveOperation ref) p = LeaveOperationDefinition p"
| "visit ops vo vw (EvEnterSelectionSet ref) p = EnterSelectionSet ops vw ref p"
| "visit ops vo vw (EvLeaveSelectionSet ref) p = LeaveSelectionSet p"
| "visit ops vo vw (EvEnterInlineFragment ref) p = EnterInlineFragment ops vw ref p"
| "visit ops vo vw (EvLeaveInlineFragment ref) p = LeaveInlineFragment p"
| "visit ops vo vw (EvEnterField ref) p = EnterField ops vo vw ref p"
| "visit ops vo vw (EvLeaveField ref) p = LeaveField ref p"

fun visit_all ::
    "'d doc_ops \<Rightarrow> 'v var_ops \<Rightarrow> op_view \<Rightarrow> db_event list \<Rightarrow> ('d, 'v) db_planner \<Rightarrow> ('d, 'v) db_planner outcome" where
  "visit_all ops vo vw [] p = Returned p"
| "visit_all ops vo vw (e # es) p = bind_out (visit ops vo vw e p) (visit_all ops vo vw es)"

lemma visit_all_append:
  "visit_all ops vo vw (es @ fs) p = bind_out (visit_all ops vo vw es p) (visit_all ops vo vw fs)"
proof (induction es arbitrary: p)
  case (Cons e es)
  then show ?case by (cases "visit ops vo vw e p") simp_all
qed simp

text \<open>
  The events of the walker: it goes through the selections of a set in turn and comes back from
  each. A field does not occur below itself.
\<close>

inductive walk_sels :: "db_event list \<Rightarrow> bool" and walk_set :: "db_event list \<Rightarrow> bool" where
  nil: "walk_sels []"
| leaf: "walk_sels es \<Longrightarrow> walk_sels (EvEnterField r # EvLeaveField r # es)"
| field: "walk_set ss \<Longrightarrow> EvLeaveField r \<notin> set ss \<Longrightarrow> walk_sels es
    \<Longrightarrow> walk_sels (EvEnterField r # ss @ EvLeaveField r # es)"
| fragment: "walk_set ss \<Longrightarrow> walk_sels es
    \<Longrightarrow> walk_sels (EvEnterInlineFragment f # ss @ EvLeaveInlineFragment f # es)"
| set: "walk_sels es \<Longrightarrow> walk_set (EvEnterSelectionSet s # es @ [EvLeaveSelectionSet s])"

inductive walk_operation :: "db_event list \<Rightarrow> bool" where
  "walk_set ss \<Longrightarrow> walk_operation (EvEnterOperation r # ss @ [EvLeaveOperation r])"

fun value_variables :: "gql_value \<Rightarrow> string set" and list_variables :: "gql_value list \<Rightarrow> string set" where
  "value_variables (VariableVal name) = {name}"
| "value_variables (ObjectVal vs) = list_variables vs"
| "value_variables (ListVal vs) = list_variables vs"
| "value_variables ScalarVal = {}"
| "list_variables [] = {}"
| "list_variables (v # vs) = value_variables v \<union> list_variables vs"

text \<open>A valid operation defines every variable that an argument mentions.\<close>

definition variables_defined :: "op_view \<Rightarrow> bool" where
  "variables_defined vw =
     (\<forall>field name v. vw_argument vw field name = Some v \<longrightarrow> (\<forall>x \<in> value_variables v. vw_variable vw x \<noteq> None))"

section \<open>The stack of nodes\<close>

text \<open>The stack and the JSON mode stay as they are.\<close>

definition keeps_stack :: "('d, 'v) db_planner \<Rightarrow> ('d, 'v) db_planner outcome \<Rightarrow> bool" where
  "keeps_stack p r = (\<exists>q. r = Returned q \<and> dp_nodes q = dp_nodes p \<and> dp_inside_json q = dp_inside_json p)"

lemma keeps_stack_Returned [simp]:
  "keeps_stack p (Returned q) \<longleftrightarrow> dp_nodes q = dp_nodes p \<and> dp_inside_json q = dp_inside_json p"
  by (auto simp: keeps_stack_def)

lemma keeps_stack_bind:
  assumes "keeps_stack p r"
    and "\<And>q. dp_nodes q = dp_nodes p \<Longrightarrow> dp_inside_json q = dp_inside_json p \<Longrightarrow> keeps_stack q (f q)"
  shows "keeps_stack p (bind_out r f)"
proof -
  from assms(1) obtain q where q: "r = Returned q" "dp_nodes q = dp_nodes p" "dp_inside_json q = dp_inside_json p"
    by (auto simp: keeps_stack_def)
  from assms(2) [OF q(2,3)] q show ?thesis by (simp add: keeps_stack_def)
qed

lemma inline_variable_stack [simp]:
  "dp_nodes (inline_variable vw n t p) = dp_nodes p"
  "dp_inside_json (inline_variable vw n t p) = dp_inside_json p"
  by (simp_all add: inline_variable_def Let_def)

lemma addVariableDefinitions_stack:
  "\<forall>x \<in> value_variables v. vw_variable vw x \<noteq> None \<Longrightarrow>
    keeps_stack p (addVariableDefinitionsRecursively vw v p)"
  "\<forall>x \<in> list_variables vs. vw_variable vw x \<noteq> None \<Longrightarrow>
    keeps_stack p (addVariableDefinitionsOfList vw vs p)"
  by (induction vw v p and vw vs p
      rule: addVariableDefinitionsRecursively_addVariableDefinitionsOfList.induct)
    (auto intro: keeps_stack_bind split: option.split)

lemma keeps_stack_doc: "keeps_stack (p\<lparr>dp_doc := d\<rparr>) r \<Longrightarrow> keeps_stack p r"
  by (simp add: keeps_stack_def)

lemma applyInlineFieldArgument_stack:
  assumes "variables_defined vw"
  shows "keeps_stack p (applyInlineFieldArgument ops vw uf df name p)"
proof (cases "vw_argument vw df name")
  case (Some v)
  with assms have v: "\<forall>x \<in> value_variables v. vw_variable vw x \<noteq> None"
    unfolding variables_defined_def by blast
  obtain arg d where "do_import_argument ops name v (dp_doc p) = (arg, d)" by fastforce
  with Some show ?thesis
    unfolding applyInlineFieldArgument_def
    by simp (rule keeps_stack_doc, rule addVariableDefinitions_stack(1) [OF v])
qed (simp add: applyInlineFieldArgument_def)

lemma configureFieldArgumentSource_stack:
  assumes "variables_defined vw"
  shows "keeps_stack p (configureFieldArgumentSource ops vw uf df name p)"
proof (cases "vw_argument vw df name")
  case (Some v)
  with applyInlineFieldArgument_stack [OF assms, of p ops uf df name] show ?thesis
    by (cases v) (simp_all add: configureFieldArgumentSource_def split: option.split prod.split)
qed (simp add: configureFieldArgumentSource_def)

lemma configureObjectFieldSource_stack:
  assumes "dp_nodes p \<noteq> []"
  shows "keeps_stack p (configureObjectFieldSource ops vo vw uf df fc a p)"
  using assms
  by (cases "dp_nodes p")
    (simp_all add: configureObjectFieldSource_def Let_def split: option.split prod.split)

lemma configureArgument_stack:
  "variables_defined vw \<Longrightarrow> dp_nodes p \<noteq> [] \<Longrightarrow> keeps_stack p (configureArgument ops vo vw uf df fc a p)"
  by (simp add: configureArgument_def configureFieldArgumentSource_stack configureObjectFieldSource_stack
      split: plan_source.split)

lemma configure_arguments_stack:
  "variables_defined vw \<Longrightarrow> dp_nodes p \<noteq> [] \<Longrightarrow> keeps_stack p (configure_arguments ops vo vw uf df fc as p)"
  by (induction "as" arbitrary: p) (auto intro: keeps_stack_bind configureArgument_stack)

text \<open>What entering a field does to the stack.\<close>

lemma EnterField_json:
  assumes "\<not> dp_inside_json p" "dp_nodes p \<noteq> []"
    and "is_json_field (dp_config p) (vw_enclosing vw r) (vw_field_name vw r)"
  shows "\<exists>q. EnterField ops vo vw r p = Returned q \<and> dp_nodes q = dp_nodes p \<and> dp_inside_json q \<and> dp_json_ref q = r"
  using assms
  by (simp add: EnterField_def addJsonField_def top_node_def Let_def split: prod.split)

lemma addField_stack:
  assumes "dp_nodes p \<noteq> []"
  shows "\<exists>q n. addField ops vw r p = Returned q \<and> dp_nodes q = dp_nodes p @ [n] \<and> nd_kind n = FieldNode
    \<and> dp_inside_json q = dp_inside_json p"
  using assms by (auto simp: addField_def Let_def top_node_def push_node_def split: prod.split)

lemma EnterField_push:
  assumes "\<not> dp_inside_json p" "dp_nodes p \<noteq> []" "variables_defined vw"
    and "\<not> is_json_field (dp_config p) (vw_enclosing vw r) (vw_field_name vw r)"
  shows "\<exists>q n. EnterField ops vo vw r p = Returned q \<and> dp_nodes q = dp_nodes p @ [n]
    \<and> nd_kind n = FieldNode \<and> \<not> dp_inside_json q"
proof -
  define p' where "p' = (let p = (if dp_root_field p = '''' then p\<lparr>dp_root_field := vw_field_name vw r, dp_root_ref := int r\<rparr> else p);
      p = (if dp_root_type p = '''' then p\<lparr>dp_root_type := vw_enclosing vw r\<rparr> else p) in
      p\<lparr>dp_last_type := vw_enclosing vw r\<rparr>)"
  have p': "dp_nodes p' = dp_nodes p" "dp_inside_json p' = dp_inside_json p"
    by (simp_all add: p'_def Let_def)
  with assms(2) obtain q n where q: "addField ops vw r p' = Returned q" "dp_nodes q = dp_nodes p @ [n]"
      "nd_kind n = FieldNode" "dp_inside_json q = dp_inside_json p"
    using addField_stack [of p' ops vw r] by auto
  let ?r = "case vw_for_type_field vw (dp_last_type q) (vw_field_name vw r) of
      None \<Rightarrow> Returned q
    | Some fc \<Rightarrow> configure_arguments ops vo vw (nd_ref n) r fc (pf_args fc) q"
  have "EnterField ops vo vw r p = ?r"
    using assms(1,4) q by (simp add: EnterField_def p'_def Let_def top_node_def)
  moreover have "keeps_stack q ?r"
    using assms(3) q(2) by (auto split: option.split intro: configure_arguments_stack)
  ultimately show ?thesis using q assms(1) by (auto simp: keeps_stack_def)
qed

text \<open>Inside a JSON field every event is ignored, up to leaving that field.\<close>

fun operation_event :: "db_event \<Rightarrow> bool" where
  "operation_event (EvEnterOperation r) = True"
| "operation_event (EvLeaveOperation r) = True"
| "operation_event _ = False"

lemma walk_no_operation:
  "walk_sels es \<Longrightarrow> e \<in> set es \<Longrightarrow> \<not> operation_event e"
  "walk_set es \<Longrightarrow> e \<in> set es \<Longrightarrow> \<not> operation_event e"
  by (induction rule: walk_sels_walk_set.inducts) auto

lemma visit_inside_json:
  "dp_inside_json p \<Longrightarrow> \<not> operation_event e \<Longrightarrow> e \<noteq> EvLeaveField (dp_json_ref p) \<Longrightarrow> visit ops vo vw e p = Returned p"
  by (cases e) (auto simp: EnterSelectionSet_def LeaveSelectionSet_def EnterInlineFragment_def
      LeaveInlineFragment_def EnterField_def LeaveField_def)

lemma visit_all_inside_json:
  "dp_inside_json p \<Longrightarrow> \<forall>e \<in> set es. \<not> operation_event e \<Longrightarrow> EvLeaveField (dp_json_ref p) \<notin> set es \<Longrightarrow>
    visit_all ops vo vw es p = Returned p"
  by (induction es) (auto simp: visit_inside_json)

lemma json_field_walk:
  assumes "\<not> dp_inside_json p" "dp_nodes p \<noteq> []"
    and json: "is_json_field (dp_config p) (vw_enclosing vw r) (vw_field_name vw r)"
    and ss: "\<forall>e \<in> set ss. \<not> operation_event e" "EvLeaveField r \<notin> set ss"
  shows "visit_all ops vo vw (EvEnterField r # ss @ [EvLeaveField r]) p
    = bind_out (EnterField ops vo vw r p) (\<lambda>q. Returned (q\<lparr>dp_inside_json := False, dp_json_ref := 0\<rparr>))"
proof -
  from EnterField_json [OF assms(1-3)] obtain q where
    q: "EnterField ops vo vw r p = Returned q" "dp_inside_json q" "dp_json_ref q = r" by blast
  then have "visit_all ops vo vw ss q = Returned q"
    using ss by (intro visit_all_inside_json) auto
  with q show ?thesis by (simp add: visit_all_append LeaveField_def)
qed

text \<open>
  A walk brings the stack back: \<open>walked\<close> says that the events return, with the stack as it was and
  outside JSON mode.
\<close>

definition walked ::
    "'d doc_ops \<Rightarrow> 'v var_ops \<Rightarrow> op_view \<Rightarrow> db_event list \<Rightarrow> ('d, 'v) db_planner \<Rightarrow> bool" where
  "walked ops vo vw es p =
     (\<exists>q. visit_all ops vo vw es p = Returned q \<and> dp_nodes q = dp_nodes p \<and> \<not> dp_inside_json q)"

lemma walked_Nil: "walked ops vo vw [] p \<longleftrightarrow> \<not> dp_inside_json p"
  by (auto simp: walked_def)

lemma walked_append:
  assumes "walked ops vo vw es p"
    and "\<And>q. dp_nodes q = dp_nodes p \<Longrightarrow> \<not> dp_inside_json q \<Longrightarrow> walked ops vo vw fs q"
  shows "walked ops vo vw (es @ fs) p"
proof -
  from assms(1) obtain q where q: "visit_all ops vo vw es p = Returned q" "dp_nodes q = dp_nodes p" "\<not> dp_inside_json q"
    by (auto simp: walked_def)
  from assms(2) [OF q(2,3)] obtain r where "visit_all ops vo vw fs q = Returned r" "dp_nodes r = dp_nodes p"
    "\<not> dp_inside_json r"
    using q(2) by (auto simp: walked_def)
  with q show ?thesis by (auto simp: walked_def visit_all_append)
qed

text \<open>An event that pushes a node, a walk above it, and an event that pops it.\<close>

lemma walked_bracket:
  assumes push: "visit ops vo vw e p = Returned q" "dp_nodes q = dp_nodes p @ [n]"
    and body: "walked ops vo vw es q"
    and pop: "\<And>q'. dp_nodes q' = dp_nodes p @ [n] \<Longrightarrow> \<not> dp_inside_json q' \<Longrightarrow> visit ops vo vw f q' = pop_node q'"
  shows "walked ops vo vw (e # es @ [f]) p"
proof -
  from body obtain q' where q': "visit_all ops vo vw es q = Returned q'" "dp_nodes q' = dp_nodes p @ [n]"
      "\<not> dp_inside_json q'"
    using push(2) by (auto simp: walked_def)
  from pop [OF q'(2,3)] q' push(1) show ?thesis
    by (auto simp: walked_def visit_all_append pop_node_def)
qed

lemma field_walked:
  assumes "variables_defined vw" "\<not> dp_inside_json p" "dp_nodes p \<noteq> []"
    and ss: "\<forall>e \<in> set ss. \<not> operation_event e" "EvLeaveField r \<notin> set ss"
    and body: "\<And>q. dp_nodes q \<noteq> [] \<Longrightarrow> \<not> dp_inside_json q \<Longrightarrow> walked ops vo vw ss q"
  shows "walked ops vo vw (EvEnterField r # ss @ [EvLeaveField r]) p"
proof (cases "is_json_field (dp_config p) (vw_enclosing vw r) (vw_field_name vw r)")
  case True
  with EnterField_json [OF assms(2,3) True, of ops vo] json_field_walk [OF assms(2,3) True ss, of ops vo]
  show ?thesis by (auto simp: walked_def)
next
  case False
  from EnterField_push [OF assms(2,3,1) False, of ops vo] obtain q n where
    q: "EnterField ops vo vw r p = Returned q" "dp_nodes q = dp_nodes p @ [n]" "\<not> dp_inside_json q" by blast
  show ?thesis
    by (rule walked_bracket [where q = q and n = n]) (use q body in \<open>auto simp: LeaveField_def\<close>)
qed

lemma fragment_walked:
  assumes "\<not> dp_inside_json p" "dp_nodes p \<noteq> []" "nd_kind (last (dp_nodes p)) = SelectionSetNode"
    and body: "\<And>q. dp_nodes q \<noteq> [] \<Longrightarrow> \<not> dp_inside_json q \<Longrightarrow> walked ops vo vw ss q"
  shows "walked ops vo vw (EvEnterInlineFragment f # ss @ [EvLeaveInlineFragment f]) p"
proof (cases "vw_type_condition vw f")
  case None
  with assms(1) have enter: "visit ops vo vw (EvEnterInlineFragment f) p = Returned p"
    by (simp add: EnterInlineFragment_def)
  have "walked ops vo vw (ss @ [EvLeaveInlineFragment f]) p"
  proof (rule walked_append)
    show "walked ops vo vw ss p" using assms by blast
    fix q :: "('a, 'b) db_planner" assume "dp_nodes q = dp_nodes p" "\<not> dp_inside_json q"
    with assms(2,3) show "walked ops vo vw [EvLeaveInlineFragment f] q"
      by (simp add: walked_def LeaveInlineFragment_def top_node_def)
  qed
  with enter show ?thesis by (simp add: walked_def)
next
  case (Some t)
  obtain fragment d where fragment: "do_add_fragment ops t (dp_doc p) = (fragment, d)" by fastforce
  obtain field d' where field: "do_add_field ops ''__typename'' d = (field, d')" by fastforce
  from Some assms(1,2) fragment field obtain q n where q: "EnterInlineFragment ops vw f p = Returned q"
      "dp_nodes q = dp_nodes p @ [n]" "nd_kind n = InlineFragmentNode" "\<not> dp_inside_json q"
    by (simp add: EnterInlineFragment_def Let_def top_node_def push_node_def)
  show ?thesis
    by (rule walked_bracket [where q = q and n = n])
      (use q body in \<open>auto simp: LeaveInlineFragment_def top_node_def\<close>)
qed

lemma set_walked:
  assumes "\<not> dp_inside_json p" "dp_nodes p \<noteq> []"
    and body: "\<And>q. dp_nodes q \<noteq> [] \<Longrightarrow> nd_kind (last (dp_nodes q)) = SelectionSetNode \<Longrightarrow> \<not> dp_inside_json q
      \<Longrightarrow> walked ops vo vw es q"
  shows "walked ops vo vw (EvEnterSelectionSet s # es @ [EvLeaveSelectionSet s]) p"
proof -
  obtain set_ref d where "do_add_set ops (dp_doc p) = (set_ref, d)" by fastforce
  with assms(1,2) obtain q n where q: "EnterSelectionSet ops vw s p = Returned q"
      "dp_nodes q = dp_nodes p @ [n]" "nd_kind n = SelectionSetNode" "\<not> dp_inside_json q"
    by (simp add: EnterSelectionSet_def Let_def top_node_def push_node_def)
  show ?thesis
    by (rule walked_bracket [where q = q and n = n])
      (use q body in \<open>auto simp: LeaveSelectionSet_def\<close>)
qed

lemma walks_walked:
  assumes defined: "variables_defined vw"
  shows "walk_sels es \<Longrightarrow> (\<And>p. \<not> dp_inside_json p \<Longrightarrow> dp_nodes p \<noteq> [] \<Longrightarrow>
      nd_kind (last (dp_nodes p)) = SelectionSetNode \<Longrightarrow> walked ops vo vw es p)"
    and "walk_set ss \<Longrightarrow> (\<And>p. \<not> dp_inside_json p \<Longrightarrow> dp_nodes p \<noteq> [] \<Longrightarrow> walked ops vo vw ss p)"
proof (induction rule: walk_sels_walk_set.inducts)
  case nil
  then show ?case by (simp add: walked_Nil)
next
  case (leaf es r)
  have "walked ops vo vw ((EvEnterField r # [] @ [EvLeaveField r]) @ es) p"
    by (rule walked_append, rule field_walked) (use leaf defined in \<open>auto simp: walked_Nil\<close>)
  then show ?case by simp
next
  case (field ss r es)
  have "walked ops vo vw ((EvEnterField r # ss @ [EvLeaveField r]) @ es) p"
    by (rule walked_append, rule field_walked)
      (use field defined walk_no_operation(2) [OF field(1)] in auto)
  then show ?case by simp
next
  case (fragment ss es f)
  have "walked ops vo vw ((EvEnterInlineFragment f # ss @ [EvLeaveInlineFragment f]) @ es) p"
    by (rule walked_append, rule fragment_walked) (use fragment in auto)
  then show ?case by simp
next
  case (set es s)
  then show ?case by (intro set_walked) auto
qed

text \<open>C26: On every walk over a valid operation the planner neither panics nor leaves anything behind:
  each node it pushes is popped, through JSON fields and through fragments without a type condition,
  and at the end of the operation its stack is empty.\<close>

theorem planner_stack_balanced:
  assumes "walk_operation es" "variables_defined vw" "\<not> dp_inside_json p"
  shows "\<exists>q. visit_all ops vo vw es (EnterDocument ops vo old p) = Returned q
    \<and> dp_nodes q = [] \<and> \<not> dp_inside_json q"
proof -
  from assms(1) obtain ss r where es: "es = EvEnterOperation r # ss @ [EvLeaveOperation r]" "walk_set ss"
    by (auto elim: walk_operation.cases)
  let ?p = "EnterDocument ops vo old p"
  define q where "q = EnterOperationDefinition ops vw r ?p"
  obtain ref d where "do_add_operation ops (if dp_nested ?p then QUERY else vw_op_type vw r) (dp_doc ?p) = (ref, d)"
    by fastforce
  then obtain n where q: "dp_nodes q = [n]" "\<not> dp_inside_json q"
    using assms(3) by (simp add: q_def EnterOperationDefinition_def push_node_def Let_def EnterDocument_def)
  have empty: "dp_nodes ?p = []" by (simp add: EnterDocument_def)
  have "walked ops vo vw ss q" by (rule walks_walked(2) [OF assms(2) es(2)]) (simp_all add: q)
  then have "walked ops vo vw es ?p"
    unfolding es(1) using q(1) empty
    by (intro walked_bracket [where q = q and n = n]) (simp_all add: q_def LeaveOperationDefinition_def)
  then show ?thesis using empty by (auto simp: walked_def)
qed

text \<open>Whatever is selected below a field of type JSON, the walk through the field adds this one
  field to the operation and nothing else.\<close>

theorem json_field_is_a_leaf:
  assumes "walk_set ss" "EvLeaveField r \<notin> set ss" "\<not> dp_inside_json p" "dp_nodes p \<noteq> []"
    and "is_json_field (dp_config p) (vw_enclosing vw r) (vw_field_name vw r)"
    and "do_add_field ops (vw_field_name vw r) (dp_doc p) = (field, d)"
  shows "visit_all ops vo vw (EvEnterField r # ss @ [EvLeaveField r]) p
    = Returned (p\<lparr>dp_doc := do_add_selection ops (nd_ref (last (dp_nodes p))) \<lparr>nd_kind = FieldNode, nd_ref = field\<rparr> d,
        dp_inside_json := False, dp_json_ref := 0\<rparr>)"
proof -
  have "\<forall>e \<in> set ss. \<not> operation_event e" using walk_no_operation(2) [OF assms(1)] by blast
  then have "visit_all ops vo vw (EvEnterField r # ss @ [EvLeaveField r]) p
    = bind_out (EnterField ops vo vw r p) (\<lambda>q. Returned (q\<lparr>dp_inside_json := False, dp_json_ref := 0\<rparr>))"
    by (rule json_field_walk [OF assms(3-5) _ assms(2)])
  also have "EnterField ops vo vw r p = Returned (p\<lparr>dp_inside_json := True, dp_json_ref := r, dp_doc :=
      do_add_selection ops (nd_ref (last (dp_nodes p))) \<lparr>nd_kind = FieldNode, nd_ref = field\<rparr> d\<rparr>)"
    using assms(3-6) by (simp add: EnterField_def addJsonField_def top_node_def)
  finally show ?thesis by simp
qed

section \<open>Inlining variables\<close>

text \<open>
  A query as a list of pieces: text without variables, variables, and the placeholders that have
  replaced variables.
\<close>

datatype piece = Plain string | Var string | Placeholder string

fun render_piece :: "piece \<Rightarrow> string" where
  "render_piece (Plain t) = t"
| "render_piece (Var n) = ''$'' @ n"
| "render_piece (Placeholder r) = r"

definition render :: "piece list \<Rightarrow> string" where
  "render ps = concat (map render_piece ps)"

definition name_char :: "char \<Rightarrow> bool" where
  "name_char c = (let n = (of_char c :: nat) in
     65 \<le> n \<and> n \<le> 90 \<or> 97 \<le> n \<and> n \<le> 122 \<or> 48 \<le> n \<and> n \<le> 57 \<or> n = 95)"

definition name_start :: "char \<Rightarrow> bool" where
  "name_start c = (name_char c \<and> \<not> is_digit c)"

definition valid_name :: "string \<Rightarrow> bool" where
  "valid_name n = (n \<noteq> [] \<and> name_start (hd n) \<and> list_all name_char n)"

text \<open>A text starts outside a name; a placeholder has no place where a variable could begin.\<close>

definition starts_outside :: "string \<Rightarrow> bool" where
  "starts_outside s = (s = [] \<or> \<not> name_char (hd s))"

fun inert :: "string \<Rightarrow> bool" where
  "inert [] = True"
| "inert [c] = True"
| "inert (c # d # cs) = ((c = CHR ''$'' \<longrightarrow> \<not> name_start d) \<and> inert (d # cs))"

fun well_formed :: "piece list \<Rightarrow> bool" where
  "well_formed [] = True"
| "well_formed (Plain t # ps) = (CHR ''$'' \<notin> set t \<and> well_formed ps)"
| "well_formed (Var n # ps) = (valid_name n \<and> starts_outside (render ps) \<and> well_formed ps)"
| "well_formed (Placeholder r # ps) = (r \<noteq> [] \<and> \<not> name_char (hd r) \<and> inert r \<and> starts_outside (render ps) \<and> well_formed ps)"

fun substitute :: "string \<Rightarrow> string \<Rightarrow> piece \<Rightarrow> piece" where
  "substitute n r (Var m) = (if m = n then Placeholder r else Var m)"
| "substitute n r p = p"

lemma render_simps [simp]: "render [] = []" "render (p # ps) = render_piece p @ render ps"
  by (simp_all add: render_def)

lemma replace_all_skip:
  assumes "old \<noteq> []" "\<And>i. i < length t \<Longrightarrow> \<not> has_prefix (drop i (t @ s)) old"
  shows "replace_all (t @ s) old new = t @ replace_all s old new"
  using assms(2)
proof (induction t)
  case (Cons c t)
  from Cons.prems [of 0] have "\<not> has_prefix ((c # t) @ s) old" by simp
  moreover have "\<not> has_prefix (drop i (t @ s)) old" if "i < length t" for i
    using Cons.prems [of "Suc i"] that by simp
  ultimately show ?case
    using Cons.IH assms(1) by (simp add: replace_all.simps [of "c # t @ s"])
qed simp

lemma replace_all_match:
  "old \<noteq> [] \<Longrightarrow> replace_all (old @ s) old new = new @ replace_all s old new"
  by (simp add: replace_all.simps [of "old @ s"] has_prefix_def)

lemma has_prefix_Cons: "has_prefix (x # xs) (y # ys) \<longleftrightarrow> x = y \<and> has_prefix xs ys"
  by (auto simp: has_prefix_def)

lemma has_prefix_Nil_Cons [simp]: "\<not> has_prefix [] (y # ys)"
  by (simp add: has_prefix_def)

lemma has_prefix_append_name:
  assumes "valid_name n" "valid_name m" "starts_outside s" "has_prefix (m @ s) n"
  shows "has_prefix m n"
proof (cases "length n \<le> length m")
  case True
  with assms(4) show ?thesis by (simp add: has_prefix_def)
next
  case False
  with assms(4) have n: "n = m @ take (length n - length m) s" by (simp add: has_prefix_def)
  with False have "s \<noteq> []" by auto
  then have "hd s \<in> set n" using n False
    by (metis UnCI append_is_Nil_conv diff_is_0_eq hd_in_set hd_take le_refl list.size(3) not_le set_append
        take_eq_Nil zero_less_diff)
  with assms(1,3) \<open>s \<noteq> []\<close> show ?thesis by (auto simp: valid_name_def starts_outside_def list_all_iff)
qed

lemma dollar_no_name_char [simp]: "\<not> name_char (CHR ''$'')"
  by (simp add: name_char_def)

lemma no_variable_at:
  assumes "valid_name n" "x = CHR ''$'' \<Longrightarrow> xs = [] \<or> \<not> name_start (hd xs)"
  shows "\<not> has_prefix (x # xs) (''$'' @ n)"
  using assms by (cases n; cases xs) (auto simp: valid_name_def has_prefix_Cons)

lemma inert_scan:
  "inert q \<Longrightarrow> valid_name n \<Longrightarrow> starts_outside s \<Longrightarrow> i < length q \<Longrightarrow> \<not> has_prefix (drop i (q @ s)) (''$'' @ n)"
proof (induction q arbitrary: i rule: inert.induct)
  case (2 c)
  then show ?case
    using no_variable_at [of n c s] by (auto simp: starts_outside_def name_start_def)
next
  case (3 c d cs)
  then show ?case
    using no_variable_at [of n c "d # cs @ s"] by (cases i) auto
qed simp

lemma plain_scan:
  "CHR ''$'' \<notin> set t \<Longrightarrow> valid_name n \<Longrightarrow> i < length t \<Longrightarrow> \<not> has_prefix (drop i (t @ s)) (''$'' @ n)"
proof (induction t arbitrary: i)
  case (Cons c t)
  then show ?case using no_variable_at [of n c "t @ s"] by (cases i) auto
qed simp

lemma name_no_dollar: "valid_name m \<Longrightarrow> CHR ''$'' \<notin> set m"
  by (auto simp: valid_name_def list_all_iff)

lemma variable_scan:
  assumes "valid_name n" "valid_name m" "\<not> has_prefix m n" "starts_outside s" "i < length (''$'' @ m)"
  shows "\<not> has_prefix (drop i ((''$'' @ m) @ s)) (''$'' @ n)"
proof (cases i)
  case 0
  then show ?thesis using has_prefix_append_name [OF assms(1,2,4)] assms(3) by (auto simp: has_prefix_Cons)
next
  case (Suc j)
  then show ?thesis using plain_scan [OF name_no_dollar [OF assms(2)] assms(1), of j s] assms(5) by simp
qed

definition placeholder_ok :: "string \<Rightarrow> bool" where
  "placeholder_ok r = (r \<noteq> [] \<and> \<not> name_char (hd r) \<and> inert r)"

text \<open>No other variable of the query has a name that begins with \<open>n\<close>.\<close>

definition unambiguous :: "string \<Rightarrow> piece list \<Rightarrow> bool" where
  "unambiguous n ps = (\<forall>m. Var m \<in> set ps \<longrightarrow> m \<noteq> n \<longrightarrow> \<not> has_prefix m n)"

lemma unambiguous_Cons:
  "unambiguous n (p # ps) \<longleftrightarrow> (case p of Var m \<Rightarrow> m \<noteq> n \<longrightarrow> \<not> has_prefix m n | _ \<Rightarrow> True) \<and> unambiguous n ps"
  by (auto simp: unambiguous_def split: piece.split)

lemma starts_outside_substitute:
  "placeholder_ok r \<Longrightarrow> starts_outside (render ps) \<Longrightarrow> starts_outside (render (map (substitute n r) ps))"
proof (induction ps)
  case (Cons p ps)
  then show ?case
  proof (cases p)
    case (Plain t)
    with Cons show ?thesis by (cases t) (auto simp: starts_outside_def)
  next
    case (Placeholder q)
    with Cons show ?thesis by (cases q) (auto simp: starts_outside_def)
  qed (auto simp: starts_outside_def placeholder_ok_def)
qed simp

lemma replace_render:
  assumes "valid_name n" "placeholder_ok r"
  shows "well_formed ps \<Longrightarrow> unambiguous n ps \<Longrightarrow>
    replace_all (render ps) (''$'' @ n) r = render (map (substitute n r) ps)
    \<and> well_formed (map (substitute n r) ps)"
proof (induction ps)
  case Nil
  then show ?case by (simp add: replace_all.simps)
next
  case (Cons p ps)
  have old: "''$'' @ n \<noteq> []" by simp
  from Cons have IH: "replace_all (render ps) (''$'' @ n) r = render (map (substitute n r) ps)"
    "well_formed (map (substitute n r) ps)"
    by (cases p; simp add: unambiguous_Cons)+
  note skip = replace_all_skip [OF old, where s = "render ps" and new = r]
  show ?case
  proof (cases p)
    case (Plain t)
    with Cons.prems IH skip [OF plain_scan [OF _ assms(1)], of t] show ?thesis by simp
  next
    case (Placeholder q)
    with Cons.prems IH skip [OF inert_scan [OF _ assms(1)], of q] show ?thesis
      by (auto simp: starts_outside_substitute [OF assms(2)])
  next
    case (Var m)
    show ?thesis
    proof (cases "m = n")
      case True
      with Var Cons.prems IH replace_all_match [OF old, of "render ps" r] assms(2) show ?thesis
        by (auto simp: starts_outside_substitute placeholder_ok_def)
    next
      case False
      with Var Cons.prems have "\<not> has_prefix m n" by (simp add: unambiguous_Cons)
      with Var False Cons.prems IH skip [OF variable_scan [OF assms(1)], of m] show ?thesis
        by (auto simp: starts_outside_substitute [OF assms(2)])
    qed
  qed
qed

text \<open>The loop as it is meant: every inlined variable is replaced where it stands as a variable.\<close>

fun inline_pieces :: "'v var_ops \<Rightarrow> inlined_variable list \<Rightarrow> piece list \<Rightarrow> 'v \<Rightarrow> piece list \<times> 'v" where
  "inline_pieces vo [] ps vs = (ps, vs)"
| "inline_pieces vo (v # rest) ps vs =
     (if \<not> nv_json v \<and> vo_plain vo (nv_type v) \<noteq> None then inline_pieces vo rest ps vs
      else
        (let ((replacement, _), vs) = vo_add vo (ContextVariable [nv_name v]
               (if nv_json v then JsonStringRenderer else PlainRenderer (nv_type v))) vs in
         inline_pieces vo rest (map (substitute (nv_name v) replacement) ps) vs))"

definition placeholders_ok :: "'v var_ops \<Rightarrow> bool" where
  "placeholders_ok vo = (\<forall>v vs. placeholder_ok (fst (fst (vo_add vo v vs))))"

lemma unambiguous_substitute: "unambiguous m ps \<Longrightarrow> unambiguous m (map (substitute n r) ps)"
proof (induction ps)
  case (Cons p ps)
  then show ?case by (cases p) (auto simp: unambiguous_Cons)
qed (simp add: unambiguous_def)

text \<open>C27: Replacing the inlined variables in the text of the query replaces exactly the variables, as
  long as no variable of the query has a name that begins with the name of another inlined one.\<close>

theorem inline_loop_replaces_variables:
  assumes "placeholders_ok vo" "well_formed ps"
    and "\<And>v. v \<in> set inlined \<Longrightarrow> valid_name (nv_name v)"
    and "\<And>v. v \<in> set inlined \<Longrightarrow> unambiguous (nv_name v) ps"
  shows "inline_loop vo inlined (render ps) vs = (case inline_pieces vo inlined ps vs of (ps', vs') \<Rightarrow> (render ps', vs'))"
  using assms(2-)
proof (induction inlined arbitrary: ps vs)
  case (Cons v rest)
  show ?case
  proof (cases "\<not> nv_json v \<and> vo_plain vo (nv_type v) \<noteq> None")
    case True
    with Cons show ?thesis by auto
  next
    case False
    define renderer where "renderer = (if nv_json v then JsonStringRenderer else PlainRenderer (nv_type v))"
    obtain r ex vs' where add: "vo_add vo (ContextVariable [nv_name v] renderer) vs = ((r, ex), vs')"
      by (metis prod.exhaust)
    have r: "placeholder_ok r" using assms(1) add unfolding placeholders_ok_def by (metis fst_conv)
    have step: "replace_all (render ps) (''$'' @ nv_name v) r = render (map (substitute (nv_name v) r) ps)"
      "well_formed (map (substitute (nv_name v) r) ps)"
      using replace_render [OF _ r, of "nv_name v" ps] Cons.prems by auto
    have "inline_loop vo rest (render (map (substitute (nv_name v) r) ps)) vs'
        = (case inline_pieces vo rest (map (substitute (nv_name v) r) ps) vs' of (ps', vs') \<Rightarrow> (render ps', vs'))"
      by (rule Cons.IH) (use Cons.prems step unambiguous_substitute in auto)
    with False add step(1) show ?thesis
      by (cases "nv_json v") (auto simp: renderer_def Let_def)
  qed
qed simp

text \<open>
  Without that condition a name is replaced inside a longer one: the variables of the library are
  numbered placeholders.
\<close>

definition numbered :: "plan_variable list var_ops" where
  "numbered = \<lparr>vo_empty = [], vo_add = (\<lambda>v vs. ((''$$'' @ itoa (length vs) @ ''$$'', False), vs @ [v])),
     vo_plain = (\<lambda>_. None), vo_validating = (\<lambda>_. None), vo_set_raw = (\<lambda>b k v. b)\<rparr>"

definition two_variables :: "inlined_variable list" where
  "two_variables = [\<lparr>nv_name = ''id'', nv_type = 0, nv_json = False\<rparr>, \<lparr>nv_name = ''ids'', nv_type = 1, nv_json = False\<rparr>]"

lemma inlining_splits_longer_names:
  "fst (inline_loop numbered two_variables ''f(a:$id,b:$ids)'' []) = ''f(a:$$0$$,b:$$0$$s)''"
  by code_simp

definition two_pieces :: "piece list" where
  "two_pieces = [Plain ''f(a:'', Var ''id'', Plain '',b:'', Var ''name'', Plain '')'']"

definition two_others :: "inlined_variable list" where
  "two_others = [\<lparr>nv_name = ''id'', nv_type = 0, nv_json = False\<rparr>, \<lparr>nv_name = ''name'', nv_type = 1, nv_json = True\<rparr>]"

lemma itoa_digits: "list_all is_digit (itoa n)"
proof (induction n rule: itoa.induct)
  case (1 n)
  then show ?case
    by (cases "n < 10") (simp_all add: itoa.simps [of n] is_digit_digit_char)
qed

lemma inert_digits: "list_all is_digit ds \<Longrightarrow> inert (ds @ ''$$'')"
proof (induction ds)
  case (Cons c ds)
  then show ?case by (cases ds) (auto simp: is_digit_def)
qed (simp add: name_start_def)

lemma numbered_ok: "placeholders_ok numbered"
proof -
  have "placeholder_ok (''$$'' @ itoa n @ ''$$'')" for n
  proof (cases "itoa n")
    case (Cons d ds)
    with itoa_digits [of n] inert_digits [of "itoa n"] show ?thesis
      by (simp add: placeholder_ok_def name_start_def)
  qed (simp add: itoa_nonempty)
  then show ?thesis by (simp add: placeholders_ok_def numbered_def)
qed

theorem inline_loop_replaces_variables_witness:
  "inline_loop numbered two_others (render two_pieces) []
    = (case inline_pieces numbered two_others two_pieces [] of (ps', vs') \<Rightarrow> (render ps', vs'))"
proof (rule inline_loop_replaces_variables [OF numbered_ok])
  have names: "valid_name ''id'' \<and> valid_name ''name'' \<and> \<not> name_char (CHR '','') \<and> \<not> name_char (CHR '')'')
      \<and> \<not> has_prefix ''id'' ''name'' \<and> \<not> has_prefix ''name'' ''id''"
    by code_simp
  then show "well_formed two_pieces"
    by (simp add: two_pieces_def starts_outside_def)
  show "valid_name (nv_name v)" if "v \<in> set two_others" for v
    using that names by (auto simp: two_others_def)
  show "unambiguous (nv_name v) two_pieces" if "v \<in> set two_others" for v
    using that names by (auto simp: two_others_def two_pieces_def unambiguous_def)
qed

definition sample_ops :: "nat doc_ops" where
  "sample_ops = \<lparr>do_new = 0, do_reset = (\<lambda>_. 0), do_add_operation = (\<lambda>_ d. (d, d + 1)), do_add_set = (\<lambda>d. (d, d + 1)),
     do_attach = (\<lambda>_ _ d. d), do_add_field = (\<lambda>_ d. (d, d + 1)), do_add_fragment = (\<lambda>_ d. (d, d + 1)),
     do_add_selection = (\<lambda>_ _ d. d), do_var_argument = (\<lambda>_ _ d. (d, d + 1, d + 2)), do_field_argument = (\<lambda>_ _ d. d),
     do_import_argument = (\<lambda>_ _ d. (d, d + 1)), do_unused_name = (\<lambda>_ _. ''a''), do_add_variable = (\<lambda>_ _ _ d. d)\<rparr>"

definition sample_view :: op_view where
  "sample_view = \<lparr>vw_field_name = (\<lambda>r. if r = 0 then ''users'' else ''data''), vw_alias_defined = (\<lambda>_. False),
     vw_enclosing = (\<lambda>r. if r = 0 then ''Query'' else ''User''), vw_selections = (\<lambda>_. [Some ''__typename'']),
     vw_type_condition = (\<lambda>_. None), vw_op_type = (\<lambda>_. QUERY), vw_argument = (\<lambda>_ _. Some (VariableVal ''a'')),
     vw_variable = (\<lambda>_. Some 0), vw_type_name = (\<lambda>_. ''Int''), vw_fields = [],
     vw_for_type_field = (\<lambda>_ _. None), vw_query_argument = (\<lambda>_ _. None)\<rparr>"

definition sample_planner :: "(nat, plan_variable list) db_planner" where
  "sample_planner = \<lparr>dp_config = \<lparr>dbc_url = '''', dbc_prisma = '''', dbc_graphql = '''', dbc_close_timeout = 10,
       dbc_json_fields = [\<lparr>st_type = ''User'', st_field = ''data''\<rparr>], dbc_json_inputs = [], dbc_dir = ''''\<rparr>,
     dp_doc = 0, dp_upstream_variables = [], dp_nodes = [\<lparr>nd_kind = SelectionSetNode, nd_ref = 7\<rparr>], dp_variables = [],
     dp_last_type = '''', dp_disallow_single_flight = False, dp_nested = False, dp_root_type = '''',
     dp_root_field = '''', dp_root_ref = 0, dp_inlined = [], dp_inside_json = False, dp_json_ref = 0\<rparr>"

text \<open>The walk over \<open>{users {... {data {id}}}}\<close>, where \<open>data\<close> is of type JSON.\<close>

definition data_walk :: "db_event list" where
  "data_walk = [EvEnterSelectionSet 2, EvEnterField 2, EvLeaveField 2, EvLeaveSelectionSet 2]"

lemma data_walk_set: "walk_set data_walk"
  unfolding data_walk_def
  using set [OF leaf [OF nil, of 2], of 2] by simp

definition users_walk :: "db_event list" where
  "users_walk = EvEnterOperation 0 # ([EvEnterSelectionSet 0] @
     [EvEnterField 0] @ (EvEnterSelectionSet 3 # (EvEnterInlineFragment 0 # (EvEnterSelectionSet 1 #
       (EvEnterField 1 # data_walk @ EvLeaveField 1 # []) @ [EvLeaveSelectionSet 1]) @ EvLeaveInlineFragment 0 # [])
       @ [EvLeaveSelectionSet 3]) @ EvLeaveField 0 # [] @ [EvLeaveSelectionSet 0]) @ [EvLeaveOperation 0]"

lemma users_walk_operation: "walk_operation users_walk"
proof -
  have data: "walk_sels (EvEnterField 1 # data_walk @ EvLeaveField 1 # [])"
    by (rule field [OF data_walk_set _ nil]) (simp add: data_walk_def)
  have "walk_sels (EvEnterField 0 # (EvEnterSelectionSet 3 # (EvEnterInlineFragment 0 # (EvEnterSelectionSet 1 #
       (EvEnterField 1 # data_walk @ EvLeaveField 1 # []) @ [EvLeaveSelectionSet 1]) @ EvLeaveInlineFragment 0 # [])
       @ [EvLeaveSelectionSet 3]) @ EvLeaveField 0 # [])"
    by (rule field [OF set [OF fragment [OF set [OF data] nil]] _ nil]) (simp add: data_walk_def)
  from walk_operation.intros [OF set [OF this]] show ?thesis
    by (simp add: users_walk_def)
qed

theorem planner_stack_balanced_witness:
  "\<exists>q. visit_all sample_ops numbered sample_view users_walk (EnterDocument sample_ops numbered None sample_planner) = Returned q
    \<and> dp_nodes q = [] \<and> \<not> dp_inside_json q"
  by (rule planner_stack_balanced [OF users_walk_operation])
    (simp_all add: variables_defined_def sample_view_def sample_planner_def)

theorem json_field_is_a_leaf_witness:
  "visit_all sample_ops numbered sample_view (EvEnterField 1 # data_walk @ [EvLeaveField 1]) sample_planner
    = Returned (sample_planner\<lparr>dp_doc := 1, dp_inside_json := False, dp_json_ref := 0\<rparr>)"
  using json_field_is_a_leaf [OF data_walk_set, of 1 sample_planner sample_view sample_ops 0 1 numbered]
  by (simp add: data_walk_def sample_planner_def sample_view_def sample_ops_def is_json_field_def)

end
