(* ===== verification/Watcher.thy ===== *)
theory Watcher
  imports Prelude "HOL-Library.List_Lexorder" "HOL-Library.Char_ord"
begin

text \<open>
  The file watcher of the development server (pkg/watcher/watcher.go): the walk that adds the files
  to watch, and the loop over the events of fsnotify, whose changes are collected in a set of paths
  and handed to a callback when the debounce delay has passed. Parameters are fsnotify and the
  callback; the file system is what it is when a path is looked at.
\<close>

section \<open>The file system\<close>

record file_stat =
  fs_size :: int
  fs_mode :: string
  fs_mtime :: int

text \<open>A path leads nowhere, to something that cannot be looked at, to a file, or to a directory with
  its entries in order, or which cannot be read.\<close>

datatype fs_node =
    NotThere
  | StatFails go_error
  | FileNode file_stat
  | DirNode file_stat "(string \<times> fs_node) list"
  | ClosedDir file_stat go_error

text \<open>filepath.Base.\<close>

definition file_base :: "string \<Rightarrow> string" where
  "file_base path =
     (if path = [] then ''.''
      else
        (let p = rev (dropWhile (\<lambda>c. c = CHR ''/'') (rev path)) in
         if p = [] then ''/'' else last (split_on (CHR ''/'') p)))"

section \<open>The set of changed paths\<close>

definition path_set_add :: "string \<Rightarrow> string set \<Rightarrow> string set" where
  "path_set_add path paths = insert path paths"

definition path_set_flush :: "string set \<Rightarrow> string list \<times> string set" where
  "path_set_flush paths = (sorted_list_of_set paths, {})"

section \<open>The watcher\<close>

record watch_path =
  wp_optional :: bool
  wp_path :: string

record watch_config =
  wc_paths :: "watch_path list"
  wc_ignore :: "string list"

text \<open>
  The state of a call of \<open>Watch\<close>: the paths fsnotify watches, the changed paths with the timer of the
  debouncer, the stamps seen, the callbacks that wait to hand over their error, and the calls of
  the callback so far.
\<close>

record watch =
  wa_watched :: "string set"
  wa_paths :: "string set"
  wa_armed :: bool
  wa_stamps :: "string set"
  wa_blocked :: "go_error list"
  wa_calls :: "string list list"

definition new_watch :: watch where
  "new_watch = \<lparr>wa_watched = {}, wa_paths = {}, wa_armed = False, wa_stamps = {}, wa_blocked = [], wa_calls = []\<rparr>"

definition skip_path :: "watch_config \<Rightarrow> string \<Rightarrow> bool" where
  "skip_path cfg changedPath = list_ex (\<lambda>ignorePath. contains changedPath ignorePath) (wc_ignore cfg)"

definition computeStamp :: "string \<Rightarrow> file_stat \<Rightarrow> string" where
  "computeStamp path stat =
     path @ '':'' @ itoa_int (fs_size stat) @ '':'' @ fs_mode stat @ '':'' @ itoa_int (fs_mtime stat)"

definition isDuplicate :: "string \<Rightarrow> file_stat \<Rightarrow> watch \<Rightarrow> bool \<times> watch" where
  "isDuplicate path stat w =
     (let stamp = computeStamp path stat in
      if stamp \<in> wa_stamps w then (True, w) else (False, w\<lparr>wa_stamps := insert stamp (wa_stamps w)\<rparr>))"

definition trigger :: "string \<Rightarrow> watch \<Rightarrow> watch" where
  "trigger path w = w\<lparr>wa_paths := path_set_add path (wa_paths w), wa_armed := True\<rparr>"

definition unwatch :: "string \<Rightarrow> watch \<Rightarrow> watch" where
  "unwatch path w = w\<lparr>wa_watched := wa_watched w - {path}\<rparr>"

definition rename_event :: "string \<Rightarrow> fs_node \<Rightarrow> watch \<Rightarrow> watch" where
  "rename_event path node w = (if node = NotThere then trigger path (unwatch path w) else w)"

definition remove_event :: "string \<Rightarrow> watch \<Rightarrow> watch" where
  "remove_event path w = trigger path (unwatch path w)"

text \<open>\<open>add_error\<close> is the error with which fsnotify refuses to watch a path.\<close>

fun create_event ::
    "watch_config \<Rightarrow> (string \<Rightarrow> go_error option) \<Rightarrow> string \<Rightarrow> fs_node \<Rightarrow> watch \<Rightarrow> watch \<times> go_error option"
  and create_entries ::
    "watch_config \<Rightarrow> (string \<Rightarrow> go_error option) \<Rightarrow> string \<Rightarrow> (string \<times> fs_node) list \<Rightarrow> watch \<Rightarrow> watch \<times> go_error option" where
  "create_event cfg add_error path NotThere w = (w, None)"
| "create_event cfg add_error path (StatFails err) w = (w, None)"
| "create_event cfg add_error path (FileNode stat) w =
     (if skip_path cfg path then (w, None)
      else
        (let (dup, w) = isDuplicate path stat w in
         if dup then (w, None)
         else
           (case add_error path of
              Some err \<Rightarrow> (w, Some err)
            | None \<Rightarrow> (trigger path (w\<lparr>wa_watched := insert path (wa_watched w)\<rparr>), None))))"
| "create_event cfg add_error path (ClosedDir stat err) w =
     (if skip_path cfg path then (w, None)
      else
        (let (dup, w) = isDuplicate path stat w in
         if dup then (w, None)
         else
           (case add_error path of
              Some err \<Rightarrow> (w, Some err)
            | None \<Rightarrow> (w\<lparr>wa_watched := insert path (wa_watched w)\<rparr>, Some err))))"
| "create_event cfg add_error path (DirNode stat entries) w =
     (if skip_path cfg path then (w, None)
      else
        (let (dup, w) = isDuplicate path stat w in
         if dup then (w, None)
         else
           (case add_error path of
              Some err \<Rightarrow> (w, Some err)
            | None \<Rightarrow>
                (case create_entries cfg add_error path entries (w\<lparr>wa_watched := insert path (wa_watched w)\<rparr>) of
                   (w, Some err) \<Rightarrow> (w, Some err)
                 | (w, None) \<Rightarrow> (trigger path w, None)))))"
| "create_entries cfg add_error path [] w = (w, None)"
| "create_entries cfg add_error path ((name, node) # entries) w =
     (case create_event cfg add_error (path_join [path, name]) node w of
        (w, Some err) \<Rightarrow> (w, Some err)
      | (w, None) \<Rightarrow> create_entries cfg add_error path entries w)"

fun stat_of :: "fs_node \<Rightarrow> file_stat option" where
  "stat_of (FileNode stat) = Some stat"
| "stat_of (DirNode stat entries) = Some stat"
| "stat_of (ClosedDir stat err) = Some stat"
| "stat_of node = None"

definition write_event :: "watch_config \<Rightarrow> string \<Rightarrow> fs_node \<Rightarrow> watch \<Rightarrow> watch" where
  "write_event cfg path node w =
     (case stat_of node of
        None \<Rightarrow> w
      | Some stat \<Rightarrow>
          (if skip_path cfg path then w
           else
             (let (dup, w) = isDuplicate path stat w in
              if dup then w else trigger path w)))"

section \<open>The walk\<close>

datatype walk_error = SkipDir | WalkFails go_error

definition shouldIgnore :: "watch_config \<Rightarrow> string \<Rightarrow> walk_error option" where
  "shouldIgnore cfg path = (if skip_path cfg path \<or> file_base path = ''.git'' then Some SkipDir else None)"

text \<open>The function the walk calls for an entry, with the error of looking at it, if any, and whether
  this says that nothing is there. An error of watching a path is ignored.\<close>

definition walk_fn ::
    "watch_config \<Rightarrow> bool \<Rightarrow> (string \<Rightarrow> go_error option) \<Rightarrow> string \<Rightarrow> (go_error \<times> bool) option \<Rightarrow> string set
      \<Rightarrow> string set \<times> walk_error option" where
  "walk_fn cfg optional add_error path failure watched =
     (case failure of
        Some (err, not_exist) \<Rightarrow> (watched, if optional \<and> not_exist then None else Some (WalkFails err))
      | None \<Rightarrow>
          (case shouldIgnore cfg path of
             Some err \<Rightarrow> (watched, Some err)
           | None \<Rightarrow> (if add_error path = None then insert path watched else watched, None)))"

text \<open>
  filepath.WalkDir with this function. \<open>SkipDir\<close> for a directory leaves out what is in it; for a
  file it leaves out the rest of the directory of the file.
\<close>

fun walk_dir ::
    "(string \<Rightarrow> (go_error \<times> bool) option \<Rightarrow> string set \<Rightarrow> string set \<times> walk_error option)
      \<Rightarrow> string \<Rightarrow> fs_node \<Rightarrow> string set \<Rightarrow> string set \<times> walk_error option"
  and walk_entries ::
    "(string \<Rightarrow> (go_error \<times> bool) option \<Rightarrow> string set \<Rightarrow> string set \<times> walk_error option)
      \<Rightarrow> string \<Rightarrow> (string \<times> fs_node) list \<Rightarrow> string set \<Rightarrow> string set \<times> walk_error option" where
  "walk_dir fn path NotThere watched = fn path None watched"
| "walk_dir fn path (StatFails err) watched = fn path None watched"
| "walk_dir fn path (FileNode stat) watched = fn path None watched"
| "walk_dir fn path (DirNode stat entries) watched =
     (case fn path None watched of
        (watched, Some SkipDir) \<Rightarrow> (watched, None)
      | (watched, Some err) \<Rightarrow> (watched, Some err)
      | (watched, None) \<Rightarrow> walk_entries fn path entries watched)"
| "walk_dir fn path (ClosedDir stat err) watched =
     (case fn path None watched of
        (watched, Some SkipDir) \<Rightarrow> (watched, None)
      | (watched, Some e) \<Rightarrow> (watched, Some e)
      | (watched, None) \<Rightarrow>
          (case fn path (Some (err, False)) watched of
             (watched, Some SkipDir) \<Rightarrow> (watched, None)
           | (watched, r) \<Rightarrow> (watched, r)))"
| "walk_entries fn path [] watched = (watched, None)"
| "walk_entries fn path ((name, node) # entries) watched =
     (case walk_dir fn (path_join [path, name]) node watched of
        (watched, Some SkipDir) \<Rightarrow> (watched, None)
      | (watched, Some err) \<Rightarrow> (watched, Some err)
      | (watched, None) \<Rightarrow> walk_entries fn path entries watched)"

definition not_found_error :: "string \<Rightarrow> go_error" where
  "not_found_error path = Err (''lstat '' @ path @ '': no such file or directory'')"

definition WalkDir ::
    "(string \<Rightarrow> (go_error \<times> bool) option \<Rightarrow> string set \<Rightarrow> string set \<times> walk_error option)
      \<Rightarrow> string \<Rightarrow> fs_node \<Rightarrow> string set \<Rightarrow> string set \<times> go_error option" where
  "WalkDir fn root node watched =
     (case (case node of
          NotThere \<Rightarrow> fn root (Some (not_found_error root, True)) watched
        | StatFails err \<Rightarrow> fn root (Some (err, False)) watched
        | _ \<Rightarrow> walk_dir fn root node watched) of
        (watched, Some (WalkFails err)) \<Rightarrow> (watched, Some err)
      | (watched, _) \<Rightarrow> (watched, None))"

text \<open>\<open>tree\<close> is the file system when \<open>Watch\<close> starts.\<close>

fun walk_paths ::
    "watch_config \<Rightarrow> (string \<Rightarrow> go_error option) \<Rightarrow> (string \<Rightarrow> fs_node) \<Rightarrow> watch_path list \<Rightarrow> string set
      \<Rightarrow> string set \<times> go_error option" where
  "walk_paths cfg add_error tree [] watched = (watched, None)"
| "walk_paths cfg add_error tree (p # ps) watched =
     (case WalkDir (walk_fn cfg (wp_optional p) add_error) (wp_path p) (tree (wp_path p)) watched of
        (watched, Some err) \<Rightarrow> (watched, Some err)
      | (watched, None) \<Rightarrow> walk_paths cfg add_error tree ps watched)"

section \<open>The loop\<close>

datatype fs_op = OpCreate | OpWrite | OpRemove | OpRename | OpChmod

text \<open>
  What happens next: the context ends, the loop receives the error of a callback or of fsnotify or
  an event with its operations and with what its path then leads to, or the timer of the debouncer
  runs out. \<open>fn\<close> is the callback, on the calls before and the paths of this one.
\<close>

datatype watch_event = CtxEnds | CallbackError | WatcherError go_error | FsEvent string "fs_op list" fs_node | TimerFires

definition fire_callback :: "(string list list \<Rightarrow> string list \<Rightarrow> go_error option) \<Rightarrow> watch \<Rightarrow> watch" where
  "fire_callback fn w =
     (let (paths, rest) = path_set_flush (wa_paths w);
          w' = w\<lparr>wa_paths := rest, wa_armed := False, wa_calls := wa_calls w @ [paths]\<rparr> in
      case fn (wa_calls w) paths of
        None \<Rightarrow> w'
      | Some err \<Rightarrow> w'\<lparr>wa_blocked := wa_blocked w @ [err]\<rparr>)"

definition on_fs_event ::
    "watch_config \<Rightarrow> (string \<Rightarrow> go_error option) \<Rightarrow> string \<Rightarrow> fs_op list \<Rightarrow> fs_node \<Rightarrow> watch \<Rightarrow> watch \<times> go_error option" where
  "on_fs_event cfg add_error name ops node w =
     (if name = [] then (w, None)
      else if OpRename \<in> set ops then (rename_event name node w, None)
      else if OpRemove \<in> set ops then (remove_event name w, None)
      else if OpCreate \<in> set ops then create_event cfg add_error name node w
      else if OpWrite \<in> set ops then (write_event cfg name node w, None)
      else (w, None))"

text \<open>The state after some events, and the result of the goroutine if it has returned.\<close>

fun watch_loop ::
    "watch_config \<Rightarrow> (string \<Rightarrow> go_error option) \<Rightarrow> (string list list \<Rightarrow> string list \<Rightarrow> go_error option)
      \<Rightarrow> watch_event list \<Rightarrow> watch \<Rightarrow> watch \<times> go_error option option" where
  "watch_loop cfg add_error fn [] w = (w, None)"
| "watch_loop cfg add_error fn (CtxEnds # es) w = (w, Some None)"
| "watch_loop cfg add_error fn (WatcherError err # es) w = (w, Some (Some err))"
| "watch_loop cfg add_error fn (CallbackError # es) w =
     (case wa_blocked w of
        [] \<Rightarrow> watch_loop cfg add_error fn es w
      | err # errs \<Rightarrow> (w\<lparr>wa_blocked := errs\<rparr>, Some (Some err)))"
| "watch_loop cfg add_error fn (TimerFires # es) w =
     watch_loop cfg add_error fn es (if wa_armed w then fire_callback fn w else w)"
| "watch_loop cfg add_error fn (FsEvent name ops node # es) w =
     (case on_fs_event cfg add_error name ops node w of
        (w, Some err) \<Rightarrow> (w, Some (Some err))
      | (w, None) \<Rightarrow> watch_loop cfg add_error fn es w)"

definition stop_watching :: go_error where "stop_watching = Err ''stop watching''"

fun is_stop :: "go_error \<Rightarrow> bool" where
  "is_stop (Wrap m e) = is_stop e"
| "is_stop e = (e = stop_watching)"

definition watch_result :: "go_error option \<Rightarrow> go_error option" where
  "watch_result r = (case r of Some err \<Rightarrow> (if is_stop err then None else Some err) | None \<Rightarrow> None)"

definition Watch ::
    "watch_config \<Rightarrow> (string \<Rightarrow> go_error option) \<Rightarrow> (string list list \<Rightarrow> string list \<Rightarrow> go_error option)
      \<Rightarrow> (string \<Rightarrow> fs_node) \<Rightarrow> watch_event list \<Rightarrow> watch \<times> go_error option option" where
  "Watch cfg add_error fn tree es =
     (case walk_paths cfg add_error tree (wc_paths cfg) {} of
        (watched, Some err) \<Rightarrow> (new_watch\<lparr>wa_watched := watched\<rparr>, Some (Some err))
      | (watched, None) \<Rightarrow>
          (let (w, r) = watch_loop cfg add_error fn es (new_watch\<lparr>wa_watched := watched\<rparr>) in
           (w, map_option watch_result r)))"

section \<open>No change is lost\<close>

text \<open>The paths handed to the callback by the calls after the first \<open>n\<close>, or still collected.\<close>

definition reported :: "nat \<Rightarrow> watch \<Rightarrow> string set" where
  "reported n w = \<Union> (set ` set (drop n (wa_calls w))) \<union> wa_paths w"

text \<open>Collected paths wait for a timer; what the callback got is sorted and has no path twice.\<close>

definition tidy :: "watch \<Rightarrow> bool" where
  "tidy w \<longleftrightarrow> finite (wa_paths w) \<and> (wa_paths w \<noteq> {} \<longrightarrow> wa_armed w)
     \<and> (\<forall>paths \<in> set (wa_calls w). sorted paths \<and> distinct paths)"

text \<open>A step only adds calls, and loses no path that waits.\<close>

definition watch_grows :: "watch \<Rightarrow> watch \<Rightarrow> bool" where
  "watch_grows w w' \<longleftrightarrow> (\<exists>later. wa_calls w' = wa_calls w @ later)
     \<and> (\<forall>n \<le> length (wa_calls w). reported n w \<subseteq> reported n w') \<and> (tidy w \<longrightarrow> tidy w')"

lemma watch_grows_refl [simp]: "watch_grows w w"
  by (simp add: watch_grows_def)

lemma watch_grows_trans:
  assumes "watch_grows w w'" "watch_grows w' w''"
  shows "watch_grows w w''"
proof -
  from assms obtain xs ys where calls: "wa_calls w' = wa_calls w @ xs" "wa_calls w'' = wa_calls w' @ ys"
    by (auto simp: watch_grows_def)
  have "reported n w \<subseteq> reported n w''" if "n \<le> length (wa_calls w)" for n
  proof -
    from that calls(1) have "n \<le> length (wa_calls w')" by simp
    with that assms have "reported n w \<subseteq> reported n w'" "reported n w' \<subseteq> reported n w''"
      by (simp_all add: watch_grows_def)
    then show ?thesis by (rule order_trans)
  qed
  moreover from assms have "tidy w \<longrightarrow> tidy w''" by (simp add: watch_grows_def)
  ultimately show ?thesis using calls by (simp add: watch_grows_def)
qed

lemma grows_trigger: "watch_grows w (trigger path w)"
  by (auto simp: watch_grows_def reported_def tidy_def trigger_def path_set_add_def)

lemma reported_frame [simp]:
  "reported n (w\<lparr>wa_watched := W\<rparr>) = reported n w" "reported n (w\<lparr>wa_stamps := S\<rparr>) = reported n w"
  "tidy (w\<lparr>wa_watched := W\<rparr>) = tidy w" "tidy (w\<lparr>wa_stamps := S\<rparr>) = tidy w"
  "reported n (w\<lparr>wa_blocked := es\<rparr>) = reported n w" "tidy (w\<lparr>wa_blocked := es\<rparr>) = tidy w"
  by (simp_all add: reported_def tidy_def)

lemma grows_frame [simp]:
  "watch_grows w (w'\<lparr>wa_watched := W\<rparr>) = watch_grows w w'" "watch_grows w (w'\<lparr>wa_blocked := es\<rparr>) = watch_grows w w'"
  by (simp_all add: watch_grows_def)

lemma grows_duplicate: "isDuplicate path stat w = (dup, w') \<Longrightarrow> watch_grows w w'"
  by (auto simp: isDuplicate_def Let_def watch_grows_def split: if_splits)

lemma grows_triggered: "watch_grows w w' \<Longrightarrow> watch_grows w (trigger path w')"
  using watch_grows_trans grows_trigger by blast

lemma grows_create:
  "create_event cfg ae path node w = (w', r) \<Longrightarrow> watch_grows w w'"
  "create_entries cfg ae path entries w = (w', r) \<Longrightarrow> watch_grows w w'"
proof (induction cfg ae path node w and cfg ae path entries w arbitrary: w' r and w' r
    rule: create_event_create_entries.induct)
  case (3 cfg ae path stat w)
  then show ?case
    by (auto split: if_splits prod.splits option.splits
        dest!: grows_duplicate intro!: grows_triggered)
next
  case (4 cfg ae path stat err w)
  then show ?case
    by (auto split: if_splits prod.splits option.splits dest!: grows_duplicate)
next
  case (5 cfg ae path stat entries w)
  obtain dup w1 where dup: "isDuplicate path stat w = (dup, w1)" by (cases "isDuplicate path stat w")
  obtain w2 r2 where sub: "create_entries cfg ae path entries (w1\<lparr>wa_watched := insert path (wa_watched w1)\<rparr>) = (w2, r2)"
    by (cases "create_entries cfg ae path entries (w1\<lparr>wa_watched := insert path (wa_watched w1)\<rparr>)")
  show ?case
  proof (cases "skip_path cfg path \<or> dup \<or> ae path \<noteq> None")
    case True
    with "5.prems" dup show ?thesis by (auto split: option.splits if_splits dest!: grows_duplicate)
  next
    case False
    with "5.IH" [OF _ dup [symmetric]] sub have "watch_grows (w1\<lparr>wa_watched := insert path (wa_watched w1)\<rparr>) w2" by auto
    moreover have "watch_grows w (w1\<lparr>wa_watched := insert path (wa_watched w1)\<rparr>)"
      using grows_duplicate [OF dup] by simp
    ultimately have "watch_grows w w2" using watch_grows_trans by blast
    with False "5.prems" dup sub show ?thesis by (auto intro: grows_triggered split: option.splits)
  qed
next
  case (7 cfg ae path name node entries w)
  obtain w1 r1 where sub: "create_event cfg ae (path_join [path, name]) node w = (w1, r1)"
    by (cases "create_event cfg ae (path_join [path, name]) node w")
  with "7.IH"(1) have "watch_grows w w1" by blast
  with "7.IH"(2) [OF sub [symmetric]] "7.prems" sub show ?case
    by (cases r1) (auto intro: watch_grows_trans)
qed auto

lemma grows_fire: "tidy w \<Longrightarrow> watch_grows w (fire_callback fn w)"
  by (cases "fn (wa_calls w) (sorted_list_of_set (wa_paths w))")
    (auto simp: watch_grows_def reported_def tidy_def fire_callback_def path_set_flush_def Let_def)

lemma grows_fs_event:
  assumes "on_fs_event cfg ae name ops node w = (w', r)"
  shows "watch_grows w w'"
proof -
  have unwatch: "watch_grows w (unwatch name w)" by (simp add: unwatch_def)
  have "watch_grows w (write_event cfg name node w)"
    by (auto simp: write_event_def Let_def split: option.split prod.split
        dest!: grows_duplicate intro: grows_triggered)
  then show ?thesis
    using assms unwatch
    by (auto simp: on_fs_event_def rename_event_def remove_event_def intro: grows_triggered grows_create
        split: if_splits)
qed

lemma grows_loop: "watch_loop cfg ae fn es w = (w', r) \<Longrightarrow> tidy w \<Longrightarrow> watch_grows w w'"
proof (induction cfg ae fn es w arbitrary: w' r rule: watch_loop.induct)
  case (4 cfg ae fn es w)
  then show ?case by (auto split: list.splits)
next
  case (5 cfg ae fn es w)
  show ?case
  proof (cases "wa_armed w")
    case True
    have "watch_grows w (fire_callback fn w)" by (rule grows_fire [OF 5(3)])
    moreover have "watch_grows (fire_callback fn w) w'"
      using 5(1) [of w' r] 5(2,3) True calculation by (simp add: watch_grows_def)
    ultimately show ?thesis by (rule watch_grows_trans)
  qed (use 5 in simp)
next
  case (6 cfg ae fn name ops node es w)
  obtain w1 r1 where step: "on_fs_event cfg ae name ops node w = (w1, r1)"
    by (cases "on_fs_event cfg ae name ops node w")
  have first: "watch_grows w w1" by (rule grows_fs_event [OF step])
  show ?case
  proof (cases r1)
    case None
    with "6.prems" step first have "watch_loop cfg ae fn es w1 = (w', r)" "tidy w1" by (simp_all add: watch_grows_def)
    with "6.IH" [OF step [symmetric] None] first show ?thesis by (blast intro: watch_grows_trans)
  qed (use "6.prems" step first in simp)
qed auto

lemma watch_loop_append:
  "watch_loop cfg ae fn (es @ fs) w =
     (case watch_loop cfg ae fn es w of
        (w', None) \<Rightarrow> watch_loop cfg ae fn fs w'
      | (w', Some r) \<Rightarrow> (w', Some r))"
proof (induction cfg ae fn es w rule: watch_loop.induct)
  case (4 cfg ae fn es w)
  then show ?case by (cases "wa_blocked w") simp_all
next
  case (6 cfg ae fn name ops node es w)
  obtain w1 r1 where "on_fs_event cfg ae name ops node w = (w1, r1)"
    by (cases "on_fs_event cfg ae name ops node w")
  with 6 show ?case by (cases r1) simp_all
qed simp_all

lemma tidy_new: "tidy (new_watch\<lparr>wa_watched := W\<rparr>)"
  by (simp add: tidy_def new_watch_def)

section \<open>What the walk watches\<close>

text \<open>The paths below a directory that no ignored directory hides.\<close>

fun visible :: "watch_config \<Rightarrow> string \<Rightarrow> fs_node \<Rightarrow> string set"
  and visible_entries :: "watch_config \<Rightarrow> string \<Rightarrow> (string \<times> fs_node) list \<Rightarrow> string set" where
  "visible cfg path (DirNode stat entries) =
     (if shouldIgnore cfg path \<noteq> None then {} else insert path (visible_entries cfg path entries))"
| "visible cfg path node = (if shouldIgnore cfg path \<noteq> None then {} else {path})"
| "visible_entries cfg path [] = {}"
| "visible_entries cfg path ((name, node) # entries) =
     visible cfg (path_join [path, name]) node \<union> visible_entries cfg path entries"

text \<open>Every directory can be read, and what is ignored is a directory.\<close>

fun ignores_directories :: "watch_config \<Rightarrow> string \<Rightarrow> fs_node \<Rightarrow> bool"
  and ignores_directories_in :: "watch_config \<Rightarrow> string \<Rightarrow> (string \<times> fs_node) list \<Rightarrow> bool" where
  "ignores_directories cfg path (DirNode stat entries) =
     (shouldIgnore cfg path \<noteq> None \<or> ignores_directories_in cfg path entries)"
| "ignores_directories cfg path (ClosedDir stat err) = (shouldIgnore cfg path \<noteq> None)"
| "ignores_directories cfg path node = (shouldIgnore cfg path = None)"
| "ignores_directories_in cfg path [] = True"
| "ignores_directories_in cfg path ((name, node) # entries) =
     (ignores_directories cfg (path_join [path, name]) node \<and> ignores_directories_in cfg path entries)"

lemma shouldIgnore_SkipDir: "shouldIgnore cfg path = Some err \<Longrightarrow> err = SkipDir"
  by (auto simp: shouldIgnore_def split: if_splits)

lemma walk_visible:
  "ignores_directories cfg path node \<Longrightarrow>
     walk_dir (walk_fn cfg optional (\<lambda>_. None)) path node W = (W \<union> visible cfg path node, None)"
  "ignores_directories_in cfg path entries \<Longrightarrow>
     walk_entries (walk_fn cfg optional (\<lambda>_. None)) path entries W = (W \<union> visible_entries cfg path entries, None)"
proof (induction cfg path node and cfg path entries arbitrary: W and W rule: visible_visible_entries.induct)
  case (1 cfg path stat entries)
  show ?case
  proof (cases "shouldIgnore cfg path")
    case None
    with 1 show ?thesis by (simp add: walk_fn_def)
  next
    case (Some err)
    then have "err = SkipDir" by (rule shouldIgnore_SkipDir)
    with Some show ?thesis by (simp add: walk_fn_def)
  qed
qed (auto simp: walk_fn_def shouldIgnore_def split: if_splits)

section \<open>Properties\<close>

lemma fire_delivers:
  assumes "tidy w" "path \<in> reported n w" "n \<le> length (wa_calls w)"
  shows "\<exists>paths \<in> set (drop n (wa_calls (if wa_armed w then fire_callback fn w else w))). path \<in> set paths"
  using assms
  by (cases "fn (wa_calls w) (sorted_list_of_set (wa_paths w))")
    (auto simp: reported_def tidy_def fire_callback_def path_set_flush_def Let_def)

text \<open>What waits is handed over when the timer fires.\<close>

lemma timer_delivers:
  assumes "watch_loop cfg ae fn fs w = (w', None)" "TimerFires \<in> set fs" "tidy w" "path \<in> wa_paths w"
  shows "\<exists>paths \<in> set (drop (length (wa_calls w)) (wa_calls w')). path \<in> set paths"
proof -
  from assms(2) obtain before rest where fs: "fs = before @ TimerFires # rest" by (meson split_list)
  with assms(1) obtain w1 where w1: "watch_loop cfg ae fn before w = (w1, None)"
    by (auto simp: watch_loop_append split: prod.splits option.splits)
  let ?w2 = "if wa_armed w1 then fire_callback fn w1 else w1"
  have first: "watch_grows w w1" by (rule grows_loop [OF w1 assms(3)])
  have "path \<in> reported (length (wa_calls w)) w" using assms(4) by (simp add: reported_def)
  with first assms(3) have ready: "tidy w1" "path \<in> reported (length (wa_calls w)) w1"
    by (auto simp: watch_grows_def)
  from first have "length (wa_calls w) \<le> length (wa_calls w1)" by (auto simp: watch_grows_def)
  from fire_delivers [OF ready this] obtain paths where
    paths: "paths \<in> set (drop (length (wa_calls w)) (wa_calls ?w2))" "path \<in> set paths" by blast
  have "watch_grows w1 ?w2" using grows_fire [OF ready(1)] by simp
  with ready(1) have "tidy ?w2" by (simp add: watch_grows_def)
  moreover from assms(1) fs w1 have "watch_loop cfg ae fn rest ?w2 = (w', None)" by (simp add: watch_loop_append)
  ultimately have "watch_grows ?w2 w'" using grows_loop by blast
  then obtain later where "wa_calls w' = wa_calls ?w2 @ later" unfolding watch_grows_def by blast
  with paths show ?thesis by auto
qed

text \<open>C31: a file that is written reaches the callback after the change, whatever happens around it and
  however often the file was reported before: as long as it is not ignored and its stamp (path, size,
  mode and time) was not seen before, one of the calls made after the change has its path, or the
  path is collected and the timer that hands it over runs; once the timer has fired with the loop
  still running, a call has been made. The paths of a call are sorted, each once.\<close>

theorem change_is_reported:
  assumes "watch_loop cfg ae fn es (new_watch\<lparr>wa_watched := W\<rparr>) = (w, None)"
    and "stat_of node = Some stat" "path \<noteq> []" "\<not> skip_path cfg path" "computeStamp path stat \<notin> wa_stamps w"
    and "watch_loop cfg ae fn (es @ FsEvent path [OpWrite] node # fs) (new_watch\<lparr>wa_watched := W\<rparr>) = (w', r)"
  shows "\<exists>later. wa_calls w' = wa_calls w @ later
    \<and> ((\<exists>paths \<in> set later. path \<in> set paths) \<or> path \<in> wa_paths w' \<and> wa_armed w')
    \<and> (TimerFires \<in> set fs \<and> r = None \<longrightarrow> (\<exists>paths \<in> set later. path \<in> set paths))
    \<and> (\<forall>paths \<in> set (wa_calls w'). sorted paths \<and> distinct paths)"
proof -
  let ?w = "write_event cfg path node w"
  have waits: "path \<in> wa_paths ?w" "wa_calls ?w = wa_calls w"
    using assms(2,4,5) by (simp_all add: write_event_def isDuplicate_def trigger_def path_set_add_def)
  have step: "on_fs_event cfg ae path [OpWrite] node w = (?w, None)"
    using assms(3) by (simp add: on_fs_event_def)
  have "tidy w" using grows_loop [OF assms(1) tidy_new] tidy_new by (simp add: watch_grows_def)
  with grows_fs_event [OF step] have tidy: "tidy ?w" by (simp add: watch_grows_def)
  from assms(1,6) step have rest: "watch_loop cfg ae fn fs ?w = (w', r)" by (simp add: watch_loop_append)
  have grows: "watch_grows ?w w'" by (rule grows_loop [OF rest tidy])
  then obtain later where later: "wa_calls w' = wa_calls w @ later" using waits(2) by (auto simp: watch_grows_def)
  have "path \<in> reported (length (wa_calls w)) ?w" using waits by (simp add: reported_def)
  with grows waits(2) have "path \<in> reported (length (wa_calls w)) w'" by (auto simp: watch_grows_def)
  moreover have "tidy w'" using grows tidy by (simp add: watch_grows_def)
  moreover have "TimerFires \<in> set fs \<and> r = None \<longrightarrow> (\<exists>paths \<in> set later. path \<in> set paths)"
    using timer_delivers [OF _ _ tidy waits(1), of cfg ae fn fs w'] rest waits(2) later by simp
  ultimately show ?thesis using later by (simp add: reported_def tidy_def) blast
qed

definition sample_watch :: watch_config where
  "sample_watch = \<lparr>wc_paths = [\<lparr>wp_optional = False, wp_path = ''app''\<rparr>], wc_ignore = [''node_modules'']\<rparr>"

definition sample_file :: file_stat where
  "sample_file = \<lparr>fs_size = 12, fs_mode = ''-rw-r--r--'', fs_mtime = 1700000000\<rparr>"

text \<open>The file is written, reported, and written again with a byte more: it is reported again.\<close>

theorem change_is_reported_witness:
  "\<exists>w w' later. watch_loop sample_watch (\<lambda>_. None) (\<lambda>_ _. None)
      [FsEvent ''app/a.ts'' [OpWrite] (FileNode sample_file), TimerFires] (new_watch\<lparr>wa_watched := {''app''}\<rparr>) = (w, None)
    \<and> wa_calls w = [[''app/a.ts'']]
    \<and> watch_loop sample_watch (\<lambda>_. None) (\<lambda>_ _. None)
      ([FsEvent ''app/a.ts'' [OpWrite] (FileNode sample_file), TimerFires]
        @ FsEvent ''app/a.ts'' [OpWrite] (FileNode (sample_file\<lparr>fs_size := 13\<rparr>)) # [TimerFires])
      (new_watch\<lparr>wa_watched := {''app''}\<rparr>) = (w', None)
    \<and> wa_calls w' = wa_calls w @ later \<and> (\<exists>paths \<in> set later. ''app/a.ts'' \<in> set paths)"
proof -
  let ?es = "[FsEvent ''app/a.ts'' [OpWrite] (FileNode sample_file), TimerFires]"
  let ?new = "sample_file\<lparr>fs_size := 13\<rparr>"
  have skip: "\<not> skip_path sample_watch ''app/a.ts''" by code_simp
  have other: "computeStamp ''app/a.ts'' ?new \<noteq> computeStamp ''app/a.ts'' sample_file"
  proof -
    have "itoa_int 12 = ''12''" "itoa_int 13 = ''13''" by code_simp+
    then show ?thesis by (simp add: computeStamp_def sample_file_def)
  qed
  have "\<exists>w. watch_loop sample_watch (\<lambda>_. None) (\<lambda>_ _. None) ?es (new_watch\<lparr>wa_watched := {''app''}\<rparr>) = (w, None)
      \<and> wa_calls w = [[''app/a.ts'']] \<and> wa_stamps w = {computeStamp ''app/a.ts'' sample_file}"
    using skip by (simp add: on_fs_event_def write_event_def isDuplicate_def trigger_def new_watch_def
        path_set_add_def path_set_flush_def fire_callback_def)
  then obtain w where w: "watch_loop sample_watch (\<lambda>_. None) (\<lambda>_ _. None) ?es (new_watch\<lparr>wa_watched := {''app''}\<rparr>) = (w, None)"
    "wa_calls w = [[''app/a.ts'']]" "wa_stamps w = {computeStamp ''app/a.ts'' sample_file}" by blast
  have "\<exists>w'. watch_loop sample_watch (\<lambda>_. None) (\<lambda>_ _. None)
      (?es @ FsEvent ''app/a.ts'' [OpWrite] (FileNode ?new) # [TimerFires]) (new_watch\<lparr>wa_watched := {''app''}\<rparr>) = (w', None)"
    by (simp add: watch_loop_append w(1) on_fs_event_def)
  then obtain w' where run: "watch_loop sample_watch (\<lambda>_. None) (\<lambda>_ _. None)
      (?es @ FsEvent ''app/a.ts'' [OpWrite] (FileNode ?new) # [TimerFires]) (new_watch\<lparr>wa_watched := {''app''}\<rparr>) = (w', None)"
    by blast
  from change_is_reported [OF w(1), where stat = ?new, OF _ _ skip _ run] w(3) other
  obtain later where "wa_calls w' = wa_calls w @ later" "\<exists>paths \<in> set later. ''app/a.ts'' \<in> set paths" by auto
  then show ?thesis using w(1,2) run by (intro exI [of _ w] exI [of _ w'] exI [of _ later] conjI)
qed

text \<open>where only directories are ignored and every directory can be read, the walk watches exactly the
  paths that no ignored directory hides.\<close>

theorem walk_watches_visible:
  assumes "ignores_directories cfg root node" "node = DirNode stat entries"
  shows "WalkDir (walk_fn cfg optional (\<lambda>_. None)) root node W = (W \<union> visible cfg root node, None)"
  using walk_visible(1) [OF assms(1), of optional W] assms(2) by (simp add: WalkDir_def)

definition sample_tree :: fs_node where
  "sample_tree = DirNode sample_file
     [(''.git'', DirNode sample_file [(''HEAD'', FileNode sample_file)]),
      (''a.ts'', FileNode sample_file), (''src'', DirNode sample_file [(''b.ts'', FileNode sample_file)])]"

theorem walk_watches_visible_witness:
  "WalkDir (walk_fn sample_watch False (\<lambda>_. None)) ''app'' sample_tree {}
     = ({''app'', ''app/a.ts'', ''app/src'', ''app/src/b.ts''}, None)"
proof -
  have "ignores_directories sample_watch ''app'' sample_tree" by code_simp
  moreover have "visible sample_watch ''app'' sample_tree = {''app'', ''app/a.ts'', ''app/src'', ''app/src/b.ts''}"
    by code_simp
  ultimately show ?thesis
    using walk_watches_visible [of sample_watch "''app''" sample_tree _ _ False "{}"] by (simp add: sample_tree_def)
qed

text \<open>An ignored file ends the walk through its directory: in a worktree, where \<open>.git\<close> is a file, nothing
  but the directory itself is watched.\<close>

lemma ignored_file_hides_directory:
  "WalkDir (walk_fn sample_watch False (\<lambda>_. None)) ''app''
     (DirNode sample_file [(''.git'', FileNode sample_file), (''src'', DirNode sample_file [])]) {} = ({''app''}, None)"
  by code_simp

text \<open>a file that comes back after it was removed, with the size, the mode and the time of a version
  that was seen, is not watched again.\<close>

theorem restored_file_is_not_watched:
  assumes "watch_loop cfg ae fn es w = (w1, None)" "computeStamp path stat \<in> wa_stamps w1" "path \<noteq> []"
    and "watch_loop cfg ae fn (es @ [FsEvent path [OpRemove] NotThere, FsEvent path [OpCreate] (FileNode stat)]) w
      = (w2, r)"
  shows "path \<notin> wa_watched w2"
  using assms
  by (auto simp: watch_loop_append on_fs_event_def remove_event_def unwatch_def trigger_def isDuplicate_def
      split: if_splits)

theorem restored_file_is_not_watched_witness:
  "\<exists>w2 r. watch_loop sample_watch (\<lambda>_. None) (\<lambda>_ _. None)
      ([FsEvent ''app/a.ts'' [OpWrite] (FileNode sample_file)]
        @ [FsEvent ''app/a.ts'' [OpRemove] NotThere, FsEvent ''app/a.ts'' [OpCreate] (FileNode sample_file)])
      (new_watch\<lparr>wa_watched := {''app/a.ts''}\<rparr>) = (w2, r) \<and> ''app/a.ts'' \<notin> wa_watched w2"
proof -
  let ?es = "[FsEvent ''app/a.ts'' [OpWrite] (FileNode sample_file)]"
  let ?w = "new_watch\<lparr>wa_watched := {''app/a.ts''}\<rparr>"
  have skip: "\<not> skip_path sample_watch ''app/a.ts''" by code_simp
  obtain w2 r where run: "watch_loop sample_watch (\<lambda>_. None) (\<lambda>_ _. None)
      (?es @ [FsEvent ''app/a.ts'' [OpRemove] NotThere, FsEvent ''app/a.ts'' [OpCreate] (FileNode sample_file)]) ?w
    = (w2, r)" by fastforce
  have "\<exists>w1. watch_loop sample_watch (\<lambda>_. None) (\<lambda>_ _. None) ?es ?w = (w1, None)
      \<and> computeStamp ''app/a.ts'' sample_file \<in> wa_stamps w1"
    using skip by (simp add: on_fs_event_def write_event_def isDuplicate_def trigger_def new_watch_def)
  then obtain w1 where "watch_loop sample_watch (\<lambda>_. None) (\<lambda>_ _. None) ?es ?w = (w1, None)"
    "computeStamp ''app/a.ts'' sample_file \<in> wa_stamps w1" by blast
  from restored_file_is_not_watched [OF this _ run] run show ?thesis by blast
qed

end
