(* ===== verification/LoadOperations.thy ===== *)
theory LoadOperations
  imports Watcher
begin

text \<open>
  Loading the operations of a project (pkg/loadoperations/loader.go): a walk over the files of the
  operations directory, and the operation of each file, normalised against the schema. The parser,
  printer and normaliser of the GraphQL library, the reading of files and the JSON encoder are
  parameters.
\<close>

section \<open>filepath.Walk\<close>

text \<open>
  The calls of the function of a walk, in order, as long as it returns no error: the path, whether it
  is a directory, and the error of looking at it.
\<close>

record visited =
  vi_path :: string
  vi_dir :: bool
  vi_error :: "go_error option"

definition visit :: "string \<Rightarrow> bool \<Rightarrow> go_error option \<Rightarrow> visited" where
  "visit path dir err = \<lparr>vi_path = path, vi_dir = dir, vi_error = err\<rparr>"

fun walk_calls :: "string \<Rightarrow> fs_node \<Rightarrow> visited list"
  and walk_calls_in :: "string \<Rightarrow> (string \<times> fs_node) list \<Rightarrow> visited list" where
  "walk_calls path NotThere = [visit path False (Some (not_found_error path))]"
| "walk_calls path (StatFails err) = [visit path False (Some err)]"
| "walk_calls path (FileNode stat) = [visit path False None]"
| "walk_calls path (ClosedDir stat err) = [visit path True (Some err)]"
| "walk_calls path (DirNode stat entries) = visit path True None # walk_calls_in path entries"
| "walk_calls_in path [] = []"
| "walk_calls_in path ((name, node) # entries) = walk_calls (path_join [path, name]) node @ walk_calls_in path entries"

section \<open>The loader\<close>

record gql_file =
  gf_name :: string
  gf_path :: string
  gf_content :: string

record load_output =
  lo_files :: "gql_file list"
  lo_errors :: "string list"
  lo_info :: "string list"

text \<open>
  The library: documents \<open>'d\<close> with the kinds and references of their root nodes, schemas \<open>'s\<close>. The
  texts of names are decoded to runes, which are letters, digits or neither.
\<close>

datatype root_kind = FragmentDefinition | OtherDefinition

type_synonym root_node = "root_kind \<times> nat"

record ('d, 's) load_lib =
  ll_missing :: "string \<Rightarrow> bool"
  ll_read :: "string \<Rightarrow> bytes res"
  ll_tree :: "string \<Rightarrow> fs_node"
  ll_parse_schema :: "bytes \<Rightarrow> 's res"
  ll_merge_base :: "'s \<Rightarrow> 's res"
  ll_parse :: "bytes \<Rightarrow> 'd res"
  ll_operations :: "'d \<Rightarrow> nat"
  ll_normalize :: "'d \<Rightarrow> 's \<Rightarrow> 'd res"
  ll_print_named :: "string \<Rightarrow> 'd \<Rightarrow> string res"
  ll_root_nodes :: "'d \<Rightarrow> root_node list"
  ll_remove_root :: "root_node \<Rightarrow> 'd \<Rightarrow> 'd"
  ll_print_fragments :: "'d \<Rightarrow> 's \<Rightarrow> string res"
  ll_marshal :: "load_output \<Rightarrow> bytes res"
  ll_runes :: "string \<Rightarrow> nat list"
  ll_letter :: "nat \<Rightarrow> bool"
  ll_digit :: "nat \<Rightarrow> bool"

fun valid_runes :: "('d, 's) load_lib \<Rightarrow> nat \<Rightarrow> nat list \<Rightarrow> bool" where
  "valid_runes lib i [] = True"
| "valid_runes lib i (r # rs) =
     (if i = 0 \<and> \<not> ll_letter lib r then False
      else if \<not> ll_letter lib r \<and> \<not> ll_digit lib r then False
      else valid_runes lib (i + 1) rs)"

definition isValidOperationName :: "('d, 's) load_lib \<Rightarrow> string \<Rightarrow> bool" where
  "isValidOperationName lib s = (if length s = 0 then False else valid_runes lib 0 (ll_runes lib s))"

section \<open>Fragments\<close>

text \<open>
  The loop that removes what is no fragment: its indices are those of the document it started with,
  while the document shrinks.
\<close>

fun remove_others :: "('d, 's) load_lib \<Rightarrow> nat list \<Rightarrow> 'd \<Rightarrow> 'd outcome" where
  "remove_others lib [] doc = Returned doc"
| "remove_others lib (i # is) doc =
     (if length (ll_root_nodes lib doc) \<le> i then Panicked ''index out of range''
      else
        (let node = ll_root_nodes lib doc ! i in
         remove_others lib is (if fst node \<noteq> FragmentDefinition then ll_remove_root lib node doc else doc)))"

definition keep_fragments :: "('d, 's) load_lib \<Rightarrow> 'd \<Rightarrow> 'd outcome" where
  "keep_fragments lib doc = remove_others lib [0..<length (ll_root_nodes lib doc)] doc"

definition load_fragment :: "('d, 's) load_lib \<Rightarrow> 's \<Rightarrow> visited \<Rightarrow> string \<Rightarrow> string res outcome" where
  "load_fragment lib schema v fragments =
     (case vi_error v of
        Some err \<Rightarrow> Returned (Inl err)
      | None \<Rightarrow>
          (if vi_dir v then Returned (Inr fragments)
           else if \<not> has_suffix (vi_path v) ''.graphql'' then Returned (Inr fragments)
           else
             (case ll_read lib (vi_path v) of
                Inl err \<Rightarrow> Returned (Inl err)
              | Inr content \<Rightarrow>
                  (case ll_parse lib content of
                     Inl report \<Rightarrow> Returned (Inl (Err (''error parsing fragment: '' @ err_text report)))
                   | Inr doc \<Rightarrow>
                       bind_out (keep_fragments lib doc) (\<lambda>doc.
                         Returned (case ll_print_fragments lib doc schema of
                           Inl err \<Rightarrow> Inl err
                         | Inr onlyFragments \<Rightarrow> Inr (fragments @ onlyFragments @ [CHR 0x0A, CHR 0x0A])))))))"

fun load_fragments_loop :: "('d, 's) load_lib \<Rightarrow> 's \<Rightarrow> visited list \<Rightarrow> string \<Rightarrow> string res outcome" where
  "load_fragments_loop lib schema [] fragments = Returned (Inr fragments)"
| "load_fragments_loop lib schema (v # vs) fragments =
     bind_out (load_fragment lib schema v fragments) (\<lambda>r.
       case r of
         Inl err \<Rightarrow> Returned (Inl err)
       | Inr fragments \<Rightarrow> load_fragments_loop lib schema vs fragments)"

definition loadFragments :: "('d, 's) load_lib \<Rightarrow> 's \<Rightarrow> string \<Rightarrow> string res outcome" where
  "loadFragments lib schema fragmentsRootPath =
     (if ll_missing lib fragmentsRootPath then Returned (Inr [])
      else load_fragments_loop lib schema (walk_calls fragmentsRootPath (ll_tree lib fragmentsRootPath)) [])"

section \<open>Operations\<close>

definition add_info :: "string \<Rightarrow> load_output \<Rightarrow> load_output" where
  "add_info msg out = out\<lparr>lo_info := lo_info out @ [msg]\<rparr>"

definition add_error :: "string \<Rightarrow> load_output \<Rightarrow> load_output" where
  "add_error msg out = out\<lparr>lo_errors := lo_errors out @ [msg]\<rparr>"

definition collect_file :: "('d, 's) load_lib \<Rightarrow> visited \<Rightarrow> load_output \<Rightarrow> load_output res" where
  "collect_file lib v out =
     (case vi_error v of
        Some err \<Rightarrow> Inl err
      | None \<Rightarrow>
          (if vi_dir v then Inr out
           else if \<not> has_suffix (vi_path v) ''.graphql''
           then Inr (add_info (''skipping non .graphql file: '' @ vi_path v) out)
           else
             (let fileName = trim_suffix (file_base (vi_path v)) ''.graphql'' in
              if \<not> isValidOperationName lib fileName
              then Inr (add_info (''file names must be alpanumeric only, skipping file: '' @ fileName) out)
              else if list_ex (\<lambda>f. gf_name f = fileName) (lo_files out)
              then Inr (add_info (''skipping file due to duplicate file name: '' @ fileName) out)
              else Inr (out\<lparr>lo_files := lo_files out @ [\<lparr>gf_name = fileName, gf_path = vi_path v, gf_content = []\<rparr>]\<rparr>))))"

fun collect_files :: "('d, 's) load_lib \<Rightarrow> visited list \<Rightarrow> load_output \<Rightarrow> load_output \<times> go_error option" where
  "collect_files lib [] out = (out, None)"
| "collect_files lib (v # vs) out =
     (case collect_file lib v out of
        Inl err \<Rightarrow> (out, Some err)
      | Inr out \<Rightarrow> collect_files lib vs out)"

text \<open>The operation of a file, under the name of the file, or the error message.\<close>

definition named_operation :: "('d, 's) load_lib \<Rightarrow> 's \<Rightarrow> string \<Rightarrow> gql_file \<Rightarrow> string + string" where
  "named_operation lib schema fragments f =
     (case ll_read lib (gf_path f) of
        Inl err \<Rightarrow> Inl (''error reading file: '' @ err_text err)
      | Inr content \<Rightarrow>
          (case ll_parse lib (content @ fragments) of
             Inl report \<Rightarrow> Inl (''error parsing operation: '' @ err_text report)
           | Inr doc \<Rightarrow>
               (if ll_operations lib doc \<noteq> 1
                then Inl (''graphql document must contain exactly one operation: '' @ gf_path f @ [CHR 0x0A])
                else
                  (case ll_normalize lib doc schema of
                     Inl report \<Rightarrow>
                       Inl (''error normalizing operation: '' @ err_text report @ '', operationFilePath: '' @ gf_path f)
                   | Inr doc \<Rightarrow>
                       (case ll_print_named lib (gf_name f) doc of
                          Inl err \<Rightarrow> Inl (''error printing named operation: '' @ err_text err)
                        | Inr namedOperation \<Rightarrow> Inr namedOperation)))))"

fun load_contents :: "('d, 's) load_lib \<Rightarrow> 's \<Rightarrow> string \<Rightarrow> nat list \<Rightarrow> load_output \<Rightarrow> load_output" where
  "load_contents lib schema fragments [] out = out"
| "load_contents lib schema fragments (i # is) out =
     load_contents lib schema fragments is
       (case named_operation lib schema fragments (lo_files out ! i) of
          Inl msg \<Rightarrow> add_error msg out
        | Inr content \<Rightarrow> out\<lparr>lo_files := (lo_files out)[i := (lo_files out ! i)\<lparr>gf_content := content\<rparr>]\<rparr>)"

definition no_output :: load_output where
  "no_output = \<lparr>lo_files = [], lo_errors = [], lo_info = []\<rparr>"

definition encode_output :: "('d, 's) load_lib \<Rightarrow> load_output \<Rightarrow> bytes" where
  "encode_output lib out =
     (case ll_marshal lib out of
        Inr encoded \<Rightarrow> encoded
      | Inl err \<Rightarrow>
          (case ll_marshal lib (no_output\<lparr>lo_errors := [err_text err]\<rparr>) of
             Inr encoded \<Rightarrow> encoded
           | Inl _ \<Rightarrow> []))"

text \<open>The output of the loader, or nothing when the schema or the fragments cannot be loaded.\<close>

definition load_project :: "('d, 's) load_lib \<Rightarrow> string \<Rightarrow> string \<Rightarrow> string \<Rightarrow> load_output option outcome" where
  "load_project lib operationsRootPath fragmentsRootPath schemaFilePath =
     (if ll_missing lib schemaFilePath then Returned None
      else
        (case bind_res (bind_res (ll_read lib schemaFilePath) (ll_parse_schema lib)) (ll_merge_base lib) of
           Inl err \<Rightarrow> Returned None
         | Inr schemaDocument \<Rightarrow>
             bind_out (loadFragments lib schemaDocument fragmentsRootPath) (\<lambda>r.
               case r of
                 Inl err \<Rightarrow> Returned None
               | Inr fragments \<Rightarrow>
                   (case collect_files lib (walk_calls operationsRootPath (ll_tree lib operationsRootPath)) no_output of
                      (out, Some err) \<Rightarrow> Returned (Some (add_error (err_text err) out))
                    | (out, None) \<Rightarrow>
                        Returned (Some (load_contents lib schemaDocument fragments [0..<length (lo_files out)] out))))))"

definition Load :: "('d, 's) load_lib \<Rightarrow> string \<Rightarrow> string \<Rightarrow> string \<Rightarrow> bytes outcome" where
  "Load lib operationsRootPath fragmentsRootPath schemaFilePath =
     bind_out (load_project lib operationsRootPath fragmentsRootPath schemaFilePath) (\<lambda>out.
       Returned (case out of None \<Rightarrow> [] | Some out \<Rightarrow> encode_output lib out))"

section \<open>Facts\<close>

text \<open>What the walk collects: the file names are valid and name the files, each once.\<close>

definition name_and_path :: "gql_file \<Rightarrow> string \<times> string" where
  "name_and_path f = (gf_name f, gf_path f)"

definition names_ok :: "('d, 's) load_lib \<Rightarrow> (string \<times> string) list \<Rightarrow> bool" where
  "names_ok lib fs \<longleftrightarrow> distinct (map fst fs)
     \<and> (\<forall>(name, path) \<in> set fs. isValidOperationName lib name \<and> has_suffix path ''.graphql''
          \<and> name = trim_suffix (file_base path) ''.graphql'')"

definition files_of :: "load_output \<Rightarrow> (string \<times> string) list" where
  "files_of out = map name_and_path (lo_files out)"

lemma files_of_messages [simp]: "files_of (add_info m out) = files_of out" "files_of (add_error m out) = files_of out"
  by (simp_all add: files_of_def add_info_def add_error_def)

lemma names_ok_snoc:
  "names_ok lib fs \<Longrightarrow> name \<notin> fst ` set fs \<Longrightarrow> isValidOperationName lib name \<Longrightarrow> has_suffix path ''.graphql''
    \<Longrightarrow> name = trim_suffix (file_base path) ''.graphql'' \<Longrightarrow> names_ok lib (fs @ [(name, path)])"
  by (auto simp: names_ok_def)

lemma names_ok_collect:
  assumes "collect_file lib v out = Inr out'" "names_ok lib (files_of out)"
  shows "names_ok lib (files_of out')"
proof -
  let ?name = "trim_suffix (file_base (vi_path v)) ''.graphql''"
  let ?new = "out\<lparr>lo_files := lo_files out @ [\<lparr>gf_name = ?name, gf_path = vi_path v, gf_content = []\<rparr>]\<rparr>"
  consider "files_of out' = files_of out"
    | "out' = ?new" "isValidOperationName lib ?name" "has_suffix (vi_path v) ''.graphql''"
      "\<forall>f \<in> set (lo_files out). gf_name f \<noteq> ?name"
    using assms(1) by (auto simp: collect_file_def Let_def list_ex_iff split: option.splits if_splits)
  then show ?thesis
  proof cases
    case 2
    then have "?name \<notin> fst ` set (files_of out)" by (auto simp: files_of_def name_and_path_def)
    with 2 assms(2) have "names_ok lib (files_of out @ [(?name, vi_path v)])" by (intro names_ok_snoc) simp_all
    then show ?thesis by (simp add: 2(1) files_of_def name_and_path_def)
  qed (use assms(2) in simp)
qed

lemma names_ok_walk: "names_ok lib (files_of out) \<Longrightarrow> names_ok lib (files_of (fst (collect_files lib vs out)))"
  by (induction vs arbitrary: out) (auto split: sum.split intro: names_ok_collect)

text \<open>The contents of the files, one by one.\<close>

definition with_content :: "('d, 's) load_lib \<Rightarrow> 's \<Rightarrow> string \<Rightarrow> gql_file \<Rightarrow> gql_file" where
  "with_content lib schema fragments f =
     (case named_operation lib schema fragments f of Inl msg \<Rightarrow> f | Inr content \<Rightarrow> f\<lparr>gf_content := content\<rparr>)"

definition content_errors :: "('d, 's) load_lib \<Rightarrow> 's \<Rightarrow> string \<Rightarrow> gql_file \<Rightarrow> string list" where
  "content_errors lib schema fragments f =
     (case named_operation lib schema fragments f of Inl msg \<Rightarrow> [msg] | Inr content \<Rightarrow> [])"

lemma load_contents_from:
  "k \<le> length (lo_files out) \<Longrightarrow>
     load_contents lib schema fragments [k..<length (lo_files out)] out
     = out\<lparr>lo_files := take k (lo_files out) @ map (with_content lib schema fragments) (drop k (lo_files out)),
           lo_errors := lo_errors out @ concat (map (content_errors lib schema fragments) (drop k (lo_files out)))\<rparr>"
proof (induction "length (lo_files out) - k" arbitrary: k out)
  case 0
  then show ?case by simp
next
  case (Suc n)
  then have k: "k < length (lo_files out)" by simp
  define f where "f = lo_files out ! k"
  define out1 where "out1 = out\<lparr>lo_files := (lo_files out)[k := with_content lib schema fragments f],
      lo_errors := lo_errors out @ content_errors lib schema fragments f\<rparr>"
  have len: "length (lo_files out1) = length (lo_files out)" by (simp add: out1_def)
  have "load_contents lib schema fragments [k..<length (lo_files out)] out
      = load_contents lib schema fragments [Suc k..<length (lo_files out1)] out1"
    using k by (simp add: upt_conv_Cons len out1_def f_def with_content_def content_errors_def add_error_def
        split: sum.split)
  also have "\<dots> = out1\<lparr>lo_files := take (Suc k) (lo_files out1)
          @ map (with_content lib schema fragments) (drop (Suc k) (lo_files out1)),
        lo_errors := lo_errors out1 @ concat (map (content_errors lib schema fragments) (drop (Suc k) (lo_files out1)))\<rparr>"
    using Suc.hyps(2) k by (intro Suc.hyps(1)) (simp_all add: len)
  also have "take (Suc k) (lo_files out1) = take k (lo_files out) @ [with_content lib schema fragments f]"
    using k by (simp add: out1_def take_Suc_conv_app_nth)
  also have "drop (Suc k) (lo_files out1) = drop (Suc k) (lo_files out)"
    by (simp add: out1_def)
  finally show ?case
    using k by (simp add: out1_def f_def Cons_nth_drop_Suc [symmetric])
qed

lemma load_contents_all:
  "load_contents lib schema fragments [0..<length (lo_files out)] out
     = out\<lparr>lo_files := map (with_content lib schema fragments) (lo_files out),
           lo_errors := lo_errors out @ concat (map (content_errors lib schema fragments) (lo_files out))\<rparr>"
  using load_contents_from [of 0 out lib schema fragments] by simp

lemma files_of_contents:
  "files_of (load_contents lib schema fragments [0..<length (lo_files out)] out) = files_of out"
  by (simp add: load_contents_all files_of_def name_and_path_def with_content_def split: sum.split)

text \<open>The schema and the fragments the operations are loaded with.\<close>

definition schema_of :: "('d, 's) load_lib \<Rightarrow> string \<Rightarrow> 's res" where
  "schema_of lib schemaFile = bind_res (bind_res (ll_read lib schemaFile) (ll_parse_schema lib)) (ll_merge_base lib)"

lemma load_project_Some:
  assumes "load_project lib operationsRoot fragmentsRoot schemaFile = Returned (Some out)"
    and "collect_files lib (walk_calls operationsRoot (ll_tree lib operationsRoot)) no_output = (collected, r)"
  shows "\<exists>schema fragments. schema_of lib schemaFile = Inr schema
    \<and> loadFragments lib schema fragmentsRoot = Returned (Inr fragments) \<and> out = (case r of
      Some err \<Rightarrow> add_error (err_text err) collected
    | None \<Rightarrow> load_contents lib schema fragments [0..<length (lo_files collected)] collected)"
proof -
  have found: "\<not> ll_missing lib schemaFile" using assms(1) by (auto simp: load_project_def)
  obtain schema where schema:
    "bind_res (bind_res (ll_read lib schemaFile) (ll_parse_schema lib)) (ll_merge_base lib) = Inr schema"
    using assms(1) found
    by (cases "bind_res (bind_res (ll_read lib schemaFile) (ll_parse_schema lib)) (ll_merge_base lib)")
      (simp_all add: load_project_def)
  obtain f where f: "loadFragments lib schema fragmentsRoot = Returned f"
    using assms(1) found schema by (cases "loadFragments lib schema fragmentsRoot") (simp_all add: load_project_def)
  then obtain fragments where fr: "f = Inr fragments"
    using assms(1) found schema by (cases f) (simp_all add: load_project_def)
  have "out = (case r of Some err \<Rightarrow> add_error (err_text err) collected
    | None \<Rightarrow> load_contents lib schema fragments [0..<length (lo_files collected)] collected)"
    using assms found schema f fr by (cases r) (auto simp: load_project_def)
  with schema f fr show ?thesis by (auto simp: schema_of_def)
qed

text \<open>Removing nodes while the indices run on.\<close>

definition removes_first :: "('d, 's) load_lib \<Rightarrow> bool" where
  "removes_first lib = (\<forall>node doc. ll_root_nodes lib (ll_remove_root lib node doc) = remove1 node (ll_root_nodes lib doc))"

lemma removes_first_shorter:
  assumes "removes_first lib"
  shows "length (ll_root_nodes lib (ll_remove_root lib node doc)) \<le> length (ll_root_nodes lib doc)"
    and "node \<in> set (ll_root_nodes lib doc) \<Longrightarrow>
      length (ll_root_nodes lib (ll_remove_root lib node doc)) < length (ll_root_nodes lib doc)"
proof -
  have "ll_root_nodes lib (ll_remove_root lib node doc) = remove1 node (ll_root_nodes lib doc)"
    using assms by (simp only: removes_first_def)
  then show "length (ll_root_nodes lib (ll_remove_root lib node doc)) \<le> length (ll_root_nodes lib doc)"
    "node \<in> set (ll_root_nodes lib doc) \<Longrightarrow>
      length (ll_root_nodes lib (ll_remove_root lib node doc)) < length (ll_root_nodes lib doc)"
    by (auto simp: length_remove1 dest: length_pos_if_in_set)
qed

lemma remove_others_runs_out:
  assumes "removes_first lib"
  shows "i < n \<Longrightarrow> length (ll_root_nodes lib doc) < n \<Longrightarrow>
    remove_others lib [i..<n] doc = Panicked ''index out of range''"
proof (induction "n - i" arbitrary: i doc)
  case (Suc m)
  show ?case
  proof (cases "length (ll_root_nodes lib doc) \<le> i")
    case True
    with Suc.prems show ?thesis by (simp add: upt_conv_Cons)
  next
    case False
    let ?node = "ll_root_nodes lib doc ! i"
    let ?doc = "if fst ?node \<noteq> FragmentDefinition then ll_remove_root lib ?node doc else doc"
    have "length (ll_root_nodes lib ?doc) < n"
      using removes_first_shorter(1) [OF assms, of ?node doc] Suc.prems(2) by simp
    moreover have "Suc i < n" using False Suc.prems by simp
    ultimately have "remove_others lib [Suc i..<n] ?doc = Panicked ''index out of range''"
      using Suc.hyps by (intro Suc.hyps(1)) simp_all
    with False Suc.prems show ?thesis by (simp add: upt_conv_Cons)
  qed
qed simp

lemma remove_others_returns:
  assumes "removes_first lib" "i \<le> n" "length (ll_root_nodes lib doc) = n"
  shows "(\<exists>doc'. remove_others lib [i..<n] doc = Returned doc')
    \<longleftrightarrow> (\<forall>node \<in> set (drop i (butlast (ll_root_nodes lib doc))). fst node = FragmentDefinition)"
  using assms(2)
proof (induction "n - i" arbitrary: i)
  case 0
  then show ?case using assms(3) by simp
next
  case (Suc m)
  then have i: "i < n" by simp
  let ?nodes = "ll_root_nodes lib doc"
  have step: "remove_others lib [i..<n] doc
      = remove_others lib [Suc i..<n] (if fst (?nodes ! i) \<noteq> FragmentDefinition then ll_remove_root lib (?nodes ! i) doc else doc)"
    using i assms(3) by (simp add: upt_conv_Cons)
  show ?case
  proof (cases "fst (?nodes ! i) = FragmentDefinition")
    case True
    have "drop i (butlast ?nodes) = (if Suc i < n then ?nodes ! i # drop (Suc i) (butlast ?nodes) else [])"
      using i assms(3) by (simp add: Cons_nth_drop_Suc [symmetric] nth_butlast)
    with True step Suc.hyps(1) [of "Suc i"] Suc.hyps(2) i assms(3) show ?thesis
      by (cases "Suc i < n") auto
  next
    case False
    let ?doc = "ll_remove_root lib (?nodes ! i) doc"
    have "?nodes ! i \<in> set ?nodes" using i assms(3) by simp
    then have len: "length (ll_root_nodes lib ?doc) < n"
      using removes_first_shorter(2) [OF assms(1), of "?nodes ! i" doc] assms(3) by simp
    show ?thesis
    proof (cases "Suc i < n")
      case True
      have "remove_others lib [Suc i..<n] ?doc = Panicked ''index out of range''"
        by (rule remove_others_runs_out [OF assms(1) True len])
      moreover have "?nodes ! i \<in> set (drop i (butlast ?nodes))"
        using True assms(3) by (simp add: Cons_nth_drop_Suc [symmetric] nth_butlast)
      ultimately show ?thesis using step False by auto
    next
      case last: False
      then have "drop i (butlast ?nodes) = []" "[Suc i..<n] = []" using i assms(3) by simp_all
      then show ?thesis using step False by auto
    qed
  qed
qed

section \<open>Properties\<close>

text \<open>the operations the loader hands out have distinct names, each a valid name and the stem of its file.\<close>

theorem loaded_names_ok:
  assumes "load_project lib operationsRoot fragmentsRoot schemaFile = Returned (Some out)"
  shows "names_ok lib (files_of out)"
proof -
  let ?walk = "collect_files lib (walk_calls operationsRoot (ll_tree lib operationsRoot)) no_output"
  obtain out1 r where walk: "?walk = (out1, r)" by (cases ?walk)
  have "files_of out = files_of out1"
    using load_project_Some [OF assms walk] by (cases r) (auto simp: files_of_contents)
  moreover have "names_ok lib (files_of no_output)" by (simp add: names_ok_def files_of_def no_output_def)
  ultimately show ?thesis
    using names_ok_walk [of lib no_output "walk_calls operationsRoot (ll_tree lib operationsRoot)"] walk by simp
qed

text \<open>when the walk succeeds, every collected file gets its own operation, whatever happens to the
  others; a file whose operation cannot be made stays in the output with an empty content, beside its
  error.\<close>

theorem loaded_contents:
  assumes "load_project lib operationsRoot fragmentsRoot schemaFile = Returned (Some out)"
    and "collect_files lib (walk_calls operationsRoot (ll_tree lib operationsRoot)) no_output = (collected, None)"
  shows "\<exists>schema fragments. schema_of lib schemaFile = Inr schema
    \<and> loadFragments lib schema fragmentsRoot = Returned (Inr fragments)
    \<and> lo_files out = map (with_content lib schema fragments) (lo_files collected)
    \<and> lo_errors out = lo_errors collected @ concat (map (content_errors lib schema fragments) (lo_files collected))"
proof -
  from load_project_Some [OF assms] obtain schema fragments where
    "schema_of lib schemaFile = Inr schema" "loadFragments lib schema fragmentsRoot = Returned (Inr fragments)"
    "out = load_contents lib schema fragments [0..<length (lo_files collected)] collected" by auto
  then show ?thesis by (intro exI [of _ schema] exI [of _ fragments]) (simp add: load_contents_all)
qed

text \<open>the loop that drops what is no fragment from a document runs to its end only when everything before
  the last definition is a fragment; else it reads behind the end of the shrunken list and panics.\<close>

theorem fragment_files_panic:
  assumes "removes_first lib"
  shows "(\<exists>doc'. keep_fragments lib doc = Returned doc')
    \<longleftrightarrow> (\<forall>node \<in> set (butlast (ll_root_nodes lib doc)). fst node = FragmentDefinition)"
  using remove_others_returns [OF assms, of 0 _ doc] by (simp add: keep_fragments_def)

text \<open>Whatever goes wrong with the schema, the caller gets the empty text and none of the errors.\<close>

lemma schema_errors_are_dropped:
  "ll_missing lib schemaFile \<Longrightarrow> Load lib operationsRoot fragmentsRoot schemaFile = Returned []"
  by (simp add: Load_def load_project_def)

section \<open>A project\<close>

text \<open>Documents are the kinds of their root nodes; a schema is a unit.\<close>

definition sample_load_lib :: "(root_node list, unit) load_lib" where
  "sample_load_lib =
     \<lparr>ll_missing = (\<lambda>path. path = ''fragments''), ll_read = (\<lambda>path. Inr path),
      ll_tree = (\<lambda>path. DirNode sample_file [(''Users.graphql'', FileNode sample_file), (''notes.txt'', FileNode sample_file)]),
      ll_parse_schema = (\<lambda>_. Inr ()), ll_merge_base = Inr,
      ll_parse = (\<lambda>_. Inr [(OtherDefinition, 0)]), ll_operations = length, ll_normalize = (\<lambda>doc schema. Inr doc),
      ll_print_named = (\<lambda>name doc. Inr (''query '' @ name)), ll_root_nodes = id, ll_remove_root = remove1,
      ll_print_fragments = (\<lambda>doc schema. Inr []), ll_marshal = (\<lambda>out. Inr []),
      ll_runes = map of_char, ll_letter = (\<lambda>r. 65 \<le> r \<and> r \<le> 122), ll_digit = (\<lambda>r. 48 \<le> r \<and> r \<le> 57)\<rparr>"

definition sample_collected :: load_output where
  "sample_collected =
     \<lparr>lo_files = [\<lparr>gf_name = ''Users'', gf_path = ''operations/Users.graphql'', gf_content = []\<rparr>], lo_errors = [],
      lo_info = [''skipping non .graphql file: operations/notes.txt'']\<rparr>"

lemma sample_walk:
  "collect_files sample_load_lib (walk_calls ''operations'' (ll_tree sample_load_lib ''operations'')) no_output
     = (sample_collected, None)"
  by code_simp

lemma sample_load:
  obtains out where "load_project sample_load_lib ''operations'' ''fragments'' ''schema.graphql'' = Returned (Some out)"
    "map gf_content (lo_files out) = [''query Users'']"
proof -
  have "(case load_project sample_load_lib ''operations'' ''fragments'' ''schema.graphql'' of
      Returned (Some out) \<Rightarrow> map gf_content (lo_files out) = [''query Users''] | _ \<Rightarrow> False)"
    by code_simp
  then show thesis by (auto intro: that split: outcome.splits option.splits)
qed

theorem loaded_names_ok_witness:
  "\<exists>out. load_project sample_load_lib ''operations'' ''fragments'' ''schema.graphql'' = Returned (Some out)
     \<and> names_ok sample_load_lib (files_of out) \<and> map gf_content (lo_files out) = [''query Users'']"
proof -
  obtain out where out: "load_project sample_load_lib ''operations'' ''fragments'' ''schema.graphql'' = Returned (Some out)"
    "map gf_content (lo_files out) = [''query Users'']" by (rule sample_load)
  from loaded_names_ok [OF out(1)] out show ?thesis by (intro exI conjI)
qed

theorem loaded_contents_witness:
  "\<exists>out schema fragments. load_project sample_load_lib ''operations'' ''fragments'' ''schema.graphql'' = Returned (Some out)
     \<and> lo_files out = map (with_content sample_load_lib schema fragments) (lo_files sample_collected)"
proof -
  obtain out where out: "load_project sample_load_lib ''operations'' ''fragments'' ''schema.graphql'' = Returned (Some out)"
    by (rule sample_load)
  from loaded_contents [OF out sample_walk] obtain schema fragments where
    "lo_files out = map (with_content sample_load_lib schema fragments) (lo_files sample_collected)" by blast
  with out show ?thesis by (intro exI conjI)
qed

theorem fragment_files_panic_witness:
  "(\<nexists>doc'. keep_fragments sample_load_lib [(OtherDefinition, 0), (FragmentDefinition, 1)] = Returned doc')
   \<and> (\<exists>doc'. keep_fragments sample_load_lib [(FragmentDefinition, 1), (OtherDefinition, 0)] = Returned doc')"
proof -
  have "removes_first sample_load_lib" by (simp add: removes_first_def sample_load_lib_def)
  from fragment_files_panic [OF this] show ?thesis by (simp add: sample_load_lib_def)
qed

end
