(* ===== verification/CliAuth.thy ===== *)
theory CliAuth
  imports Manifest
begin

text \<open>
  Logging in from the command line: the API client (pkg/v2wundergraphapi/client.go), the settings of
  the command line (pkg/config/config.go), the authenticator (pkg/cli/auth/auth.go) and the commands
  login, logout, userinfo and publish (cli/commands). Parameters are the settings library viper, the
  JSON codecs, the JWT parser, and the outside, whose answers are functions of the calls made before.
\<close>

section \<open>The outside\<close>

record api_request =
  ar_method :: string
  ar_url :: string
  ar_headers :: "(string \<times> string) list"
  ar_body :: bytes

type_synonym form_values = "(string \<times> string) list"

datatype cli_call =
    PostForm string form_values
  | ApiCall api_request
  | OpenBrowser string
  | SleepSecond
  | WriteConfig bytes

record cli_env =
  ce_post :: "cli_call list \<Rightarrow> string \<Rightarrow> form_values \<Rightarrow> api_response res"
  ce_api :: "cli_call list \<Rightarrow> api_request \<Rightarrow> api_response res"
  ce_open :: "cli_call list \<Rightarrow> string \<Rightarrow> go_error option"
  ce_write :: "cli_call list \<Rightarrow> bytes \<Rightarrow> go_error option"

record 'v cli =
  ci_viper :: 'v
  ci_calls :: "cli_call list"

definition note_call :: "cli_call \<Rightarrow> 'v cli \<Rightarrow> 'v cli" where
  "note_call c s = s\<lparr>ci_calls := ci_calls s @ [c]\<rparr>"

definition post_form :: "cli_env \<Rightarrow> string \<Rightarrow> form_values \<Rightarrow> 'v cli \<Rightarrow> api_response res \<times> 'v cli" where
  "post_form env url form s = (ce_post env (ci_calls s) url form, note_call (PostForm url form) s)"

section \<open>The API client\<close>

record api_client =
  ac_token :: string
  ac_base :: string

definition new_request :: "string \<Rightarrow> string \<Rightarrow> bytes \<Rightarrow> api_request" where
  "new_request meth url body = \<lparr>ar_method = meth, ar_url = url, ar_headers = [], ar_body = body\<rparr>"

definition authorized_request :: "api_client \<Rightarrow> api_request \<Rightarrow> api_request" where
  "authorized_request c req =
     req\<lparr>ar_headers := ar_headers req
       @ [(''Authorization'', ''Bearer '' @ ac_token c), (''Accept'', ''application/json'')]
       @ (if ar_method req = ''POST'' then [(''Content-Type'', ''application/json'')] else [])\<rparr>"

definition client_do :: "cli_env \<Rightarrow> api_client \<Rightarrow> api_request \<Rightarrow> 'v cli \<Rightarrow> api_response res \<times> 'v cli" where
  "client_do env c req s =
     (let req = authorized_request c req in (ce_api env (ci_calls s) req, note_call (ApiCall req) s))"

definition ErrInvalidLogin :: go_error where "ErrInvalidLogin = Err ''invalid login''"

definition PublishApiDependency ::
    "cli_env \<Rightarrow> (api_dependency \<Rightarrow> bytes res) \<Rightarrow> api_client \<Rightarrow> api_dependency \<Rightarrow> 'v cli \<Rightarrow> go_error option \<times> 'v cli" where
  "PublishApiDependency env encode c dependency s =
     (case encode dependency of
        Inl err \<Rightarrow> (Some (Wrap (''could not encode api dependency '' @ quoted (ad_name dependency)) err), s)
      | Inr b \<Rightarrow>
          (case client_do env c
              (new_request ''POST'' (ac_base c @ ''/v1/organizations/'' @ ad_organization dependency @ ''/apis'') b) s of
             (Inl err, s) \<Rightarrow> (Some (Wrap (''could not publish api '' @ quoted (ad_name dependency)) err), s)
           | (Inr (status, body), s) \<Rightarrow>
               (if status \<noteq> 200
                then (Some (Err (''could not publish api '' @ quoted (ad_name dependency) @ '', statusCode: '' @ itoa status)), s)
                else (None, s))))"

definition RegisterCliUserWithAccessToken :: "cli_env \<Rightarrow> api_client \<Rightarrow> 'v cli \<Rightarrow> go_error option \<times> 'v cli" where
  "RegisterCliUserWithAccessToken env c s =
     (case client_do env c (new_request ''POST'' (ac_base c @ ''/auth/cli/register'') []) s of
        (Inl err, s) \<Rightarrow> (Some err, s)
      | (Inr (status, body), s) \<Rightarrow>
          (if status \<noteq> 200 then
             (if status = 401 then (Some ErrInvalidLogin, s)
              else (Some (Err (''could not register cli user, statusCode: '' @ itoa status)), s))
           else (None, s)))"

record user_info =
  ui_id :: string
  ui_email :: string
  ui_first :: string
  ui_last :: string
  ui_display :: string
  ui_picture :: string
  ui_roles :: "string list"

definition GetUserInfo ::
    "cli_env \<Rightarrow> (bytes \<Rightarrow> user_info res) \<Rightarrow> api_client \<Rightarrow> 'v cli \<Rightarrow> user_info res \<times> 'v cli" where
  "GetUserInfo env decode c s =
     (case client_do env c (new_request ''GET'' (ac_base c @ ''/auth/userinfo'') []) s of
        (Inl err, s) \<Rightarrow> (Inl err, s)
      | (Inr (status, body), s) \<Rightarrow>
          (if status \<noteq> 200 then
             (if status = 401 then (Inl ErrInvalidLogin, s)
              else (Inl (Err (''could not fetch userinfo, statusCode: '' @ itoa status)), s))
           else (bind_res body decode, s)))"

section \<open>The settings\<close>

record access_token =
  at_access :: string
  at_expires :: int
  at_id :: string
  at_refresh :: string
  at_scope :: string
  at_type :: string
  at_user :: string

record refresh_response =
  rf_expires :: int
  rf_refresh_expires :: int
  rf_refresh :: string
  rf_access :: string
  rf_type :: string
  rf_session :: string
  rf_scope :: string
  rf_not_before :: string

record device_response =
  dv_code :: string
  dv_expires :: int
  dv_interval :: int
  dv_user_code :: string
  dv_uri :: string
  dv_uri_complete :: string

definition no_token :: access_token where
  "no_token = \<lparr>at_access = [], at_expires = 0, at_id = [], at_refresh = [], at_scope = [], at_type = [], at_user = []\<rparr>"

datatype setting = TextSetting string | NumberSetting int | TokenSetting access_token

text \<open>
  The library viper over its state \<open>'v\<close>: whether the file it read has a key, reading and setting a
  value, and all settings, with values \<open>'j\<close> by top-level key; the JSON codecs, of which the one for
  tokens fills in the record it is given; and JWT parsing without verification.
\<close>

record ('v, 'j, 'c) cli_lib =
  cl_in_config :: "'v \<Rightarrow> string \<Rightarrow> bool"
  cl_get :: "'v \<Rightarrow> string \<Rightarrow> string"
  cl_set :: "string \<Rightarrow> setting \<Rightarrow> 'v \<Rightarrow> 'v"
  cl_settings :: "'v \<Rightarrow> (string \<times> 'j) list"
  cl_marshal :: "(string \<times> 'j) list \<Rightarrow> bytes res"
  cl_decode_refresh :: "bytes res \<Rightarrow> refresh_response"
  cl_decode_device :: "bytes res \<Rightarrow> device_response"
  cl_decode_token :: "access_token \<Rightarrow> bytes res \<Rightarrow> access_token \<times> go_error option"
  cl_parse_jwt :: "string \<Rightarrow> 'c res"
  cl_not_expired :: "'c \<Rightarrow> bool"

definition writeable_config_keys :: "string list" where "writeable_config_keys = [''auth'']"

definition persistConfigKey :: "('v, 'j, 'c) cli_lib \<Rightarrow> 'v \<Rightarrow> string \<Rightarrow> bool" where
  "persistConfigKey lib v key =
     (if cl_in_config lib v key then True
      else list_ex (\<lambda>k. k = key \<or> has_prefix key (k @ ''.'')) writeable_config_keys)"

definition SaveConfig ::
    "('v, 'j, 'c) cli_lib \<Rightarrow> cli_env \<Rightarrow> (string \<times> 'j) list \<Rightarrow> 'v cli \<Rightarrow> go_error option \<times> 'v cli" where
  "SaveConfig lib env allSettings s =
     (case cl_marshal lib (filter (\<lambda>(key, val). persistConfigKey lib (ci_viper s) key) allSettings) of
        Inl err \<Rightarrow> (Some err, s)
      | Inr data \<Rightarrow> (ce_write env (ci_calls s) data, note_call (WriteConfig data) s))"

section \<open>The authenticator\<close>

record authenticator =
  au_base :: string
  au_client :: string

definition tokenIsValid :: "('v, 'j, 'c) cli_lib \<Rightarrow> 'v \<Rightarrow> bool" where
  "tokenIsValid lib v =
     (let accessToken = cl_get lib v ''auth.access_token'' in
      if accessToken = [] then False
      else
        (case cl_parse_jwt lib accessToken of
           Inl _ \<Rightarrow> False
         | Inr claims \<Rightarrow> cl_not_expired lib claims))"

definition token_url :: "authenticator \<Rightarrow> string" where
  "token_url a = au_base a @ ''/protocol/openid-connect/token''"

definition refreshJWT ::
    "('v, 'j, 'c) cli_lib \<Rightarrow> cli_env \<Rightarrow> authenticator \<Rightarrow> string \<Rightarrow> 'v cli \<Rightarrow> string res \<times> 'v cli" where
  "refreshJWT lib env a refreshToken s =
     (case post_form env (token_url a)
         [(''client_id'', au_client a), (''refresh_token'', refreshToken), (''grant_type'', ''refresh_token'')] s of
        (Inl err, s) \<Rightarrow> (Inl err, s)
      | (Inr (status, body), s) \<Rightarrow>
          (if status \<noteq> 200
           then (Inl (Err (''could not request for a new access token with refresh token, statusCode: '' @ itoa status)), s)
           else
             (let result = cl_decode_refresh lib body in
              (Inr (rf_access result),
               s\<lparr>ci_viper := foldl (\<lambda>v (key, val). cl_set lib key val v) (ci_viper s)
                   [(''auth.access_token'', TextSetting (rf_access result)),
                    (''auth.refresh_token'', TextSetting (rf_refresh result)),
                    (''auth.expires_in'', NumberSetting (rf_expires result)),
                    (''auth.scope'', TextSetting (rf_scope result)),
                    (''auth.token_type'', TextSetting (rf_type result))]\<rparr>))))"

definition startDeviceGrantFlow ::
    "('v, 'j, 'c) cli_lib \<Rightarrow> cli_env \<Rightarrow> authenticator \<Rightarrow> 'v cli \<Rightarrow> device_response res \<times> 'v cli" where
  "startDeviceGrantFlow lib env a s =
     (case post_form env (au_base a @ ''/protocol/openid-connect/auth/device'') [(''client_id'', au_client a)] s of
        (Inl err, s) \<Rightarrow> (Inl err, s)
      | (Inr (status, body), s) \<Rightarrow>
          (if status \<noteq> 200 then (Inl (Err (''could not request for device code, statusCode: '' @ itoa status)), s)
           else (Inr (cl_decode_device lib body), s)))"

definition informUserAndOpenBrowser :: "cli_env \<Rightarrow> string \<Rightarrow> 'v cli \<Rightarrow> go_error option \<times> 'v cli" where
  "informUserAndOpenBrowser env verificationUriComplete s =
     (ce_open env (ci_calls s) verificationUriComplete, note_call (OpenBrowser verificationUriComplete) s)"

definition poll_form :: "authenticator \<Rightarrow> string \<Rightarrow> form_values" where
  "poll_form a deviceCode =
     [(''device_code'', deviceCode), (''grant_type'', ''urn:ietf:params:oauth:grant-type:device_code''),
      (''client_id'', au_client a)]"

text \<open>
  One turn of the polling loop, on the token decoded so far: the loop goes on with the left value
  or ends with the right one. A second of sleep is one call, for as many seconds as the interval says.
\<close>

definition poll_once ::
    "('v, 'j, 'c) cli_lib \<Rightarrow> cli_env \<Rightarrow> authenticator \<Rightarrow> string \<Rightarrow> int \<Rightarrow> access_token \<times> 'v cli
      \<Rightarrow> (access_token \<times> 'v cli) + (access_token res \<times> 'v cli)" where
  "poll_once lib env a deviceCode retryInterval rs =
     (case rs of (result, s) \<Rightarrow>
        (case post_form env (token_url a) (poll_form a deviceCode) s of
           (Inl err, s) \<Rightarrow> Inr (Inl err, s)
         | (Inr (status, body), s) \<Rightarrow>
             (if status = 400 then Inl (result, (note_call SleepSecond ^^ nat retryInterval) s)
              else if status \<noteq> 200 then Inr (Inl (Err (''could not poll token, statusCode: '' @ itoa status)), s)
              else
                (case cl_decode_token lib result body of
                   (result, Some err) \<Rightarrow> Inl (result, s)
                 | (result, None) \<Rightarrow> Inr (Inr result, s)))))"

text \<open>\<open>None\<close> is a loop that never ends.\<close>

partial_function (option) poll_loop ::
    "('v, 'j, 'c) cli_lib \<Rightarrow> cli_env \<Rightarrow> authenticator \<Rightarrow> string \<Rightarrow> int \<Rightarrow> access_token \<times> 'v cli
      \<Rightarrow> (access_token res \<times> 'v cli) option" where
  "poll_loop lib env a deviceCode retryInterval rs =
     (case poll_once lib env a deviceCode retryInterval rs of
        Inl rs \<Rightarrow> poll_loop lib env a deviceCode retryInterval rs
      | Inr r \<Rightarrow> Some r)"

definition startPolling ::
    "('v, 'j, 'c) cli_lib \<Rightarrow> cli_env \<Rightarrow> authenticator \<Rightarrow> string \<Rightarrow> int \<Rightarrow> 'v cli
      \<Rightarrow> (access_token res \<times> 'v cli) option" where
  "startPolling lib env a deviceCode retryInterval s = poll_loop lib env a deviceCode retryInterval (no_token, s)"

text \<open>\<open>log.Fatal\<close> ends the process, and with it the deferred saving of the settings.\<close>

datatype login = LoggedIn string | Fatal go_error

definition device_login ::
    "('v, 'j, 'c) cli_lib \<Rightarrow> cli_env \<Rightarrow> authenticator \<Rightarrow> 'v cli \<Rightarrow> (login \<times> 'v cli) option" where
  "device_login lib env a s =
     (case startDeviceGrantFlow lib env a s of
        (Inl err, s) \<Rightarrow> Some (Fatal err, s)
      | (Inr deviceResp, s) \<Rightarrow>
          (case informUserAndOpenBrowser env (dv_uri_complete deviceResp) s of
             (Some err, s) \<Rightarrow> Some (Fatal err, s)
           | (None, s) \<Rightarrow>
               (case startPolling lib env a (dv_code deviceResp) (dv_interval deviceResp) s of
                  None \<Rightarrow> None
                | Some (Inl err, s) \<Rightarrow> Some (Fatal err, s)
                | Some (Inr token, s) \<Rightarrow>
                    (case RegisterCliUserWithAccessToken env
                        \<lparr>ac_token = at_access token, ac_base = cl_get lib (ci_viper s) ''API_URL''\<rparr> s of
                       (Some err, s) \<Rightarrow> Some (Fatal err, s)
                     | (None, s) \<Rightarrow>
                         Some (LoggedIn (at_access token),
                           s\<lparr>ci_viper := cl_set lib ''auth'' (TokenSetting token) (ci_viper s)\<rparr>)))))"

definition save_settings :: "('v, 'j, 'c) cli_lib \<Rightarrow> cli_env \<Rightarrow> login \<times> 'v cli \<Rightarrow> login \<times> 'v cli" where
  "save_settings lib env r =
     (case r of
        (LoggedIn token, s) \<Rightarrow> (LoggedIn token, snd (SaveConfig lib env (cl_settings lib (ci_viper s)) s))
      | (Fatal err, s) \<Rightarrow> (Fatal err, s))"

definition Login ::
    "('v, 'j, 'c) cli_lib \<Rightarrow> cli_env \<Rightarrow> authenticator \<Rightarrow> 'v cli \<Rightarrow> (login \<times> 'v cli) option" where
  "Login lib env a s =
     map_option (save_settings lib env)
       (if cl_in_config lib (ci_viper s) ''auth'' then
          (if tokenIsValid lib (ci_viper s)
           then Some (LoggedIn (cl_get lib (ci_viper s) ''auth.access_token''), s)
           else
             (case refreshJWT lib env a (cl_get lib (ci_viper s) ''auth.refresh_token'') s of
                (Inr token, s) \<Rightarrow> (if token \<noteq> [] then Some (LoggedIn token, s) else device_login lib env a s)
              | (Inl err, s) \<Rightarrow> device_login lib env a s))
        else device_login lib env a s)"

definition LoadRefreshAccessToken ::
    "('v, 'j, 'c) cli_lib \<Rightarrow> cli_env \<Rightarrow> authenticator \<Rightarrow> 'v cli \<Rightarrow> string \<times> 'v cli" where
  "LoadRefreshAccessToken lib env a s =
     (if cl_in_config lib (ci_viper s) ''auth'' then
        (if tokenIsValid lib (ci_viper s) then (cl_get lib (ci_viper s) ''auth.access_token'', s)
         else
           (case refreshJWT lib env a (cl_get lib (ci_viper s) ''auth.refresh_token'') s of
              (Inr token, s) \<Rightarrow> (if token \<noteq> [] then (token, s) else ([], s))
            | (Inl err, s) \<Rightarrow> ([], s)))
      else ([], s))"

definition Logout :: "('v, 'j, 'c) cli_lib \<Rightarrow> cli_env \<Rightarrow> 'v cli \<Rightarrow> 'v cli" where
  "Logout lib env s =
     snd (SaveConfig lib env (filter (\<lambda>(key, val). key \<noteq> ''auth'') (cl_settings lib (ci_viper s))) s)"

section \<open>The commands\<close>

definition client_with_token :: "('v, 'j, 'c) cli_lib \<Rightarrow> string \<Rightarrow> 'v cli \<Rightarrow> api_client" where
  "client_with_token lib token s = \<lparr>ac_token = token, ac_base = cl_get lib (ci_viper s) ''API_URL''\<rparr>"

definition InitWunderGraphApiClient ::
    "('v, 'j, 'c) cli_lib \<Rightarrow> cli_env \<Rightarrow> authenticator \<Rightarrow> 'v cli \<Rightarrow> api_client \<times> 'v cli" where
  "InitWunderGraphApiClient lib env a s =
     (let (token, s) = LoadRefreshAccessToken lib env a s in (client_with_token lib token s, s))"

fun is_invalid_login :: "go_error \<Rightarrow> bool" where
  "is_invalid_login (Wrap m e) = is_invalid_login e"
| "is_invalid_login e = (e = ErrInvalidLogin)"

datatype command_end = ShowsUser user_info | InvalidCredentials | NotLoggedIn | ShowsError go_error | Exits go_error

definition login_command ::
    "('v, 'j, 'c) cli_lib \<Rightarrow> cli_env \<Rightarrow> (bytes \<Rightarrow> user_info res) \<Rightarrow> authenticator \<Rightarrow> 'v cli
      \<Rightarrow> (command_end \<times> 'v cli) option" where
  "login_command lib env decode a s =
     (case Login lib env a s of
        None \<Rightarrow> None
      | Some (Fatal err, s) \<Rightarrow> Some (Exits err, s)
      | Some (LoggedIn token, s) \<Rightarrow>
          (case GetUserInfo env decode (client_with_token lib token s) s of
             (Inr userInfo, s) \<Rightarrow> Some (ShowsUser userInfo, s)
           | (Inl err, s) \<Rightarrow>
               (if is_invalid_login err then Some (InvalidCredentials, Logout lib env s)
                else Some (ShowsError err, s))))"

definition userinfo_command ::
    "('v, 'j, 'c) cli_lib \<Rightarrow> cli_env \<Rightarrow> (bytes \<Rightarrow> user_info res) \<Rightarrow> authenticator \<Rightarrow> 'v cli \<Rightarrow> command_end \<times> 'v cli" where
  "userinfo_command lib env decode a s =
     (let (client, s) = InitWunderGraphApiClient lib env a s in
      case GetUserInfo env decode client s of
        (Inl _, s) \<Rightarrow> (NotLoggedIn, s)
      | (Inr userInfo, s) \<Rightarrow> (ShowsUser userInfo, s))"

text \<open>Publishing: \<open>missing\<close> and \<open>read\<close> are the file system, \<open>parse\<close> and \<open>encode\<close> the JSON codec.\<close>

datatype publish_result =
  InvalidName string | NoApiFile string | UnreadableFile string | UnparsableFile string
  | PublishFailed string go_error | Published string

definition publish_one ::
    "cli_env \<Rightarrow> (string \<Rightarrow> bool) \<Rightarrow> (string \<Rightarrow> bytes res) \<Rightarrow> (bytes \<Rightarrow> api_dependency res)
      \<Rightarrow> (api_dependency \<Rightarrow> bytes res) \<Rightarrow> api_client \<Rightarrow> string \<Rightarrow> string \<Rightarrow> 'v cli \<Rightarrow> publish_result \<times> 'v cli" where
  "publish_one env missing read parse encode client wunderGraphDir arg s =
     (case split_on (CHR ''/'') arg of
        [org, api] \<Rightarrow>
          (let apiName = org @ ''/'' @ api;
               filePath = path_join [wunderGraphDir, ''generated'', org @ ''.'' @ api @ ''.api.json''] in
           if missing filePath then (NoApiFile filePath, s)
           else
             (case read filePath of
                Inl _ \<Rightarrow> (UnreadableFile filePath, s)
              | Inr content \<Rightarrow>
                  (case parse content of
                     Inl _ \<Rightarrow> (UnparsableFile filePath, s)
                   | Inr dependency \<Rightarrow>
                       (case PublishApiDependency env encode client dependency s of
                          (Some err, s) \<Rightarrow> (PublishFailed apiName err, s)
                        | (None, s) \<Rightarrow> (Published apiName, s)))))
      | _ \<Rightarrow> (InvalidName arg, s))"

fun publish_all ::
    "(string \<Rightarrow> 'v cli \<Rightarrow> publish_result \<times> 'v cli) \<Rightarrow> string list \<Rightarrow> 'v cli \<Rightarrow> publish_result list \<times> 'v cli" where
  "publish_all one [] s = ([], s)"
| "publish_all one (arg # args) s =
     (let (r, s) = one arg s; (rs, s) = publish_all one args s in (r # rs, s))"

section \<open>Polling\<close>

text \<open>How often the server was polled, and how many seconds passed.\<close>

definition polls :: "authenticator \<Rightarrow> string \<Rightarrow> cli_call list \<Rightarrow> nat" where
  "polls a deviceCode cs = length (filter (\<lambda>c. c = PostForm (token_url a) (poll_form a deviceCode)) cs)"

definition slept :: "cli_call list \<Rightarrow> nat" where
  "slept cs = length (filter (\<lambda>c. c = SleepSecond) cs)"

text \<open>The answers that end the polling: \<open>decodes\<close> says which bodies are JSON for a token.\<close>

definition decisive :: "(bytes res \<Rightarrow> bool) \<Rightarrow> api_response res \<Rightarrow> bool" where
  "decisive decodes ans =
     (case ans of Inl _ \<Rightarrow> True | Inr (status, body) \<Rightarrow> status \<noteq> 400 \<and> (status = 200 \<longrightarrow> decodes body))"

definition pending :: "api_response res \<Rightarrow> bool" where
  "pending ans = (case ans of Inl _ \<Rightarrow> False | Inr (status, body) \<Rightarrow> status = 400)"

lemma note_calls_frame [simp]:
  "ci_viper (note_call c s) = ci_viper s" "ci_calls (note_call c s) = ci_calls s @ [c]"
  by (simp_all add: note_call_def)

lemma sleep_calls [simp]:
  "ci_calls ((note_call SleepSecond ^^ n) s) = ci_calls s @ replicate n SleepSecond"
  "ci_viper ((note_call SleepSecond ^^ n) s) = ci_viper s"
  by (induction n) (simp_all add: replicate_append_same)

lemma polls_append [simp]: "polls a c (cs @ ds) = polls a c cs + polls a c ds"
  by (simp add: polls_def)

lemma slept_append [simp]: "slept (cs @ ds) = slept cs + slept ds"
  by (simp add: slept_def)

lemma polls_sleep [simp]: "polls a c (replicate n SleepSecond) = 0" "slept (replicate n SleepSecond) = n"
  by (simp_all add: polls_def slept_def)

text \<open>A token server whose answers depend on how often it was polled, and a codec that finds the same
  bodies undecodable whatever it was given to fill in.\<close>

definition token_server ::
    "('v, 'j, 'c) cli_lib \<Rightarrow> cli_env \<Rightarrow> authenticator \<Rightarrow> string \<Rightarrow> (bytes res \<Rightarrow> bool) \<Rightarrow> (nat \<Rightarrow> api_response res) \<Rightarrow> bool" where
  "token_server lib env a deviceCode decodes answer \<longleftrightarrow>
     (\<forall>cs. ce_post env cs (token_url a) (poll_form a deviceCode) = answer (polls a deviceCode cs))
   \<and> (\<forall>result body. snd (cl_decode_token lib result body) = None \<longleftrightarrow> decodes body)"

lemma token_server_decode:
  assumes "token_server lib env a c decodes answer"
  obtains result' e where "cl_decode_token lib result body = (result', e)" "e = None \<longleftrightarrow> decodes body"
proof (cases "cl_decode_token lib result body")
  case (Pair result' e)
  moreover have "snd (cl_decode_token lib result body) = None \<longleftrightarrow> decodes body"
    using assms by (simp add: token_server_def)
  ultimately show thesis by (intro that) simp_all
qed

lemma token_server_answer:
  "token_server lib env a c decodes answer
    \<Longrightarrow> ce_post env cs (token_url a) (poll_form a c) = answer (polls a c cs)"
  by (simp add: token_server_def)

lemma poll_once_decisive:
  assumes server: "token_server lib env a c decodes answer"
    and "decisive decodes (answer (polls a c (ci_calls s)))"
  obtains r s' where "poll_once lib env a c k (result, s) = Inr (r, s')"
    "ci_calls s' = ci_calls s @ [PostForm (token_url a) (poll_form a c)]"
proof (cases "answer (polls a c (ci_calls s))")
  case (Inl err)
  let ?s = "note_call (PostForm (token_url a) (poll_form a c)) s"
  from Inl have "poll_once lib env a c k (result, s) = Inr (Inl err, ?s)"
    by (simp add: poll_once_def post_form_def token_server_answer [OF server])
  then show thesis by (rule that) simp
next
  case (Inr ans)
  obtain status body where ans: "ans = (status, body)" by (cases ans)
  obtain result' e where dec: "cl_decode_token lib result body = (result', e)" "e = None \<longleftrightarrow> decodes body"
    by (rule token_server_decode [OF server])
  from assms(2) Inr ans have "status \<noteq> 400" "status = 200 \<longrightarrow> decodes body" by (simp_all add: decisive_def)
  with Inr ans dec have "\<exists>r. poll_once lib env a c k (result, s)
      = Inr (r, note_call (PostForm (token_url a) (poll_form a c)) s)"
    by (cases "status = 200") (simp_all add: poll_once_def post_form_def token_server_answer [OF server])
  then obtain r where "poll_once lib env a c k (result, s)
      = Inr (r, note_call (PostForm (token_url a) (poll_form a c)) s)" ..
  then show thesis by (rule that) simp
qed

lemma poll_once_undecided:
  assumes server: "token_server lib env a c decodes answer"
    and "\<not> decisive decodes (answer (polls a c (ci_calls s)))"
  obtains result' s' where "poll_once lib env a c k (result, s) = Inl (result', s')"
    "ci_calls s' = ci_calls s @ PostForm (token_url a) (poll_form a c)
       # replicate (if pending (answer (polls a c (ci_calls s))) then nat k else 0) SleepSecond"
proof (cases "answer (polls a c (ci_calls s))")
  case (Inl err)
  with assms(2) show thesis by (simp add: decisive_def)
next
  case (Inr ans)
  obtain status body where ans: "ans = (status, body)" by (cases ans)
  obtain result' e where dec: "cl_decode_token lib result body = (result', e)" "e = None \<longleftrightarrow> decodes body"
    by (rule token_server_decode [OF server])
  show thesis
  proof (cases "status = 400")
    case True
    with Inr ans have "poll_once lib env a c k (result, s)
        = Inl (result, (note_call SleepSecond ^^ nat k) (note_call (PostForm (token_url a) (poll_form a c)) s))"
      by (simp add: poll_once_def post_form_def token_server_answer [OF server])
    then show thesis using True Inr ans by (intro that) (assumption, simp add: pending_def)
  next
    case False
    with assms(2) Inr ans have "status = 200" "\<not> decodes body" by (auto simp: decisive_def)
    moreover from this dec obtain err where "e = Some err" by auto
    ultimately have "poll_once lib env a c k (result, s)
        = Inl (result', note_call (PostForm (token_url a) (poll_form a c)) s)"
      using Inr ans dec by (simp add: poll_once_def post_form_def token_server_answer [OF server])
    then show thesis using False Inr ans by (intro that) (assumption, simp add: pending_def)
  qed
qed

lemma polls_one [simp]:
  "polls a c (PostForm (token_url a) (poll_form a c) # cs) = Suc (polls a c cs)"
  "slept (PostForm u f # cs) = slept cs"
  by (simp_all add: polls_def slept_def)

lemma polls_Nil [simp]: "polls a c [] = 0" "slept [] = 0"
  by (simp_all add: polls_def slept_def)

lemma poll_loop_returns:
  assumes server: "token_server lib env a c decodes answer"
    and "decisive decodes (answer (n + d))" "\<forall>i \<in> {n..<n + d}. \<not> decisive decodes (answer i)"
    and "polls a c (ci_calls s) = n"
  shows "\<exists>r s'. poll_loop lib env a c k (result, s) = Some (r, s') \<and> polls a c (ci_calls s') = Suc (n + d)
    \<and> slept (ci_calls s') = slept (ci_calls s) + nat k * length (filter (\<lambda>i. pending (answer i)) [n..<n + d])"
  using assms(2-)
proof (induction d arbitrary: n s result)
  case 0
  then obtain r s' where "poll_once lib env a c k (result, s) = Inr (r, s')"
    "ci_calls s' = ci_calls s @ [PostForm (token_url a) (poll_form a c)]"
    using poll_once_decisive [OF server, of s k result] by auto
  with 0 show ?case by (subst poll_loop.simps) simp
next
  case (Suc d)
  then have "\<not> decisive decodes (answer (polls a c (ci_calls s)))" by simp
  then obtain result' s' where once: "poll_once lib env a c k (result, s) = Inl (result', s')"
    "ci_calls s' = ci_calls s @ PostForm (token_url a) (poll_form a c)
       # replicate (if pending (answer n) then nat k else 0) SleepSecond"
    using poll_once_undecided [OF server, of s k result] Suc.prems(3) by metis
  have "\<exists>r s''. poll_loop lib env a c k (result', s') = Some (r, s'') \<and> polls a c (ci_calls s'') = Suc (Suc n + d)
    \<and> slept (ci_calls s'') = slept (ci_calls s') + nat k * length (filter (\<lambda>i. pending (answer i)) [Suc n..<Suc n + d])"
    using Suc.prems once(2) by (intro Suc.IH) simp_all
  moreover have "[n..<n + Suc d] = n # [Suc n..<Suc n + d]" by (simp add: upt_conv_Cons)
  moreover have "slept (ci_calls s') = slept (ci_calls s) + (if pending (answer n) then nat k else 0)"
    by (simp add: once(2))
  ultimately show ?case
    by (subst poll_loop.simps) (auto simp: once(1))
qed

lemma poll_loop_decided:
  assumes "poll_loop lib env a c k rs = Some r" "token_server lib env a c decodes answer"
  shows "\<exists>n. decisive decodes (answer n)"
proof (rule ccontr)
  assume none: "\<nexists>n. decisive decodes (answer n)"
  have "(lib, env, a, c, k) = (lib, env, a, c, k) \<longrightarrow> False"
  proof (rule poll_loop.raw_induct [OF _ assms(1), where
      P = "\<lambda>lib' env' a' c' k' rs r. (lib', env', a', c', k') = (lib, env, a, c, k) \<longrightarrow> False"], intro impI)
    fix poll lib' env' a' c' k' rs r
    assume IH: "\<And>lib' env' a' c' k' rs r. poll lib' env' a' c' k' rs = Some r \<Longrightarrow>
        (lib', env', a', c', k') = (lib, env, a, c, k) \<longrightarrow> False"
      and run: "(case poll_once lib' env' a' c' k' rs of Inl rs \<Rightarrow> poll lib' env' a' c' k' rs | Inr r \<Rightarrow> Some r) = Some r"
      and same: "(lib', env', a', c', k') = (lib, env, a, c, k)"
    obtain result s where rs: "rs = (result, s)" by (cases rs)
    obtain result' s' where once: "poll_once lib env a c k (result, s) = Inl (result', s')"
      using poll_once_undecided [OF assms(2), of s k result] none by metis
    from run same rs once have "poll lib env a c k (result', s') = Some r" by simp
    from IH [OF this] show False by simp
  qed
  then show False by simp
qed

section \<open>What a login calls\<close>

text \<open>The calls and settings a part of a login adds: calls of the given kinds only, and no settings.\<close>

definition adds_calls :: "(cli_call \<Rightarrow> bool) \<Rightarrow> 'v cli \<Rightarrow> 'v cli \<Rightarrow> bool" where
  "adds_calls K s s' \<longleftrightarrow> ci_viper s' = ci_viper s \<and> (\<exists>cs. ci_calls s' = ci_calls s @ cs \<and> (\<forall>c \<in> set cs. K c))"

lemma adds_calls_refl [simp]: "adds_calls K s s"
  by (simp add: adds_calls_def)

lemma adds_calls_trans: "adds_calls K s s' \<Longrightarrow> adds_calls K s' s'' \<Longrightarrow> adds_calls K s s''"
  by (force simp: adds_calls_def)

lemma adds_calls_note: "K c \<Longrightarrow> adds_calls K s (note_call c s)"
  by (simp add: adds_calls_def)

lemma adds_calls_sleep: "K SleepSecond \<Longrightarrow> adds_calls K s ((note_call SleepSecond ^^ n) s)"
  by (simp add: adds_calls_def)

text \<open>Neither a file is written nor the API called.\<close>

fun asks_only :: "cli_call \<Rightarrow> bool" where
  "asks_only (PostForm url form) = True"
| "asks_only (OpenBrowser url) = True"
| "asks_only SleepSecond = True"
| "asks_only c = False"

lemma post_form_adds: "post_form env url form s = (r, s') \<Longrightarrow> adds_calls asks_only s s'"
  by (auto simp: post_form_def intro: adds_calls_note)

lemma poll_once_adds:
  "poll_once lib env a c k (result, s) = Inl (result', s') \<Longrightarrow> adds_calls asks_only s s'"
  "poll_once lib env a c k (result, s) = Inr (r, s') \<Longrightarrow> adds_calls asks_only s s'"
  by (auto simp: poll_once_def split: sum.splits prod.splits if_splits option.splits
      dest!: post_form_adds intro: adds_calls_trans [OF _ adds_calls_sleep])

lemma poll_loop_adds:
  assumes "poll_loop lib env a c k rs = Some r"
  shows "adds_calls asks_only (snd rs) (snd r)"
proof (rule poll_loop.raw_induct [OF _ assms, where
    P = "\<lambda>lib' env' a' c' k' rs r. adds_calls asks_only (snd rs) (snd r)"])
  fix poll lib env a c k rs r
  assume IH: "\<And>lib env a c k rs r. poll lib env a c k rs = Some r \<Longrightarrow> adds_calls asks_only (snd rs) (snd r)"
    and run: "(case poll_once lib env a c k rs of Inl rs \<Rightarrow> poll lib env a c k rs | Inr r \<Rightarrow> Some r) = Some r"
  obtain result s where rs: "rs = (result, s)" by (cases rs)
  show "adds_calls asks_only (snd rs) (snd r)"
  proof (cases "poll_once lib env a c k (result, s)")
    case (Inl rs')
    obtain result' s' where rs': "rs' = (result', s')" by (cases rs')
    from run rs Inl have "poll lib env a c k rs' = Some r" by simp
    from IH [OF this] have "adds_calls asks_only s' (snd r)" by (simp add: rs')
    with poll_once_adds(1) [OF Inl [unfolded rs']] rs show ?thesis by (auto intro: adds_calls_trans)
  next
    case (Inr r')
    with run rs have "poll_once lib env a c k (result, s) = Inr (fst r, snd r)" by simp
    from poll_once_adds(2) [OF this] show ?thesis by (simp add: rs)
  qed
qed

lemma startPolling_adds: "startPolling lib env a c k s = Some (r, s') \<Longrightarrow> adds_calls asks_only s s'"
  by (auto simp: startPolling_def dest: poll_loop_adds)

lemma device_start_adds: "startDeviceGrantFlow lib env a s = (r, s') \<Longrightarrow> adds_calls asks_only s s'"
  by (auto simp: startDeviceGrantFlow_def split: sum.splits prod.splits if_splits dest: post_form_adds)

lemma browser_adds: "informUserAndOpenBrowser env url s = (r, s') \<Longrightarrow> adds_calls asks_only s s'"
  by (auto simp: informUserAndOpenBrowser_def intro: adds_calls_note)

definition register_request :: "string \<Rightarrow> string \<Rightarrow> api_request" where
  "register_request base token =
     authorized_request \<lparr>ac_token = token, ac_base = base\<rparr> (new_request ''POST'' (base @ ''/auth/cli/register'') [])"

lemma register_calls:
  assumes "RegisterCliUserWithAccessToken env \<lparr>ac_token = token, ac_base = base\<rparr> s = (r, s')"
  shows "ci_viper s' = ci_viper s \<and> ci_calls s' = ci_calls s @ [ApiCall (register_request base token)]
    \<and> (r = None \<longrightarrow> (\<exists>body. ce_api env (ci_calls s) (register_request base token) = Inr (200, body)))"
  using assms
  by (auto simp: RegisterCliUserWithAccessToken_def client_do_def Let_def register_request_def
      split: sum.splits prod.splits if_splits)

definition registers :: "('v, 'j, 'c) cli_lib \<Rightarrow> cli_env \<Rightarrow> access_token \<Rightarrow> 'v cli \<Rightarrow> go_error option \<Rightarrow> 'v cli \<Rightarrow> bool" where
  "registers lib env token s e s' \<longleftrightarrow>
     RegisterCliUserWithAccessToken env \<lparr>ac_token = at_access token, ac_base = cl_get lib (ci_viper s) ''API_URL''\<rparr> s = (e, s')"

lemma device_login_cases:
  assumes "device_login lib env a s = Some (l, s')"
  shows "((\<exists>err. l = Fatal err) \<and> adds_calls asks_only s s')
    \<or> (\<exists>s1 token s2 err. adds_calls asks_only s s1 \<and> registers lib env token s1 (Some err) s2
          \<and> ci_calls s' = ci_calls s2 \<and> l = Fatal err)
    \<or> (\<exists>s1 token s2. adds_calls asks_only s s1 \<and> registers lib env token s1 None s2
          \<and> ci_calls s' = ci_calls s2 \<and> l = LoggedIn (at_access token))"
  using assms
  by (auto simp: device_login_def registers_def [symmetric] split: sum.splits prod.splits option.splits
      dest!: device_start_adds browser_adds startPolling_adds) (blast intro: adds_calls_trans)+

text \<open>The device flow: questions only, then at most one call of the API, the registration.\<close>

definition registered :: "('v, 'j, 'c) cli_lib \<Rightarrow> cli_env \<Rightarrow> string \<Rightarrow> 'v cli \<Rightarrow> 'v cli \<Rightarrow> bool" where
  "registered lib env t s s' \<longleftrightarrow>
     (\<exists>asked rest base body. ci_calls s' = ci_calls s @ asked @ ApiCall (register_request base t) # rest
        \<and> (\<forall>c \<in> set asked. asks_only c)
        \<and> ce_api env (ci_calls s @ asked) (register_request base t) = Inr (200, body))"

lemma device_login_registers:
  assumes "device_login lib env a s = Some (LoggedIn t, s')"
  shows "registered lib env t s s'"
proof -
  from device_login_cases [OF assms] obtain s1 token s2 where s1: "adds_calls asks_only s s1"
    and reg: "registers lib env token s1 None s2" and "ci_calls s' = ci_calls s2" "t = at_access token" by auto
  with register_calls [OF reg [unfolded registers_def]] show ?thesis
    unfolding registered_def adds_calls_def by fastforce
qed

fun written :: "cli_call list \<Rightarrow> bytes list" where
  "written [] = []"
| "written (WriteConfig data # cs) = data # written cs"
| "written (c # cs) = written cs"

lemma written_append [simp]: "written (cs @ ds) = written cs @ written ds"
  by (induction cs rule: written.induct) simp_all

lemma written_asks: "\<forall>c \<in> set cs. asks_only c \<Longrightarrow> written cs = []"
  by (induction cs rule: written.induct) auto

lemma written_adds: "adds_calls asks_only s s' \<Longrightarrow> written (ci_calls s') = written (ci_calls s)"
  by (auto simp: adds_calls_def written_asks)

lemma device_login_written:
  assumes "device_login lib env a s = Some (l, s')"
  shows "written (ci_calls s') = written (ci_calls s)"
proof -
  have "written (ci_calls s2) = written (ci_calls s1)" if "registers lib env token s1 e s2" for token s1 e s2
    using register_calls [OF that [unfolded registers_def]] by simp
  with device_login_cases [OF assms] show ?thesis by (auto simp: written_adds)
qed

lemma refresh_calls:
  assumes "refreshJWT lib env a refreshToken s = (r, s')"
  shows "\<exists>form. ci_calls s' = ci_calls s @ [PostForm (token_url a) form]
    \<and> (\<forall>token. r = Inr token \<longrightarrow>
        (\<exists>body. ce_post env (ci_calls s) (token_url a) form = Inr (200, body) \<and> token = rf_access (cl_decode_refresh lib body)))"
  using assms
  by (auto simp: refreshJWT_def post_form_def note_call_def Let_def split: sum.splits prod.splits if_splits)

text \<open>What a login does before it saves the settings.\<close>

lemma Login_cases:
  assumes "Login lib env a s = Some (l, s')"
  obtains l1 s1 where "(l, s') = save_settings lib env (l1, s1)"
    "(\<exists>t. l1 = LoggedIn t \<and> cl_in_config lib (ci_viper s) ''auth'' \<and> tokenIsValid lib (ci_viper s)
        \<and> t = cl_get lib (ci_viper s) ''auth.access_token'' \<and> s1 = s)
    \<or> (\<exists>t r. l1 = LoggedIn t \<and> t \<noteq> [] \<and> refreshJWT lib env a r s = (Inr t, s1))
    \<or> (\<exists>r x s0. refreshJWT lib env a r s = (x, s0) \<and> device_login lib env a s0 = Some (l1, s1))
    \<or> device_login lib env a s = Some (l1, s1)"
proof -
  define before where "before = (if cl_in_config lib (ci_viper s) ''auth'' then
          (if tokenIsValid lib (ci_viper s)
           then Some (LoggedIn (cl_get lib (ci_viper s) ''auth.access_token''), s)
           else
             (case refreshJWT lib env a (cl_get lib (ci_viper s) ''auth.refresh_token'') s of
                (Inr token, s) \<Rightarrow> (if token \<noteq> [] then Some (LoggedIn token, s) else device_login lib env a s)
              | (Inl err, s) \<Rightarrow> device_login lib env a s))
        else device_login lib env a s)"
  from assms obtain r where r: "before = Some r" "(l, s') = save_settings lib env r"
    by (auto simp: Login_def before_def)
  obtain l1 s1 where "r = (l1, s1)" by (cases r)
  moreover from r(1) have "(\<exists>t. l1 = LoggedIn t \<and> cl_in_config lib (ci_viper s) ''auth'' \<and> tokenIsValid lib (ci_viper s)
        \<and> t = cl_get lib (ci_viper s) ''auth.access_token'' \<and> s1 = s)
    \<or> (\<exists>t r. l1 = LoggedIn t \<and> t \<noteq> [] \<and> refreshJWT lib env a r s = (Inr t, s1))
    \<or> (\<exists>r x s0. refreshJWT lib env a r s = (x, s0) \<and> device_login lib env a s0 = Some (l1, s1))
    \<or> device_login lib env a s = Some (l1, s1)" unfolding before_def calculation
    by (simp split: if_splits prod.splits sum.splits) blast+
  ultimately show thesis using r(2) that by blast
qed

lemma save_settings_calls:
  assumes "(l, s') = save_settings lib env (l1, s1)"
  shows "l = l1 \<and> ci_viper s' = ci_viper s1 \<and> ci_calls s' = ci_calls s1 @
    (case l of
       Fatal err \<Rightarrow> []
     | LoggedIn t \<Rightarrow>
         (case cl_marshal lib (filter (\<lambda>(key, val). persistConfigKey lib (ci_viper s1) key) (cl_settings lib (ci_viper s1))) of
            Inl err \<Rightarrow> []
          | Inr data \<Rightarrow> [WriteConfig data]))"
  using assms by (auto simp: save_settings_def SaveConfig_def split: login.splits sum.splits)

lemma registered_asked:
  "registered lib env t s0 s' \<Longrightarrow> ci_calls s0 = ci_calls s @ cs \<Longrightarrow> \<forall>c \<in> set cs. asks_only c \<Longrightarrow> registered lib env t s s'"
  unfolding registered_def by (elim exE conjE) (rule exI [of _ "cs @ _"], fastforce)

lemma registered_more: "registered lib env t s s1 \<Longrightarrow> ci_calls s' = ci_calls s1 @ cs \<Longrightarrow> registered lib env t s s'"
  unfolding registered_def by fastforce

section \<open>Properties\<close>

text \<open>C34: the polling for a token ends exactly when the server gives some answer that is neither 400 nor an
  undecodable 200; it then has sent one request more than undecided answers came before, and slept
  the interval after each 400.\<close>

theorem polling_returns:
  assumes "token_server lib env a c decodes answer" "polls a c (ci_calls s) = 0"
  shows "(\<forall>n. \<not> decisive decodes (answer n)) \<and> startPolling lib env a c k s = None
    \<or> (\<exists>n r s'. decisive decodes (answer n) \<and> (\<forall>i < n. \<not> decisive decodes (answer i))
        \<and> startPolling lib env a c k s = Some (r, s') \<and> polls a c (ci_calls s') = Suc n
        \<and> slept (ci_calls s') = slept (ci_calls s) + nat k * length (filter (\<lambda>i. pending (answer i)) [0..<n]))"
proof (cases "\<exists>n. decisive decodes (answer n)")
  case True
  define n where "n = (LEAST n. decisive decodes (answer n))"
  have n: "decisive decodes (answer n)" "\<forall>i < n. \<not> decisive decodes (answer i)"
    using True by (auto simp: n_def intro: LeastI dest: not_less_Least)
  with poll_loop_returns [OF assms(1), of 0 n s k no_token] assms(2) show ?thesis
    by (fastforce simp: startPolling_def)
next
  case False
  then show ?thesis
    using poll_loop_decided [OF _ assms(1), of k "(no_token, s)"]
    by (cases "startPolling lib env a c k s") (auto simp: startPolling_def)
qed

text \<open>C35: a login that returns a token returns the stored one, still valid, or the one a refresh gave, or one
  that it has registered with the API.\<close>

theorem login_token_sources:
  assumes "Login lib env a s = Some (LoggedIn t, s')"
  shows "cl_in_config lib (ci_viper s) ''auth'' \<and> tokenIsValid lib (ci_viper s)
      \<and> t = cl_get lib (ci_viper s) ''auth.access_token''
    \<or> (\<exists>form body. ce_post env (ci_calls s) (token_url a) form = Inr (200, body)
        \<and> t = rf_access (cl_decode_refresh lib body) \<and> t \<noteq> [])
    \<or> registered lib env t s s'"
proof -
  from assms obtain l1 s1 where save: "(LoggedIn t, s') = save_settings lib env (l1, s1)"
    and before: "(\<exists>t. l1 = LoggedIn t \<and> cl_in_config lib (ci_viper s) ''auth'' \<and> tokenIsValid lib (ci_viper s)
        \<and> t = cl_get lib (ci_viper s) ''auth.access_token'' \<and> s1 = s)
    \<or> (\<exists>t r. l1 = LoggedIn t \<and> t \<noteq> [] \<and> refreshJWT lib env a r s = (Inr t, s1))
    \<or> (\<exists>r x s0. refreshJWT lib env a r s = (x, s0) \<and> device_login lib env a s0 = Some (l1, s1))
    \<or> device_login lib env a s = Some (l1, s1)" by (rule Login_cases)
  note saved = save_settings_calls [OF save]
  have more: "registered lib env t s s1 \<Longrightarrow> registered lib env t s s'"
    using saved by (auto intro: registered_more)
  from before show ?thesis
  proof (elim disjE exE conjE)
    fix r x s0 assume refresh: "refreshJWT lib env a r s = (x, s0)" and "device_login lib env a s0 = Some (l1, s1)"
    with saved have "registered lib env t s0 s1" by (auto intro: device_login_registers)
    moreover obtain form where "ci_calls s0 = ci_calls s @ [PostForm (token_url a) form]"
      using refresh_calls [OF refresh] by auto
    ultimately have "registered lib env t s s1" by (rule registered_asked) simp
    then show ?thesis using more by simp
  next
    fix u r assume "l1 = LoggedIn u" "u \<noteq> []" "refreshJWT lib env a r s = (Inr u, s1)"
    then show ?thesis using refresh_calls [of lib env a r s "Inr u" s1] saved by auto
  next
    assume "device_login lib env a s = Some (l1, s1)"
    with saved have "registered lib env t s s1" by (auto intro: device_login_registers)
    then show ?thesis using more by simp
  qed (use saved in auto)
qed

text \<open>a login writes the settings once, when it returns: the ones in the file or under auth, with their final
  values; when it ends the process with an error it writes nothing.\<close>

theorem login_saves_settings:
  assumes "Login lib env a s = Some (l, s')"
  shows "written (ci_calls s') = written (ci_calls s) @
    (case l of
       Fatal err \<Rightarrow> []
     | LoggedIn t \<Rightarrow>
         (case cl_marshal lib (filter (\<lambda>(key, val). persistConfigKey lib (ci_viper s') key) (cl_settings lib (ci_viper s'))) of
            Inl err \<Rightarrow> []
          | Inr data \<Rightarrow> [data]))"
proof -
  from assms obtain l1 s1 where save: "(l, s') = save_settings lib env (l1, s1)"
    and before: "(\<exists>t. l1 = LoggedIn t \<and> cl_in_config lib (ci_viper s) ''auth'' \<and> tokenIsValid lib (ci_viper s)
        \<and> t = cl_get lib (ci_viper s) ''auth.access_token'' \<and> s1 = s)
    \<or> (\<exists>t r. l1 = LoggedIn t \<and> t \<noteq> [] \<and> refreshJWT lib env a r s = (Inr t, s1))
    \<or> (\<exists>r x s0. refreshJWT lib env a r s = (x, s0) \<and> device_login lib env a s0 = Some (l1, s1))
    \<or> device_login lib env a s = Some (l1, s1)" by (rule Login_cases)
  have "written (ci_calls s1) = written (ci_calls s)"
    using before by (auto dest!: refresh_calls device_login_written)
  with save_settings_calls [OF save] show ?thesis
    by (cases l) (auto split: sum.split)
qed

text \<open>The other commands refresh the token as well but do not write it: with a server that replaces the
  refresh token, the one in the file is used up.\<close>

lemma refreshed_token_is_not_saved:
  "LoadRefreshAccessToken lib env a s = (t, s') \<Longrightarrow> written (ci_calls s') = written (ci_calls s)"
  by (auto simp: LoadRefreshAccessToken_def split: if_splits prod.splits sum.splits dest!: refresh_calls)

text \<open>Logging out writes the settings without the tokens.\<close>

lemma Logout_forgets:
  "\<exists>settings. ''auth'' \<notin> fst ` set settings \<and> written (ci_calls (Logout lib env s)) = written (ci_calls s) @
     (case cl_marshal lib settings of Inl err \<Rightarrow> [] | Inr data \<Rightarrow> [data])"
  by (rule exI [of _ "filter (\<lambda>(key, val). persistConfigKey lib (ci_viper s) key)
      (filter (\<lambda>(key, val). key \<noteq> ''auth'') (cl_settings lib (ci_viper s)))"])
    (auto simp: Logout_def SaveConfig_def split: sum.split)

section \<open>A login\<close>

text \<open>Settings are a map from keys to texts; the file is the list of the keys. The server wants the second
  poll, and the API accepts its token.\<close>

definition sample_cli_lib :: "(string \<Rightarrow> string option, string, unit) cli_lib" where
  "sample_cli_lib =
     \<lparr>cl_in_config = (\<lambda>v key. False), cl_get = (\<lambda>v key. case v key of None \<Rightarrow> [] | Some x \<Rightarrow> x),
      cl_set = (\<lambda>key val v. v(key := Some (case val of TextSetting x \<Rightarrow> x | NumberSetting n \<Rightarrow> itoa_int n
        | TokenSetting token \<Rightarrow> at_access token))),
      cl_settings = (\<lambda>v. (''api_url'', []) # (case v ''auth'' of None \<Rightarrow> [] | Some x \<Rightarrow> [(''auth'', x)])),
      cl_marshal = (\<lambda>settings. Inr (concat (map fst settings))),
      cl_decode_refresh = (\<lambda>body. \<lparr>rf_expires = 0, rf_refresh_expires = 0, rf_refresh = [], rf_access = [], rf_type = [],
        rf_session = [], rf_scope = [], rf_not_before = []\<rparr>),
      cl_decode_device = (\<lambda>body. \<lparr>dv_code = ''dev'', dv_expires = 600, dv_interval = 5, dv_user_code = ''ABC'',
        dv_uri = [], dv_uri_complete = ''https://login''\<rparr>),
      cl_decode_token = (\<lambda>token body. case body of
        Inr b \<Rightarrow> (if b = [] then (token, Some (Err ''EOF'')) else (token\<lparr>at_access := b\<rparr>, None))
      | Inl err \<Rightarrow> (token, Some err)),
      cl_parse_jwt = (\<lambda>token. Inr ()), cl_not_expired = (\<lambda>claims. True)\<rparr>"

definition sample_authenticator :: authenticator where
  "sample_authenticator = \<lparr>au_base = ''https://accounts'', au_client = ''cli''\<rparr>"

definition sample_answer :: "nat \<Rightarrow> api_response res" where
  "sample_answer n = (if n = 0 then Inr (400, Inr ''authorization_pending'') else Inr (200, Inr ''token''))"

definition sample_cli_env :: cli_env where
  "sample_cli_env =
     \<lparr>ce_post = (\<lambda>cs url form. if url = token_url sample_authenticator then sample_answer (polls sample_authenticator ''dev'' cs)
        else Inr (200, Inr ''{}'')),
      ce_api = (\<lambda>cs req. Inr (200, Inr [])), ce_open = (\<lambda>cs url. None), ce_write = (\<lambda>cs data. None)\<rparr>"

definition sample_cli :: "(string \<Rightarrow> string option) cli" where
  "sample_cli = \<lparr>ci_viper = [''api_url'' \<mapsto> ''https://api''], ci_calls = []\<rparr>"

definition sample_decodes :: "bytes res \<Rightarrow> bool" where
  "sample_decodes body = (case body of Inr b \<Rightarrow> b \<noteq> [] | Inl err \<Rightarrow> False)"

lemma sample_token_server:
  "token_server sample_cli_lib sample_cli_env sample_authenticator ''dev'' sample_decodes sample_answer"
  by (auto simp: token_server_def sample_cli_env_def sample_cli_lib_def sample_decodes_def split: sum.split)

theorem polling_returns_witness:
  "\<exists>r s'. startPolling sample_cli_lib sample_cli_env sample_authenticator ''dev'' 5 sample_cli = Some (r, s')
     \<and> polls sample_authenticator ''dev'' (ci_calls s') = 2 \<and> slept (ci_calls s') = 5"
proof -
  have "decisive sample_decodes (sample_answer 1)" "\<not> decisive sample_decodes (sample_answer 0)"
    "pending (sample_answer 0)"
    by (simp_all add: decisive_def sample_decodes_def sample_answer_def pending_def)
  moreover from this have "n = 1" if "decisive sample_decodes (sample_answer n)"
    "\<forall>i < n. \<not> decisive sample_decodes (sample_answer i)" for n
    using that by (cases n) (auto simp: less_Suc_eq_0_disj)
  moreover have "polls sample_authenticator ''dev'' (ci_calls sample_cli) = 0" by (simp add: sample_cli_def)
  moreover have "slept (ci_calls sample_cli) = 0" by (simp add: sample_cli_def)
  ultimately show ?thesis using polling_returns [OF sample_token_server, of sample_cli 5] by fastforce
qed

abbreviation sample_poll :: "'v cli \<Rightarrow> 'v cli" where
  "sample_poll \<equiv> note_call (PostForm (token_url sample_authenticator) (poll_form sample_authenticator ''dev''))"

lemma sample_poll_once:
  "polls sample_authenticator ''dev'' (ci_calls s) = 0 \<Longrightarrow>
     poll_once sample_cli_lib sample_cli_env sample_authenticator ''dev'' k (token, s)
       = Inl (token, (note_call SleepSecond ^^ nat k) (sample_poll s))"
  "polls sample_authenticator ''dev'' (ci_calls s) = 1 \<Longrightarrow>
     poll_once sample_cli_lib sample_cli_env sample_authenticator ''dev'' k (token, s)
       = Inr (Inr (token\<lparr>at_access := ''token''\<rparr>), sample_poll s)"
  by (simp_all add: poll_once_def post_form_def sample_cli_env_def sample_cli_lib_def sample_answer_def)

lemma sample_polls:
  assumes "polls sample_authenticator ''dev'' (ci_calls s) = 0"
  shows "startPolling sample_cli_lib sample_cli_env sample_authenticator ''dev'' k s
    = Some (Inr (no_token\<lparr>at_access := ''token''\<rparr>), sample_poll ((note_call SleepSecond ^^ nat k) (sample_poll s)))"
proof -
  let ?loop = "poll_loop sample_cli_lib sample_cli_env sample_authenticator ''dev'' k"
  let ?s = "(note_call SleepSecond ^^ nat k) (sample_poll s)"
  have "?loop (no_token, s) = ?loop (no_token, ?s)"
    by (subst poll_loop.simps) (simp add: sample_poll_once(1) [OF assms])
  also have "polls sample_authenticator ''dev'' (ci_calls ?s) = 1" using assms by simp
  from sample_poll_once(2) [OF this] have "?loop (no_token, ?s)
      = Some (Inr (no_token\<lparr>at_access := ''token''\<rparr>), sample_poll ?s)"
    by (subst poll_loop.simps) simp
  finally show ?thesis by (simp add: startPolling_def)
qed

definition sample_device :: device_response where
  "sample_device = cl_decode_device sample_cli_lib (Inr [])"

definition sample_asked :: "(string \<Rightarrow> string option) cli" where
  "sample_asked = note_call (OpenBrowser ''https://login'') (note_call (PostForm ''https://accounts/protocol/openid-connect/auth/device''
     [(''client_id'', ''cli'')]) sample_cli)"

lemma sample_flow:
  "startDeviceGrantFlow sample_cli_lib sample_cli_env sample_authenticator sample_cli
     = (Inr sample_device, note_call (PostForm ''https://accounts/protocol/openid-connect/auth/device''
          [(''client_id'', ''cli'')]) sample_cli)"
  "informUserAndOpenBrowser sample_cli_env ''https://login'' s = (None, note_call (OpenBrowser ''https://login'') s)"
  "dv_code sample_device = ''dev''" "dv_interval sample_device = 5" "dv_uri_complete sample_device = ''https://login''"
  "RegisterCliUserWithAccessToken sample_cli_env c s'
     = (None, note_call (ApiCall (authorized_request c (new_request ''POST'' (ac_base c @ ''/auth/cli/register'') []))) s')"
  "polls sample_authenticator ''dev'' (ci_calls sample_asked) = 0"
  by (simp_all add: startDeviceGrantFlow_def post_form_def informUserAndOpenBrowser_def sample_cli_env_def sample_device_def
      sample_cli_lib_def sample_authenticator_def token_url_def RegisterCliUserWithAccessToken_def client_do_def Let_def
      sample_asked_def polls_def poll_form_def sample_cli_def)

lemma sample_login:
  obtains s' where "Login sample_cli_lib sample_cli_env sample_authenticator sample_cli = Some (LoggedIn ''token'', s')"
    "written (ci_calls s') = [''auth'']"
proof -
  note asked = sample_polls [OF sample_flow(7), unfolded sample_asked_def]
  have "\<exists>s1. device_login sample_cli_lib sample_cli_env sample_authenticator sample_cli = Some (LoggedIn ''token'', s1)
      \<and> cl_settings sample_cli_lib (ci_viper s1) = [(''api_url'', []), (''auth'', ''token'')]
      \<and> written (ci_calls s1) = []"
    by (simp add: device_login_def sample_flow asked) (simp add: sample_cli_lib_def written_asks sample_cli_def)
  then obtain s1 where "device_login sample_cli_lib sample_cli_env sample_authenticator sample_cli = Some (LoggedIn ''token'', s1)"
    "cl_settings sample_cli_lib (ci_viper s1) = [(''api_url'', []), (''auth'', ''token'')]" "written (ci_calls s1) = []"
    by blast
  then have "\<exists>s'. Login sample_cli_lib sample_cli_env sample_authenticator sample_cli = Some (LoggedIn ''token'', s')
      \<and> written (ci_calls s') = [''auth'']"
    by (simp add: Login_def save_settings_def SaveConfig_def persistConfigKey_def writeable_config_keys_def)
      (simp add: sample_cli_lib_def has_prefix_def)
  then show thesis using that by blast
qed

theorem login_token_sources_witness:
  "\<exists>s'. Login sample_cli_lib sample_cli_env sample_authenticator sample_cli = Some (LoggedIn ''token'', s')
     \<and> registered sample_cli_lib sample_cli_env ''token'' sample_cli s'"
proof -
  obtain s' where login: "Login sample_cli_lib sample_cli_env sample_authenticator sample_cli = Some (LoggedIn ''token'', s')"
    by (rule sample_login)
  have "\<not> cl_in_config sample_cli_lib (ci_viper sample_cli) ''auth''" "rf_access (cl_decode_refresh sample_cli_lib body) = []" for body
    by (simp_all add: sample_cli_lib_def)
  with login_token_sources [OF login] login show ?thesis by auto
qed

theorem login_saves_settings_witness:
  "\<exists>s'. Login sample_cli_lib sample_cli_env sample_authenticator sample_cli = Some (LoggedIn ''token'', s')
     \<and> written (ci_calls s') = [''auth'']
     \<and> written (ci_calls s') = (case cl_marshal sample_cli_lib
         (filter (\<lambda>(key, val). persistConfigKey sample_cli_lib (ci_viper s') key) (cl_settings sample_cli_lib (ci_viper s'))) of
           Inl err \<Rightarrow> [] | Inr data \<Rightarrow> [data])"
proof -
  obtain s' where login: "Login sample_cli_lib sample_cli_env sample_authenticator sample_cli = Some (LoggedIn ''token'', s')"
    "written (ci_calls s') = [''auth'']" by (rule sample_login)
  have "written (ci_calls sample_cli) = []" by (simp add: sample_cli_def)
  with login_saves_settings [OF login(1)] login show ?thesis by (intro exI [of _ s']) simp
qed

end
