(* ===== verification/DevTools.thy ===== *)
theory DevTools
  imports Watcher Transition
begin

text \<open>
  The bundler (pkg/bundler/bundler.go) and the script runner (pkg/scriptrunner/scriptrunner.go) of
  the development server. The build tool, the processes and the callbacks are parameters, whose
  answers are functions of the calls made before.
\<close>

section \<open>The bundler\<close>

text \<open>A message of the build tool may have no location.\<close>

record build_message =
  bm_text :: string
  bm_line :: "string option"

datatype resolve_kind = JSImportStatement | EntryPoint | OtherImport

record resolve_args =
  ra_kind :: resolve_kind
  ra_dir :: string
  ra_path :: string

datatype file_loader = LoaderJSON | LoaderText

text \<open>The options of a build that depend on the bundler; the others are constants.\<close>

record build_options =
  bo_outfile :: string
  bo_outdir :: string
  bo_entry :: "string list"
  bo_dir :: string
  bo_external :: "string list"
  bo_loader :: "string \<rightharpoonup> file_loader"

datatype bundler_call = is_initial: InitialBuild build_options | Rebuild | AfterBundle

record bundler_config =
  bc_dir :: string
  bc_skip_entry :: bool
  bc_entry :: "string list"
  bc_watch :: "watch_path list"
  bc_ignore :: "string list"
  bc_out_file :: string
  bc_out_dir :: string
  bc_after :: bool

text \<open>\<open>bd_after\<close> is whether there is a callback, \<open>bd_built\<close> whether there is a build result, and
  \<open>bd_calls\<close> are the calls of the build tool and of the callback so far.\<close>

record bundler =
  bd_entry :: "string list"
  bd_dir :: string
  bd_watch :: "watch_path list"
  bd_ignore :: "string list"
  bd_skip_entry :: bool
  bd_out_file :: string
  bd_out_dir :: string
  bd_external :: "string list"
  bd_loaders :: "string list"
  bd_after :: bool
  bd_built :: bool
  bd_calls :: "bundler_call list"

definition NewBundler :: "bundler_config \<Rightarrow> bundler" where
  "NewBundler cfg =
     \<lparr>bd_entry = bc_entry cfg, bd_dir = bc_dir cfg, bd_watch = bc_watch cfg, bd_ignore = bc_ignore cfg,
      bd_skip_entry = bc_skip_entry cfg, bd_out_file = bc_out_file cfg, bd_out_dir = bc_out_dir cfg,
      bd_external = [], bd_loaders = [''.graphql'', ''.gql'', ''.graphqls'', ''.yml'', ''.yaml''],
      bd_after = bc_after cfg, bd_built = False, bd_calls = []\<rparr>"

definition build_options_of :: "bundler \<Rightarrow> build_options" where
  "build_options_of b =
     \<lparr>bo_outfile = bd_out_file b, bo_outdir = bd_out_dir b, bo_entry = bd_entry b, bo_dir = bd_dir b,
      bo_external = bd_external b @ [''./node_modules/*''],
      bo_loader = foldl (\<lambda>m loader. m(loader \<mapsto> LoaderText)) [''.json'' \<mapsto> LoaderJSON] (bd_loaders b)\<rparr>"

definition watch_file_limit :: nat where "watch_file_limit = 1000"

text \<open>The expression \<open>^[^./]|^\\.[^./]|^\\.\\.[^/]\<close>.\<close>

definition non_node_module :: "string \<Rightarrow> bool" where
  "non_node_module p =
     (case p of
        [] \<Rightarrow> False
      | c # cs \<Rightarrow>
          (c \<noteq> CHR ''.'' \<and> c \<noteq> CHR ''/'')
          \<or> (c = CHR ''.'' \<and>
              (case cs of
                 [] \<Rightarrow> False
               | d # ds \<Rightarrow>
                   (d \<noteq> CHR ''.'' \<and> d \<noteq> CHR ''/'')
                   \<or> (d = CHR ''.'' \<and> (case ds of [] \<Rightarrow> False | e # es \<Rightarrow> e \<noteq> CHR ''/'')))))"

text \<open>The file to watch for an import; \<open>stat\<close> says whether a path leads to a file or a directory.\<close>

definition real_file :: "(string \<Rightarrow> fs_node) \<Rightarrow> string \<Rightarrow> string" where
  "real_file stat f =
     (if stat f = NotThere then
        (case stat (f @ ''.ts'') of
           FileNode _ \<Rightarrow> f @ ''.ts''
         | _ \<Rightarrow> f)
      else f)"

definition watches :: "bundler \<Rightarrow> string \<Rightarrow> bool" where
  "watches b f = list_ex (\<lambda>p. wp_path p = f) (bd_watch b)"

definition append_watch :: "string \<Rightarrow> bundler \<Rightarrow> bundler" where
  "append_watch f b = b\<lparr>bd_watch := bd_watch b @ [\<lparr>wp_optional = False, wp_path = f\<rparr>]\<rparr>"

definition may_watch :: "string \<Rightarrow> bundler \<Rightarrow> bool" where
  "may_watch f b \<longleftrightarrow> \<not> list_ex (contains f) (bd_ignore b) \<and> \<not> watches b f
     \<and> length (bd_watch b) < watch_file_limit"

text \<open>
  The build tool calls the plugin on a goroutine for every import. A call looks for its file in the
  list of watched files, then at the length of the list, both without the lock, and then appends to
  the list with the lock. Between these steps other calls can take theirs.
\<close>

datatype plugin_phase = Looking string | Counting string | Appending string | PluginDone

definition watchTypescriptFile :: "(string \<Rightarrow> fs_node) \<Rightarrow> string \<Rightarrow> plugin_phase" where
  "watchTypescriptFile stat f = Looking (real_file stat f)"

fun plugin_step :: "plugin_phase \<Rightarrow> bundler \<Rightarrow> plugin_phase \<times> bundler" where
  "plugin_step (Looking f) b =
     (if list_ex (contains f) (bd_ignore b) \<or> watches b f then (PluginDone, b) else (Counting f, b))"
| "plugin_step (Counting f) b =
     (if length (bd_watch b) < watch_file_limit then (Appending f, b) else (PluginDone, b))"
| "plugin_step (Appending f) b = (PluginDone, append_watch f b)"
| "plugin_step PluginDone b = (PluginDone, b)"

text \<open>What the plugin does with an import: whether it is external, and what is left to do.\<close>

definition on_resolve :: "(string \<Rightarrow> fs_node) \<Rightarrow> resolve_args \<Rightarrow> bundler \<Rightarrow> bool \<times> plugin_phase" where
  "on_resolve stat args b =
     (let f = path_join [ra_dir args, ra_path args] in
      if ra_kind args = JSImportStatement \<or> (\<not> bd_skip_entry b \<and> ra_kind args = EntryPoint) then
        (if non_node_module (ra_path args) then (True, PluginDone) else (False, watchTypescriptFile stat f))
      else (False, PluginDone))"

text \<open>The calls of a build, taking their steps in the order of a schedule.\<close>

fun run_plugins :: "nat list \<Rightarrow> plugin_phase list \<Rightarrow> bundler \<Rightarrow> plugin_phase list \<times> bundler" where
  "run_plugins [] ps b = (ps, b)"
| "run_plugins (g # gs) ps b =
     (if g < length ps then
        (let (p, b) = plugin_step (ps ! g) b in run_plugins gs (ps[g := p]) b)
      else run_plugins gs ps b)"

text \<open>Every call has at most three steps; a build ends when all calls have.\<close>

definition finish_schedule :: "nat \<Rightarrow> nat list" where
  "finish_schedule n = concat (map (\<lambda>g. [g, g, g]) [0..<n])"

text \<open>
  The build tool: the imports a build resolves, the steps of the calls of the plugin that it takes
  before it waits for each of them in turn, and the errors of a build, given the calls before it;
  \<open>be_after\<close> is the callback. With no steps in the schedule the calls do not overlap.
\<close>

record bundler_env =
  be_stat :: "string \<Rightarrow> fs_node"
  be_imports :: "bundler_call list \<Rightarrow> resolve_args list"
  be_schedule :: "bundler_call list \<Rightarrow> nat list"
  be_errors :: "bundler_call list \<Rightarrow> build_message list"
  be_after :: "bundler_call list \<Rightarrow> go_error option outcome"

definition bundler_call :: "bundler_call \<Rightarrow> bundler \<Rightarrow> bundler" where
  "bundler_call c b = b\<lparr>bd_calls := bd_calls b @ [c]\<rparr>"

definition run_build :: "bundler_env \<Rightarrow> bundler_call \<Rightarrow> bundler \<Rightarrow> bundler" where
  "run_build env c b =
     (let imports = be_imports env (bd_calls b);
          calls = map (\<lambda>args. snd (on_resolve (be_stat env) args b)) imports in
      snd (run_plugins (be_schedule env (bd_calls b) @ finish_schedule (length imports)) calls (bundler_call c b)))"

definition initialBuild :: "bundler_env \<Rightarrow> bundler \<Rightarrow> bundler" where
  "initialBuild env b = run_build env (InitialBuild (build_options_of b)) b"

definition build_failed :: "build_message \<Rightarrow> go_error outcome" where
  "build_failed m =
     (case bm_line m of
        None \<Rightarrow> Panicked ''nil pointer dereference''
      | Some line \<Rightarrow> Returned (Err (''build failed: '' @ line @ '', '' @ bm_text m)))"

definition Bundle :: "bundler_env \<Rightarrow> bundler \<Rightarrow> (bundler \<times> go_error option) outcome" where
  "Bundle env b =
     (let b' = (if bd_built b then run_build env Rebuild b else initialBuild env b)\<lparr>bd_built := True\<rparr> in
      case be_errors env (bd_calls b) of
        m # ms \<Rightarrow> bind_out (build_failed m) (\<lambda>err. Returned (b', Some err))
      | [] \<Rightarrow>
          (if bd_after b' then bind_out (be_after env (bd_calls b')) (\<lambda>err. Returned (bundler_call AfterBundle b', err))
           else Returned (b', None)))"

text \<open>What a change of a watched file does: its errors are only logged, whatever their location.\<close>

definition bundler_watch_fn :: "bundler_env \<Rightarrow> bundler \<Rightarrow> bundler" where
  "bundler_watch_fn env b =
     (let b' = run_build env Rebuild b in
      if be_errors env (bd_calls b) = [] then (if bd_after b' then bundler_call AfterBundle b' else b') else b')"

text \<open>Whether \<open>Watch\<close> starts to watch; \<open>has_rebuild\<close> is whether the build result can be rebuilt.\<close>

definition bundler_Watch :: "bool \<Rightarrow> bundler \<Rightarrow> bool outcome" where
  "bundler_Watch has_rebuild b =
     (if length (bd_watch b) = 0 then Returned False
      else if \<not> bd_built b then Panicked ''nil pointer dereference''
      else Returned has_rebuild)"

text \<open>\<open>BundleAndWatch\<close> bundles, whatever comes of it, and watches when there is something to watch.\<close>

definition BundleAndWatch :: "bundler_env \<Rightarrow> bundler \<Rightarrow> (bundler \<times> bool) outcome" where
  "BundleAndWatch env b = bind_out (Bundle env b) (\<lambda>(b, err). Returned (b, 0 < length (bd_watch b)))"

fun bundle_all :: "bundler_env \<Rightarrow> nat \<Rightarrow> bundler \<Rightarrow> bundler outcome" where
  "bundle_all env 0 b = Returned b"
| "bundle_all env (Suc n) b = bind_out (Bundle env b) (\<lambda>(b, err). bundle_all env n b)"

section \<open>The script runner\<close>

record script_runner =
  sr_executable :: string
  sr_args :: "string list"
  sr_env :: "string list"
  sr_first_env :: "string list"
  sr_dir :: string
  sr_first :: bool
  sr_cmd :: "nat option"

record script_status =
  ss_exit :: int
  ss_error :: "go_error option"

record cmd_options =
  cm_executable :: string
  cm_dir :: string
  cm_args :: "string list"
  cm_env :: "string list"

datatype script_event = StopCmd nat | AwaitDone nat | StartCmd nat cmd_options

definition NewScriptRunner :: "string \<Rightarrow> string list \<Rightarrow> string list \<Rightarrow> string list \<Rightarrow> string \<Rightarrow> script_runner" where
  "NewScriptRunner executable args env firstEnv dir =
     \<lparr>sr_executable = executable, sr_args = args, sr_env = env, sr_first_env = firstEnv, sr_dir = dir,
      sr_first = True, sr_cmd = None\<rparr>"

definition Stop :: "script_runner \<Rightarrow> script_event list" where
  "Stop b = (case sr_cmd b of None \<Rightarrow> [] | Some cmd \<Rightarrow> [StopCmd cmd, AwaitDone cmd])"

definition ExitCode :: "(nat \<Rightarrow> script_status) \<Rightarrow> script_runner \<Rightarrow> int" where
  "ExitCode status b = (case sr_cmd b of None \<Rightarrow> 0 | Some cmd \<Rightarrow> ss_exit (status cmd))"

definition script_error :: "(nat \<Rightarrow> script_status) \<Rightarrow> string \<Rightarrow> script_runner \<Rightarrow> go_error option" where
  "script_error status name b =
     (case sr_cmd b of
        None \<Rightarrow> None
      | Some cmd \<Rightarrow>
          (if 0 < ss_exit (status cmd) \<or> ss_error (status cmd) \<noteq> None
           then Some (Err (''script '' @ name @ '' failed with exit code '' @ itoa_int (ss_exit (status cmd))))
           else None))"

definition Successful :: "(nat \<Rightarrow> script_status) \<Rightarrow> script_runner \<Rightarrow> bool" where
  "Successful status b =
     (case sr_cmd b of
        None \<Rightarrow> True
      | Some cmd \<Rightarrow> (if ss_error (status cmd) \<noteq> None \<or> 0 < ss_exit (status cmd) then False else True))"

text \<open>The options of the next command.\<close>

definition run_options :: "script_runner \<Rightarrow> cmd_options" where
  "run_options b =
     \<lparr>cm_executable = sr_executable b, cm_dir = sr_dir b, cm_args = sr_args b,
      cm_env = (if sr_first b then sr_env b @ sr_first_env b else sr_env b)\<rparr>"

text \<open>\<open>cmd\<close> is the command that is created.\<close>

definition Run :: "nat \<Rightarrow> script_runner \<Rightarrow> script_runner \<times> script_event list" where
  "Run cmd b = (b\<lparr>sr_first := False, sr_cmd := Some cmd\<rparr>, Stop b @ [StartCmd cmd (run_options b)])"

text \<open>What the goroutine of a run does when its context ends before the command does. It stops the
  command the runner has by then.\<close>

definition cancel_run :: "script_runner \<Rightarrow> script_event list" where
  "cancel_run b = (case sr_cmd b of None \<Rightarrow> [] | Some cmd \<Rightarrow> [StopCmd cmd])"

text \<open>
  The goroutine that copies the output of a command: what it receives from the two streams, a line
  or that the stream is closed; the lines it writes, with \<open>True\<close> for the output; and whether it has
  closed the channel \<open>doneChan\<close>. A closed stream is set to nil, from which nothing is received.
\<close>

datatype stream_event = FromStdout "string option" | FromStderr "string option"

fun stream_loop :: "bool \<Rightarrow> bool \<Rightarrow> stream_event list \<Rightarrow> (bool \<times> string) list \<times> bool" where
  "stream_loop out err [] = ([], \<not> out \<and> \<not> err)"
| "stream_loop out err (e # es) =
     (if \<not> out \<and> \<not> err then ([], True)
      else
        (case e of
           FromStdout None \<Rightarrow> stream_loop False err es
         | FromStderr None \<Rightarrow> stream_loop out False es
         | FromStdout (Some line) \<Rightarrow>
             (if out then apfst ((#) (True, line)) (stream_loop out err es) else stream_loop out err es)
         | FromStderr (Some line) \<Rightarrow>
             (if err then apfst ((#) (False, line)) (stream_loop out err es) else stream_loop out err es)))"

fun run_all :: "nat list \<Rightarrow> script_runner \<Rightarrow> script_runner \<times> script_event list" where
  "run_all [] b = (b, [])"
| "run_all (c # cs) b =
     (let (b, es) = Run c b; (b, es') = run_all cs b in (b, es @ es'))"

section \<open>Facts\<close>

lemma append_watch_frame [simp]:
  "bd_calls (append_watch f b) = bd_calls b" "bd_built (append_watch f b) = bd_built b"
  "bd_after (append_watch f b) = bd_after b" "bd_ignore (append_watch f b) = bd_ignore b"
  by (simp_all add: append_watch_def)

lemma bundler_call_frame [simp]:
  "bd_calls (bundler_call c b) = bd_calls b @ [c]" "bd_built (bundler_call c b) = bd_built b"
  "bd_after (bundler_call c b) = bd_after b" "bd_watch (bundler_call c b) = bd_watch b"
  "bd_ignore (bundler_call c b) = bd_ignore b"
  by (simp_all add: bundler_call_def)

lemma append_watch_bd_watch [simp]: "bd_watch (append_watch f b) = bd_watch b @ [\<lparr>wp_optional = False, wp_path = f\<rparr>]"
  by (simp add: append_watch_def)

lemma plugin_step_frame:
  "plugin_step p b = (p', b') \<Longrightarrow> bd_calls b' = bd_calls b \<and> bd_after b' = bd_after b \<and> bd_built b' = bd_built b
    \<and> bd_ignore b' = bd_ignore b"
  by (cases p) (auto simp: append_watch_def split: if_splits)

text \<open>What every step of a call keeps, every schedule keeps.\<close>

lemma run_plugins_invariant:
  assumes "run_plugins gs ps b = (ps', b')" "P ps b"
    and step: "\<And>g ps b p' b'. P ps b \<Longrightarrow> g < length ps \<Longrightarrow> plugin_step (ps ! g) b = (p', b') \<Longrightarrow> P (ps[g := p']) b'"
  shows "P ps' b'"
  using assms(1,2)
proof (induction gs arbitrary: ps b)
  case (Cons g gs)
  show ?case
  proof (cases "g < length ps")
    case True
    obtain p1 b1 where p1: "plugin_step (ps ! g) b = (p1, b1)" by (cases "plugin_step (ps ! g) b")
    from Cons.IH [OF _ step [OF Cons.prems(2) True p1]] Cons.prems(1) True p1 show ?thesis by simp
  qed (use Cons in simp)
qed simp

lemma run_plugins_frame [simp]:
  "bd_calls (snd (run_plugins gs ps b)) = bd_calls b" "bd_after (snd (run_plugins gs ps b)) = bd_after b"
  "bd_built (snd (run_plugins gs ps b)) = bd_built b" "bd_ignore (snd (run_plugins gs ps b)) = bd_ignore b"
proof -
  let ?inv = "\<lambda>_ b'. bd_calls b' = bd_calls b \<and> bd_after b' = bd_after b \<and> bd_built b' = bd_built b
    \<and> bd_ignore b' = bd_ignore b"
  obtain ps' b' where run: "run_plugins gs ps b = (ps', b')" by (cases "run_plugins gs ps b")
  have "?inv ps' b'" by (rule run_plugins_invariant [OF run]) (auto dest: plugin_step_frame)
  then show "bd_calls (snd (run_plugins gs ps b)) = bd_calls b" "bd_after (snd (run_plugins gs ps b)) = bd_after b"
    "bd_built (snd (run_plugins gs ps b)) = bd_built b" "bd_ignore (snd (run_plugins gs ps b)) = bd_ignore b"
    by (simp_all add: run)
qed

lemma run_build_frame [simp]:
  "bd_calls (run_build env c b) = bd_calls b @ [c]" "bd_after (run_build env c b) = bd_after b"
  "bd_built (run_build env c b) = bd_built b" "bd_ignore (run_build env c b) = bd_ignore b"
  by (simp_all add: run_build_def Let_def)

text \<open>The calls that are about to append, and those that are about to append a given path.\<close>

fun appends :: "plugin_phase \<Rightarrow> bool" where
  "appends (Appending f) = True"
| "appends p = False"

fun heads_for :: "string \<Rightarrow> plugin_phase \<Rightarrow> bool" where
  "heads_for f (Counting f') = (f' = f)"
| "heads_for f (Appending f') = (f' = f)"
| "heads_for f p = False"

definition number :: "('a \<Rightarrow> bool) \<Rightarrow> 'a list \<Rightarrow> nat" where
  "number P xs = length (filter P xs)"

lemma number_le: "number P xs \<le> length xs"
  by (simp add: number_def)

lemma number_update:
  "i < length xs \<Longrightarrow> number P (xs[i := x]) + (if P (xs ! i) then 1 else 0) = number P xs + (if P x then 1 else 0)"
proof (induction xs arbitrary: i)
  case (Cons y ys)
  then show ?case by (cases i) (auto simp: number_def split: if_splits)
qed simp

lemma number_snoc: "number P (xs @ [x]) = number P xs + (if P x then 1 else 0)"
  by (simp add: number_def)

text \<open>What the calls of a build keep, however their steps interleave: \<open>ws\<close> are the files watched before
  the build, \<open>m\<close> bounds the number of its calls.\<close>

definition watch_inv :: "nat \<Rightarrow> watch_path list \<Rightarrow> plugin_phase list \<Rightarrow> bundler \<Rightarrow> bool" where
  "watch_inv m ws ps b \<longleftrightarrow> length ps \<le> m
     \<and> length (bd_watch b) + number appends ps \<le> max (length ws) (watch_file_limit - 1 + m)
     \<and> (\<forall>f. number (\<lambda>p. wp_path p = f) (bd_watch b) + number (heads_for f) ps
           \<le> max (number (\<lambda>p. wp_path p = f) ws) m)
     \<and> (\<exists>new. bd_watch b = ws @ new \<and> (\<forall>p \<in> set new. \<not> list_ex (contains (wp_path p)) (bd_ignore b)))
     \<and> (\<forall>f. (\<exists>p \<in> set ps. heads_for f p) \<longrightarrow> \<not> list_ex (contains f) (bd_ignore b))"

lemma heads_for_update:
  "\<exists>q \<in> set (ps[g := p]). heads_for f q \<Longrightarrow> g < length ps \<Longrightarrow> heads_for f p \<or> (\<exists>q \<in> set ps. heads_for f q)"
  using set_update_subset_insert [of ps g p] by auto

lemma not_watched: "\<not> watches b f \<Longrightarrow> number (\<lambda>p. wp_path p = f) (bd_watch b) = 0"
  by (auto simp: watches_def list_ex_iff number_def filter_empty_conv)

lemma watch_inv_step:
  assumes inv: "watch_inv m ws ps b" and g: "g < length ps" and step: "plugin_step (ps ! g) b = (p', b')"
  shows "watch_inv m ws (ps[g := p']) b'"
proof -
  have len: "length ps \<le> m" using inv by (simp add: watch_inv_def)
  have total: "length (bd_watch b') + number appends (ps[g := p']) \<le> max (length ws) (watch_file_limit - 1 + m)"
  proof (cases "\<exists>f. ps ! g = Counting f \<and> length (bd_watch b) < watch_file_limit")
    case True
    with step have "b' = b" "length (bd_watch b) \<le> watch_file_limit - 1" by auto
    moreover have "number appends (ps[g := p']) \<le> m" using number_le [of appends "ps[g := p']"] len by simp
    ultimately show ?thesis by (simp add: max_def)
  next
    case False
    with step number_update [OF g, of appends p'] inv show ?thesis
      by (cases "ps ! g") (auto simp: watch_inv_def split: if_splits)
  qed
  have each: "number (\<lambda>p. wp_path p = f) (bd_watch b') + number (heads_for f) (ps[g := p'])
      \<le> max (number (\<lambda>p. wp_path p = f) ws) m" for f
  proof (cases "ps ! g = Looking f \<and> \<not> watches b f")
    case True
    with step have "b' = b" by (auto split: if_splits)
    with True have "number (\<lambda>p. wp_path p = f) (bd_watch b') = 0" by (simp add: not_watched)
    moreover have "number (heads_for f) (ps[g := p']) \<le> m" using number_le [of "heads_for f" "ps[g := p']"] len by simp
    ultimately show ?thesis by (simp add: max_def)
  next
    case False
    have "number (\<lambda>p. wp_path p = f) (bd_watch b) + number (heads_for f) ps \<le> max (number (\<lambda>p. wp_path p = f) ws) m"
      using inv by (simp add: watch_inv_def)
    with False step number_update [OF g, of "heads_for f" p'] show ?thesis
      by (cases "ps ! g") (auto simp: number_snoc split: if_splits)
  qed
  have heads: "\<not> list_ex (contains f) (bd_ignore b)" if "\<exists>q \<in> set (ps[g := p']). heads_for f q" for f
  proof (cases "heads_for f p' \<and> \<not> (\<exists>q \<in> set ps. heads_for f q)")
    case True
    then have "\<not> heads_for f (ps ! g)" using g nth_mem by blast
    with True step show ?thesis by (cases "ps ! g") (auto split: if_splits)
  next
    case False
    with heads_for_update [OF that g] inv show ?thesis by (auto simp: watch_inv_def)
  qed
  have "\<exists>new. bd_watch b' = ws @ new \<and> (\<forall>p \<in> set new. \<not> list_ex (contains (wp_path p)) (bd_ignore b))"
  proof -
    from inv obtain new where new: "bd_watch b = ws @ new"
      "\<forall>p \<in> set new. \<not> list_ex (contains (wp_path p)) (bd_ignore b)" by (auto simp: watch_inv_def)
    show ?thesis
    proof (cases "ps ! g")
      case (Appending f)
      then have "\<exists>q \<in> set ps. heads_for f q" using g by (metis heads_for.simps(2) nth_mem)
      with inv have "\<not> list_ex (contains f) (bd_ignore b)" by (simp add: watch_inv_def)
      with Appending step new show ?thesis by auto
    qed (use step new in \<open>auto split: if_splits\<close>)
  qed
  moreover have "bd_ignore b' = bd_ignore b" using plugin_step_frame [OF step] by simp
  ultimately show ?thesis using len total each heads unfolding watch_inv_def by simp
qed

text \<open>The calls of a build start where nothing is about to be appended.\<close>

fun starting :: "plugin_phase \<Rightarrow> bool" where
  "starting (Looking f) = True"
| "starting PluginDone = True"
| "starting p = False"

lemma on_resolve_starting: "starting (snd (on_resolve stat args b))"
  by (simp add: on_resolve_def watchTypescriptFile_def Let_def)

lemma starting_none: "starting p \<Longrightarrow> \<not> appends p \<and> \<not> heads_for f p"
  by (cases p) auto

lemma watch_inv_start:
  assumes "list_all starting ps" "length ps \<le> m"
  shows "watch_inv m (bd_watch b) ps b"
proof -
  have "filter appends ps = []" "filter (heads_for f) ps = []" for f
    using assms(1) by (auto simp: list_all_iff filter_empty_conv dest: starting_none)
  then show ?thesis using assms by (auto simp: watch_inv_def number_def list_all_iff dest: starting_none)
qed

lemma run_build_watch_inv:
  assumes "length (be_imports env (bd_calls b)) \<le> m"
  shows "\<exists>ps. watch_inv m (bd_watch b) ps (run_build env c b)"
proof -
  let ?calls = "map (\<lambda>args. snd (on_resolve (be_stat env) args b)) (be_imports env (bd_calls b))"
  obtain ps' b' where run: "run_plugins (be_schedule env (bd_calls b) @ finish_schedule (length (be_imports env (bd_calls b))))
      ?calls (bundler_call c b) = (ps', b')" by fastforce
  have "watch_inv m (bd_watch (bundler_call c b)) ?calls (bundler_call c b)"
    by (rule watch_inv_start) (use assms in \<open>auto simp: list_all_iff on_resolve_starting\<close>)
  then have "watch_inv m (bd_watch b) ?calls (bundler_call c b)" by simp
  from run_plugins_invariant [where P = "watch_inv m (bd_watch b)", OF run this] watch_inv_step
  have "watch_inv m (bd_watch b) ps' b'" by blast
  then show ?thesis by (auto simp: run_build_def Let_def run)
qed

text \<open>Calls that do not overlap.\<close>

fun plugin_call :: "plugin_phase \<Rightarrow> bundler \<Rightarrow> bundler" where
  "plugin_call (Looking f) b = (if may_watch f b then append_watch f b else b)"
| "plugin_call p b = b"

lemma run_one_plugin:
  assumes "g < length ps" "starting (ps ! g)"
  shows "run_plugins (g # g # g # gs) ps b = run_plugins gs (ps[g := PluginDone]) (plugin_call (ps ! g) b)"
  using assms by (cases "ps ! g") (auto simp: may_watch_def list_update_same_conv)

definition watch_ok :: "nat \<Rightarrow> bundler \<Rightarrow> bool" where
  "watch_ok n b \<longleftrightarrow> distinct (map wp_path (bd_watch b)) \<and> length (bd_watch b) \<le> max n watch_file_limit"

lemma watch_ok_call: "watch_ok n b \<Longrightarrow> watch_ok n (plugin_call p b)"
  by (cases p) (auto simp: watch_ok_def may_watch_def watches_def list_ex_iff)

lemma watch_ok_sequential:
  assumes "list_all starting ps" "\<forall>g \<in> set gs. g < length ps" "watch_ok n b"
  shows "watch_ok n (snd (run_plugins (concat (map (\<lambda>g. [g, g, g]) gs)) ps b))"
  using assms
proof (induction gs arbitrary: ps b)
  case (Cons g gs)
  then have g: "g < length ps" "starting (ps ! g)" by (simp_all add: list_all_length)
  have "list_all starting (ps[g := PluginDone])"
    using Cons.prems(1) set_update_subset_insert [of ps g PluginDone] by (auto simp: list_all_iff)
  from Cons.IH [OF this _ watch_ok_call [OF Cons.prems(3)]] Cons.prems(2)
  show ?case by (simp add: run_one_plugin [OF g] del: run_plugins.simps)
qed simp

lemma watch_ok_build:
  assumes "watch_ok n b" "be_schedule env (bd_calls b) = []"
  shows "watch_ok n (run_build env c b)"
proof -
  let ?calls = "map (\<lambda>args. snd (on_resolve (be_stat env) args b)) (be_imports env (bd_calls b))"
  have "watch_ok n (bundler_call c b)" using assms(1) by (simp add: watch_ok_def)
  then have "watch_ok n (snd (run_plugins (concat (map (\<lambda>g. [g, g, g]) [0..<length ?calls])) ?calls (bundler_call c b)))"
    by (intro watch_ok_sequential) (auto simp: list_all_iff on_resolve_starting)
  then show ?thesis using assms(2) by (simp add: run_build_def finish_schedule_def Let_def)
qed

text \<open>One call of \<open>Bundle\<close>: a build, and the callback after it when it had no errors.\<close>

lemma Bundle_cases:
  assumes "Bundle env b = Returned (b', err)"
  obtains b1 where "b1 = (run_build env (if bd_built b then Rebuild else InitialBuild (build_options_of b)) b)\<lparr>bd_built := True\<rparr>"
    "b' = b1 \<and> (be_errors env (bd_calls b) \<noteq> [] \<or> \<not> bd_after b)
     \<or> b' = bundler_call AfterBundle b1 \<and> be_errors env (bd_calls b) = [] \<and> bd_after b"
  using assms
  by (auto simp: Bundle_def Let_def initialBuild_def bind_out_Returned_iff split: list.splits if_splits)

text \<open>The calls of a bundler: one initial build, then rebuilds, and the callback after clean builds.\<close>

definition calls_ok :: "bundler_env \<Rightarrow> bundler_call list \<Rightarrow> bool" where
  "calls_ok env cs \<longleftrightarrow>
     (\<forall>i < length cs. is_initial (cs ! i) \<longleftrightarrow> i = 0)
   \<and> (\<forall>i < length cs. cs ! i = AfterBundle \<longrightarrow> cs ! (i - 1) \<noteq> AfterBundle \<and> be_errors env (take (i - 1) cs) = [])"

lemma calls_ok_build: "calls_ok env cs \<Longrightarrow> calls_ok env (cs @ [if cs = [] then InitialBuild opts else Rebuild])"
  by (auto simp: calls_ok_def nth_append less_Suc_eq)

lemma calls_ok_after:
  "calls_ok env (cs @ [c]) \<Longrightarrow> c \<noteq> AfterBundle \<Longrightarrow> be_errors env cs = [] \<Longrightarrow> calls_ok env (cs @ [c, AfterBundle])"
  by (auto simp: calls_ok_def nth_append less_Suc_eq)

definition bundler_inv :: "bundler_env \<Rightarrow> bundler \<Rightarrow> bool" where
  "bundler_inv env b \<longleftrightarrow> calls_ok env (bd_calls b) \<and> (bd_built b \<longleftrightarrow> bd_calls b \<noteq> [])"

lemma bundler_inv_Bundle:
  assumes "bundler_inv env b" "Bundle env b = Returned (b', err)"
  shows "bundler_inv env b'"
proof -
  obtain b1 where b1: "b1 = (run_build env (if bd_built b then Rebuild else InitialBuild (build_options_of b)) b)\<lparr>bd_built := True\<rparr>"
    "b' = b1 \<and> (be_errors env (bd_calls b) \<noteq> [] \<or> \<not> bd_after b)
     \<or> b' = bundler_call AfterBundle b1 \<and> be_errors env (bd_calls b) = [] \<and> bd_after b"
    by (rule Bundle_cases [OF assms(2)])
  let ?c = "if bd_calls b = [] then InitialBuild (build_options_of b) else Rebuild"
  have calls: "calls_ok env (bd_calls b @ [?c])"
    using assms(1) calls_ok_build by (simp add: bundler_inv_def)
  moreover have "(if bd_built b then Rebuild else InitialBuild (build_options_of b)) = ?c"
    using assms(1) by (simp add: bundler_inv_def)
  ultimately have inv: "bundler_inv env b1" "bd_calls b1 = bd_calls b @ [?c]"
    by (simp_all add: bundler_inv_def b1(1))
  moreover have "calls_ok env (bd_calls b @ [?c, AfterBundle])" if "be_errors env (bd_calls b) = []"
    by (rule calls_ok_after [OF calls _ that]) simp
  ultimately show ?thesis using b1(2) by (auto simp: bundler_inv_def)
qed

lemma bundler_inv_all: "bundle_all env n b = Returned b' \<Longrightarrow> bundler_inv env b \<Longrightarrow> bundler_inv env b'"
  by (induction n arbitrary: b) (auto simp: bind_out_Returned_iff intro: bundler_inv_Bundle)

lemma bundler_inv_new: "bundler_inv env (NewBundler cfg)"
  by (simp add: bundler_inv_def calls_ok_def NewBundler_def)

text \<open>The watched files and the ignored ones after a call of \<open>Bundle\<close> are those after its build.\<close>

lemma Bundle_watch:
  assumes "Bundle env b = Returned (b', err)"
  shows "\<exists>c. bd_watch b' = bd_watch (run_build env c b) \<and> bd_ignore b' = bd_ignore b"
  by (rule Bundle_cases [OF assms]) auto

text \<open>What bundling keeps of the configured files: they stay in front, nothing ignored is added, and the
  list and the repetitions in it are bounded by the calls of a build.\<close>

definition watch_bounds :: "nat \<Rightarrow> bundler_config \<Rightarrow> bundler \<Rightarrow> bool" where
  "watch_bounds m cfg b \<longleftrightarrow> bd_ignore b = bc_ignore cfg
     \<and> length (bd_watch b) \<le> max (length (bc_watch cfg)) (watch_file_limit - 1 + m)
     \<and> (\<forall>f. number (\<lambda>p. wp_path p = f) (bd_watch b) \<le> max (number (\<lambda>p. wp_path p = f) (bc_watch cfg)) m)
     \<and> (\<exists>new. bd_watch b = bc_watch cfg @ new \<and> (\<forall>p \<in> set new. \<not> list_ex (contains (wp_path p)) (bc_ignore cfg)))"

lemma watch_bounds_Bundle:
  assumes "watch_bounds m cfg b" "\<forall>cs. length (be_imports env cs) \<le> m" "Bundle env b = Returned (b', err)"
  shows "watch_bounds m cfg b'"
proof -
  from Bundle_watch [OF assms(3)] obtain c where
    c: "bd_watch b' = bd_watch (run_build env c b)" "bd_ignore b' = bd_ignore b" by blast
  from run_build_watch_inv assms(2) obtain ps where inv: "watch_inv m (bd_watch b) ps (run_build env c b)" by blast
  from inv obtain new where new: "bd_watch b' = bd_watch b @ new"
    "\<forall>p \<in> set new. \<not> list_ex (contains (wp_path p)) (bd_ignore b)" by (auto simp: watch_inv_def c)
  from assms(1) obtain old where old: "bd_watch b = bc_watch cfg @ old" "bd_ignore b = bc_ignore cfg"
    "\<forall>p \<in> set old. \<not> list_ex (contains (wp_path p)) (bc_ignore cfg)" by (auto simp: watch_bounds_def)
  have "length (bd_watch b') \<le> max (length (bc_watch cfg)) (watch_file_limit - 1 + m)"
    using inv assms(1) by (auto simp: watch_inv_def watch_bounds_def c)
  moreover have "number (\<lambda>p. wp_path p = f) (bd_watch b') \<le> max (number (\<lambda>p. wp_path p = f) (bc_watch cfg)) m" for f
  proof -
    have "number (\<lambda>p. wp_path p = f) (bd_watch b') + number (heads_for f) ps
        \<le> max (number (\<lambda>p. wp_path p = f) (bd_watch b)) m" using inv by (simp add: watch_inv_def c)
    moreover have "number (\<lambda>p. wp_path p = f) (bd_watch b) \<le> max (number (\<lambda>p. wp_path p = f) (bc_watch cfg)) m"
      using assms(1) by (simp add: watch_bounds_def)
    ultimately show ?thesis by linarith
  qed
  moreover have "bd_watch b' = bc_watch cfg @ (old @ new)"
    "\<forall>p \<in> set (old @ new). \<not> list_ex (contains (wp_path p)) (bc_ignore cfg)"
    using new old by auto
  moreover have "bd_ignore b' = bc_ignore cfg" using c(2) old(2) by simp
  ultimately show ?thesis unfolding watch_bounds_def by blast
qed

lemma watch_bounds_all:
  "bundle_all env n b = Returned b' \<Longrightarrow> watch_bounds m cfg b \<Longrightarrow> \<forall>cs. length (be_imports env cs) \<le> m
    \<Longrightarrow> watch_bounds m cfg b'"
  by (induction n arbitrary: b) (auto simp: bind_out_Returned_iff intro: watch_bounds_Bundle)

lemma watch_bounds_new: "watch_bounds m cfg (NewBundler cfg)"
  by (simp add: watch_bounds_def NewBundler_def)

lemma watch_ok_Bundle:
  assumes "watch_ok k b" "\<forall>cs. be_schedule env cs = []" "Bundle env b = Returned (b', err)"
  shows "watch_ok k b'"
proof -
  from Bundle_watch [OF assms(3)] obtain c where "bd_watch b' = bd_watch (run_build env c b)" by blast
  moreover have "watch_ok k (run_build env c b)" using watch_ok_build assms(1,2) by blast
  ultimately show ?thesis by (simp add: watch_ok_def)
qed

lemma watch_ok_all:
  "bundle_all env n b = Returned b' \<Longrightarrow> watch_ok k b \<Longrightarrow> \<forall>cs. be_schedule env cs = [] \<Longrightarrow> watch_ok k b'"
  by (induction n arbitrary: b) (auto simp: bind_out_Returned_iff intro: watch_ok_Bundle)

text \<open>The commands that run after some events: one that was awaited has ended.\<close>

fun running :: "nat set \<Rightarrow> script_event list \<Rightarrow> nat set" where
  "running S [] = S"
| "running S (StartCmd c opts # es) = running (insert c S) es"
| "running S (AwaitDone c # es) = running (S - {c}) es"
| "running S (StopCmd c # es) = running S es"

lemma running_append: "running S (es @ fs) = running (running S es) fs"
  by (induction S es rule: running.induct) simp_all

definition current :: "script_runner \<Rightarrow> nat set" where
  "current b = (case sr_cmd b of None \<Rightarrow> {} | Some c \<Rightarrow> {c})"

lemma card_current: "card (current b) \<le> 1"
  by (simp add: current_def split: option.split)

lemma Run_running:
  assumes "Run c b = (b', es)"
  shows "card (running (current b) (take k es)) \<le> 1" and "running (current b) es = current b'"
  using assms
  by (cases "sr_cmd b"; cases k; cases "k - 1"; cases "k - 2"; auto simp: Run_def Stop_def current_def)+

lemma run_all_running:
  "run_all cs b = (b', es) \<Longrightarrow> card (running (current b) (take k es)) \<le> 1"
proof (induction cs arbitrary: b b' es k)
  case (Cons c cs)
  obtain b1 es1 where first: "Run c b = (b1, es1)" by (cases "Run c b")
  obtain b2 es2 where rest: "run_all cs b1 = (b2, es2)" by (cases "run_all cs b1")
  have es: "es = es1 @ es2" using Cons.prems first rest by simp
  show ?case
  proof (cases "k \<le> length es1")
    case True
    then show ?thesis using Run_running(1) [OF first, of k] es by simp
  next
    case False
    then have "take k es = es1 @ take (k - length es1) es2" using es by simp
    then show ?thesis
      using Run_running(2) [OF first] Cons.IH [OF rest, of "k - length es1"] by (simp add: running_append)
  qed
qed (simp add: card_current del: One_nat_def)

text \<open>The environments of the commands that are started.\<close>

fun started_envs :: "script_event list \<Rightarrow> string list list" where
  "started_envs [] = []"
| "started_envs (StartCmd c opts # es) = cm_env opts # started_envs es"
| "started_envs (e # es) = started_envs es"

lemma started_envs_append [simp]: "started_envs (es @ fs) = started_envs es @ started_envs fs"
  by (induction es rule: started_envs.induct) simp_all

lemma started_envs_Stop [simp]: "started_envs (Stop b) = []"
  by (simp add: Stop_def split: option.split)

lemma run_all_envs:
  "\<not> sr_first b \<Longrightarrow> run_all cs b = (b', es) \<Longrightarrow> started_envs es = replicate (length cs) (sr_env b)"
proof (induction cs arbitrary: b b' es)
  case (Cons c cs)
  obtain b1 es1 where first: "Run c b = (b1, es1)" by (cases "Run c b")
  obtain b2 es2 where rest: "run_all cs b1 = (b2, es2)" by (cases "run_all cs b1")
  have "\<not> sr_first b1" "sr_env b1 = sr_env b" "started_envs es1 = [sr_env b]"
    using first Cons.prems(1) by (auto simp: Run_def run_options_def)
  with Cons.IH [OF _ rest] Cons.prems(2) first rest show ?case by auto
qed simp

text \<open>The copying of the output ends with the second of the two streams.\<close>

lemma stream_loop_done:
  "snd (stream_loop out err es) \<longleftrightarrow>
     (\<not> out \<or> FromStdout None \<in> set es) \<and> (\<not> err \<or> FromStderr None \<in> set es)"
  by (induction out err es rule: stream_loop.induct) (auto split: stream_event.splits option.splits)

section \<open>Properties\<close>

text \<open>C32: However often is bundled and however the steps of the plugin calls of a build interleave, the
  list of watched files keeps the configured paths in front and gets no ignored path; when no build
  has more than \<open>m\<close> plugin calls, no path gets more than \<open>m\<close> entries, and the list stays within the
  configured length or, if that is more, 999 + \<open>m\<close> entries. Where the calls of a build do not overlap
  and the configured paths are distinct, no path is there twice and the list stays within the
  configured length or 1000 entries.\<close>

theorem watch_list_bounded:
  assumes "bundle_all env n (NewBundler cfg) = Returned b" "\<forall>cs. length (be_imports env cs) \<le> m"
  shows "(\<exists>new. bd_watch b = bc_watch cfg @ new \<and> (\<forall>p \<in> set new. \<not> list_ex (contains (wp_path p)) (bc_ignore cfg)))
    \<and> (\<forall>f. number (\<lambda>p. wp_path p = f) (bd_watch b) \<le> max (number (\<lambda>p. wp_path p = f) (bc_watch cfg)) m)
    \<and> length (bd_watch b) \<le> max (length (bc_watch cfg)) (999 + m)
    \<and> ((\<forall>cs. be_schedule env cs = []) \<and> distinct (map wp_path (bc_watch cfg)) \<longrightarrow>
         distinct (map wp_path (bd_watch b)) \<and> length (bd_watch b) \<le> max (length (bc_watch cfg)) 1000)"
proof -
  have "watch_bounds m cfg b" by (rule watch_bounds_all [OF assms(1) watch_bounds_new assms(2)])
  moreover have "watch_ok (length (bc_watch cfg)) b"
    if "\<forall>cs. be_schedule env cs = []" "distinct (map wp_path (bc_watch cfg))"
    by (rule watch_ok_all [OF assms(1) _ that(1)]) (use that(2) in \<open>simp add: watch_ok_def NewBundler_def\<close>)
  ultimately show ?thesis by (auto simp: watch_bounds_def watch_ok_def watch_file_limit_def)
qed

definition sample_bundler_env :: bundler_env where
  "sample_bundler_env =
     \<lparr>be_stat = (\<lambda>f. if f = ''/app/hooks.ts'' then FileNode sample_file else NotThere),
      be_imports = (\<lambda>_. [\<lparr>ra_kind = JSImportStatement, ra_dir = ''/app'', ra_path = ''./hooks''\<rparr>]),
      be_schedule = (\<lambda>_. []), be_errors = (\<lambda>_. []), be_after = (\<lambda>_. Returned None)\<rparr>"

definition sample_watch_paths :: "watch_path list" where
  "sample_watch_paths = [\<lparr>wp_optional = True, wp_path = ''/app/operations''\<rparr>]"

definition sample_bundler_config :: bundler_config where
  "sample_bundler_config =
     \<lparr>bc_dir = ''/app'', bc_skip_entry = False, bc_entry = [''wundergraph.config.ts''], bc_watch = sample_watch_paths,
      bc_ignore = [''node_modules''], bc_out_file = ''config.js'', bc_out_dir = [], bc_after = True\<rparr>"

lemma sample_bundle:
  obtains b where
    "bundle_all sample_bundler_env 2 (NewBundler sample_bundler_config) = Returned b"
    "map wp_path (bd_watch b) = [''/app/operations'', ''/app/hooks.ts'']"
proof -
  have "(case bundle_all sample_bundler_env 2 (NewBundler sample_bundler_config) of
      Returned b \<Rightarrow> map wp_path (bd_watch b) = [''/app/operations'', ''/app/hooks.ts''] | Panicked m \<Rightarrow> False)"
    by code_simp
  then show thesis by (cases "bundle_all sample_bundler_env 2 (NewBundler sample_bundler_config)")
    (simp_all add: that)
qed

theorem watch_list_bounded_witness:
  "\<exists>b. bundle_all sample_bundler_env 2 (NewBundler sample_bundler_config) = Returned b
     \<and> map wp_path (bd_watch b) = [''/app/operations'', ''/app/hooks.ts''] \<and> distinct (map wp_path (bd_watch b))
     \<and> length (bd_watch b) \<le> max (length (bc_watch sample_bundler_config)) 1000"
proof -
  obtain b where b: "bundle_all sample_bundler_env 2 (NewBundler sample_bundler_config)
      = Returned b" "map wp_path (bd_watch b) = [''/app/operations'', ''/app/hooks.ts'']"
    by (rule sample_bundle)
  have one: "\<forall>cs. length (be_imports sample_bundler_env cs) \<le> 1"
    and apart: "(\<forall>cs. be_schedule sample_bundler_env cs = []) \<and> distinct (map wp_path (bc_watch sample_bundler_config))"
    by (simp_all add: sample_bundler_env_def sample_bundler_config_def sample_watch_paths_def)
  note bounded = mp [OF conjunct2 [OF conjunct2 [OF conjunct2 [OF watch_list_bounded [OF b(1) one]]]] apart]
  show ?thesis
    by (rule exI [of _ b], intro conjI, rule b(1), rule b(2), rule bounded [THEN conjunct1], rule bounded [THEN conjunct2])
qed

text \<open>When two calls of the plugin overlap, both can find a file missing and add it.\<close>

lemma overlapping_plugins_watch_twice:
  assumes "may_watch f b"
  shows "run_plugins [0, 1, 0, 1, 0, 1] [Looking f, Looking f] b
    = ([PluginDone, PluginDone], append_watch f (append_watch f b))"
proof -
  have looks: "run_plugins (0 # 1 # gs) [Looking f, Looking f] b = run_plugins gs [Counting f, Counting f] b"
    and counts: "run_plugins (0 # 1 # gs) [Counting f, Counting f] b = run_plugins gs [Appending f, Appending f] b"
    for gs using assms unfolding may_watch_def by (simp_all add: Let_def)
  have appends: "run_plugins [0, 1] [Appending f, Appending f] b
      = ([PluginDone, PluginDone], append_watch f (append_watch f b))" by simp
  show ?thesis unfolding looks counts appends by (rule refl)
qed
text \<open>however often a bundler bundles, it builds initially once, first; it calls back only right after a
  build without errors; and every other call is a rebuild.\<close>

theorem bundler_calls_in_order:
  assumes "bundle_all env n (NewBundler cfg) = Returned b"
  shows "\<forall>i < length (bd_calls b). (is_initial (bd_calls b ! i) \<longleftrightarrow> i = 0)
    \<and> (bd_calls b ! i = AfterBundle \<longrightarrow> bd_calls b ! (i - 1) \<noteq> AfterBundle
        \<and> be_errors env (take (i - 1) (bd_calls b)) = [])"
  using bundler_inv_all [OF assms bundler_inv_new] by (simp add: bundler_inv_def calls_ok_def)

theorem bundler_calls_in_order_witness:
  "\<exists>b. bundle_all sample_bundler_env 2 (NewBundler sample_bundler_config) = Returned b
     \<and> (\<forall>i < length (bd_calls b). (is_initial (bd_calls b ! i) \<longleftrightarrow> i = 0)
    \<and> (bd_calls b ! i = AfterBundle \<longrightarrow> bd_calls b ! (i - 1) \<noteq> AfterBundle
        \<and> be_errors sample_bundler_env (take (i - 1) (bd_calls b)) = []))"
proof -
  obtain b where b: "bundle_all sample_bundler_env 2 (NewBundler sample_bundler_config)
      = Returned b" by (rule sample_bundle)
  from bundler_calls_in_order [OF b] b show ?thesis by blast
qed

text \<open>A build error without a location, which the watching branch allows for, makes \<open>Bundle\<close> panic.\<close>

lemma unlocated_error_panics:
  assumes "be_errors env (bd_calls b) = m # ms" "bm_line m = None"
  shows "Bundle env b = Panicked ''nil pointer dereference''"
  using assms by (simp add: Bundle_def Let_def build_failed_def)



end
