(* ===== verification/CliCommands.thy ===== *)
theory CliCommands
  imports CliAuth DevTools NodeConfig
begin

text \<open>
  The commands of wunderctl that build and start a project (cli/commands, cli/helpers), with the files
  they look for (pkg/files), the templates of new projects (pkg/templates) and the webhooks of a project
  (pkg/webhooks). Parameters are the file system, the build tool, the processes and the JSON codecs.
\<close>

section \<open>Files\<close>

datatype path_stat = NoPath | StatError go_error | PathFile | PathDir

record files_env =
  fe_stat :: "string \<Rightarrow> path_stat"
  fe_abs :: "string \<Rightarrow> string res"
  fe_wd :: "string res"
  fe_read :: "string \<Rightarrow> bytes res"
  fe_dir :: "string \<Rightarrow> (string \<times> bool) list res"

definition WunderGraphDirName :: string where "WunderGraphDirName = ''.wundergraph''"

definition DirectoryExists :: "files_env \<Rightarrow> string \<Rightarrow> bool" where
  "DirectoryExists fs path = (case fe_stat fs path of PathDir \<Rightarrow> True | _ \<Rightarrow> False)"

text \<open>Only a path that leads nowhere does not exist; one that cannot be looked at does.\<close>

definition FileExists :: "files_env \<Rightarrow> string \<Rightarrow> bool" where
  "FileExists fs filePath = (fe_stat fs filePath \<noteq> NoPath)"

definition findWunderGraphDirInParent :: "files_env \<Rightarrow> string res" where
  "findWunderGraphDirInParent fs =
     (case fe_wd fs of
        Inl _ \<Rightarrow> Inl (Err ''could not get your current working directory'')
      | Inr wd \<Rightarrow>
          (let parentWunderGraphDir = path_join [wd, ''..'', WunderGraphDirName] in
           if DirectoryExists fs parentWunderGraphDir then Inr parentWunderGraphDir
           else Inl (Err ''could not find .wundergraph directory'')))"

definition FindWunderGraphDir :: "files_env \<Rightarrow> string \<Rightarrow> string res" where
  "FindWunderGraphDir fs wundergraphDir =
     (case fe_abs fs wundergraphDir of
        Inl err \<Rightarrow> Inl (Wrap ''unable to get absolute path from .wundergraph dir'' err)
      | Inr absWgDir \<Rightarrow>
          (if \<not> DirectoryExists fs absWgDir then
             (case findWunderGraphDirInParent fs of
                Inl err \<Rightarrow> Inl (Wrap ''unable to find .wundergraph dir'' err)
              | Inr dir \<Rightarrow> Inr dir)
           else Inr absWgDir))"

definition CodeFilePath :: "files_env \<Rightarrow> string \<Rightarrow> string \<Rightarrow> string res" where
  "CodeFilePath fs wundergraphDir filename =
     (let configEntryPoint = path_join [wundergraphDir, filename] in
      if FileExists fs configEntryPoint then Inr configEntryPoint
      else Inl (Err (''code file \"'' @ configEntryPoint @ ''\" not found'')))"

definition GetWebhooks :: "files_env \<Rightarrow> string \<Rightarrow> string list res" where
  "GetWebhooks fs wunderGraphDir =
     (case fe_dir fs (path_join [wunderGraphDir, ''webhooks'']) of
        Inl err \<Rightarrow> Inl err
      | Inr des \<Rightarrow>
          Inr (map (\<lambda>(name, isDir). path_join [''webhooks'', name])
            (filter (\<lambda>(name, isDir). \<not> (isDir \<or> has_suffix name ''.d.ts'' \<or> \<not> has_suffix name ''.ts'')) des)))"

section \<open>Templates\<close>

text \<open>The files of the templates are part of the program.\<close>

datatype asset = AssetFile bytes | AssetDir "(string \<times> asset) list"

record template =
  tp_name :: string
  tp_input :: asset
  tp_default :: string

definition ByName :: "template list \<Rightarrow> string \<Rightarrow> template option" where
  "ByName templates templateName = find (\<lambda>tmpl. tp_name tmpl = templateName) templates"

text \<open>The files written so far, and the error of writing the next one.\<close>

type_synonym file_writes = "(string \<times> bytes) list"

fun traverseDirectory ::
    "(file_writes \<Rightarrow> string \<Rightarrow> go_error option) \<Rightarrow> string \<Rightarrow> (string \<times> asset) list \<Rightarrow> file_writes
      \<Rightarrow> file_writes \<times> go_error option" where
  "traverseDirectory write_file outputDir [] ws = (ws, None)"
| "traverseDirectory write_file outputDir ((name, AssetDir sub) # entries) ws =
     (case traverseDirectory write_file (path_join [outputDir, name]) sub ws of
        (ws, Some err) \<Rightarrow> (ws, Some err)
      | (ws, None) \<Rightarrow> traverseDirectory write_file outputDir entries ws)"
| "traverseDirectory write_file outputDir ((name, AssetFile data) # entries) ws =
     (let outFileName = path_join [outputDir, name] in
      case write_file ws outFileName of
        Some err \<Rightarrow> (ws, Some err)
      | None \<Rightarrow> traverseDirectory write_file outputDir entries (ws @ [(outFileName, data)]))"

definition Apply ::
    "(file_writes \<Rightarrow> string \<Rightarrow> go_error option) \<Rightarrow> template \<Rightarrow> string \<Rightarrow> file_writes \<times> go_error option" where
  "Apply write_file t overrideOutputPath =
     (let outPath = (if overrideOutputPath \<noteq> [] then overrideOutputPath else tp_default t) in
      case tp_input t of
        AssetDir entries \<Rightarrow> traverseDirectory write_file outPath entries []
      | AssetFile _ \<Rightarrow> ([], Some (Err ''not a directory'')))"

definition init_command ::
    "(file_writes \<Rightarrow> string \<Rightarrow> go_error option) \<Rightarrow> template list \<Rightarrow> string \<Rightarrow> string \<Rightarrow> file_writes \<times> go_error option" where
  "init_command write_file templates templateName outputPath =
     (case ByName templates templateName of
        None \<Rightarrow> ([], Some (Err (''template not found for name: '' @ templateName)))
      | Some tmpl \<Rightarrow> Apply write_file tmpl outputPath)"

section \<open>Helpers\<close>

record root_flags =
  rf_log_level :: string
  rf_pretty :: bool
  rf_debug :: bool

definition bool_text :: "bool \<Rightarrow> string" where
  "bool_text b = (if b then ''true'' else ''false'')"

definition CliEnv :: "string list \<Rightarrow> root_flags \<Rightarrow> string list" where
  "CliEnv environ flags =
     environ @ [''WG_CLI_LOG_LEVEL='' @ rf_log_level flags, ''WG_CLI_LOG_PRETTY='' @ bool_text (rf_pretty flags),
       ''WG_DEBUG_MODE='' @ bool_text (rf_debug flags)]"

record server_run_config =
  sc_dir :: string
  sc_script :: string
  sc_production :: bool
  sc_env :: "string list"

definition NewServerRunner :: "server_run_config \<Rightarrow> script_runner" where
  "NewServerRunner cfg =
     (let hooksEnv = [''START_HOOKS_SERVER=true'', ''WG_ABS_DIR='' @ sc_dir cfg];
          hooksEnv = (if sc_production cfg then hooksEnv @ [''NODE_ENV=production''] else hooksEnv) in
      NewScriptRunner ''node'' [sc_script cfg] (sc_env cfg @ hooksEnv) [] (sc_dir cfg))"

text \<open>The part of a configuration file with the port of the hooks server: the pointers api, serverOptions
  and listen.\<close>

definition ServerPortFromConfig ::
    "(string \<Rightarrow> string) \<Rightarrow> files_env \<Rightarrow> (bytes \<Rightarrow> server_options option option res) \<Rightarrow> string \<Rightarrow> int res outcome" where
  "ServerPortFromConfig vars fs decode configJsonPath =
     (case fe_read fs configJsonPath of
        Inl err \<Rightarrow> Returned (Inl err)
      | Inr data \<Rightarrow>
          (if length data = 0 then Returned (Inl (Err ''config file is empty''))
           else
             (case decode data of
                Inl err \<Rightarrow> Returned (Inl err)
              | Inr api \<Rightarrow>
                  bind_out (deref api) (\<lambda>server.
                  bind_out (deref server) (\<lambda>so.
                  bind_out (deref (so_listen so)) (\<lambda>listen.
                  Returned (Inr (load_int vars (lo_port listen)))))))))"

section \<open>The manifest of a project\<close>

text \<open>The integrations file, with the rendered template and the errors of making its directory and of writing.\<close>

definition WriteIntegrationsFile ::
    "bytes res \<Rightarrow> go_error option \<Rightarrow> go_error option \<Rightarrow> string \<Rightarrow> (string \<times> bytes) option \<times> go_error option" where
  "WriteIntegrationsFile rendered mkdir_error write_error wundergraphDir =
     (case rendered of
        Inl err \<Rightarrow> (None, Some err)
      | Inr out \<Rightarrow>
          (case mkdir_error of
             Some err \<Rightarrow> (None, Some err)
           | None \<Rightarrow>
               (case write_error of
                  Some err \<Rightarrow> (None, Some err)
                | None \<Rightarrow> (Some (path_join [wundergraphDir, ''generated'', ''wundergraph.integrations.ts''], out), None))))"

text \<open>
  The commands that work on the manifest: they load it, change it, persist it and write the integrations
  file; \<open>change\<close> is the change with the message of its failure, \<open>write_file\<close> the last step.
\<close>

definition manifest_command ::
    "'d codec \<Rightarrow> (manifest \<Rightarrow> manifest \<times> go_error option) \<Rightarrow> string \<Rightarrow> (manifest \<Rightarrow> (string \<times> bytes) option \<times> go_error option)
      \<Rightarrow> 'd disk \<Rightarrow> 'd disk \<times> (string \<times> bytes) option \<times> go_error option" where
  "manifest_command cd change message write_file dk =
     (case Manifest.Load cd dk New of
        (man, Some _) \<Rightarrow> (dk, None, Some (Err ''unable to load wundergraph.manifest.json''))
      | (man, None) \<Rightarrow>
          (case change man of
             (man, Some _) \<Rightarrow> (dk, None, Some (Err message))
           | (man, None) \<Rightarrow>
               (case PersistChanges cd dk man of
                  (dk, Some _) \<Rightarrow> (dk, None, Some (Err ''unable to persist manifest changes''))
                | (dk, None) \<Rightarrow>
                    (case write_file man of
                       (_, Some _) \<Rightarrow> (dk, None, Some (Err ''unable to write integrations file''))
                     | (f, None) \<Rightarrow> (dk, f, None)))))"

definition add_command ::
    "'d codec \<Rightarrow> (manifest \<Rightarrow> (string \<times> bytes) option \<times> go_error option) \<Rightarrow> string list \<Rightarrow> 'd disk
      \<Rightarrow> 'd disk \<times> (string \<times> bytes) option \<times> go_error option" where
  "add_command cd write_file dependencies dk =
     manifest_command cd (\<lambda>man. AddDependencies cd dk man dependencies)
       (''unable to add dependencies '' @ join '','' dependencies @ '' to manifest'') write_file dk"

definition remove_command ::
    "'d codec \<Rightarrow> (manifest \<Rightarrow> (string \<times> bytes) option \<times> go_error option) \<Rightarrow> string list \<Rightarrow> 'd disk
      \<Rightarrow> 'd disk \<times> (string \<times> bytes) option \<times> go_error option" where
  "remove_command cd write_file dependencies dk =
     manifest_command cd (\<lambda>man. RemoveDependencies cd dk man dependencies)
       (''unable to remove dependencies to manifest: '' @ join '','' dependencies) write_file dk"

definition root_command ::
    "'d codec \<Rightarrow> (manifest \<Rightarrow> (string \<times> bytes) option \<times> go_error option) \<Rightarrow> 'd disk
      \<Rightarrow> 'd disk \<times> (string \<times> bytes) option \<times> go_error option" where
  "root_command cd write_file dk = manifest_command cd (\<lambda>man. (man, None)) [] write_file dk"

text \<open>The publish command; \<open>serviceToken\<close> is the token of the flag, empty if there is none.\<close>

definition publish_command ::
    "('v, 'j, 'c) cli_lib \<Rightarrow> cli_env \<Rightarrow> files_env \<Rightarrow> (bytes \<Rightarrow> api_dependency res) \<Rightarrow> (api_dependency \<Rightarrow> bytes res)
      \<Rightarrow> authenticator \<Rightarrow> string \<Rightarrow> string \<Rightarrow> string list \<Rightarrow> 'v cli \<Rightarrow> (publish_result list res) \<times> 'v cli" where
  "publish_command lib env fs parse encode a dirFlag serviceToken args s =
     (case FindWunderGraphDir fs dirFlag of
        Inl err \<Rightarrow> (Inl err, s)
      | Inr wunderGraphDir \<Rightarrow>
          (let (client, s) = (if serviceToken \<noteq> [] then (client_with_token lib serviceToken s, s)
                 else InitWunderGraphApiClient lib env a s);
               (results, s) = publish_all
                 (publish_one env (\<lambda>p. \<not> FileExists fs p) (fe_read fs) parse encode client wunderGraphDir) args s in
           (Inr results, s)))"

section \<open>Starting in production\<close>

definition startWunderGraphServer ::
    "files_env \<Rightarrow> string list \<Rightarrow> root_flags \<Rightarrow> (cmd_options \<Rightarrow> script_status) \<Rightarrow> string \<Rightarrow> script_event list \<times> go_error option" where
  "startWunderGraphServer fs environ flags status dirFlag =
     (case FindWunderGraphDir fs dirFlag of
        Inl err \<Rightarrow> ([], Some err)
      | Inr wunderGraphDir \<Rightarrow>
          (let configFile = path_join [wunderGraphDir, ''generated'', ''wundergraph.config.json''] in
           if \<not> FileExists fs configFile then ([], Some (Err (''could not find configuration file: '' @ configFile)))
           else
             (let serverScriptFile = path_join [''generated'', ''bundle'', ''server.js''];
                  serverExecutablePath = path_join [wunderGraphDir, serverScriptFile] in
              if \<not> FileExists fs serverExecutablePath
              then ([], Some (Err (''hooks server executable \"'' @ serverExecutablePath @ ''\" not found'')))
              else
                (let hookServerRunner = NewServerRunner
                       \<lparr>sc_dir = wunderGraphDir, sc_script = serverScriptFile, sc_production = True, sc_env = CliEnv environ flags\<rparr>;
                     (runner, es) = Run 0 hookServerRunner in
                 (es, script_error (\<lambda>_. status (run_options hookServerRunner)) ''hooks-server-runner'' runner)))))"

record start_flags =
  sf_root :: root_flags
  sf_no_force_https :: bool
  sf_introspection :: bool
  sf_shutdown_after_idle :: int
  sf_health_timeout :: int

definition start_options :: "start_flags \<Rightarrow> bool \<Rightarrow> wundernode_config \<Rightarrow> option_fn list" where
  "start_options flags hooksServerHealthCheck wunderNodeConfig =
     [WithStaticWunderNodeConfig wunderNodeConfig, WithDebugMode (rf_debug (sf_root flags)),
      WithForceHttpsRedirects (\<not> sf_no_force_https flags), WithIntrospection (sf_introspection flags)]
     @ (if 0 < sf_shutdown_after_idle flags then [WithIdleTimeout (wrap64 (sf_shutdown_after_idle flags * second))] else [])
     @ (if hooksServerHealthCheck then [WithHooksServerHealthCheck (wrap64 (sf_health_timeout flags * second))] else [])"

definition StartWunderGraphNode ::
    "(string \<Rightarrow> string) \<Rightarrow> files_env \<Rightarrow> (bytes \<Rightarrow> wg_config res) \<Rightarrow> start_flags \<Rightarrow> bool \<Rightarrow> string \<Rightarrow> goroutine list res outcome" where
  "StartWunderGraphNode vars fs decode flags hooksServerHealthCheck wundergraphDir =
     (let configFile = path_join [wundergraphDir, ''generated'', ''wundergraph.config.json''] in
      if \<not> FileExists fs configFile then Returned (Inl (Err (''could not find configuration file: '' @ configFile)))
      else
        (case fe_read fs configFile of
           Inl err \<Rightarrow> Returned (Inl err)
         | Inr data \<Rightarrow>
             (if length data = 0 then Returned (Inl (Err ''config file is empty''))
              else
                (case decode data of
                   Inl _ \<Rightarrow> Returned (Inl (Err ''failed to unmarshal config file''))
                 | Inr graphConfig \<Rightarrow>
                     bind_out (CreateConfig vars graphConfig) (\<lambda>r. Returned
                       (case r of
                          Inl err \<Rightarrow> Inl err
                        | Inr wunderNodeConfig \<Rightarrow>
                            StartBlocking (start_options flags hooksServerHealthCheck wunderNodeConfig)))))))"

section \<open>Generating\<close>

text \<open>
  Of the two goroutines that bundle, the error of the one that returns first is kept; \<open>ge_webhooks_first\<close>
  is whether this is that of the webhooks.
\<close>

record generate_env =
  ge_files :: files_env
  ge_config :: bundler_env
  ge_hooks :: bundler_env
  ge_webhooks :: bundler_env
  ge_status :: "cmd_options \<Rightarrow> script_status"
  ge_webhooks_first :: bool

record generate_flags =
  gf_root :: root_flags
  gf_environ :: "string list"
  gf_publish :: bool
  gf_no_cache :: bool
  gf_offline :: bool
  gf_binary :: string

definition project_bundler :: "string \<Rightarrow> string list \<Rightarrow> string list \<Rightarrow> string \<Rightarrow> string \<Rightarrow> bool \<Rightarrow> bundler_config" where
  "project_bundler wunderGraphDir entry ignore outFile outDir after =
     \<lparr>bc_dir = wunderGraphDir, bc_skip_entry = False, bc_entry = entry, bc_watch = [], bc_ignore = ignore,
      bc_out_file = outFile, bc_out_dir = outDir, bc_after = after\<rparr>"

definition generate_runner :: "generate_flags \<Rightarrow> string \<Rightarrow> script_runner" where
  "generate_runner flags wunderGraphDir =
     NewScriptRunner ''node'' [''generated/bundle/config.js'']
       (CliEnv (gf_environ flags) (gf_root flags)
         @ [''NODE_ENV=production'', ''WUNDERGRAPH_PUBLISH_API='' @ bool_text (gf_publish flags),
            ''WG_ENABLE_INTROSPECTION_CACHE='' @ bool_text (\<not> gf_no_cache flags),
            ''WG_ENABLE_INTROSPECTION_OFFLINE='' @ bool_text (gf_offline flags),
            ''WG_DIR_ABS='' @ wunderGraphDir, ''WUNDERCTL_BINARY_PATH='' @ gf_binary flags])
       [] wunderGraphDir"

definition bundle_error :: "bundler_env \<Rightarrow> bundler_config \<Rightarrow> go_error option outcome" where
  "bundle_error env cfg = bind_out (Bundle env (NewBundler cfg)) (\<lambda>(b, err). Returned err)"

definition first_error :: "bool \<Rightarrow> go_error option \<Rightarrow> go_error option \<Rightarrow> go_error option" where
  "first_error second_first e1 e2 =
     (if second_first then (case e2 of None \<Rightarrow> e1 | Some e \<Rightarrow> Some e)
      else (case e1 of None \<Rightarrow> e2 | Some e \<Rightarrow> Some e))"

text \<open>The callback of the bundler of the configuration, with the bundlers of the server and the webhooks if
  there are any.\<close>

definition generate_after ::
    "generate_env \<Rightarrow> script_runner \<Rightarrow> bundler_config option \<Rightarrow> bundler_config option \<Rightarrow> go_error option outcome" where
  "generate_after env configRunner hooksBundler webhooksBundler =
     (let status = (\<lambda>_. ge_status env (run_options configRunner));
          (configRunner, es) = Run 0 configRunner in
      if \<not> Successful status configRunner then
        Returned (Some (Err (''configuration could not be generated. Process exit with code '' @
          itoa_int (ExitCode status configRunner))))
      else
        (case hooksBundler of
           None \<Rightarrow> Returned None
         | Some hooks \<Rightarrow>
             bind_out (bundle_error (ge_hooks env) hooks) (\<lambda>e1.
             bind_out (case webhooksBundler of
                 None \<Rightarrow> Returned None
               | Some webhooks \<Rightarrow> bundle_error ((ge_webhooks env)\<lparr>be_after := \<lambda>_. Returned None\<rparr>) webhooks) (\<lambda>e2.
             Returned (first_error (ge_webhooks_first env) e1 e2)))))"

definition webhooks_bundler :: "generate_env \<Rightarrow> string \<Rightarrow> bundler_config option res" where
  "webhooks_bundler env wunderGraphDir =
     (if DirectoryExists (ge_files env) (path_join [wunderGraphDir, ''webhooks'']) then
        map_sum id (\<lambda>webhookPaths. Some (project_bundler wunderGraphDir webhookPaths [] [] ''generated/bundle/webhooks'' True))
          (GetWebhooks (ge_files env) wunderGraphDir)
      else Inr None)"

definition generate_command :: "generate_env \<Rightarrow> generate_flags \<Rightarrow> string \<Rightarrow> go_error option outcome" where
  "generate_command env flags dirFlag =
     (case FindWunderGraphDir (ge_files env) dirFlag of
        Inl err \<Rightarrow> Returned (Some err)
      | Inr wunderGraphDir \<Rightarrow>
          (case CodeFilePath (ge_files env) wunderGraphDir ''wundergraph.config.ts'' of
             Inl err \<Rightarrow> Returned (Some err)
           | Inr _ \<Rightarrow>
               (let configRunner = generate_runner flags wunderGraphDir;
                    config = project_bundler wunderGraphDir [''wundergraph.config.ts''] [''generated'', ''node_modules'']
                      ''generated/bundle/config.js'' [] True in
                case CodeFilePath (ge_files env) wunderGraphDir ''wundergraph.server.ts'' of
                  Inl _ \<Rightarrow>
                    bundle_error ((ge_config env)\<lparr>be_after := \<lambda>_. generate_after env configRunner None None\<rparr>) config
                | Inr _ \<Rightarrow>
                    (let hooks = project_bundler wunderGraphDir [''wundergraph.server.ts''] []
                           (path_join [wunderGraphDir, ''generated'', ''bundle'', ''server.js'']) [] False in
                     case webhooks_bundler env wunderGraphDir of
                       Inl err \<Rightarrow> Returned (Some err)
                     | Inr webhooks \<Rightarrow>
                         bundle_error ((ge_config env)\<lparr>be_after := \<lambda>_. generate_after env configRunner (Some hooks) webhooks\<rparr>)
                           config))))"

section \<open>Developing\<close>

definition up_watch_paths :: "string \<Rightarrow> watch_path list" where
  "up_watch_paths wunderGraphDir =
     [\<lparr>wp_optional = True, wp_path = path_join [wunderGraphDir, ''operations'']\<rparr>,
      \<lparr>wp_optional = True, wp_path = path_join [wunderGraphDir, ''fragments'']\<rparr>,
      \<lparr>wp_optional = True, wp_path = path_join [wunderGraphDir, ''webhooks'']\<rparr>,
      \<lparr>wp_optional = False, wp_path = path_join [wunderGraphDir, ''cache'', ''introspection'']\<rparr>]"

definition up_config_bundler :: "string \<Rightarrow> bundler_config" where
  "up_config_bundler wunderGraphDir =
     (project_bundler wunderGraphDir [''wundergraph.config.ts''] [''node_modules''] ''generated/bundle/config.js'' [] True)
       \<lparr>bc_watch := up_watch_paths wunderGraphDir\<rparr>"

text \<open>
  What the callback of this bundler does, in order; it has no error. The two bundlers run side by side,
  and their errors are ignored; the last two go on beside whatever comes next.
\<close>

datatype up_event = GenerateConfig | BundleHooks | BundleWebhooks | RestartHooksServer | RestartPoller

definition up_after_build :: "bool \<Rightarrow> bool \<Rightarrow> up_event list" where
  "up_after_build has_server has_webhooks =
     (if has_server
      then [GenerateConfig, BundleHooks] @ (if has_webhooks then [BundleWebhooks] else []) @ [RestartHooksServer, RestartPoller]
      else [GenerateConfig, RestartPoller])"

text \<open>What \<open>Watch\<close> of the bundler hands to the watcher.\<close>

definition bundler_watch_config :: "bundler \<Rightarrow> watch_config" where
  "bundler_watch_config b = \<lparr>wc_paths = bd_watch b, wc_ignore = bd_ignore b\<rparr>"

section \<open>Facts\<close>

text \<open>The files of a template below an output directory, in the order of the walk.\<close>

fun asset_files :: "string \<Rightarrow> (string \<times> asset) list \<Rightarrow> file_writes" where
  "asset_files dir [] = []"
| "asset_files dir ((name, AssetDir sub) # entries) = asset_files (path_join [dir, name]) sub @ asset_files dir entries"
| "asset_files dir ((name, AssetFile data) # entries) = (path_join [dir, name], data) # asset_files dir entries"

lemma traverseDirectory_writes:
  "traverseDirectory write_file dir entries ws = (ws', r) \<Longrightarrow>
     \<exists>done rest. asset_files dir entries = done @ rest \<and> ws' = ws @ done
       \<and> (case r of None \<Rightarrow> rest = [] | Some err \<Rightarrow> rest \<noteq> [] \<and> write_file ws' (fst (hd rest)) = Some err)"
proof (induction write_file dir entries ws arbitrary: ws' r rule: traverseDirectory.induct)
  case (2 write_file dir name sub entries ws)
  obtain ws1 r1 where sub: "traverseDirectory write_file (path_join [dir, name]) sub ws = (ws1, r1)"
    by (cases "traverseDirectory write_file (path_join [dir, name]) sub ws")
  show ?case
  proof (cases r1)
    case None
    with "2.IH"(1) [OF sub] have "ws1 = ws @ asset_files (path_join [dir, name]) sub" by auto
    moreover from "2.prems" sub None have "traverseDirectory write_file dir entries ws1 = (ws', r)" by simp
    ultimately show ?thesis using "2.IH"(2) [OF sub [symmetric] None] by fastforce
  next
    case (Some err)
    with "2.prems" sub have "ws' = ws1" "r = Some err" by simp_all
    moreover obtain d rest where "asset_files (path_join [dir, name]) sub = d @ rest" "ws1 = ws @ d" "rest \<noteq> []"
      "write_file ws1 (fst (hd rest)) = Some err" using "2.IH"(1) [OF sub] Some by auto
    ultimately show ?thesis by (intro exI [of _ d] exI [of _ "rest @ asset_files dir entries"]) simp
  qed
next
  case (3 write_file dir name data entries ws)
  let ?out = "path_join [dir, name]"
  show ?case
  proof (cases "write_file ws ?out")
    case None
    with "3.prems" have "traverseDirectory write_file dir entries (ws @ [(?out, data)]) = (ws', r)" by simp
    from "3.IH" [OF refl None this] show ?thesis by fastforce
  next
    case (Some err)
    with "3.prems" have "ws' = ws" "r = Some err" by simp_all
    with Some show ?thesis
      by (intro exI [of _ "[]"] exI [of _ "asset_files dir ((name, AssetFile data) # entries)"]) simp
  qed
qed simp

lemma bundle_error_None:
  "bundle_error env cfg = Returned None \<longleftrightarrow>
     be_errors env [] = [] \<and> (bc_after cfg \<longrightarrow>
       be_after env [InitialBuild (build_options_of (NewBundler cfg))] = Returned None)"
proof -
  have "bd_calls (initialBuild env (NewBundler cfg)) = [InitialBuild (build_options_of (NewBundler cfg))]"
    "bd_after (initialBuild env (NewBundler cfg)) = bc_after cfg" "\<not> bd_built (NewBundler cfg)" "bd_calls (NewBundler cfg) = []"
    by (simp_all add: initialBuild_def) (simp_all add: NewBundler_def)
  then show ?thesis
    by (auto simp: bundle_error_def Bundle_def Let_def bind_out_Returned_iff build_failed_def split: list.splits option.splits)
qed

lemma first_error_None [simp]: "first_error b e1 e2 = None \<longleftrightarrow> e1 = None \<and> e2 = None"
  by (auto simp: first_error_def split: option.split)

lemma generate_successful:
  "Successful (\<lambda>_. status) (fst (Run cmd runner)) \<longleftrightarrow> ss_error status = None \<and> ss_exit status \<le> 0"
  by (auto simp: Successful_def Run_def)

lemma generate_after_None:
  "generate_after env runner hooks webhooks = Returned None \<longleftrightarrow>
     ss_error (ge_status env (run_options runner)) = None \<and> ss_exit (ge_status env (run_options runner)) \<le> 0
     \<and> (case hooks of None \<Rightarrow> True | Some h \<Rightarrow> bundle_error (ge_hooks env) h = Returned None
          \<and> (webhooks \<noteq> None \<longrightarrow> be_errors (ge_webhooks env) [] = []))"
proof -
  obtain r es where run: "Run 0 runner = (r, es)" by (cases "Run 0 runner")
  with generate_successful [of "ge_status env (run_options runner)" 0 runner] show ?thesis
    by (auto simp: generate_after_def Let_def bind_out_Returned_iff bundle_error_None split: option.splits)
qed

lemma webhooks_bundler_Inl:
  "webhooks_bundler env dir = Inl err \<longleftrightarrow>
     DirectoryExists (ge_files env) (path_join [dir, ''webhooks'']) \<and> GetWebhooks (ge_files env) dir = Inl err"
  by (cases "GetWebhooks (ge_files env) dir") (auto simp: webhooks_bundler_def)

lemma webhooks_bundler_Inr:
  "webhooks_bundler env dir = Inr webhooks \<Longrightarrow>
     (webhooks \<noteq> None \<longleftrightarrow> DirectoryExists (ge_files env) (path_join [dir, ''webhooks'']))
     \<and> (webhooks \<noteq> None \<longrightarrow> (\<exists>paths. GetWebhooks (ge_files env) dir = Inr paths))"
  by (cases "GetWebhooks (ge_files env) dir") (auto simp: webhooks_bundler_def split: if_splits)

text \<open>Whatever happens to the integrations file, the change of the manifest is saved before.\<close>

lemma manifest_saved_first:
  assumes "manifest_command cd change message write_file dk = (dk', f, r)"
    and "Manifest.Load cd dk New = (man0, None)" "change man0 = (man, None)" "PersistChanges cd dk man = (dk1, None)"
  shows "dk' = dk1 \<and> (r = None \<longleftrightarrow> snd (write_file man) = None)"
  using assms by (auto simp: manifest_command_def split: prod.splits option.splits)

text \<open>Every argument is answered, and one that cannot be published does not end the command.\<close>

lemma publish_all_length: "publish_all one args s = (rs, s') \<Longrightarrow> length rs = length args"
  by (induction args arbitrary: s rs s') (auto split: prod.splits)

text \<open>What the plugin of a bundler does to its watch list: it appends.\<close>

lemma run_build_watch: "\<exists>new. bd_watch (run_build env c b) = bd_watch b @ new"
  using run_build_watch_inv [OF order_refl, of env b c] by (auto simp: watch_inv_def)

lemma Bundle_watch_new:
  assumes "Bundle env b = Returned (b', err)"
  shows "\<exists>new. bd_watch b' = bd_watch b @ new"
proof -
  obtain b1 where b1: "b1 = (run_build env (if bd_built b then Rebuild else InitialBuild (build_options_of b)) b)\<lparr>bd_built := True\<rparr>"
    "b' = b1 \<and> (be_errors env (bd_calls b) \<noteq> [] \<or> \<not> bd_after b)
     \<or> b' = bundler_call AfterBundle b1 \<and> be_errors env (bd_calls b) = [] \<and> bd_after b"
    by (rule Bundle_cases [OF assms])
  then have "bd_watch b' = bd_watch (run_build env (if bd_built b then Rebuild else InitialBuild (build_options_of b)) b)"
    by auto
  with run_build_watch show ?thesis by metis
qed

lemma bundle_all_watch: "bundle_all env n b = Returned b' \<Longrightarrow> \<exists>new. bd_watch b' = bd_watch b @ new"
proof (induction n arbitrary: b)
  case (Suc n)
  then obtain b1 err where "Bundle env b = Returned (b1, err)" "bundle_all env n b1 = Returned b'"
    by (auto simp: bind_out_Returned_iff)
  with Suc.IH [of b1] Bundle_watch_new show ?case by fastforce
qed simp

lemma WalkDir_missing: "WalkDir (walk_fn cfg False ae) root NotThere W = (W, Some (not_found_error root))"
  by (simp add: WalkDir_def walk_fn_def)

lemma walk_paths_missing:
  assumes "p \<in> set ps" "\<not> wp_optional p" "tree (wp_path p) = NotThere"
  shows "\<exists>W' err. walk_paths cfg ae tree ps W = (W', Some err)"
  using assms(1)
proof (induction ps arbitrary: W)
  case (Cons q ps)
  obtain W' r where walk: "WalkDir (walk_fn cfg (wp_optional q) ae) (wp_path q) (tree (wp_path q)) W = (W', r)"
    by (cases "WalkDir (walk_fn cfg (wp_optional q) ae) (wp_path q) (tree (wp_path q)) W")
  show ?case
  proof (cases r)
    case None
    with walk assms have "q \<noteq> p" by (auto simp: WalkDir_missing)
    with Cons None walk show ?thesis by simp
  next
    case (Some err)
    with walk show ?thesis by simp
  qed
qed simp

section \<open>Properties\<close>

text \<open>C36: \<open>generate\<close> succeeds exactly when the project and its configuration are found, the configuration bundles,
  the script it starts ends well, and, if there is a server, this bundles, and if there are webhooks, their
  directory is readable and they bundle, too.\<close>

theorem generate_succeeds_iff:
  "generate_command env flags dirFlag = Returned None \<longleftrightarrow>
     (\<exists>dir. FindWunderGraphDir (ge_files env) dirFlag = Inr dir
      \<and> FileExists (ge_files env) (path_join [dir, ''wundergraph.config.ts''])
      \<and> be_errors (ge_config env) [] = []
      \<and> ss_error (ge_status env (run_options (generate_runner flags dir))) = None
      \<and> ss_exit (ge_status env (run_options (generate_runner flags dir))) \<le> 0
      \<and> (FileExists (ge_files env) (path_join [dir, ''wundergraph.server.ts'']) \<longrightarrow>
           be_errors (ge_hooks env) [] = []
           \<and> (DirectoryExists (ge_files env) (path_join [dir, ''webhooks'']) \<longrightarrow>
                (\<exists>paths. GetWebhooks (ge_files env) dir = Inr paths) \<and> be_errors (ge_webhooks env) [] = [])))"
proof (cases "FindWunderGraphDir (ge_files env) dirFlag")
  case (Inl err)
  then show ?thesis by (simp add: generate_command_def)
next
  case (Inr dir)
  have server: "bc_after (project_bundler d e i f g True)" "\<not> bc_after (project_bundler d e i f g False)" for d e i f g
    by (simp_all add: project_bundler_def)
  note defs = generate_command_def Inr CodeFilePath_def Let_def bundle_error_None server generate_after_None
  show ?thesis
  proof (cases "webhooks_bundler env dir")
    case none: (Inl err)
    then have "DirectoryExists (ge_files env) (path_join [dir, ''webhooks''])" "GetWebhooks (ge_files env) dir = Inl err"
      by (simp_all add: webhooks_bundler_Inl)
    with none show ?thesis by (auto simp: defs)
  next
    case some: (Inr webhooks)
    with webhooks_bundler_Inr [OF some] show ?thesis
      by (cases "DirectoryExists (ge_files env) (path_join [dir, ''webhooks''])") (auto simp: defs)
  qed
qed

text \<open>C40: in development, when the directory of the introspection cache does not exist, the watcher of the
  configuration ends with an error before it has reported a change, however the imports of the
  configuration have extended its list: the project is built once and never again.\<close>

theorem up_without_cache_never_watches:
  assumes "bundle_all env n (NewBundler (up_config_bundler dir)) = Returned b"
    and "tree (path_join [dir, ''cache'', ''introspection'']) = NotThere"
  shows "\<exists>w err. Watch (bundler_watch_config b) ae fn tree es = (w, Some (Some err)) \<and> wa_calls w = []"
proof -
  obtain new where new: "bd_watch b = up_watch_paths dir @ new"
    using bundle_all_watch [OF assms(1)] by (auto simp: NewBundler_def up_config_bundler_def)
  let ?p = "\<lparr>wp_optional = False, wp_path = path_join [dir, ''cache'', ''introspection'']\<rparr>"
  have "?p \<in> set (wc_paths (bundler_watch_config b))"
    by (simp add: bundler_watch_config_def new up_watch_paths_def)
  then obtain W' err where "walk_paths (bundler_watch_config b) ae tree (wc_paths (bundler_watch_config b)) {} = (W', Some err)"
    using walk_paths_missing [of ?p _ tree] assms(2) by fastforce
  then show ?thesis by (simp add: Watch_def new_watch_def)
qed

text \<open>\<open>init\<close> writes the files of the template one by one below the output directory; without an error it has
  written all of them, and an error is that of the first file that cannot be written.\<close>

theorem init_writes_template:
  assumes "ByName templates name = Some tmpl" "tp_input tmpl = AssetDir entries" "out \<noteq> []"
    and "init_command write_file templates name out = (ws, r)"
  shows "\<exists>rest. asset_files out entries = ws @ rest
    \<and> (case r of None \<Rightarrow> rest = [] | Some err \<Rightarrow> rest \<noteq> [] \<and> write_file ws (fst (hd rest)) = Some err)"
  using traverseDirectory_writes [of write_file out entries "[]" ws r] assms
  by (auto simp: init_command_def Apply_def)

section \<open>A project\<close>

definition sample_files :: files_env where
  "sample_files =
     \<lparr>fe_stat = (\<lambda>p. if p = ''/app'' \<or> p = ''/app/webhooks'' then PathDir
        else if p = ''/app/wundergraph.config.ts'' \<or> p = ''/app/wundergraph.server.ts'' then PathFile else NoPath),
      fe_abs = (\<lambda>p. Inr ''/app''), fe_wd = Inr ''/'', fe_read = (\<lambda>p. Inr []),
      fe_dir = (\<lambda>p. Inr [(''stripe.ts'', False), (''types.d.ts'', False)])\<rparr>"

definition sample_generate :: "int \<Rightarrow> generate_env" where
  "sample_generate exit_code =
     \<lparr>ge_files = sample_files, ge_config = sample_bundler_env, ge_hooks = sample_bundler_env, ge_webhooks = sample_bundler_env,
      ge_status = (\<lambda>_. \<lparr>ss_exit = exit_code, ss_error = None\<rparr>), ge_webhooks_first = False\<rparr>"

definition sample_flags :: generate_flags where
  "sample_flags =
     \<lparr>gf_root = \<lparr>rf_log_level = ''info'', rf_pretty = True, rf_debug = False\<rparr>, gf_environ = [], gf_publish = False,
      gf_no_cache = False, gf_offline = False, gf_binary = ''wunderctl''\<rparr>"

lemma sample_paths:
  "path_join [''/app'', ''wundergraph.config.ts''] = ''/app/wundergraph.config.ts''"
  "path_join [''/app'', ''wundergraph.server.ts''] = ''/app/wundergraph.server.ts''"
  "path_join [''/app'', ''webhooks''] = ''/app/webhooks''"
  by code_simp+

theorem generate_succeeds_iff_witness:
  "generate_command (sample_generate 0) sample_flags ''.wundergraph'' = Returned None
   \<and> generate_command (sample_generate 1) sample_flags ''.wundergraph'' \<noteq> Returned None"
proof -
  have dir: "FindWunderGraphDir sample_files ''.wundergraph'' = Inr ''/app''"
    by (simp add: FindWunderGraphDir_def DirectoryExists_def sample_files_def)
  have "FileExists sample_files ''/app/wundergraph.config.ts''" "\<exists>paths. GetWebhooks sample_files ''/app'' = Inr paths"
    by (simp_all add: FileExists_def GetWebhooks_def sample_files_def)
  with dir show ?thesis
    by (simp add: generate_succeeds_iff sample_generate_def sample_paths sample_bundler_env_def)
qed

theorem up_without_cache_never_watches_witness:
  "\<exists>b w err. bundle_all sample_bundler_env 1 (NewBundler (up_config_bundler ''/app'')) = Returned b
     \<and> Watch (bundler_watch_config b) (\<lambda>_. None) (\<lambda>_ _. None) (\<lambda>_. NotThere) [] = (w, Some (Some err))"
proof -
  have "(case bundle_all sample_bundler_env 1 (NewBundler (up_config_bundler ''/app'')) of
      Returned b \<Rightarrow> True | Panicked m \<Rightarrow> False)"
    by code_simp
  then obtain b where b: "bundle_all sample_bundler_env 1 (NewBundler (up_config_bundler ''/app'')) = Returned b"
    by (cases "bundle_all sample_bundler_env 1 (NewBundler (up_config_bundler ''/app''))") simp_all
  from up_without_cache_never_watches [OF b, of "\<lambda>_. NotThere" "\<lambda>_. None" "\<lambda>_ _. None" "[]"] b
  show ?thesis by auto
qed

definition sample_template :: template where
  "sample_template =
     \<lparr>tp_name = ''application'', tp_input = AssetDir [(''.gitignore'', AssetFile ''generated''),
        (''.wundergraph'', AssetDir [(''tsconfig.json'', AssetFile ''{}'')])], tp_default = []\<rparr>"

theorem init_writes_template_witness:
  "init_command (\<lambda>_ _. None) [sample_template] ''application'' ''out''
     = ([(''out/.gitignore'', ''generated''), (''out/.wundergraph/tsconfig.json'', ''{}'')], None)"
proof -
  obtain ws r where run: "init_command (\<lambda>_ _. None) [sample_template] ''application'' ''out'' = (ws, r)"
    by (cases "init_command (\<lambda>_ _. None) [sample_template] ''application'' ''out''")
  have found: "ByName [sample_template] ''application'' = Some sample_template"
    by (simp add: ByName_def sample_template_def)
  have files: "asset_files ''out'' [(''.gitignore'', AssetFile ''generated''),
        (''.wundergraph'', AssetDir [(''tsconfig.json'', AssetFile ''{}'')])]
      = [(''out/.gitignore'', ''generated''), (''out/.wundergraph/tsconfig.json'', ''{}'')]"
    by code_simp
  have "tp_input sample_template = AssetDir [(''.gitignore'', AssetFile ''generated''),
        (''.wundergraph'', AssetDir [(''tsconfig.json'', AssetFile ''{}'')])]" by (simp add: sample_template_def)
  from init_writes_template [OF found this _ run] files run show ?thesis by (auto split: option.splits)
qed

end
