(* ===== verification/CliIntrospect.thy ===== *)
theory CliIntrospect
  imports CliCommands DatabaseSource
begin

text \<open>
  The commands that introspect a database (cli/commands), with the introspection itself
  (pkg/datasources/database/introspection.go and engine.go), and what every command does first: reading
  the configuration of the user (pkg/config) and the flags (root.go).
\<close>

section \<open>Asking the query engine\<close>

text \<open>A turn of the loops of \<open>IntrospectGraphQLSchema\<close> and \<open>IntrospectDMMF\<close>; there is no pause between turns.\<close>

datatype engine_turn = CtxEnded | GetFails | GetAnswers nat "bytes res"

fun introspect_get :: "(bytes \<Rightarrow> string res) \<Rightarrow> engine_turn list \<Rightarrow> string res option" where
  "introspect_get f [] = None"
| "introspect_get f (CtxEnded # ts) = Some (Inl (Err ''context cancelled''))"
| "introspect_get f (GetFails # ts) = introspect_get f ts"
| "introspect_get f (GetAnswers status body # ts) =
     (if status \<noteq> 200 then introspect_get f ts else Some (bind_res body f))"

definition sdl_prefix :: string where
  "sdl_prefix = ''schema { query: Query mutation: Mutation }'' @ [CHR 0x0A]"

text \<open>\<open>repair\<close> is the library that repairs the schema.\<close>

definition IntrospectGraphQLSchema ::
    "prisma_env \<Rightarrow> string \<Rightarrow> (string \<Rightarrow> string res) \<Rightarrow> engine_turn list \<Rightarrow> string res option" where
  "IntrospectGraphQLSchema pe dir repair turns =
     (case snd (ensurePrisma pe dir) of
        Some err \<Rightarrow> Some (Inl err)
      | None \<Rightarrow> introspect_get (\<lambda>data. repair (sdl_prefix @ data)) turns)"

definition IntrospectDMMF :: "prisma_env \<Rightarrow> string \<Rightarrow> engine_turn list \<Rightarrow> string res option" where
  "IntrospectDMMF pe dir turns =
     (case snd (ensurePrisma pe dir) of
        Some err \<Rightarrow> Some (Inl err)
      | None \<Rightarrow> introspect_get Inr turns)"

text \<open>The events of the introspection process and the turns of the two loops, one after the other; \<open>None\<close> is
  an introspection that still runs when they end.\<close>

record introspection_run =
  ir_events :: "prisma_event list"
  ir_sdl :: "engine_turn list"
  ir_dmmf :: "engine_turn list"

definition IntrospectPrismaDatabase ::
    "prisma_env \<Rightarrow> (bytes \<Rightarrow> (string + string) option) \<Rightarrow> (string \<Rightarrow> string res) \<Rightarrow> introspection_run \<Rightarrow> string
      \<Rightarrow> (string \<times> string \<times> string) res option" where
  "IntrospectPrismaDatabase pe decode repair run wundergraphDir =
     (case IntrospectPrismaDatabaseSchema pe wundergraphDir decode (ir_events run) of
        None \<Rightarrow> None
      | Some (Inl err) \<Rightarrow> Some (Inl err)
      | Some (Inr prismaSchema) \<Rightarrow>
          (case snd (StartQueryEngine pe wundergraphDir) of
             Inl err \<Rightarrow> Some (Inl err)
           | Inr url \<Rightarrow>
               (case IntrospectGraphQLSchema pe wundergraphDir repair (ir_sdl run) of
                  None \<Rightarrow> None
                | Some (Inl err) \<Rightarrow> Some (Inl err)
                | Some (Inr graphqlSDL) \<Rightarrow>
                    map_option (map_sum id (\<lambda>dmmf. (prismaSchema, graphqlSDL, dmmf)))
                      (IntrospectDMMF pe wundergraphDir (ir_dmmf run)))))"

section \<open>The commands\<close>

datatype database_kind = PostgreSQL | MySQL | SQLite | SQLServer | MongoDB | PlanetScale

definition provider_name :: "database_kind \<Rightarrow> string" where
  "provider_name kind =
     (case kind of
        PostgreSQL \<Rightarrow> ''postgresql'' | MySQL \<Rightarrow> ''mysql'' | SQLite \<Rightarrow> ''sqlite'' | SQLServer \<Rightarrow> ''sqlserver''
      | MongoDB \<Rightarrow> ''mongodb'' | PlanetScale \<Rightarrow> ''mysql'')"

definition introspection_schema :: "database_kind \<Rightarrow> string \<Rightarrow> string" where
  "introspection_schema kind databaseURL =
     (let nl = [CHR 0x0A]; tab = [CHR 0x09];
          indent = (if kind = MongoDB then ''  '' else tab @ tab @ tab);
          end_of = (if kind = MongoDB then nl @ ''}'' @ nl else nl @ tab @ tab @ ''}'') in
      ''datasource db {'' @ nl @ indent @ ''provider = \"'' @ provider_name kind @ ''\"'' @ nl
        @ indent @ ''url      = \"'' @ databaseURL @ ''\"'' @ end_of)"

text \<open>Of the URL of a PlanetScale database \<open>strict_url\<close> sets the query parameter sslaccept.\<close>

definition database_url :: "(string \<Rightarrow> string option) \<Rightarrow> database_kind \<Rightarrow> string \<Rightarrow> string res" where
  "database_url strict_url kind arg =
     (if kind = PlanetScale then (case strict_url arg of None \<Rightarrow> Inl (Err ''invalid database url'') | Some url \<Rightarrow> Inr url)
      else Inr arg)"

record introspection_result =
  in_prisma :: string
  in_graphql :: string
  in_dmmf :: bytes

datatype emitted = NothingEmitted go_error | WroteFile string bytes | Printed bytes

text \<open>\<open>mkdir\<close> and \<open>write_file\<close> are the errors of the file system; they are logged only.\<close>

definition emitIntrospectionResult ::
    "(introspection_result \<Rightarrow> bytes res) \<Rightarrow> files_env \<Rightarrow> (string \<Rightarrow> string) \<Rightarrow> (string \<Rightarrow> go_error option)
      \<Rightarrow> (string \<Rightarrow> go_error option) \<Rightarrow> string \<Rightarrow> introspection_result \<Rightarrow> emitted" where
  "emitIntrospectionResult marshal fs dir_of mkdir write_file outfile result =
     (case marshal result of
        Inl err \<Rightarrow> NothingEmitted err
      | Inr data \<Rightarrow>
          (if outfile \<noteq> [] then
             (case (if fe_stat fs (dir_of outfile) = NoPath then mkdir (dir_of outfile) else None) of
                Some err \<Rightarrow> NothingEmitted err
              | None \<Rightarrow>
                  (case write_file outfile of
                     Some err \<Rightarrow> NothingEmitted err
                   | None \<Rightarrow> WroteFile outfile data))
           else Printed data))"

text \<open>\<open>introspect\<close> is the introspection of a schema in a directory, \<open>emit\<close> the printing of its result.\<close>

definition introspect_command ::
    "files_env \<Rightarrow> (string \<Rightarrow> string option) \<Rightarrow> (string \<Rightarrow> string \<Rightarrow> (string \<times> string \<times> string) res option)
      \<Rightarrow> (introspection_result \<Rightarrow> emitted) \<Rightarrow> database_kind \<Rightarrow> string \<Rightarrow> string \<Rightarrow> emitted res option" where
  "introspect_command fs strict_url introspect emit kind dirFlag arg =
     (case FindWunderGraphDir fs dirFlag of
        Inl err \<Rightarrow> Some (Inl err)
      | Inr wunderGraphDir \<Rightarrow>
          (case database_url strict_url kind arg of
             Inl err \<Rightarrow> Some (Inl err)
           | Inr databaseURL \<Rightarrow>
               map_option (map_sum id (\<lambda>(prismaSchema, graphqlSDL, dmmf).
                   emit \<lparr>in_prisma = prismaSchema, in_graphql = graphqlSDL, in_dmmf = dmmf\<rparr>))
                 (introspect (introspection_schema kind databaseURL) wunderGraphDir)))"

section \<open>Before every command\<close>

text \<open>The directory of the configuration; \<open>home\<close> is that of the user.\<close>

definition initConfigDir :: "string res \<Rightarrow> files_env \<Rightarrow> (string \<Rightarrow> go_error option) \<Rightarrow> string res" where
  "initConfigDir home fs mkdir =
     (case home of
        Inl err \<Rightarrow> Inl err
      | Inr homeDir \<Rightarrow>
          (let dir = path_join [homeDir, ''.wundergraph''] in
           if \<not> DirectoryExists fs dir then (case mkdir dir of Some err \<Rightarrow> Inl err | None \<Rightarrow> Inr dir)
           else Inr dir))"

definition ConfigFilePath :: "string \<Rightarrow> string" where
  "ConfigFilePath configDir = path_join [configDir, ''config.json'']"

text \<open>What viper finds: a configuration, no file, or a file it cannot read, which ends the process.\<close>

datatype config_read = ConfigRead | ConfigMissing | ConfigBroken go_error

datatype init_config = NoConfigDir go_error | ConfigReady file_writes | ConfigFatal string

definition loadConfig :: "string \<Rightarrow> config_read \<Rightarrow> init_config" where
  "loadConfig configDir found =
     (if configDir = [] then ConfigReady []
      else
        (case found of
           ConfigRead \<Rightarrow> ConfigReady []
         | ConfigMissing \<Rightarrow> ConfigReady [(ConfigFilePath configDir, ''{}'')]
         | ConfigBroken err \<Rightarrow> ConfigFatal (''could not read config: '' @ err_text err)))"

definition InitConfig ::
    "string res \<Rightarrow> files_env \<Rightarrow> (string \<Rightarrow> go_error option) \<Rightarrow> config_read \<Rightarrow> init_config" where
  "InitConfig home fs mkdir found =
     (case initConfigDir home fs mkdir of
        Inl err \<Rightarrow> NoConfigDir err
      | Inr configDir \<Rightarrow> loadConfig configDir found)"

datatype env_file = EnvLoaded | EnvMissing | EnvBroken go_error

datatype pre_run = PreRunOk root_flags bool | PreRunError go_error | PreRunFatal go_error

text \<open>
  The result says whether the directory of the caches was removed; \<open>remove_all\<close> is the error of
  removing it, other than that it does not exist.
\<close>

definition PersistentPreRunE ::
    "files_env \<Rightarrow> (string \<Rightarrow> go_error option) \<Rightarrow> env_file \<Rightarrow> bool \<Rightarrow> bool \<Rightarrow> string \<Rightarrow> string \<Rightarrow> root_flags \<Rightarrow> pre_run" where
  "PersistentPreRunE fs remove_all env clearCache upPretty dirFlag cmd flags =
     (if cmd = ''loadoperations'' then PreRunOk flags False
      else
        (let flags = (if cmd = ''up'' then flags\<lparr>rf_pretty := upPretty\<rparr> else flags);
             flags = (if rf_debug flags then flags\<lparr>rf_log_level := ''debug''\<rparr> else flags) in
         case FindLogLevel (rf_log_level flags) of
           Inl err \<Rightarrow> PreRunError err
         | Inr logLevel \<Rightarrow>
             (case env of
                EnvBroken err \<Rightarrow> PreRunFatal err
              | _ \<Rightarrow>
                  (if clearCache then
                     (case FindWunderGraphDir fs dirFlag of
                        Inl err \<Rightarrow> PreRunError err
                      | Inr wunderGraphDir \<Rightarrow>
                          (case remove_all (path_join [wunderGraphDir, ''cache'']) of
                             Some err \<Rightarrow> PreRunError err
                           | None \<Rightarrow> PreRunOk flags True))
                   else PreRunOk flags False))))"

section \<open>Facts\<close>

text \<open>A command ends well although nothing was emitted.\<close>

lemma emit_errors_are_dropped:
  assumes "FindWunderGraphDir fs dirFlag = Inr dir" "kind \<noteq> PlanetScale"
    and "introspect (introspection_schema kind arg) dir = Some (Inr (p, g, m))" "write_file outfile = Some err"
    and "outfile \<noteq> []" "fe_stat fs (dir_of outfile) \<noteq> NoPath" "marshal \<lparr>in_prisma = p, in_graphql = g, in_dmmf = m\<rparr> = Inr data"
  shows "introspect_command fs strict_url introspect
    (emitIntrospectionResult marshal fs dir_of mkdir write_file outfile) kind dirFlag arg = Some (Inr (NothingEmitted err))"
  using assms by (simp add: introspect_command_def database_url_def emitIntrospectionResult_def)

text \<open>The introspection of a schema ends once the engine answers with 200 or the context ends, and not before.\<close>

lemma introspect_get_returns:
  "introspect_get f ts \<noteq> None \<longleftrightarrow> (\<exists>t \<in> set ts. t = CtxEnded \<or> (\<exists>body. t = GetAnswers 200 body))"
  by (induction f ts rule: introspect_get.induct) auto

lemma map_sum_Inr_iff: "map_sum f g r = Inr y \<longleftrightarrow> (\<exists>x. r = Inr x \<and> y = g x)"
  by (cases r) auto

text \<open>The schema an introspection returns is made of the answer of the query engine.\<close>

lemma introspected_schema:
  assumes "IntrospectPrismaDatabase pe decode repair run dir = Some (Inr (p, g, m))"
  shows "\<exists>data. GetAnswers 200 (Inr data) \<in> set (ir_sdl run) \<and> repair (sdl_prefix @ data) = Inr g
    \<and> GetAnswers 200 (Inr m) \<in> set (ir_dmmf run)"
proof -
  have get: "\<exists>data. GetAnswers 200 (Inr data) \<in> set ts \<and> f data = Inr x" if "introspect_get f ts = Some (Inr x)" for f ts x
    using that by (induction f ts rule: introspect_get.induct) (auto simp: bind_res_Inr_iff split: if_splits)
  from assms have "IntrospectGraphQLSchema pe dir repair (ir_sdl run) = Some (Inr g)"
    "IntrospectDMMF pe dir (ir_dmmf run) = Some (Inr m)"
    by (auto simp: IntrospectPrismaDatabase_def map_sum_Inr_iff split: option.splits sum.splits)
  then have "introspect_get (\<lambda>data. repair (sdl_prefix @ data)) (ir_sdl run) = Some (Inr g)"
    "introspect_get Inr (ir_dmmf run) = Some (Inr m)"
    by (auto simp: IntrospectGraphQLSchema_def IntrospectDMMF_def split: option.splits)
  from get [OF this(1)] get [OF this(2)] show ?thesis by auto
qed

end
