(* ===== verification/NodeServer.thy ===== *)
theory NodeServer
  imports ApiBuilder
begin

text \<open>
  A server of the node: the builder of the internal API (internalapihandler.go), and \<open>startServer\<close>,
  the health report and the endpoints of the node (node.go). The listeners, the template of the
  start page, the JSON encoder and the rate limiter are parameters.
\<close>

section \<open>The internal API\<close>

text \<open>
  A route of the internal API serves an operation with the variables extracted from it, by POST,
  below \<open>/internal\<close> and the prefix of the API. The names of types are renamed in responses.
\<close>

record internal_route =
  ir_path :: string
  ir_operation :: operation
  ir_extracted :: bytes

record internal_builder =
  ib_prefix :: string
  ib_routes :: "internal_route list"
  ib_renames :: "(string \<times> string) list"

definition NewInternalBuilder :: internal_builder where
  "NewInternalBuilder = \<lparr>ib_prefix = [], ib_routes = [], ib_renames = []\<rparr>"

definition internal_registerOperation ::
    "builder_lib \<Rightarrow> operation \<Rightarrow> internal_builder \<Rightarrow> internal_builder \<times> go_error option" where
  "internal_registerOperation lib operation i =
     (case bl_parse lib (op_content operation) of
        Some report \<Rightarrow> (i, Some report)
      | None \<Rightarrow>
          (case bl_validate lib operation of
             Some report \<Rightarrow> (i, Some report)
           | None \<Rightarrow>
               (let (plan, extracted, kind) = bl_plan lib operation;
                    route = \<lparr>ir_path = operation_path operation, ir_operation = operation, ir_extracted = extracted\<rparr> in
                if kind = Some QUERY \<or> kind = Some MUTATION then
                  (if plan = SyncPlanned then (i\<lparr>ib_routes := ib_routes i @ [route]\<rparr>, None) else (i, None))
                else (i, None))))"

fun internal_register_operations ::
    "builder_lib \<Rightarrow> operation list \<Rightarrow> internal_builder \<Rightarrow> go_error option \<Rightarrow> internal_builder \<times> go_error option" where
  "internal_register_operations lib [] i err = (i, err)"
| "internal_register_operations lib (operation # operations) i err =
     (let (i, err) = internal_registerOperation lib operation i in
      internal_register_operations lib operations i err)"

definition BuildAndMountInternalApiHandler ::
    "builder_lib \<Rightarrow> api \<Rightarrow> internal_builder \<Rightarrow> internal_builder \<times> go_error option" where
  "BuildAndMountInternalApiHandler lib api i =
     (case api_engine api of
        None \<Rightarrow> (i, None)
      | Some engine \<Rightarrow>
          (if (case api_auth api of None \<Rightarrow> True | Some auth \<Rightarrow> ac_hooks auth = None)
           then (i, Some (Err ''authentication config missing''))
           else if bl_load lib engine \<noteq> None then (i, bl_load lib engine)
           else if bl_schema lib (ec_schema engine) \<noteq> None then (i, bl_schema lib (ec_schema engine))
           else
             internal_register_operations lib (api_operations api)
               (i\<lparr>ib_prefix := ''/'' @ api_path_prefix api,
                  ib_renames := ib_renames i @ map (\<lambda>t. (tc_rename t, tc_name t)) (ec_types engine)\<rparr>) None))"

section \<open>Health\<close>

record build_info =
  bi_version :: string
  bi_commit :: string
  bi_date :: string
  bi_built_by :: string

record health_report =
  hp_server :: string
  hp_node :: string
  hp_build :: build_info

definition GetHealthReport ::
    "options \<Rightarrow> build_info \<Rightarrow> (string \<Rightarrow> nat res) \<Rightarrow> string \<Rightarrow> health_report \<times> bool" where
  "GetHealthReport opts info get serverUrl =
     (let healthCheck = \<lparr>hp_server = ''NOT_READY'', hp_node = ''READY'', hp_build = info\<rparr> in
      if op_hooks_health opts then
        (if DoHealthCheckRequest get serverUrl (op_health_timeout opts)
         then (healthCheck\<lparr>hp_server := ''READY''\<rparr>, True)
         else (healthCheck, False))
      else (healthCheck\<lparr>hp_server := ''SKIP''\<rparr>, True))"

definition no_cache :: string where "no_cache = ''no-cache, no-store, must-revalidate''"

text \<open>
  The start page; \<open>template\<close> is the lookup and parsing of its template, \<open>execute\<close> what the template
  writes for a report.
\<close>

definition root_handler ::
    "unit res \<Rightarrow> (health_report \<Rightarrow> bytes list) \<Rightarrow> health_report \<times> bool \<Rightarrow> writer \<Rightarrow> writer" where
  "root_handler template execute rep w =
     (case template of
        Inl err \<Rightarrow> write_header 500 w
      | Inr _ \<Rightarrow>
          (let (report, healthy) = rep;
               w = (if healthy then w else write_header 503 w);
               w = set_header ''Cache-Control'' no_cache w;
               w = set_header ''Content-Type'' ''text/html'' w in
           foldl (\<lambda>w chunk. w_write chunk w) w (execute report)))"

definition health_handler :: "(health_report \<Rightarrow> bytes) \<Rightarrow> health_report \<times> bool \<Rightarrow> writer \<Rightarrow> writer" where
  "health_handler encode rep w =
     (let (report, healthy) = rep;
          w = (if healthy then w else write_header 503 w);
          w = set_header ''Content-Type'' ''application/json'' w;
          w = set_header ''Cache-Control'' no_cache w in
      w_write (encode report) w)"

definition rate_limited :: "bool \<Rightarrow> (writer \<Rightarrow> writer) \<Rightarrow> writer \<Rightarrow> writer" where
  "rate_limited allowed handler w =
     (if \<not> allowed then http_error ''too many requests'' 429 w else handler w)"

section \<open>Starting a server\<close>

text \<open>
  What \<open>startServer\<close> has set up when it begins to listen. The errors of the two builders are only
  logged. The rate of the limiter is one request per period, with bursts up to the given number.
\<close>

record node_server =
  nv_log_level :: log_level
  nv_limiter :: "(int \<times> int) option"
  nv_server_url :: string
  nv_builder :: builder
  nv_public :: mount
  nv_internal :: internal_builder
  nv_logged :: "go_error list"
  nv_idle :: "int option"

definition builder_config :: "options \<Rightarrow> string \<Rightarrow> builder" where
  "builder_config opts serverUrl =
     \<lparr>bu_insecure = op_insecure_cookies opts, bu_force_https = op_force_https opts, bu_debug = op_debug opts,
      bu_introspection = op_introspection opts, bu_demo_id = gd_client_id (op_auth_demo opts),
      bu_demo_secret = gd_client_secret (op_auth_demo opts), bu_hook_url = serverUrl\<rparr>"

definition as_list :: "'a option \<Rightarrow> 'a list" where
  "as_list x = (case x of None \<Rightarrow> [] | Some a \<Rightarrow> [a])"

definition startServer ::
    "builder_lib \<Rightarrow> string list \<Rightarrow> 'l listen \<Rightarrow> options \<Rightarrow> wundernode_config \<Rightarrow> (node_server \<times> 'l list) res outcome" where
  "startServer lib lookup listen opts nodeConfig =
     (let api = setApiDevConfigDefaults (bl_getenv lib) opts (wn_api nodeConfig) in
      case Validate.ApiConfig (bl_getenv lib) api of
        None \<Rightarrow> Panicked ''nil pointer dereference''
      | Some (valid, messages) \<Rightarrow>
          (if \<not> valid then Returned (Inl (Err ''API config invalid''))
           else
             (let serverUrl = trim_suffix (ao_server_url (api_opts api)) ''/'';
                  b = builder_config opts serverUrl in
              bind_out (BuildAndMountApiHandler lib b api) (\<lambda>(public, err).
                let (internal, err') = BuildAndMountInternalApiHandler lib api NewInternalBuilder;
                    server = \<lparr>nv_log_level = (if op_debug opts then DebugLevel else ao_log_level (api_opts api)),
                      nv_limiter = (if rl_enable (op_rate_limit opts)
                        then Some (rl_per_duration (op_rate_limit opts), rl_requests (op_rate_limit opts)) else None),
                      nv_server_url = serverUrl, nv_builder = b, nv_public = public, nv_internal = internal,
                      nv_logged = as_list err @ as_list err',
                      nv_idle = (if 0 < op_idle_timeout opts then Some (op_idle_timeout opts) else None)\<rparr> in
                Returned (case newListeners lookup listen (ao_listener (api_opts api)) of
                  Inl e \<Rightarrow> Inl e
                | Inr listeners \<Rightarrow> Inr (server, listeners))))))"

text \<open>
  The router of a server is that of its listeners. The first route on it is the subrouter of the
  internal API at \<open>/internal\<close>; the middlewares of the public API are on the subrouter of the public API
  alone. Of the internal routes the first that matches serves the request; the rate limiter and the idle
  timeout, which are on the router itself, are left out here.
\<close>

definition internal_route_for :: "node_server \<Rightarrow> request \<Rightarrow> internal_route option" where
  "internal_route_for server r =
     (if rq_method r = ''POST'' then
        find (\<lambda>route. rq_path r = ''/internal'' @ ib_prefix (nv_internal server) @ ir_path route) (ib_routes (nv_internal server))
      else None)"

definition serve_internal ::
    "(go_context \<Rightarrow> op_env) \<Rightarrow> internal_lib \<Rightarrow> node_server \<Rightarrow> go_context \<Rightarrow> request \<Rightarrow> writer \<Rightarrow> op_state option" where
  "serve_internal envs il server rctx r w =
     map_option (\<lambda>route. InternalApiHandler envs il (ir_operation route) (ir_extracted route) rctx r w)
       (internal_route_for server r)"

text \<open>The listeners end one after the other; the first error that is not the closing of the server
  is the result.\<close>

datatype serve_end = ErrServerClosed | ServeFailed go_error

fun serve_result :: "serve_end list \<Rightarrow> go_error option" where
  "serve_result [] = None"
| "serve_result (ErrServerClosed # es) = serve_result es"
| "serve_result (ServeFailed err # es) = Some err"

section \<open>Facts\<close>

text \<open>The operations the internal API serves: queries and mutations that can be planned.\<close>

definition internal_routed :: "builder_lib \<Rightarrow> operation \<Rightarrow> bool" where
  "internal_routed lib operation \<longleftrightarrow> bl_parse lib (op_content operation) = None
     \<and> bl_validate lib operation = None \<and> fst (bl_plan lib operation) = SyncPlanned
     \<and> snd (snd (bl_plan lib operation)) \<in> {Some QUERY, Some MUTATION}"

definition route_of :: "builder_lib \<Rightarrow> operation \<Rightarrow> internal_route" where
  "route_of lib operation = \<lparr>ir_path = operation_path operation, ir_operation = operation,
     ir_extracted = fst (snd (bl_plan lib operation))\<rparr>"

lemma internal_registerOperation_prefix:
  "ib_prefix (fst (internal_registerOperation lib operation i)) = ib_prefix i"
  by (simp add: internal_registerOperation_def Let_def split: option.split prod.split)

lemma internal_register_operations_prefix:
  "ib_prefix (fst (internal_register_operations lib operations i err)) = ib_prefix i"
proof (induction operations arbitrary: i err)
  case (Cons operation operations)
  obtain i' err' where "internal_registerOperation lib operation i = (i', err')"
    by (cases "internal_registerOperation lib operation i")
  with Cons internal_registerOperation_prefix [of lib operation i] show ?case by simp
qed simp

lemma internal_registerOperation_routes:
  "ib_routes (fst (internal_registerOperation lib operation i))
     = ib_routes i @ (if internal_routed lib operation then [route_of lib operation] else [])"
proof -
  obtain plan extracted kind where "bl_plan lib operation = (plan, extracted, kind)"
    by (cases "bl_plan lib operation")
  then show ?thesis
    by (cases "bl_parse lib (op_content operation)"; cases "bl_validate lib operation")
      (simp_all add: internal_registerOperation_def internal_routed_def route_of_def)
qed

lemma internal_register_operations_routes:
  "ib_routes (fst (internal_register_operations lib operations i err))
     = ib_routes i @ map (route_of lib) (filter (internal_routed lib) operations)"
proof (induction operations arbitrary: i err)
  case (Cons operation operations)
  obtain i' err' where step: "internal_registerOperation lib operation i = (i', err')"
    by (cases "internal_registerOperation lib operation i")
  show ?case
    using Cons.IH [of i' err'] internal_registerOperation_routes [of lib operation i] by (simp add: step)
qed simp

text \<open>Only an engine that is configured, loads and has a schema comes as far as the operations.\<close>

lemma internal_api_routes:
  assumes "BuildAndMountInternalApiHandler lib api i = (i', None)" "api_engine api \<noteq> None"
  shows "ib_routes i' = ib_routes i @ map (route_of lib) (filter (internal_routed lib) (api_operations api))"
    and "ib_prefix i' = ''/'' @ api_path_prefix api"
proof -
  obtain engine where engine: "api_engine api = Some engine" using assms(2) by blast
  let ?i = "i\<lparr>ib_prefix := ''/'' @ api_path_prefix api,
    ib_renames := ib_renames i @ map (\<lambda>t. (tc_rename t, tc_name t)) (ec_types engine)\<rparr>"
  have "internal_register_operations lib (api_operations api) ?i None = (i', None)"
    using assms(1) by (auto simp: BuildAndMountInternalApiHandler_def engine split: if_splits option.splits)
  with internal_register_operations_routes [of lib "api_operations api" ?i None]
    internal_register_operations_prefix [of lib "api_operations api" ?i None]
  show "ib_routes i' = ib_routes i @ map (route_of lib) (filter (internal_routed lib) (api_operations api))"
    "ib_prefix i' = ''/'' @ api_path_prefix api" by simp_all
qed

lemma public_api_mounted:
  assumes "BuildAndMountApiHandler lib b api = Returned (m, None)" "api_engine api \<noteq> None"
  shows "mount_api lib b api (register_webhooks lib b (api_path_prefix api) (api_webhooks api) empty_mount)
    = Returned (m, None)"
  using assms
  by (auto simp: BuildAndMountApiHandler_def Let_def bind_out_Returned_iff split: option.splits if_splits)

lemma dev_defaults_operations [simp]:
  "api_operations (setApiDevConfigDefaults env opts api) = api_operations api"
  "api_engine (setApiDevConfigDefaults env opts api) = api_engine api"
  "api_opts (setApiDevConfigDefaults env opts api) = api_opts api"
  "api_path_prefix (setApiDevConfigDefaults env opts api) = api_path_prefix api"
  by (simp_all add: setApiDevConfigDefaults_def split: option.split)

lemma as_list_Nil [simp]: "as_list x = [] \<longleftrightarrow> x = None"
  by (simp add: as_list_def split: option.split)

lemma started:
  assumes "startServer lib lookup listen opts cfg = Returned (Inr (server, ls))"
  obtains api b msgs err err' where
    "api = setApiDevConfigDefaults (bl_getenv lib) opts (wn_api cfg)"
    "Validate.ApiConfig (bl_getenv lib) api = Some (True, msgs)"
    "BuildAndMountApiHandler lib b api = Returned (nv_public server, err)"
    "BuildAndMountInternalApiHandler lib api NewInternalBuilder = (nv_internal server, err')"
    "nv_logged server = as_list err @ as_list err'"
    "newListeners lookup listen (ao_listener (api_opts api)) = Inr ls"
proof -
  define api where "api = setApiDevConfigDefaults (bl_getenv lib) opts (wn_api cfg)"
  define b where "b = builder_config opts (trim_suffix (ao_server_url (api_opts api)) ''/'')"
  obtain msgs where valid: "Validate.ApiConfig (bl_getenv lib) api = Some (True, msgs)"
    using assms by (auto simp: startServer_def api_def [symmetric] split: option.splits if_splits)
  obtain public err where public: "BuildAndMountApiHandler lib b api = Returned (public, err)"
    using assms valid
    by (cases "BuildAndMountApiHandler lib b api")
      (auto simp: startServer_def api_def [symmetric] Let_def b_def [symmetric])
  obtain internal err' where internal: "BuildAndMountInternalApiHandler lib api NewInternalBuilder = (internal, err')"
    by (cases "BuildAndMountInternalApiHandler lib api NewInternalBuilder")
  have "nv_public server = public \<and> nv_internal server = internal \<and> nv_logged server = as_list err @ as_list err'
      \<and> newListeners lookup listen (ao_listener (api_opts api)) = Inr ls"
    using assms valid public internal
    by (cases "newListeners lookup listen (ao_listener (api_opts api))")
      (auto simp: startServer_def api_def [symmetric] Let_def b_def [symmetric])
  with valid public internal that [OF api_def] show thesis by blast
qed

section \<open>Properties\<close>

definition sample_node_config :: wundernode_config where
  "sample_node_config =
     \<lparr>wn_server = \<lparr>sv_graceful = 0, sv_keep_alive = 5, sv_read = 5, sv_write = 5, sv_idle = 10\<rparr>, wn_api = mounted_api\<rparr>"

definition sample_node_builder :: builder where
  "sample_node_builder = \<lparr>bu_insecure = False, bu_force_https = False, bu_debug = False, bu_introspection = False,
     bu_demo_id = [], bu_demo_secret = [], bu_hook_url = []\<rparr>"

lemma sample_started:
  obtains server ls where
    "startServer sample_lib [] (\<lambda>calls. Inr (length calls)) zero_options sample_node_config
       = Returned (Inr (server, ls :: nat list))"
    "nv_logged server = []"
proof -
  have api: "setApiDevConfigDefaults (bl_getenv sample_lib) zero_options (wn_api sample_node_config) = mounted_api"
    by (simp add: setApiDevConfigDefaults_def zero_options_def sample_node_config_def)
  have opts: "api_opts mounted_api = api_opts sample_api" "ao_server_url (api_opts sample_api) = []"
    by (simp_all add: mounted_api_def sample_api_def)
  have b: "builder_config zero_options (trim_suffix [] ''/'') = sample_node_builder"
    by (simp add: builder_config_def zero_options_def sample_node_builder_def trim_suffix_def has_suffix_def)
  have "(case Validate.ApiConfig (bl_getenv sample_lib) mounted_api of Some (valid, msgs) \<Rightarrow> valid | None \<Rightarrow> False)"
    by code_simp
  then obtain msgs where valid: "Validate.ApiConfig (bl_getenv sample_lib) mounted_api = Some (True, msgs)"
    by (auto split: option.splits)
  have "(case BuildAndMountApiHandler sample_lib sample_node_builder mounted_api of
      Returned (m, err) \<Rightarrow> err = None | Panicked msg \<Rightarrow> False)"
    by code_simp
  then obtain m where public: "BuildAndMountApiHandler sample_lib sample_node_builder mounted_api = Returned (m, None)"
    by (auto split: outcome.splits)
  have "snd (BuildAndMountInternalApiHandler sample_lib mounted_api NewInternalBuilder) = None"
    by code_simp
  then obtain i where internal: "BuildAndMountInternalApiHandler sample_lib mounted_api NewInternalBuilder = (i, None)"
    by (cases "BuildAndMountInternalApiHandler sample_lib mounted_api NewInternalBuilder") simp
  have "newListeners [] (\<lambda>calls. Inr (length calls)) (ao_listener (api_opts sample_api)) = Inr [1 :: nat]"
    by (simp add: newListeners_def sample_api_def)
  then have "\<exists>server. startServer sample_lib [] (\<lambda>calls. Inr (length calls)) zero_options sample_node_config
      = Returned (Inr (server, [1 :: nat])) \<and> nv_logged server = []"
    by (simp add: startServer_def api opts b valid public internal as_list_def)
  then show thesis by (auto intro: that)
qed



lemma internal_handler_config:
  "InternalApiHandler envs il (operation\<lparr>op_auth := None, op_authz := None, op_hooks_cfg := None, op_internal := False\<rparr>) ex
    = InternalApiHandler envs il operation ex"
proof -
  let ?op = "operation\<lparr>op_auth := None, op_authz := None, op_hooks_cfg := None, op_internal := False\<rparr>"
  have "internal_inject_stage env ?op ex = internal_inject_stage env operation ex" for env
    by (rule ext) (simp add: internal_inject_stage_def injectVariables_def)
  moreover have "setOperationMetaData ?op = setOperationMetaData operation"
    by (rule ext) (simp add: setOperationMetaData_def)
  ultimately show ?thesis by (intro ext) (simp only: InternalApiHandler_def)
qed

lemma internal_handler_calls:
  "c \<in> set (os_calls (InternalApiHandler envs il operation ex rctx r w)) \<Longrightarrow> \<exists>v. c = ResolveCall v"
  by (auto simp: InternalApiHandler_def compact_stage_def internal_inject_stage_def resolve_stage_def
      internal_respond_stage_def on_writer_def start_state_def Let_def split: sum.splits option.splits if_splits)

lemma find_map_unique:
  assumes "x \<in> set xs" "\<And>y. y \<in> set xs \<Longrightarrow> P (h y) \<longleftrightarrow> y = x"
  shows "find P (map h xs) = Some (h x)"
  using assms by (induction xs) auto


definition sample_internal_lib :: internal_lib where
  "sample_internal_lib = \<lparr>in_string = (\<lambda>_ _. Inr []), in_fields = (\<lambda>_ _. Inr []), in_request = (\<lambda>_ _. Inr empty_request)\<rparr>"


text \<open>the health endpoint answers 200 with a JSON report or 503; in the second case its headers come
  too late, and the report has no content type and may be cached.\<close>

theorem unhealthy_report_headers:
  "response_status (health_handler encode (report, healthy) new_writer) = (if healthy then 200 else 503)
   \<and> response_header (health_handler encode (report, healthy) new_writer) ''Content-Type''
      = (if healthy then [''application/json''] else [])
   \<and> response_header (health_handler encode (report, healthy) new_writer) ''Cache-Control''
      = (if healthy then [no_cache] else [])"
proof -
  have key: "canonical_key ''Content-Type'' = ''Content-Type''" "canonical_key ''Cache-Control'' = ''Cache-Control''"
    by code_simp+
  show ?thesis
    by (cases healthy) (simp_all add: health_handler_def response_status_def response_header_def w_write_def
        write_header_def set_header_def new_writer_def header_set_def no_header_def sent_status_def body_allowed_def key)
qed

end
