(* ===== verification/NodeReload.thy ===== *)
theory NodeReload
  imports NodeServer Transition
begin

text \<open>
  Reconfiguring a node that watches its configuration file (\<open>StartBlocking\<close>, \<open>filePollConfig\<close>,
  \<open>reconfigureOnConfigUpdate\<close>, \<open>Close\<close>, \<open>Shutdown\<close> and \<open>HandleGracefulShutdown\<close> in node.go): the
  goroutine that reads changed configurations, the loop that receives them, and the goroutines, one
  for each configuration, that start and run a server. All configurations name the same address, on
  which one server can listen at a time; listening and serving may fail for other reasons, too.
\<close>

section \<open>State\<close>

text \<open>
  A server goroutine builds its server; makes it the server of the node; listens; and serves until
  it is closed. What it ends with is the error of \<open>startServer\<close>.
\<close>

datatype server_phase = Building | Assigned | Bound | Serving | Ended "go_error option"

datatype reload_loop = Selecting | Awaiting | LoopReturned

datatype 'c poller = Polling | Sending 'c | PollReturned

text \<open>
  The goroutine that polls the file, the configurations received, the goroutine of each, the server with which
  it serves, the servers that were closed, \<open>n.server\<close>, whether a goroutine of the group has failed, which cancels its context, and whether the context
  of the node is done.
\<close>

record 'c reload =
  rn_poll :: "'c poller"
  rn_configs :: "'c list"
  rn_phase :: "nat \<Rightarrow> server_phase"
  rn_uses :: "nat \<Rightarrow> nat"
  rn_closed :: "nat set"
  rn_server :: "nat option"
  rn_failed :: bool
  rn_done :: bool
  rn_loop :: reload_loop

definition new_reload :: "'c reload" where
  "new_reload = \<lparr>rn_poll = Polling, rn_configs = [], rn_phase = (\<lambda>_. Building), rn_uses = id, rn_closed = {}, rn_server = None,
     rn_failed = False, rn_done = False, rn_loop = Selecting\<rparr>"

definition goroutines :: "'c reload \<Rightarrow> nat set" where
  "goroutines n = {..<length (rn_configs n)}"

definition set_server_phase :: "nat \<Rightarrow> server_phase \<Rightarrow> 'c reload \<Rightarrow> 'c reload" where
  "set_server_phase i p n = n\<lparr>rn_phase := (rn_phase n)(i := p)\<rparr>"

definition address_taken :: "'c reload \<Rightarrow> bool" where
  "address_taken n = (\<exists>i \<in> goroutines n. rn_phase n i = Bound \<or> rn_phase n i = Serving)"

section \<open>Operations\<close>

text \<open>
  \<open>Close\<close> and \<open>Shutdown\<close> act on \<open>n.server\<close>. Whoever serves with it gives its address back; one that begins
  to serve with a closed server ends.
\<close>

definition Close :: "'c reload \<Rightarrow> 'c reload" where
  "Close n =
     (case rn_server n of
        None \<Rightarrow> n
      | Some s \<Rightarrow>
          n\<lparr>rn_closed := insert s (rn_closed n),
            rn_phase := (\<lambda>i. if rn_phase n i = Serving \<and> rn_uses n i = s then Ended None else rn_phase n i)\<rparr>)"

definition receive_config :: "'c \<Rightarrow> 'c reload \<Rightarrow> 'c reload" where
  "receive_config c n =
     (let n = Close n; i = length (rn_configs n) in
      set_server_phase i Building (n\<lparr>rn_configs := rn_configs n @ [c]\<rparr>))"

definition fail_with :: "nat \<Rightarrow> go_error \<Rightarrow> 'c reload \<Rightarrow> 'c reload" where
  "fail_with i err n = (set_server_phase i (Ended (Some err)) n)\<lparr>rn_failed := True\<rparr>"

definition build_server :: "('c \<Rightarrow> bool) \<Rightarrow> nat \<Rightarrow> 'c reload \<Rightarrow> 'c reload" where
  "build_server accepts i n =
     (if accepts (rn_configs n ! i) then set_server_phase i Assigned (n\<lparr>rn_server := Some i\<rparr>)
      else fail_with i (Err ''API config invalid'') n)"

text \<open>
  Listening fails when a server of the node has the address, and with any error of the network: a port that another
  process holds, an address that is not of this host. Serving, a goroutine serves with the server that is \<open>n.server\<close>
  when it begins. It ends when all its listeners have, with the first error of \<open>Serve\<close> that is not the one of a
  closed server.
\<close>

definition listen_server :: "go_error option \<Rightarrow> nat \<Rightarrow> 'c reload \<Rightarrow> 'c reload" where
  "listen_server network i n =
     (case network of
        Some err \<Rightarrow> fail_with i err n
      | None \<Rightarrow>
          if address_taken n then fail_with i (Err ''address already in use'') n else set_server_phase i Bound n)"

definition serve_server :: "nat \<Rightarrow> 'c reload \<Rightarrow> 'c reload" where
  "serve_server i n =
     (case rn_server n of
        None \<Rightarrow> n
      | Some s \<Rightarrow>
          if s \<in> rn_closed n then set_server_phase i (Ended None) n
          else set_server_phase i Serving (n\<lparr>rn_uses := (rn_uses n)(i := s)\<rparr>))"

definition listeners_end :: "serve_end list \<Rightarrow> nat \<Rightarrow> 'c reload \<Rightarrow> 'c reload" where
  "listeners_end results i n =
     (case serve_result results of None \<Rightarrow> set_server_phase i (Ended None) n | Some err \<Rightarrow> fail_with i err n)"

text \<open>\<open>StartBlocking\<close> waits for the poller and the loop.\<close>

definition start_blocking_returned :: "'c reload \<Rightarrow> bool" where
  "start_blocking_returned n \<longleftrightarrow> rn_poll n = PollReturned \<and> rn_loop n = LoopReturned"

fun ended :: "server_phase \<Rightarrow> bool" where
  "ended (Ended r) = True"
| "ended p = False"

definition all_ended :: "'c reload \<Rightarrow> bool" where
  "all_ended n = (\<forall>i \<in> goroutines n. ended (rn_phase n i))"

section \<open>Steps\<close>

datatype 'c reload_label =
    Reload 'c | PollReturns | Receive | Build nat | Listen nat | ListenFails nat go_error | Serve nat
  | ServeFails nat go_error | StopLoop | WaitGroup | CtxIsDone | StopServer

text \<open>
  \<open>accepts\<close> is whether a configuration is valid. The poller returns when a changed file cannot be
  read or is no configuration, when the channel of changes is closed, or when the context is done;
  the send of a configuration waits for the loop whatever happens to the context. When the loop can receive a configuration and its
  context is done, \<open>select\<close> takes either.
\<close>

inductive reload_step :: "('c \<Rightarrow> bool) \<Rightarrow> 'c reload \<Rightarrow> 'c reload_label \<Rightarrow> 'c reload \<Rightarrow> bool"
  for accepts where
  reloads: "rn_poll n = Polling \<Longrightarrow> reload_step accepts n (Reload c) (n\<lparr>rn_poll := Sending c\<rparr>)"
| polls: "rn_poll n = Polling \<Longrightarrow> reload_step accepts n PollReturns (n\<lparr>rn_poll := PollReturned\<rparr>)"
| receives: "rn_loop n = Selecting \<Longrightarrow> rn_poll n = Sending c
    \<Longrightarrow> reload_step accepts n Receive (receive_config c (n\<lparr>rn_poll := Polling\<rparr>))"
| builds: "i \<in> goroutines n \<Longrightarrow> rn_phase n i = Building
    \<Longrightarrow> reload_step accepts n (Build i) (build_server accepts i n)"
| listens: "i \<in> goroutines n \<Longrightarrow> rn_phase n i = Assigned \<Longrightarrow> reload_step accepts n (Listen i) (listen_server None i n)"
| listen_fails: "i \<in> goroutines n \<Longrightarrow> rn_phase n i = Assigned
    \<Longrightarrow> reload_step accepts n (ListenFails i err) (listen_server (Some err) i n)"
| serves: "i \<in> goroutines n \<Longrightarrow> rn_phase n i = Bound \<Longrightarrow> reload_step accepts n (Serve i) (serve_server i n)"
| serve_fails: "i \<in> goroutines n \<Longrightarrow> rn_phase n i = Serving
    \<Longrightarrow> reload_step accepts n (ServeFails i err) (listeners_end [ServeFailed err] i n)"
| stops: "rn_loop n = Selecting \<Longrightarrow> rn_failed n \<or> rn_done n
    \<Longrightarrow> reload_step accepts n StopLoop (n\<lparr>rn_loop := Awaiting\<rparr>)"
| waits: "rn_loop n = Awaiting \<Longrightarrow> all_ended n \<Longrightarrow> reload_step accepts n WaitGroup (n\<lparr>rn_loop := LoopReturned\<rparr>)"
| ends: "reload_step accepts n CtxIsDone (n\<lparr>rn_done := True\<rparr>)"
| closes: "rn_done n \<Longrightarrow> reload_step accepts n StopServer (Close n)"

inductive_cases reload_stepE: "reload_step accepts n l n'"
inductive_simps reload_step_simps:
  "reload_step accepts n (Reload c) n'" "reload_step accepts n PollReturns n'" "reload_step accepts n Receive n'" "reload_step accepts n (Build i) n'" "reload_step accepts n (Listen i) n'"
  "reload_step accepts n (ListenFails i err) n'" "reload_step accepts n (ServeFails i err) n'"
  "reload_step accepts n (Serve i) n'" "reload_step accepts n StopLoop n'" "reload_step accepts n WaitGroup n'"
  "reload_step accepts n CtxIsDone n'" "reload_step accepts n StopServer n'"

lemmas reload_ops = receive_config_def build_server_def listen_server_def serve_server_def fail_with_def
  listeners_end_def set_server_phase_def goroutines_def Let_def

text \<open>The step with a given label, which is determined by the state.\<close>

fun fire :: "('c \<Rightarrow> bool) \<Rightarrow> 'c reload_label \<Rightarrow> 'c reload \<Rightarrow> 'c reload option" where
  "fire accepts (Reload c) n = (case rn_poll n of Polling \<Rightarrow> Some (n\<lparr>rn_poll := Sending c\<rparr>) | _ \<Rightarrow> None)"
| "fire accepts PollReturns n = (case rn_poll n of Polling \<Rightarrow> Some (n\<lparr>rn_poll := PollReturned\<rparr>) | _ \<Rightarrow> None)"
| "fire accepts Receive n =
     (case rn_poll n of
        Sending c \<Rightarrow> if rn_loop n = Selecting then Some (receive_config c (n\<lparr>rn_poll := Polling\<rparr>)) else None
      | _ \<Rightarrow> None)"
| "fire accepts (Build i) n =
     (if i \<in> goroutines n \<and> rn_phase n i = Building then Some (build_server accepts i n) else None)"
| "fire accepts (Listen i) n = (if i \<in> goroutines n \<and> rn_phase n i = Assigned then Some (listen_server None i n) else None)"
| "fire accepts (ListenFails i err) n =
     (if i \<in> goroutines n \<and> rn_phase n i = Assigned then Some (listen_server (Some err) i n) else None)"
| "fire accepts (Serve i) n = (if i \<in> goroutines n \<and> rn_phase n i = Bound then Some (serve_server i n) else None)"
| "fire accepts (ServeFails i err) n =
     (if i \<in> goroutines n \<and> rn_phase n i = Serving then Some (listeners_end [ServeFailed err] i n) else None)"
| "fire accepts StopLoop n =
     (if rn_loop n = Selecting \<and> (rn_failed n \<or> rn_done n) then Some (n\<lparr>rn_loop := Awaiting\<rparr>) else None)"
| "fire accepts WaitGroup n = (if rn_loop n = Awaiting \<and> all_ended n then Some (n\<lparr>rn_loop := LoopReturned\<rparr>) else None)"
| "fire accepts CtxIsDone n = Some (n\<lparr>rn_done := True\<rparr>)"
| "fire accepts StopServer n = (if rn_done n then Some (Close n) else None)"

lemma fire_step: "fire accepts l n = Some n' \<Longrightarrow> reload_step accepts n l n'"
  by (cases l) (auto simp: reload_step_simps split: poller.splits if_splits)

fun fire_all ::
    "('c reload \<Rightarrow> 'c reload_label \<Rightarrow> bool) \<Rightarrow> ('c \<Rightarrow> bool) \<Rightarrow> 'c reload_label list \<Rightarrow> 'c reload \<Rightarrow> 'c reload option" where
  "fire_all allowed accepts [] n = Some n"
| "fire_all allowed accepts (l # ls) n =
     (if allowed n l then
        (case fire accepts l n of None \<Rightarrow> None | Some n \<Rightarrow> fire_all allowed accepts ls n)
      else None)"

lemma fire_all_runs: "fire_all allowed accepts ls n = Some n' \<Longrightarrow> runs allowed (reload_step accepts) n ls n'"
  by (induction ls arbitrary: n) (auto simp: runs_Cons_iff intro: fire_step split: option.splits if_splits)

text \<open>What \<open>accepts\<close> stands for: the API of the configuration is valid, so that \<open>startServer\<close> goes on.\<close>

definition accepts_config :: "builder_lib \<Rightarrow> options \<Rightarrow> wundernode_config \<Rightarrow> bool" where
  "accepts_config lib opts config =
     (case Validate.ApiConfig (bl_getenv lib) (setApiDevConfigDefaults (bl_getenv lib) opts (wn_api config)) of
        Some (valid, _) \<Rightarrow> valid
      | None \<Rightarrow> False)"

lemma startServer_accepts:
  assumes "startServer lib lookup listen opts config = Returned (Inr r)"
  shows "accepts_config lib opts config"
  by (cases r) (use assms in \<open>auto simp: accepts_config_def elim: started\<close>)

section \<open>Configurations that come one at a time\<close>

text \<open>
  A schedule is paced when a configuration comes only once the goroutines of all earlier ones serve
  or have ended. Then only the latest goroutine is at work, and it serves with \<open>n.server\<close>. Unless listening or serving
  fails with an error of the network, which \<open>noisy\<close> permits, a goroutine fails only with a configuration that is not
  valid.
\<close>

definition paced :: "'c reload \<Rightarrow> 'c reload_label \<Rightarrow> bool" where
  "paced n l = (case l of
     Receive \<Rightarrow> (\<forall>i \<in> goroutines n. rn_phase n i = Serving \<or> ended (rn_phase n i))
   | _ \<Rightarrow> True)"

fun network_error :: "'c reload_label \<Rightarrow> bool" where
  "network_error (ListenFails i err) = True"
| "network_error (ServeFails i err) = True"
| "network_error l = False"

definition paced_noisy :: "bool \<Rightarrow> 'c reload \<Rightarrow> 'c reload_label \<Rightarrow> bool" where
  "paced_noisy noisy n l \<longleftrightarrow> paced n l \<and> (network_error l \<longrightarrow> noisy)"

lemma runs_paced_noisy:
  "runs paced step n ls n' \<Longrightarrow> runs (paced_noisy (\<exists>l \<in> set ls. network_error l)) step n ls n'"
proof (induction rule: runs.induct)
  case (runs_Cons n l n' ls n'')
  have "runs (paced_noisy (\<exists>l \<in> set (l # ls). network_error l)) step n' ls n''"
    by (rule runs_mono [OF runs_Cons.IH]) (auto simp: paced_noisy_def)
  moreover have "paced_noisy (\<exists>l \<in> set (l # ls). network_error l) n l"
    using runs_Cons.hyps(1) by (auto simp: paced_noisy_def)
  ultimately show ?case using runs_Cons.hyps(2) by (intro runs.runs_Cons)
qed (rule runs_Nil)

definition latest_only :: "('c \<Rightarrow> bool) \<Rightarrow> bool \<Rightarrow> 'c reload \<Rightarrow> bool" where
  "latest_only accepts noisy n \<longleftrightarrow>
     (\<forall>i. Suc i < length (rn_configs n) \<longrightarrow> ended (rn_phase n i))
   \<and> (case length (rn_configs n) of
        0 \<Rightarrow> True
      | Suc i \<Rightarrow> (rn_phase n i \<in> {Assigned, Bound, Serving} \<longrightarrow> rn_server n = Some i)
          \<and> (rn_phase n i = Serving \<longrightarrow> rn_uses n i = i))
   \<and> (rn_failed n \<longrightarrow> noisy \<or> (\<exists>c \<in> set (rn_configs n). \<not> accepts c))"

lemma latest_only_new: "latest_only accepts noisy new_reload"
  by (simp add: latest_only_def new_reload_def)

lemma latest_only_frame [simp]:
  "latest_only accepts noisy (n\<lparr>rn_poll := p\<rparr>) = latest_only accepts noisy n"
  "latest_only accepts noisy (n\<lparr>rn_loop := l\<rparr>) = latest_only accepts noisy n"
  "latest_only accepts noisy (n\<lparr>rn_done := d\<rparr>) = latest_only accepts noisy n"
  by (cases "length (rn_configs n)"; simp add: latest_only_def)+

lemma latest_only_at:
  assumes "latest_only accepts noisy n" "i \<in> goroutines n" "\<not> ended (rn_phase n i)"
  shows "length (rn_configs n) = Suc i"
proof -
  have "\<not> Suc i < length (rn_configs n)" using assms(1,3) by (auto simp: latest_only_def)
  with assms(2) show ?thesis by (simp add: goroutines_def)
qed

lemma Close_frame [simp]:
  "rn_poll (Close n) = rn_poll n" "rn_configs (Close n) = rn_configs n" "rn_server (Close n) = rn_server n"
  "rn_failed (Close n) = rn_failed n" "rn_done (Close n) = rn_done n" "rn_loop (Close n) = rn_loop n"
  by (simp_all add: Close_def split: option.split)

lemma Close_uses [simp]: "rn_uses (Close n) = rn_uses n"
  by (simp add: Close_def split: option.split)

text \<open>Closing the server of the node ends whoever serves with it.\<close>

lemma Close_phase:
  "rn_phase (Close n) i =
     (if rn_phase n i = Serving \<and> rn_server n = Some (rn_uses n i) then Ended None else rn_phase n i)"
  by (auto simp: Close_def split: option.split)

lemma latest_only_Close: "latest_only accepts noisy n \<Longrightarrow> latest_only accepts noisy (Close n)"
  by (cases "length (rn_configs n)") (auto simp: latest_only_def Close_phase)

lemma latest_only_receive:
  assumes "latest_only accepts noisy n" "paced n Receive"
  shows "latest_only accepts noisy (receive_config c n)"
proof -
  have closed: "ended (rn_phase (Close n) i)" if i: "i < length (rn_configs n)" for i
  proof (cases "ended (rn_phase n i)")
    case False
    then have "rn_phase n i = Serving" using assms(2) i by (auto simp: paced_def goroutines_def)
    moreover have "length (rn_configs n) = Suc i"
      using latest_only_at [OF assms(1)] i False by (simp add: goroutines_def)
    ultimately show ?thesis using assms(1) by (simp add: latest_only_def Close_phase)
  qed (simp add: Close_phase)
  then show ?thesis using assms(1) by (auto simp: latest_only_def reload_ops)
qed

lemma address_free:
  assumes "latest_only accepts noisy n" "i \<in> goroutines n" "rn_phase n i = Assigned"
  shows "\<not> address_taken n"
proof
  assume "address_taken n"
  then obtain j where j: "j \<in> goroutines n" "rn_phase n j = Bound \<or> rn_phase n j = Serving"
    by (auto simp: address_taken_def)
  then have "\<not> ended (rn_phase n j)" "\<not> ended (rn_phase n i)" using assms(3) by auto
  with latest_only_at [OF assms(1,2)] latest_only_at [OF assms(1) j(1)] have "j = i" by simp
  with j assms(3) show False by simp
qed

lemma latest_only_step:
  "latest_only accepts noisy n \<Longrightarrow> paced_noisy noisy n l \<Longrightarrow> reload_step accepts n l n'
    \<Longrightarrow> latest_only accepts noisy n'"
proof (erule reload_stepE, goal_cases)
  case (3 c)
  have "latest_only accepts noisy (n\<lparr>rn_poll := Polling\<rparr>)" using 3(1) by (simp only: latest_only_frame)
  moreover have "paced (n\<lparr>rn_poll := Polling\<rparr>) Receive" using 3(2,3) by (simp add: paced_noisy_def paced_def goroutines_def)
  ultimately show ?case unfolding 3(4) by (rule latest_only_receive)
next
  case (4 i)
  then have "length (rn_configs n) = Suc i" using latest_only_at [OF 4(1,5)] 4(6) by simp
  with 4 show ?case by (auto simp: latest_only_def build_server_def fail_with_def set_server_phase_def)
next
  case (5 i)
  then have "length (rn_configs n) = Suc i" using latest_only_at [OF 5(1,5)] 5(6) by simp
  with 5 address_free [OF 5(1,5,6)] show ?case
    by (auto simp: latest_only_def listen_server_def set_server_phase_def)
next
  case (6 i err)
  then have "length (rn_configs n) = Suc i" noisy using latest_only_at [OF 6(1,5)] by (simp_all add: paced_noisy_def)
  with 6 show ?case by (auto simp: latest_only_def listen_server_def fail_with_def set_server_phase_def)
next
  case (7 i)
  then have "length (rn_configs n) = Suc i" using latest_only_at [OF 7(1,5)] 7(6) by simp
  with 7 show ?case by (auto simp: latest_only_def serve_server_def set_server_phase_def)
next
  case (8 i err)
  then have "length (rn_configs n) = Suc i" noisy using latest_only_at [OF 8(1,5)] by (simp_all add: paced_noisy_def)
  with 8 show ?case by (auto simp: latest_only_def listeners_end_def fail_with_def set_server_phase_def)
next
  case 12
  then show ?case by (simp add: latest_only_Close)
qed simp_all

interpretation reload_paced: step_invariant "paced_noisy noisy" "reload_step accepts" "latest_only accepts noisy"
  by unfold_locales (rule latest_only_step)

section \<open>A server that is overtaken, and a loop that has stopped\<close>

text \<open>A server that serves and is not the server of the node, when the loop has stopped.\<close>

definition overtaken :: "nat \<Rightarrow> 'c reload \<Rightarrow> bool" where
  "overtaken i n \<longleftrightarrow> i \<in> goroutines n \<and> rn_phase n i = Serving \<and> rn_server n \<noteq> Some (rn_uses n i) \<and> rn_loop n = Awaiting
     \<and> (\<forall>j \<in> goroutines n. j \<noteq> i \<longrightarrow> ended (rn_phase n j))"

definition no_serve_error :: "nat \<Rightarrow> 'c reload \<Rightarrow> 'c reload_label \<Rightarrow> bool" where
  "no_serve_error i n l \<longleftrightarrow> (\<forall>err. l \<noteq> ServeFails i err)"

lemma runs_no_serve_error:
  "runs any_schedule step n ls n' \<Longrightarrow> (\<And>err. ServeFails i err \<notin> set ls) \<Longrightarrow> runs (no_serve_error i) step n ls n'"
proof (induction rule: runs.induct)
  case (runs_Cons n l n' ls n'')
  have "no_serve_error i n l" using runs_Cons.prems by (auto simp: no_serve_error_def)
  moreover have "runs (no_serve_error i) step n' ls n''"
    by (rule runs_Cons.IH) (use runs_Cons.prems in auto)
  ultimately show ?case using runs_Cons.hyps(2) by (intro runs.runs_Cons)
qed (rule runs_Nil)

lemma overtaken_step:
  assumes "overtaken i n" "no_serve_error i n l" "reload_step accepts n l n'"
  shows "overtaken i n'"
proof -
  have idle: "rn_phase n j \<notin> {Building, Assigned, Bound}" if "j \<in> goroutines n" for j
    using assms(1) that by (cases "j = i") (force simp: overtaken_def)+
  have other: "j = i" if "j \<in> goroutines n" "rn_phase n j = Serving" for j
    using assms(1) that by (force simp: overtaken_def)
  have waiting: "\<not> all_ended n" using assms(1) by (force simp: overtaken_def all_ended_def)
  from assms(3) show ?thesis
    by (cases rule: reload_step.cases)
      (use assms(1,2) idle other waiting in \<open>auto simp: overtaken_def no_serve_error_def Close_phase goroutines_def\<close>)
qed

interpretation reload_overtaken: step_invariant "no_serve_error i" "reload_step accepts" "overtaken i"
  by unfold_locales (rule overtaken_step)

text \<open>A loop that has stopped, with no server and a poller that waits for the loop.\<close>

definition stranded :: "'c reload \<Rightarrow> bool" where
  "stranded n \<longleftrightarrow> all_ended n \<and> rn_loop n \<noteq> Selecting \<and> (\<exists>c. rn_poll n = Sending c)"

lemma stranded_step:
  assumes "stranded n" "any_schedule n l" "reload_step accepts n l n'"
  shows "stranded n'"
proof -
  have idle: "rn_phase n j \<notin> {Building, Assigned, Bound, Serving}" if "j \<in> goroutines n" for j
    using assms(1) that by (force simp: stranded_def all_ended_def)
  from assms(3) show ?thesis
    by (cases rule: reload_step.cases)
      (use assms(1) idle in \<open>auto simp: stranded_def all_ended_def Close_phase goroutines_def\<close>)
qed

interpretation reload_stranded: step_invariant any_schedule "reload_step accepts" stranded
  by unfold_locales (rule stranded_step)

lemmas reload_run = new_reload_def address_taken_def Close_def build_server_def listen_server_def serve_server_def
  listeners_end_def fail_with_def receive_config_def set_server_phase_def goroutines_def lessThan_Suc

section \<open>Properties\<close>

text \<open>C22: as long as a changed configuration comes only when the servers of the earlier ones serve or
  have ended, the server that serves is that of the latest configuration, and closing the node
  closes it; and a goroutine fails only with a configuration that is not valid or with an error of
  the network: the goroutines of the node do not take the address from each other.\<close>

theorem paced_reload_serves_latest:
  assumes "runs paced (reload_step accepts) new_reload ls n"
  shows "(\<forall>i \<in> goroutines n. rn_phase n i = Serving \<longrightarrow>
        length (rn_configs n) = Suc i \<and> ended (rn_phase (Close n) i))
    \<and> (rn_failed n \<longrightarrow> (\<exists>c \<in> set (rn_configs n). \<not> accepts c) \<or> (\<exists>l \<in> set ls. network_error l))"
proof -
  have inv: "latest_only accepts (\<exists>l \<in> set ls. network_error l) n"
    by (rule reload_paced.runs_inv [OF runs_paced_noisy [OF assms] latest_only_new])
  show ?thesis
  proof (intro conjI ballI impI)
    fix i assume i: "i \<in> goroutines n" "rn_phase n i = Serving"
    then show "length (rn_configs n) = Suc i" using latest_only_at [OF inv] by simp
    with inv i(2) show "ended (rn_phase (Close n) i)" by (simp add: latest_only_def Close_phase)
  next
    assume "rn_failed n"
    with inv show "(\<exists>c \<in> set (rn_configs n). \<not> accepts c) \<or> (\<exists>l \<in> set ls. network_error l)"
      by (auto simp: latest_only_def)
  qed
qed

definition reload_accepts :: "nat \<Rightarrow> bool" where "reload_accepts c = (c < 10)"

definition two_updates :: "nat reload_label list" where
  "two_updates = [Reload 1, Receive, Build 0, Listen 0, Serve 0, Reload 2, Receive, Build 1, Listen 1, Serve 1]"

theorem paced_reload_serves_latest_witness:
  "\<exists>n. runs paced (reload_step reload_accepts) new_reload two_updates n \<and> rn_phase n 1 = Serving
     \<and> length (rn_configs n) = 2 \<and> \<not> rn_failed n"
proof -
  obtain n where run: "fire_all paced reload_accepts two_updates new_reload = Some n"
    and n: "rn_phase n 1 = Serving" "1 \<in> goroutines n" "\<not> rn_failed n"
    by (simp add: reload_run two_updates_def reload_accepts_def paced_def)
  note run = fire_all_runs [OF run]
  from paced_reload_serves_latest [OF run] run n show ?thesis by force
qed

text \<open>C23: two configurations in quick succession can leave the node with the older one for good: the
  second closes \<open>n.server\<close> before the first has set it, fails to listen, and stops the loop; the
  server of the first then serves whatever happens, and even closing the node does not end it:
  nothing does but an error of its own listener.\<close>

theorem overtaken_server_serves_forever:
  assumes "accepts a" "accepts b"
  shows "\<exists>ls n. runs any_schedule (reload_step accepts) new_reload ls n \<and> rn_configs n = [a, b]
    \<and> (\<forall>ls' n'. runs any_schedule (reload_step accepts) n ls' n' \<and> (\<forall>err. ServeFails 0 err \<notin> set ls') \<longrightarrow>
        rn_phase n' 0 = Serving \<and> \<not> start_blocking_returned n')"
proof -
  let ?ls = "[Reload a, Receive, Reload b, Receive, Build 0, Listen 0, Serve 0, Build 1, Listen 1, StopLoop]"
  obtain n where run: "fire_all any_schedule accepts ?ls new_reload = Some n" and n: "overtaken 0 n" "rn_configs n = [a, b]"
    using assms by (simp add: reload_run overtaken_def)
  have "rn_phase n' 0 = Serving \<and> \<not> start_blocking_returned n'"
    if "runs any_schedule (reload_step accepts) n ls' n'" "\<forall>err. ServeFails 0 err \<notin> set ls'" for ls' n'
    using reload_overtaken.runs_inv [OF runs_no_serve_error [OF that(1)] n(1)] that(2)
    by (simp add: overtaken_def start_blocking_returned_def)
  with fire_all_runs [OF run] n(2) show ?thesis by blast
qed

theorem overtaken_server_serves_forever_witness:
  "\<exists>ls n. runs any_schedule (reload_step reload_accepts) new_reload ls n \<and> rn_configs n = [1, 2]
    \<and> (\<forall>ls' n'. runs any_schedule (reload_step reload_accepts) n ls' n' \<and> (\<forall>err. ServeFails 0 err \<notin> set ls') \<longrightarrow>
        rn_phase n' 0 = Serving \<and> \<not> start_blocking_returned n')"
  by (rule overtaken_server_serves_forever) (simp_all add: reload_accepts_def)

text \<open>A node that serves its latest configuration.\<close>

definition steady :: "'c reload \<Rightarrow> bool" where
  "steady n \<longleftrightarrow> rn_loop n = Selecting \<and> rn_poll n = Polling
     \<and> (\<exists>k. length (rn_configs n) = Suc k \<and> rn_server n = Some k \<and> rn_phase n k = Serving \<and> rn_uses n k = k
          \<and> (\<forall>i < k. ended (rn_phase n i)))"

text \<open>C24: an update with a configuration that is not valid takes down a node that serves: the old server
  is closed before the new configuration is looked at, the loop stops, the next change waits for it
  forever, and \<open>StartBlocking\<close> never returns the error.\<close>

theorem refused_update_strands_node:
  assumes "steady n" "\<not> accepts c"
  shows "\<exists>n'. runs any_schedule (reload_step accepts) n
      [Reload c, Receive, Build (length (rn_configs n)), StopLoop, Reload d] n'
    \<and> (\<forall>ls n''. runs any_schedule (reload_step accepts) n' ls n'' \<longrightarrow>
        (\<forall>i \<in> goroutines n''. rn_phase n'' i \<noteq> Serving) \<and> \<not> start_blocking_returned n'')"
proof -
  from assms(1) obtain k where k: "length (rn_configs n) = Suc k" "rn_server n = Some k" "rn_phase n k = Serving" "rn_uses n k = k"
    "\<forall>i < k. ended (rn_phase n i)" "rn_loop n = Selecting" "rn_poll n = Polling"
    by (auto simp: steady_def)
  obtain n' where run: "fire_all any_schedule accepts [Reload c, Receive, Build (length (rn_configs n)), StopLoop, Reload d] n
      = Some n'" and n': "stranded n'"
    using k assms(2) by (simp add: reload_run nth_append stranded_def all_ended_def)
  have "(\<forall>i \<in> goroutines n''. rn_phase n'' i \<noteq> Serving) \<and> \<not> start_blocking_returned n''"
    if "runs any_schedule (reload_step accepts) n' ls n''" for ls n''
    using reload_stranded.runs_inv [OF that n']
    by (force simp: stranded_def all_ended_def start_blocking_returned_def)
  with fire_all_runs [OF run] show ?thesis by blast
qed

theorem refused_update_strands_node_witness:
  "\<exists>n n' :: nat reload. steady n \<and> runs any_schedule (reload_step reload_accepts) n
      [Reload 12, Receive, Build (length (rn_configs n)), StopLoop, Reload 1] n'"
proof -
  let ?n = "new_reload\<lparr>rn_configs := [1 :: nat], rn_server := Some 0, rn_phase := (\<lambda>_. Serving)\<rparr>"
  have "steady ?n" "\<not> reload_accepts 12" by (simp_all add: steady_def new_reload_def reload_accepts_def)
  with refused_update_strands_node [where n = ?n and c = 12 and d = 1 and accepts = reload_accepts]
  show ?thesis by blast
qed

end
