(* ===== verification/CliStart.thy ===== *)
theory CliStart
  imports CliIntrospect NodeReload
begin

text \<open>
  Running in production (cli/commands start.go, node.go, server.go) with \<open>HandleGracefulShutdown\<close> of the node: the
  process, its two goroutines, the signals and the exit code. Then the command up of the development mode
  (up.go, cli/helpers/process.go) and the start of the program (root.go, cmd/wunderctl).
\<close>

section \<open>The process\<close>

text \<open>
  The goroutine of the node is in a phase of NodeReload. The one of the hooks server runs a script; there is none with
  --exclude-server and in node start. The main goroutine waits for the context of the group, shuts the node down, waits
  for the group, and ends the process. A signal that nobody is registered for kills it.
\<close>

datatype hooks_phase = NoHooks | HooksRunning | HooksEnded

datatype main_phase = AwaitingContext | AwaitingGroup | Exited nat | Killed

text \<open>
  \<open>pd_signalled\<close> is whether the context of the signals is done, \<open>pd_error\<close> the first error of the group, which
  cancels its context, too. \<open>pd_idle\<close> is whether the node has an idle timeout (--shutdown-after-idle), \<open>pd_stopped\<close>
  whether the signals are registered no longer. \<open>pd_server\<close> is whether \<open>n.server\<close> is set, \<open>pd_closed\<close> whether it was shut down.
\<close>

record production =
  pd_node :: server_phase
  pd_hooks :: hooks_phase
  pd_error :: "go_error option"
  pd_signalled :: bool
  pd_idle :: bool
  pd_stopped :: bool
  pd_server :: bool
  pd_closed :: bool
  pd_main :: main_phase

definition new_production :: "bool \<Rightarrow> bool \<Rightarrow> production" where
  "new_production with_hooks idle =
     \<lparr>pd_node = Building, pd_hooks = (if with_hooks then HooksRunning else NoHooks), pd_error = None, pd_signalled = False,
      pd_idle = idle, pd_stopped = False, pd_server = False, pd_closed = False, pd_main = AwaitingContext\<rparr>"

definition group_done :: "production \<Rightarrow> bool" where
  "group_done s \<longleftrightarrow> ended (pd_node s) \<and> pd_hooks s \<noteq> HooksRunning"

definition context_done :: "production \<Rightarrow> bool" where
  "context_done s \<longleftrightarrow> pd_signalled s \<or> pd_error s \<noteq> None"

definition note_error :: "go_error option \<Rightarrow> production \<Rightarrow> production" where
  "note_error err s = s\<lparr>pd_error := (case pd_error s of None \<Rightarrow> err | Some e \<Rightarrow> Some e)\<rparr>"

definition end_node :: "go_error option \<Rightarrow> production \<Rightarrow> production" where
  "end_node err s = note_error err (s\<lparr>pd_node := Ended err\<rparr>)"

text \<open>\<open>HandleGracefulShutdown\<close>, once the context is done. The error of \<open>Shutdown\<close> is logged only.\<close>

definition HandleGracefulShutdown :: "production \<Rightarrow> production" where
  "HandleGracefulShutdown s =
     (if pd_server s
      then (let s = s\<lparr>pd_closed := True\<rparr> in if pd_node s = Serving then end_node None s else s)
      else s)"

definition exit_code :: "production \<Rightarrow> nat" where
  "exit_code s = (if \<not> pd_signalled s \<and> pd_error s \<noteq> None then 1 else 0)"

text \<open>
  The node ends before it has a server when its configuration cannot be read or is not valid, afterwards when it
  cannot listen; a failing listener ends it, too. Without any listener it ends with no error.

  The function \<open>stop\<close> of the signals is the idle handler. It is called once the node has been idle or its context is
  done, whichever comes first, and it does two things: it cancels the context, and it unregisters the signals, so that
  from then on the next one kills the process.
\<close>

datatype production_label =
    Signal | Idle | NodeFails go_error | NodeBuilds | NodeListens | NodeFindsNoListener | NodeServes
  | ListenerFails go_error | HooksEnd "go_error option" | ShutDown | Exit

fun production_next :: "production_label \<Rightarrow> production \<Rightarrow> production option" where
  "production_next Signal s =
     Some (if pd_stopped s then s\<lparr>pd_main := Killed\<rparr> else s\<lparr>pd_signalled := True\<rparr>)"
| "production_next Idle s =
     (if pd_server s \<and> pd_idle s then Some (s\<lparr>pd_signalled := True, pd_stopped := True\<rparr>) else None)"
| "production_next (NodeFails err) s =
     (if pd_node s \<in> {Building, Assigned} then Some (end_node (Some err) s) else None)"
| "production_next NodeBuilds s =
     (if pd_node s = Building then Some (s\<lparr>pd_node := Assigned, pd_server := True\<rparr>) else None)"
| "production_next NodeListens s = (if pd_node s = Assigned then Some (s\<lparr>pd_node := Bound\<rparr>) else None)"
| "production_next NodeFindsNoListener s = (if pd_node s = Assigned then Some (end_node None s) else None)"
| "production_next NodeServes s =
     (if pd_node s = Bound then Some (if pd_closed s then end_node None s else s\<lparr>pd_node := Serving\<rparr>) else None)"
| "production_next (ListenerFails err) s = (if pd_node s = Serving then Some (end_node (Some err) s) else None)"
| "production_next (HooksEnd err) s =
     (if pd_hooks s = HooksRunning then Some (note_error err (s\<lparr>pd_hooks := HooksEnded\<rparr>)) else None)"
| "production_next ShutDown s =
     (if pd_main s = AwaitingContext \<and> context_done s
      then Some (HandleGracefulShutdown (s\<lparr>pd_main := AwaitingGroup\<rparr>)) else None)"
| "production_next Exit s =
     (if pd_main s = AwaitingGroup \<and> group_done s then Some (s\<lparr>pd_main := Exited (exit_code s)\<rparr>) else None)"

definition production_step :: "production \<Rightarrow> production_label \<Rightarrow> production \<Rightarrow> bool" where
  "production_step s l s' \<longleftrightarrow> production_next l s = Some s'"

text \<open>The commands start, node start and server start, with \<open>Inl\<close> an error that ends the process at once. The
  last one has no other goroutine: its exit code is that of the script.\<close>

definition start_command :: "files_env \<Rightarrow> string \<Rightarrow> bool \<Rightarrow> int \<Rightarrow> production res" where
  "start_command fs dirFlag excludeServer shutdownAfterIdle =
     (case FindWunderGraphDir fs dirFlag of
        Inl err \<Rightarrow> Inl err
      | Inr wunderGraphDir \<Rightarrow> Inr (new_production (\<not> excludeServer) (0 < shutdownAfterIdle)))"

definition node_start_command :: "files_env \<Rightarrow> string \<Rightarrow> int \<Rightarrow> production res" where
  "node_start_command fs dirFlag shutdownAfterIdle =
     (case FindWunderGraphDir fs dirFlag of
        Inl err \<Rightarrow> Inl err
      | Inr wunderGraphDir \<Rightarrow> Inr (new_production False (0 < shutdownAfterIdle)))"

definition server_start_command ::
    "files_env \<Rightarrow> string list \<Rightarrow> root_flags \<Rightarrow> (cmd_options \<Rightarrow> script_status) \<Rightarrow> string \<Rightarrow> script_event list \<times> nat" where
  "server_start_command fs environ flags status dirFlag =
     (case startWunderGraphServer fs environ flags status dirFlag of
        (es, Some err) \<Rightarrow> (es, 1)
      | (es, None) \<Rightarrow> (es, 0))"

text \<open>A process that has ended takes no step.\<close>

fun process_ended :: "main_phase \<Rightarrow> bool" where
  "process_ended (Exited code) = True"
| "process_ended Killed = True"
| "process_ended p = False"

definition process_runs :: "production \<Rightarrow> production_label \<Rightarrow> bool" where
  "process_runs s l \<longleftrightarrow> \<not> process_ended (pd_main s)"

abbreviation "production_runs \<equiv> runs process_runs production_step"

fun production_run :: "production_label list \<Rightarrow> production \<Rightarrow> production option" where
  "production_run [] s = Some s"
| "production_run (l # ls) s =
     (if process_ended (pd_main s) then None
      else (case production_next l s of None \<Rightarrow> None | Some s \<Rightarrow> production_run ls s))"

lemma production_run_runs: "production_run ls s = Some s' \<Longrightarrow> production_runs s ls s'"
  by (induction ls arbitrary: s)
    (auto simp: production_step_def process_runs_def split: option.splits if_splits intro!: runs_Cons)

section \<open>Invariants\<close>

text \<open>A set server is one the node has built; the group has an error if a goroutine failed; a process that has exited
  has ended its goroutines; one that was shut down with a server does not serve; only the idle handler unregisters the
  signals.\<close>

definition production_inv :: "production \<Rightarrow> bool" where
  "production_inv s \<longleftrightarrow>
     (pd_node s \<in> {Assigned, Bound, Serving} \<longrightarrow> pd_server s)
     \<and> (pd_node s = Building \<longrightarrow> \<not> pd_server s)
     \<and> (\<forall>err. pd_node s = Ended (Some err) \<longrightarrow> pd_error s \<noteq> None)
     \<and> (pd_main s \<noteq> AwaitingContext \<longrightarrow> context_done s)
     \<and> (pd_closed s \<longrightarrow> pd_node s \<noteq> Serving \<and> pd_main s \<noteq> AwaitingContext)
     \<and> (pd_stopped s \<longrightarrow> pd_signalled s \<and> pd_idle s)
     \<and> (pd_main s = Killed \<longrightarrow> pd_stopped s)
     \<and> (\<forall>code. pd_main s = Exited code \<longrightarrow> group_done s \<and> code = exit_code s)"

lemma production_inv_new: "production_inv (new_production with_hooks idle)"
  by (simp add: production_inv_def new_production_def)

lemma note_error_simps [simp]:
  "pd_node (note_error err s) = pd_node s" "pd_hooks (note_error err s) = pd_hooks s"
  "pd_signalled (note_error err s) = pd_signalled s" "pd_idle (note_error err s) = pd_idle s"
  "pd_stopped (note_error err s) = pd_stopped s" "pd_server (note_error err s) = pd_server s"
  "pd_closed (note_error err s) = pd_closed s" "pd_main (note_error err s) = pd_main s"
  "pd_error (note_error err s) = None \<longleftrightarrow> pd_error s = None \<and> err = None"
  by (simp_all add: note_error_def split: option.splits)

lemma note_error_inv:
  assumes "production_inv s" "\<And>code. pd_main s \<noteq> Exited code"
  shows "production_inv (note_error err s)"
  using assms by (auto simp: production_inv_def context_done_def)

lemma end_node_inv:
  assumes "production_inv s" "\<And>code. pd_main s \<noteq> Exited code"
  shows "production_inv (end_node err s)"
  using assms by (auto simp: end_node_def production_inv_def context_done_def)

lemma HandleGracefulShutdown_inv:
  assumes "production_inv s" "\<And>code. pd_main s \<noteq> Exited code" "pd_main s \<noteq> AwaitingContext"
  shows "production_inv (HandleGracefulShutdown s)"
proof -
  have "production_inv (s\<lparr>pd_closed := True\<rparr>)" if "pd_node s \<noteq> Serving"
    using assms that by (simp add: production_inv_def context_done_def)
  moreover have "production_inv (end_node None (s\<lparr>pd_closed := True\<rparr>))"
    using assms by (auto simp: end_node_def production_inv_def context_done_def)
  ultimately show ?thesis using assms(1) by (simp add: HandleGracefulShutdown_def Let_def)
qed

lemma production_inv_step:
  assumes inv: "production_inv s" and "process_runs s l" and step: "production_step s l s'"
  shows "production_inv s'"
proof -
  from assms(2) have running: "pd_main s \<noteq> Exited code" "pd_main s \<noteq> Killed" for code
    by (auto simp: process_runs_def)
  note ends = end_node_inv [OF inv running(1)]
  show ?thesis
  proof (cases l)
    case (HooksEnd err)
    have "production_inv (s\<lparr>pd_hooks := HooksEnded\<rparr>)"
      using inv running by (simp add: production_inv_def context_done_def)
    then have "production_inv (note_error err (s\<lparr>pd_hooks := HooksEnded\<rparr>))"
      by (rule note_error_inv) (simp add: running)
    with step HooksEnd show ?thesis by (auto simp: production_step_def split: if_splits)
  next
    case ShutDown
    with step have d: "context_done s" "s' = HandleGracefulShutdown (s\<lparr>pd_main := AwaitingGroup\<rparr>)"
      by (auto simp: production_step_def split: if_splits)
    have "production_inv (s\<lparr>pd_main := AwaitingGroup\<rparr>)"
      using inv d(1) by (auto simp: production_inv_def context_done_def)
    then have "production_inv (HandleGracefulShutdown (s\<lparr>pd_main := AwaitingGroup\<rparr>))"
      by (rule HandleGracefulShutdown_inv) simp_all
    with d(2) show ?thesis by simp
  next
    case NodeServes
    have "production_inv (s\<lparr>pd_node := Serving\<rparr>)" if "pd_node s = Bound" "\<not> pd_closed s"
      using inv running that by (simp add: production_inv_def context_done_def)
    with step NodeServes ends show ?thesis by (auto simp: production_step_def split: if_splits)
  next
    case Exit
    with step have e: "pd_main s = AwaitingGroup" "group_done s" "s' = s\<lparr>pd_main := Exited (exit_code s)\<rparr>"
      by (auto simp: production_step_def split: if_splits)
    with inv show ?thesis by (simp add: production_inv_def context_done_def group_done_def exit_code_def)
  next
    case NodeBuilds
    have "production_inv (s\<lparr>pd_node := Assigned, pd_server := True\<rparr>)"
      using inv running by (simp add: production_inv_def context_done_def)
    with step NodeBuilds show ?thesis by (simp add: production_step_def split: if_splits)
  next
    case NodeListens
    have "production_inv (s\<lparr>pd_node := Bound\<rparr>)" if "pd_node s = Assigned"
      using inv running that by (simp add: production_inv_def context_done_def)
    with step NodeListens show ?thesis by (simp add: production_step_def split: if_splits)
  next
    case Signal
    have "production_inv (s\<lparr>pd_signalled := True\<rparr>)" using inv running by (simp add: production_inv_def context_done_def)
    moreover have "production_inv (s\<lparr>pd_main := Killed\<rparr>)" if "pd_stopped s"
      using inv that by (simp add: production_inv_def context_done_def)
    ultimately show ?thesis using step Signal by (auto simp: production_step_def split: if_splits)
  next
    case Idle
    have "production_inv (s\<lparr>pd_signalled := True, pd_stopped := True\<rparr>)" if "pd_idle s"
      using inv running that by (simp add: production_inv_def context_done_def)
    with step Idle show ?thesis by (simp add: production_step_def split: if_splits)
  next
    case (NodeFails err)
    with step ends show ?thesis by (auto simp: production_step_def split: if_splits)
  next
    case NodeFindsNoListener
    with step ends show ?thesis by (auto simp: production_step_def split: if_splits)
  next
    case (ListenerFails err)
    with step ends show ?thesis by (auto simp: production_step_def split: if_splits)
  qed
qed

interpretation production_invariant: step_invariant process_runs production_step production_inv
  by unfold_locales (rule production_inv_step)

section \<open>What a process has gone through\<close>

fun goroutine_fails :: "production_label \<Rightarrow> bool" where
  "goroutine_fails (NodeFails err) = True"
| "goroutine_fails (ListenerFails err) = True"
| "goroutine_fails (HooksEnd (Some err)) = True"
| "goroutine_fails l = False"

lemma goroutine_fails_HooksEnd [simp]: "goroutine_fails (HooksEnd err) \<longleftrightarrow> err \<noteq> None"
  by (cases err) simp_all

lemma HandleGracefulShutdown_simps [simp]:
  "pd_error (HandleGracefulShutdown s) = pd_error s" "pd_signalled (HandleGracefulShutdown s) = pd_signalled s"
  "pd_idle (HandleGracefulShutdown s) = pd_idle s" "pd_stopped (HandleGracefulShutdown s) = pd_stopped s"
  "pd_main (HandleGracefulShutdown s) = pd_main s"
  by (auto simp: HandleGracefulShutdown_def end_node_def note_error_def Let_def split: option.splits)

lemma end_node_simps [simp]:
  "pd_node (end_node err s) = Ended err" "pd_signalled (end_node err s) = pd_signalled s" "pd_idle (end_node err s) = pd_idle s"
  "pd_stopped (end_node err s) = pd_stopped s" "pd_main (end_node err s) = pd_main s"
  "pd_error (end_node err s) = None \<longleftrightarrow> pd_error s = None \<and> err = None"
  by (simp_all add: end_node_def)

lemma end_node_error [simp]: "\<exists>e. pd_error (end_node (Some err) s) = Some e"
  by (cases "pd_error s") (simp_all add: end_node_def note_error_def)

text \<open>Nothing but the labels says whether somebody stopped the process, a goroutine failed, or the idle handler ran.\<close>

lemma step_history:
  assumes "production_step s l s'" "pd_stopped s \<longrightarrow> pd_signalled s"
  shows "pd_signalled s' \<longleftrightarrow> pd_signalled s \<or> l = Signal \<or> l = Idle"
    and "pd_error s' = None \<longleftrightarrow> pd_error s = None \<and> \<not> goroutine_fails l"
    and "pd_stopped s' \<longleftrightarrow> pd_stopped s \<or> l = Idle"
    and "pd_idle s' = pd_idle s"
    and "l = Idle \<longrightarrow> pd_idle s"
proof -
  have next_step: "production_next l s = Some s'" using assms(1) by (simp add: production_step_def)
  show "pd_signalled s' \<longleftrightarrow> pd_signalled s \<or> l = Signal \<or> l = Idle"
    using next_step assms(2) by (cases l) (auto split: if_split_asm)
  show "pd_error s' = None \<longleftrightarrow> pd_error s = None \<and> \<not> goroutine_fails l"
    using next_step by (cases l) (auto split: if_split_asm)
  show "pd_stopped s' \<longleftrightarrow> pd_stopped s \<or> l = Idle"
    using next_step by (cases l) (auto split: if_split_asm)
  show "pd_idle s' = pd_idle s"
    using next_step by (cases l) (auto split: if_split_asm)
  show "l = Idle \<longrightarrow> pd_idle s"
    using next_step by (cases l) (auto split: if_split_asm)
qed

lemma runs_history:
  assumes "production_runs s ls s'" "production_inv s"
  shows "pd_signalled s' \<longleftrightarrow> pd_signalled s \<or> Signal \<in> set ls \<or> Idle \<in> set ls"
    and "pd_error s' = None \<longleftrightarrow> pd_error s = None \<and> (\<forall>l \<in> set ls. \<not> goroutine_fails l)"
    and "pd_stopped s' \<longleftrightarrow> pd_stopped s \<or> Idle \<in> set ls"
    and "pd_idle s' = pd_idle s"
proof -
  have "(pd_signalled s' \<longleftrightarrow> pd_signalled s \<or> Signal \<in> set ls \<or> Idle \<in> set ls)
    \<and> (pd_error s' = None \<longleftrightarrow> pd_error s = None \<and> (\<forall>l \<in> set ls. \<not> goroutine_fails l))
    \<and> (pd_stopped s' \<longleftrightarrow> pd_stopped s \<or> Idle \<in> set ls) \<and> pd_idle s' = pd_idle s"
    using assms
  proof (induction rule: runs.induct)
    case (runs_Cons s l s' ls s'')
    have "pd_stopped s \<longrightarrow> pd_signalled s" using runs_Cons.prems by (simp add: production_inv_def)
    note step = step_history [OF runs_Cons.hyps(2) this]
    have "production_inv s'" using runs_Cons by (blast intro: production_inv_step)
    note IH = runs_Cons.IH [OF this]
    show ?case
    proof (intro conjI)
      show "pd_signalled s'' \<longleftrightarrow> pd_signalled s \<or> Signal \<in> set (l # ls) \<or> Idle \<in> set (l # ls)"
        using IH step(1) by auto
      show "pd_error s'' = None \<longleftrightarrow> pd_error s = None \<and> (\<forall>l \<in> set (l # ls). \<not> goroutine_fails l)"
        using IH step(2) by simp
      show "pd_stopped s'' \<longleftrightarrow> pd_stopped s \<or> Idle \<in> set (l # ls)" using IH step(3) by auto
      show "pd_idle s'' = pd_idle s" using IH step(4) by simp
    qed
  qed simp
  then show "pd_signalled s' \<longleftrightarrow> pd_signalled s \<or> Signal \<in> set ls \<or> Idle \<in> set ls"
    and "pd_error s' = None \<longleftrightarrow> pd_error s = None \<and> (\<forall>l \<in> set ls. \<not> goroutine_fails l)"
    and "pd_stopped s' \<longleftrightarrow> pd_stopped s \<or> Idle \<in> set ls" and "pd_idle s' = pd_idle s"
    by blast+
qed

text \<open>Only a signal kills a process, and it is its last step.\<close>

lemma kill_step: "production_step s l s' \<Longrightarrow> pd_main s' = Killed \<Longrightarrow> pd_main s \<noteq> Killed \<Longrightarrow> l = Signal \<and> pd_stopped s"
  by (cases l) (auto simp: production_step_def split: if_splits)

lemma killed_by_signal:
  "production_runs s ls s' \<Longrightarrow> pd_main s' = Killed \<Longrightarrow> production_inv s \<Longrightarrow> pd_main s \<noteq> Killed
    \<Longrightarrow> \<exists>pre. ls = pre @ [Signal] \<and> (pd_stopped s \<or> Idle \<in> set pre)"
proof (induction rule: runs.induct)
  case (runs_Cons s l s' ls s'')
  show ?case
  proof (cases "pd_main s' = Killed")
    case True
    with runs_Cons.hyps(3) have "ls = []" by (cases ls) (auto simp: runs_Cons_iff process_runs_def)
    with kill_step [OF runs_Cons.hyps(2) True] runs_Cons.prems show ?thesis by auto
  next
    case False
    have "production_inv s'" using runs_Cons by (blast intro: production_inv_step)
    then obtain pre where pre: "ls = pre @ [Signal]" "pd_stopped s' \<or> Idle \<in> set pre"
      using runs_Cons False by blast
    have "pd_stopped s \<longrightarrow> pd_signalled s" using runs_Cons.prems by (simp add: production_inv_def)
    from pre(2) step_history(3) [OF runs_Cons.hyps(2) this] have "pd_stopped s \<or> Idle \<in> set (l # pre)" by auto
    with pre(1) show ?thesis by (intro exI [of _ "l # pre"]) simp
  qed
qed simp

section \<open>A process that does not end\<close>

text \<open>A shutdown that found no server: nothing closes the server any more, unless the node fails.\<close>

fun node_fails :: "production_label \<Rightarrow> bool" where
  "node_fails (NodeFails err) = True"
| "node_fails (ListenerFails err) = True"
| "node_fails NodeFindsNoListener = True"
| "node_fails l = False"

definition missed_shutdown :: "production \<Rightarrow> bool" where
  "missed_shutdown s \<longleftrightarrow> pd_main s \<in> {AwaitingGroup, Killed} \<and> \<not> ended (pd_node s) \<and> \<not> pd_closed s"

definition node_holds :: "production \<Rightarrow> production_label \<Rightarrow> bool" where
  "node_holds s l \<longleftrightarrow> process_runs s l \<and> \<not> node_fails l"

lemma missed_shutdown_step:
  assumes "missed_shutdown s" "node_holds s l" "production_step s l s'"
  shows "missed_shutdown s'"
  using assms
  by (cases l) (auto simp: missed_shutdown_def node_holds_def production_step_def group_done_def process_runs_def
      split: if_splits)

interpretation missed: step_invariant node_holds production_step missed_shutdown
  by unfold_locales (rule missed_shutdown_step)

lemma runs_node_holds:
  "production_runs s ls s' \<Longrightarrow> \<forall>l \<in> set ls. \<not> node_fails l \<Longrightarrow> runs node_holds production_step s ls s'"
  by (induction rule: runs.induct) (auto simp: node_holds_def intro!: runs.intros)

text \<open>What the node has left to do until it serves.\<close>

lemma missed_shutdown_serves:
  assumes "missed_shutdown s" "pd_main s = AwaitingGroup"
  shows "\<exists>ls t. production_runs s ls t \<and> pd_node t = Serving \<and> length ls \<le> 3"
proof -
  have "\<exists>ls t. production_run ls s = Some t \<and> pd_node t = Serving \<and> length ls \<le> 3"
  proof (cases "pd_node s")
    case Building
    with assms show ?thesis
      by (intro exI [of _ "[NodeBuilds, NodeListens, NodeServes]"]) (simp add: missed_shutdown_def)
  next
    case Assigned
    with assms show ?thesis by (intro exI [of _ "[NodeListens, NodeServes]"]) (simp add: missed_shutdown_def)
  next
    case Bound
    with assms show ?thesis by (intro exI [of _ "[NodeServes]"]) (simp add: missed_shutdown_def)
  next
    case Serving
    then show ?thesis by (intro exI [of _ "[]"]) simp
  next
    case (Ended r)
    with assms show ?thesis by (simp add: missed_shutdown_def)
  qed
  then show ?thesis using production_run_runs by blast
qed

text \<open>A node that ended without an error, when nobody has stopped the process.\<close>

definition idle_process :: "production \<Rightarrow> bool" where
  "idle_process s \<longleftrightarrow> pd_main s = AwaitingContext \<and> pd_node s = Ended None \<and> pd_hooks s \<noteq> HooksRunning
     \<and> \<not> context_done s"

definition unattended :: "production \<Rightarrow> production_label \<Rightarrow> bool" where
  "unattended s l \<longleftrightarrow> l \<notin> {Signal, Idle}"

lemma idle_process_stuck:
  assumes "idle_process s" "unattended s l"
  shows "\<not> production_step s l s'"
  using assms by (cases l) (auto simp: idle_process_def unattended_def production_step_def group_done_def split: if_splits)

text \<open>Without a listener the process goes on without a server.\<close>

lemma no_listener_idles:
  "\<exists>s. production_runs (new_production False idle) [NodeBuilds, NodeFindsNoListener] s \<and> idle_process s"
proof -
  have "\<exists>s. production_run [NodeBuilds, NodeFindsNoListener] (new_production False idle) = Some s \<and> idle_process s"
    by (simp add: new_production_def end_node_def note_error_def idle_process_def context_done_def)
  then show ?thesis using production_run_runs by blast
qed

text \<open>
  The idle handler has two more effects. The context of a group with a failed goroutine is done, so the handler may
  cancel that of the signals before the exit code is chosen: a process with an idle timeout hides the failure. And a
  signal that comes while an idle process drains its server kills it with the server still at work.
\<close>

lemma idle_handler_hides_failure:
  "\<exists>s. production_runs (new_production True True)
      [NodeBuilds, NodeListens, NodeServes, HooksEnd (Some err), Idle, ShutDown, Exit] s
    \<and> pd_error s = Some err \<and> pd_main s = Exited 0"
proof -
  let ?ls = "[NodeBuilds, NodeListens, NodeServes, HooksEnd (Some err), Idle, ShutDown, Exit]"
  have "\<exists>s. production_run ?ls (new_production True True) = Some s \<and> pd_error s = Some err \<and> pd_main s = Exited 0"
    by (simp add: new_production_def end_node_def note_error_def context_done_def HandleGracefulShutdown_def
        group_done_def exit_code_def)
  then show ?thesis using production_run_runs by blast
qed

lemma idle_handler_unregisters_signals:
  "\<exists>s. production_runs (new_production with_hooks True) [NodeBuilds, NodeListens, NodeServes, Idle, Signal] s
    \<and> pd_main s = Killed \<and> pd_node s = Serving"
proof -
  have "\<exists>s. production_run [NodeBuilds, NodeListens, NodeServes, Idle, Signal] (new_production with_hooks True) = Some s
    \<and> pd_main s = Killed \<and> pd_node s = Serving"
    by (simp add: new_production_def)
  then show ?thesis using production_run_runs by blast
qed

section \<open>Properties\<close>

text \<open>C38: A process that exits has waited for both goroutines; its exit code is 1 exactly when one of them failed
  and neither a signal nor the idle handler stopped the process, whatever the interleaving. A process that does not
  exit can only be killed by a signal, and only with an idle timeout, by one that comes after the idle handler.
\<close>

theorem exited_process:
  assumes "production_runs (new_production with_hooks idle) ls s"
  shows "(\<forall>code. pd_main s = Exited code \<longrightarrow>
        ended (pd_node s) \<and> pd_hooks s \<noteq> HooksRunning
        \<and> code = (if (\<exists>l \<in> set ls. goroutine_fails l) \<and> Signal \<notin> set ls \<and> Idle \<notin> set ls then 1 else 0)
        \<and> (code = 0 \<longrightarrow> Signal \<in> set ls \<or> Idle \<in> set ls))
    \<and> (pd_main s = Killed \<longrightarrow> idle \<and> (\<exists>pre. ls = pre @ [Signal] \<and> Idle \<in> set pre))"
proof -
  have inv: "production_inv s" by (rule production_invariant.runs_inv [OF assms production_inv_new])
  note history = runs_history [OF assms production_inv_new]
  have new: "pd_signalled (new_production with_hooks idle) = False" "pd_error (new_production with_hooks idle) = None"
    "pd_stopped (new_production with_hooks idle) = False" "pd_main (new_production with_hooks idle) \<noteq> Killed"
    "pd_idle (new_production with_hooks idle) = idle"
    by (simp_all add: new_production_def)
  have killed: "idle \<and> (\<exists>pre. ls = pre @ [Signal] \<and> Idle \<in> set pre)" if "pd_main s = Killed"
    using killed_by_signal [OF assms that production_inv_new] new history(4) inv that by (auto simp: production_inv_def)
  have exited: "group_done s \<and> code = exit_code s \<and> context_done s" if "pd_main s = Exited code" for code
    using inv that by (simp add: production_inv_def)
  have code: "exit_code s = (if (\<exists>l \<in> set ls. goroutine_fails l) \<and> Signal \<notin> set ls \<and> Idle \<notin> set ls then 1 else 0)"
    using history(1,2) new by (simp add: exit_code_def)
  have "ended (pd_node s) \<and> pd_hooks s \<noteq> HooksRunning
        \<and> code = (if (\<exists>l \<in> set ls. goroutine_fails l) \<and> Signal \<notin> set ls \<and> Idle \<notin> set ls then 1 else 0)
        \<and> (code = 0 \<longrightarrow> Signal \<in> set ls \<or> Idle \<in> set ls)" if m: "pd_main s = Exited code" for code
  proof -
    have "Signal \<in> set ls \<or> Idle \<in> set ls" if "code = 0"
      using exited [OF m] history(1,2) new code that by (auto simp: context_done_def split: if_splits)
    with exited [OF m] code show ?thesis by (simp add: group_done_def)
  qed
  with killed show ?thesis by blast
qed

theorem exited_process_witness:
  "(\<exists>s. production_runs (new_production True True)
      [NodeBuilds, HooksEnd (Some (Err ''exit 1'')), NodeListens, NodeServes, ShutDown, Exit] s \<and> pd_main s = Exited 1)
   \<and> (\<exists>s. production_runs (new_production False True) [NodeBuilds, Idle, Signal] s \<and> pd_main s = Killed)"
proof
  let ?ls = "[NodeBuilds, HooksEnd (Some (Err ''exit 1'')), NodeListens, NodeServes, ShutDown, Exit]"
  have "\<exists>s code. production_run ?ls (new_production True True) = Some s \<and> pd_main s = Exited code"
    by (simp add: new_production_def end_node_def note_error_def context_done_def HandleGracefulShutdown_def
        group_done_def)
  then obtain s code where run: "production_run ?ls (new_production True True) = Some s" and s: "pd_main s = Exited code"
    by blast
  note run = production_run_runs [OF run]
  from exited_process [OF run] s have "code = 1" by simp
  with run s show "\<exists>s. production_runs (new_production True True) ?ls s \<and> pd_main s = Exited 1" by blast
next
  have "\<exists>s. production_run [NodeBuilds, Idle, Signal] (new_production False True) = Some s \<and> pd_main s = Killed"
    by (simp add: new_production_def)
  then show "\<exists>s. production_runs (new_production False True) [NodeBuilds, Idle, Signal] s \<and> pd_main s = Killed"
    using production_run_runs by blast
qed

text \<open>C39: A shutdown that begins while the node is still building its server is lost. Whatever happens afterwards,
  short of a failure of the node itself, the process does not exit: the shutdown found no server, and the server that
  is then built can still be started and serves. Signals change nothing, unless the process has an idle timeout, with
  which one can kill it.
\<close>

theorem shutdown_while_building_is_lost:
  assumes "production_runs (new_production with_hooks idle) before s" "pd_node s = Building"
    and "production_runs s (ShutDown # ls) u" "\<forall>l \<in> set ls. \<not> node_fails l"
  shows "\<not> ended (pd_node u)
    \<and> (pd_main u = AwaitingGroup \<and> (\<exists>ls' v. production_runs u ls' v \<and> pd_node v = Serving \<and> length ls' \<le> 3)
       \<or> pd_main u = Killed \<and> idle)"
proof -
  have inv: "production_inv s" by (rule production_invariant.runs_inv [OF assms(1) production_inv_new])
  from assms(3) obtain t where t: "production_step s ShutDown t" "production_runs t ls u"
    by (auto simp: runs_Cons_iff)
  with inv assms(2) have "missed_shutdown t"
    by (auto simp: missed_shutdown_def production_inv_def production_step_def HandleGracefulShutdown_def split: if_splits)
  then have missed: "missed_shutdown u"
    by (rule missed.runs_inv [OF runs_node_holds [OF t(2) assms(4)]])
  have "production_runs (new_production with_hooks idle) (before @ ShutDown # ls) u"
    using assms(1,3) by (auto simp: runs_append)
  note all = this
  have "idle" if "pd_main u = Killed"
    using production_invariant.runs_inv [OF all production_inv_new] runs_history(4) [OF all production_inv_new] that
    by (simp add: production_inv_def new_production_def)
  with missed missed_shutdown_serves [OF missed] show ?thesis by (auto simp: missed_shutdown_def)
qed

theorem shutdown_while_building_is_lost_witness:
  "\<exists>u v ls. production_runs (new_production True False)
      [HooksEnd (Some (Err ''exit 1'')), ShutDown, NodeBuilds, Signal, Signal] u
    \<and> production_runs u ls v \<and> pd_node v = Serving"
proof -
  let ?new = "new_production True False"
  have "\<exists>s. production_run [HooksEnd (Some (Err ''exit 1''))] ?new = Some s \<and> pd_node s = Building
      \<and> (\<exists>u. production_run [ShutDown, NodeBuilds, Signal, Signal] s = Some u)"
    by (simp add: new_production_def note_error_def context_done_def HandleGracefulShutdown_def)
  then obtain s u where s: "production_runs ?new [HooksEnd (Some (Err ''exit 1''))] s" "pd_node s = Building"
    and u: "production_runs s [ShutDown, NodeBuilds, Signal, Signal] u"
    using production_run_runs by blast
  from s(1) u have "production_runs ?new ([HooksEnd (Some (Err ''exit 1''))] @ [ShutDown, NodeBuilds, Signal, Signal]) u"
    unfolding runs_append by blast
  with shutdown_while_building_is_lost [OF s u] show ?thesis by auto
qed

text \<open>A signal that comes once the server is set ends the node in at most three more of its steps.\<close>

lemma shutdown_ends_node:
  assumes "production_inv s" "pd_main s = AwaitingContext" "context_done s" "pd_server s" "\<not> ended (pd_node s)"
  shows "\<exists>ls t. production_runs s (ShutDown # ls) t \<and> ended (pd_node t) \<and> length ls \<le> 2"
proof -
  consider "pd_node s = Assigned" | "pd_node s = Bound" | "pd_node s = Serving"
    using assms(1,4,5) by (cases "pd_node s") (auto simp: production_inv_def)
  then have "\<exists>ls t. production_run (ShutDown # ls) s = Some t \<and> ended (pd_node t) \<and> length ls \<le> 2"
  proof cases
    case 1
    with assms show ?thesis
      by (intro exI [of _ "[NodeListens, NodeServes]"]) (simp add: HandleGracefulShutdown_def end_node_def note_error_def)
  next
    case 2
    with assms show ?thesis
      by (intro exI [of _ "[NodeServes]"]) (simp add: HandleGracefulShutdown_def end_node_def note_error_def)
  next
    case 3
    with assms show ?thesis
      by (intro exI [of _ "[]"]) (simp add: HandleGracefulShutdown_def end_node_def note_error_def)
  qed
  then show ?thesis using production_run_runs by blast
qed

section \<open>Developing\<close>

text \<open>The command that frees the port of the hooks server; its errors are logged only.\<close>

definition KillExistingHooksProcess :: "bool \<Rightarrow> int \<Rightarrow> string \<times> string list" where
  "KillExistingHooksProcess windows serverListenPort =
     (if windows
      then (''Stop-Process'', [''-Id'', ''(Get-NetTCPConnection -LocalPort '' @ itoa_int serverListenPort @ '').OwningProcess -Force''])
      else (''bash'', [''-c'', ''lsof -i tcp:'' @ itoa_int serverListenPort
        @ '' | grep LISTEN | awk '' @ [CHR 0x27] @ ''{print $2}'' @ [CHR 0x27] @ '' | xargs kill -9'']))"

text \<open>The path of the program for its sub-processes: the one of the parent, if it has set one.\<close>

definition wunderctlBinaryPath :: "string option \<Rightarrow> string res \<Rightarrow> string" where
  "wunderctlBinaryPath parent executable =
     (case parent of
        Some path \<Rightarrow> path
      | None \<Rightarrow> (case executable of Inl err \<Rightarrow> [] | Inr exe \<Rightarrow> exe))"

record up_flags =
  uf_root :: root_flags
  uf_environ :: "string list"
  uf_no_cache :: bool
  uf_binary :: string
  uf_windows :: bool
  uf_auth_demo :: github_auth_demo

definition up_runner :: "up_flags \<Rightarrow> string \<Rightarrow> string list \<Rightarrow> script_runner" where
  "up_runner flags wunderGraphDir mode =
     NewScriptRunner ''node'' [path_join [''generated'', ''bundle'', ''config.js'']]
       (CliEnv (uf_environ flags) (uf_root flags) @ mode
         @ [''WG_ENABLE_INTROSPECTION_CACHE='' @ bool_text (\<not> uf_no_cache flags),
            ''WG_DIR_ABS='' @ wunderGraphDir, ''WUNDERCTL_BINARY_PATH='' @ uf_binary flags])
       [] wunderGraphDir"

definition config_runner :: "up_flags \<Rightarrow> string \<Rightarrow> script_runner" where
  "config_runner flags wunderGraphDir = up_runner flags wunderGraphDir []"

definition introspection_poller :: "up_flags \<Rightarrow> string \<Rightarrow> script_runner" where
  "introspection_poller flags wunderGraphDir = up_runner flags wunderGraphDir [''WG_DATA_SOURCE_POLLING_MODE=true'']"

definition up_hooks_bundler :: "string \<Rightarrow> bundler_config" where
  "up_hooks_bundler wunderGraphDir =
     (project_bundler wunderGraphDir [''wundergraph.server.ts''] [] (path_join [''generated'', ''bundle'', ''server.js'']) [] False)
       \<lparr>bc_watch := [\<lparr>wp_optional = False, wp_path = path_join [wunderGraphDir, ''generated'', ''wundergraph.config.json'']\<rparr>]\<rparr>"

definition up_hooks_runner :: "up_flags \<Rightarrow> string \<Rightarrow> script_runner" where
  "up_hooks_runner flags wunderGraphDir =
     NewServerRunner \<lparr>sc_dir = wunderGraphDir, sc_script = path_join [''generated'', ''bundle'', ''server.js''],
       sc_production = False, sc_env = CliEnv (uf_environ flags) (uf_root flags)\<rparr>"

text \<open>The node watches the configuration file, which the channel announces.\<close>

definition up_node_options :: "up_flags \<Rightarrow> string \<Rightarrow> option_fn list" where
  "up_node_options flags wunderGraphDir =
     [WithConfigFileChange True, WithFileSystemConfig (path_join [wunderGraphDir, ''generated'', ''wundergraph.config.json'']),
      WithDebugMode (rf_debug (uf_root flags)), WithInsecureCookies, WithIntrospection True,
      WithGitHubAuthDemo (uf_auth_demo flags), WithDevMode]"

text \<open>
  What up starts, in order, until it waits for the end of its context: an error of the first bundling is logged, and the
  command goes on. The watchers and the node are goroutines.
\<close>

datatype up_action =
    KillProcess "string \<times> string list"
  | BundleConfig bundler_config "CliCommands.up_event list"
  | WatchBundler
  | WatchConfigFile watch_config
  | StartNode "goroutine list res"
  | AnnounceConfig
  | AwaitEnd
  | CloseNode

definition config_file_watch :: "string \<Rightarrow> watch_config" where
  "config_file_watch wunderGraphDir =
     \<lparr>wc_paths = [\<lparr>wp_optional = False, wp_path = path_join [wunderGraphDir, ''generated'', ''wundergraph.config.json'']\<rparr>], wc_ignore = []\<rparr>"

definition up_webhooks :: "files_env \<Rightarrow> string \<Rightarrow> string list option res" where
  "up_webhooks fs wunderGraphDir =
     (if DirectoryExists fs (path_join [wunderGraphDir, ''webhooks''])
      then map_sum id Some (GetWebhooks fs wunderGraphDir) else Inr None)"

definition up_start :: "up_flags \<Rightarrow> string \<Rightarrow> CliCommands.up_event list \<Rightarrow> up_action list" where
  "up_start flags wunderGraphDir after =
     [BundleConfig (up_config_bundler wunderGraphDir) after, WatchBundler, WatchConfigFile (config_file_watch wunderGraphDir),
      StartNode (StartBlocking (up_node_options flags wunderGraphDir)), AnnounceConfig, AwaitEnd, CloseNode]"

definition up_command ::
    "(string \<Rightarrow> string) \<Rightarrow> files_env \<Rightarrow> (bytes \<Rightarrow> server_options option option res) \<Rightarrow> up_flags \<Rightarrow> string
      \<Rightarrow> (up_action list \<times> go_error option) outcome" where
  "up_command vars fs decode flags dirFlag =
     (case FindWunderGraphDir fs dirFlag of
        Inl err \<Rightarrow> outcome.Returned ([], Some err)
      | Inr wunderGraphDir \<Rightarrow>
          (case CodeFilePath fs wunderGraphDir ''wundergraph.config.ts'' of
             Inl err \<Rightarrow> outcome.Returned ([], Some err)
           | Inr _ \<Rightarrow>
               bind_out (ServerPortFromConfig vars fs decode
                   (path_join [wunderGraphDir, ''generated'', ''wundergraph.config.json''])) (\<lambda>port.
               let kills = (case port of
                     Inl _ \<Rightarrow> [] | Inr p \<Rightarrow> [KillProcess (KillExistingHooksProcess (uf_windows flags) p)]) in
               case CodeFilePath fs wunderGraphDir ''wundergraph.server.ts'' of
                 Inl _ \<Rightarrow> outcome.Returned (kills @ up_start flags wunderGraphDir (up_after_build False False), None)
               | Inr _ \<Rightarrow>
                   (case up_webhooks fs wunderGraphDir of
                      Inl err \<Rightarrow> outcome.Returned (kills, Some err)
                    | Inr webhooks \<Rightarrow>
                        outcome.Returned (kills @ up_start flags wunderGraphDir (up_after_build True (webhooks \<noteq> None)), None)))))"

text \<open>The flags of every command with their values at the start, and the entry of the program.\<close>

definition default_flags :: root_flags where
  "default_flags = \<lparr>rf_log_level = ''info'', rf_pretty = False, rf_debug = False\<rparr>"

definition execute_exit :: "go_error option \<Rightarrow> nat" where
  "execute_exit err = (case err of None \<Rightarrow> 0 | Some _ \<Rightarrow> 1)"

definition main_auth_demo :: "(string \<Rightarrow> string option) \<Rightarrow> github_auth_demo" where
  "main_auth_demo env =
     \<lparr>gd_client_id = (case env ''GH_WG_AUTH_DEMO_CLIENT_ID'' of Some v \<Rightarrow> v | None \<Rightarrow> ''unknown''),
      gd_client_secret = (case env ''GH_WG_AUTH_DEMO_CLIENT_SECRET'' of Some v \<Rightarrow> v | None \<Rightarrow> ''unknown'')\<rparr>"

text \<open>A node in development polls the file: with its channel it starts the loop and the poller.\<close>

lemma up_node_polls:
  "StartBlocking (up_node_options flags dir) =
     Inr [ReconfigureOnConfigUpdate, FilePollConfig (path_join [dir, ''generated'', ''wundergraph.config.json''])]"
  by (simp add: StartBlocking_def up_node_options_def apply_options_def zero_options_def)

text \<open>What up starts does not depend on whether the first bundling succeeds, and it ends by closing the node.\<close>

lemma up_command_starts:
  assumes "up_command vars fs decode flags dirFlag = outcome.Returned (actions, None)"
  shows "\<exists>kills dir after. actions = kills @ up_start flags dir after \<and> length kills \<le> 1
    \<and> FindWunderGraphDir fs dirFlag = Inr dir \<and> AnnounceConfig \<in> set actions"
proof -
  from assms obtain dir where dir: "FindWunderGraphDir fs dirFlag = Inr dir"
    by (auto simp: up_command_def split: sum.splits)
  from assms dir obtain port where port: "ServerPortFromConfig vars fs decode (path_join [dir, ''generated'', ''wundergraph.config.json'']) = outcome.Returned port"
    by (cases "ServerPortFromConfig vars fs decode (path_join [dir, ''generated'', ''wundergraph.config.json''])")
      (auto simp: up_command_def split: sum.splits)
  let ?kills = "case port of Inl _ \<Rightarrow> [] | Inr p \<Rightarrow> [KillProcess (KillExistingHooksProcess (uf_windows flags) p)]"
  from assms dir port obtain after where "actions = ?kills @ up_start flags dir after"
    by (auto simp: up_command_def Let_def split: sum.splits)
  moreover have "length ?kills \<le> 1" by (simp split: sum.splits)
  ultimately show ?thesis using dir by (intro exI [of _ ?kills] exI [of _ dir] exI [of _ after]) (simp add: up_start_def)
qed

end
