(* ===== verification/ApiCache.thy ===== *)
theory ApiCache
  imports Prelude
begin

text \<open>
  The caches of the handlers (pkg/apicache/apicache.go): wrappers over an in-memory store and over a Redis
  client, which are parameters, and the cache that keeps nothing. What the handlers rely on is the locale
  \<open>sound_cache\<close>: a hit is the entry last set under the key, and not deleted since.
\<close>

section \<open>Items\<close>

record cache_item =
  it_data :: bytes
  it_insert :: int

definition Age :: "int \<Rightarrow> cache_item \<Rightarrow> int" where
  "Age now_unix item = wrap64 (now_unix - it_insert item)"

section \<open>What a cache promises\<close>

text \<open>
  \<open>get\<close>, \<open>put\<close> and \<open>delete\<close> on states \<open>'s\<close>; \<open>ok\<close> relates a state to the entries set and not deleted
  since. A cache may forget, but it makes nothing up.
\<close>

locale sound_cache =
  fixes get :: "string \<Rightarrow> 's \<Rightarrow> cache_item option"
    and put :: "int \<Rightarrow> int option \<Rightarrow> string \<Rightarrow> bytes \<Rightarrow> 's \<Rightarrow> 's"
    and delete :: "string \<Rightarrow> 's \<Rightarrow> 's"
    and ok :: "(string \<rightharpoonup> cache_item) \<Rightarrow> 's \<Rightarrow> bool"
  assumes get_ok: "ok m s \<Longrightarrow> get key s = Some item \<Longrightarrow> m key = Some item"
    and set_ok: "ok m s \<Longrightarrow> ok (m(key \<mapsto> \<lparr>it_data = data, it_insert = now\<rparr>)) (put now ttl key data s)"
    and delete_ok: "ok m s \<Longrightarrow> ok (m(key := None)) (delete key s)"
begin

lemma get_after_set:
  "ok m s \<Longrightarrow> get key (put now ttl key data s) = Some item \<Longrightarrow> it_data item = data \<and> it_insert item = now"
  by (drule set_ok, drule get_ok) auto

lemma get_after_delete: "ok m s \<Longrightarrow> get key (delete key s) = None"
  by (cases "get key (delete key s)") (auto dest: get_ok [OF delete_ok])

end

section \<open>The cache that keeps nothing\<close>

definition NoOpCache_Get :: "string \<Rightarrow> unit \<Rightarrow> cache_item option" where
  "NoOpCache_Get key c = None"

definition NoOpCache_Set :: "int \<Rightarrow> int option \<Rightarrow> string \<Rightarrow> bytes \<Rightarrow> unit \<Rightarrow> unit" where
  "NoOpCache_Set now_unix ttl key data c = c"

definition NoOpCache_Delete :: "string \<Rightarrow> unit \<Rightarrow> unit" where
  "NoOpCache_Delete key c = c"

interpretation noop: sound_cache NoOpCache_Get NoOpCache_Set NoOpCache_Delete "\<lambda>m s. True"
  by unfold_locales (simp_all add: NoOpCache_Get_def)

section \<open>The in-memory cache\<close>

text \<open>The store of the library: values with a cost and an optional time to live.\<close>

record 's memory_store =
  ms_get :: "string \<Rightarrow> 's \<Rightarrow> cache_item option"
  ms_set :: "string \<Rightarrow> cache_item \<Rightarrow> nat \<Rightarrow> int option \<Rightarrow> 's \<Rightarrow> 's"
  ms_del :: "string \<Rightarrow> 's \<Rightarrow> 's"

definition InMemory_Get :: "'s memory_store \<Rightarrow> string \<Rightarrow> 's \<Rightarrow> cache_item option" where
  "InMemory_Get st key c = (case ms_get st key c of Some value \<Rightarrow> Some value | None \<Rightarrow> None)"

definition InMemory_SetWithTTL :: "'s memory_store \<Rightarrow> int \<Rightarrow> int option \<Rightarrow> string \<Rightarrow> bytes \<Rightarrow> 's \<Rightarrow> 's" where
  "InMemory_SetWithTTL st now_unix ttl key data c =
     ms_set st key \<lparr>it_data = data, it_insert = now_unix\<rparr> (length data) ttl c"

definition InMemory_Set :: "'s memory_store \<Rightarrow> int \<Rightarrow> string \<Rightarrow> bytes \<Rightarrow> 's \<Rightarrow> 's" where
  "InMemory_Set st now_unix key data c = ms_set st key \<lparr>it_data = data, it_insert = now_unix\<rparr> (length data) None c"

definition InMemory_Delete :: "'s memory_store \<Rightarrow> string \<Rightarrow> 's \<Rightarrow> 's" where
  "InMemory_Delete st key c = ms_del st key c"

text \<open>The library may drop entries and refuse new ones; it does not keep an entry that was replaced or deleted.\<close>

definition store_law :: "'s memory_store \<Rightarrow> ((string \<rightharpoonup> cache_item) \<Rightarrow> 's \<Rightarrow> bool) \<Rightarrow> bool" where
  "store_law st ok \<longleftrightarrow>
     (\<forall>m s key item. ok m s \<and> ms_get st key s = Some item \<longrightarrow> m key = Some item)
   \<and> (\<forall>m s key item cost ttl. ok m s \<longrightarrow> ok (m(key \<mapsto> item)) (ms_set st key item cost ttl s))
   \<and> (\<forall>m s key. ok m s \<longrightarrow> ok (m(key := None)) (ms_del st key s))"

lemma InMemory_sound:
  assumes "store_law st ok"
  shows "sound_cache (InMemory_Get st) (InMemory_SetWithTTL st) (InMemory_Delete st) ok"
  using assms
  by unfold_locales
    (simp_all add: store_law_def InMemory_Get_def InMemory_SetWithTTL_def InMemory_Delete_def split: option.splits)

section \<open>Redis\<close>

record 's redis_store =
  rs_get :: "string \<Rightarrow> 's \<Rightarrow> cache_item res"
  rs_set :: "string \<Rightarrow> cache_item \<Rightarrow> int option \<Rightarrow> 's \<Rightarrow> 's \<times> go_error option"
  rs_del :: "string \<Rightarrow> 's \<Rightarrow> 's \<times> go_error option"

text \<open>A parsed connection string; \<open>parse\<close> is that of the package net/url.\<close>

record redis_url =
  ru_host :: string
  ru_path :: string
  ru_user :: string
  ru_password :: string

record redis_options =
  ro_addr :: string
  ro_user :: string
  ro_password :: string

definition NewRedis :: "(string \<Rightarrow> redis_url res) \<Rightarrow> string \<Rightarrow> redis_options res" where
  "NewRedis parse connectionString =
     (case parse connectionString of
        Inl err \<Rightarrow> Inl err
      | Inr u \<Rightarrow>
          (let userName = ru_user u; password = ru_password u; addr = path_join [ru_host u, ru_path u] in
           Inr \<lparr>ro_addr = addr, ro_user = userName, ro_password = password\<rparr>))"

text \<open>Errors are logged, and a get that fails is a miss.\<close>

definition Redis_Get :: "'s redis_store \<Rightarrow> string \<Rightarrow> 's \<Rightarrow> cache_item option" where
  "Redis_Get st key c = (case rs_get st key c of Inl err \<Rightarrow> None | Inr item \<Rightarrow> Some item)"

definition Redis_SetWithTTL :: "'s redis_store \<Rightarrow> int \<Rightarrow> int option \<Rightarrow> string \<Rightarrow> bytes \<Rightarrow> 's \<Rightarrow> 's" where
  "Redis_SetWithTTL st now_unix ttl key data c = fst (rs_set st key \<lparr>it_data = data, it_insert = now_unix\<rparr> ttl c)"

definition Redis_Set :: "'s redis_store \<Rightarrow> int \<Rightarrow> string \<Rightarrow> bytes \<Rightarrow> 's \<Rightarrow> 's" where
  "Redis_Set st now_unix key data c = fst (rs_set st key \<lparr>it_data = data, it_insert = now_unix\<rparr> None c)"

definition Redis_Delete :: "'s redis_store \<Rightarrow> string \<Rightarrow> 's \<Rightarrow> 's" where
  "Redis_Delete st key c = fst (rs_del st key c)"

text \<open>A server that never fails is a sound cache.\<close>

definition redis_law :: "'s redis_store \<Rightarrow> ((string \<rightharpoonup> cache_item) \<Rightarrow> 's \<Rightarrow> bool) \<Rightarrow> bool" where
  "redis_law st ok \<longleftrightarrow>
     (\<forall>m s key item. ok m s \<and> rs_get st key s = Inr item \<longrightarrow> m key = Some item)
   \<and> (\<forall>m s key item ttl. ok m s \<longrightarrow> ok (m(key \<mapsto> item)) (fst (rs_set st key item ttl s)))
   \<and> (\<forall>m s key. ok m s \<longrightarrow> ok (m(key := None)) (fst (rs_del st key s)))"

lemma Redis_sound:
  assumes "redis_law st ok"
  shows "sound_cache (Redis_Get st) (Redis_SetWithTTL st) (Redis_Delete st) ok"
  using assms
  by unfold_locales (simp_all add: redis_law_def Redis_Get_def Redis_SetWithTTL_def Redis_Delete_def split: sum.splits)

text \<open>A set or delete that fails is only logged: the handlers get the old entry from then on.\<close>

lemma failed_set_keeps_old:
  assumes "rs_set st key \<lparr>it_data = data, it_insert = now\<rparr> ttl s = (s, Some err)"
  shows "Redis_Get st key (Redis_SetWithTTL st now ttl key data s) = Redis_Get st key s"
  using assms by (simp add: Redis_SetWithTTL_def)

text \<open>A connection string that names a database, as in \<open>redis://cache:6379/0\<close>, gives no address of a server.\<close>

lemma database_spoils_address:
  "path_join [''cache:6379'', ''/0''] = ''cache:6379/0''"
  by code_simp

section \<open>Entries of every cache\<close>

text \<open>The same law for the two caches in use: a hit after a set is what was set.\<close>

lemma hits_are_current:
  "store_law st ok \<Longrightarrow> ok m s
    \<Longrightarrow> InMemory_Get st key (InMemory_SetWithTTL st now ttl key data s) = Some item \<Longrightarrow> it_data item = data \<and> it_insert item = now"
  "redis_law rst rok \<Longrightarrow> rok m r
    \<Longrightarrow> Redis_Get rst key (Redis_SetWithTTL rst now ttl key data r) = Some item \<Longrightarrow> it_data item = data \<and> it_insert item = now"
  by (rule sound_cache.get_after_set [OF InMemory_sound]; assumption)
    (rule sound_cache.get_after_set [OF Redis_sound]; assumption)

end
