(* ===== verification/ApiClientV1.thy ===== *)
theory ApiClientV1
  imports CliAuth Wgpb
begin

text \<open>
  The first client of the WunderGraph API (pkg/wundergraphapi/client.go), which speaks GraphQL. The JSON codecs,
  jsonparser and brotli are parameters; the network is that of the command line (CliAuth). Errors of the
  analytics are logged only.
\<close>

section \<open>Requests\<close>

datatype deployment_variables = NoVariables | DeploymentVariables string string bytes "string list"

record graphQLRequest =
  gq_query :: string
  gq_variables :: deployment_variables

text \<open>
  \<open>vl_errors\<close> is the text at \<open>errors\<close> in an answer, \<open>vl_request\<close> the error of http.NewRequest for a URL,
  \<open>vl_brotli\<close> what the writer has written when it was flushed.
\<close>

record v1_lib =
  vl_marshal :: "graphQLRequest \<Rightarrow> bytes res"
  vl_marshal_config :: "wg_config \<Rightarrow> bytes res"
  vl_request :: "string \<Rightarrow> go_error option"
  vl_errors :: "bytes \<Rightarrow> bytes option"
  vl_brotli :: "bytes \<Rightarrow> bytes res"

definition v1_post :: "string \<Rightarrow> (string \<times> string) list \<Rightarrow> bytes \<Rightarrow> api_request" where
  "v1_post url headers body = \<lparr>ar_method = ''POST'', ar_url = url, ar_headers = headers, ar_body = body\<rparr>"

definition v1_do ::
    "cli_env \<Rightarrow> v1_lib \<Rightarrow> api_client \<Rightarrow> graphQLRequest \<Rightarrow> (bytes \<Rightarrow> 'r res) \<Rightarrow> 'v cli \<Rightarrow> 'r res \<times> 'v cli" where
  "v1_do env lib c graphQLRequest unmarshal s =
     (case vl_marshal lib graphQLRequest of
        Inl err \<Rightarrow> (Inl err, s)
      | Inr data \<Rightarrow>
          (case vl_request lib (ac_base c) of
             Some err \<Rightarrow> (Inl err, s)
           | None \<Rightarrow>
               (let req = v1_post (ac_base c)
                      [(''content-type'', ''application/json''), (''accept'', ''application/json''),
                       (''Authorization'', ac_token c)] data;
                    res = ce_api env (ci_calls s) req;
                    s = note_call (ApiCall req) s in
                case res of
                  Inl err \<Rightarrow> (Inl err, s)
                | Inr (status, body) \<Rightarrow>
                    (if status \<noteq> 200 then (Inl (Err (''status code: '' @ itoa status)), s)
                     else
                       (case body of
                          Inl err \<Rightarrow> (Inl err, s)
                        | Inr data \<Rightarrow>
                            (case vl_errors lib data of
                               Some errors \<Rightarrow> (Inl (Err (''errors: '' @ errors @ [CHR 0x0A])), s)
                             | None \<Rightarrow> (unmarshal data, s)))))))"

section \<open>The user\<close>

text \<open>A line of a query, behind tabs.\<close>

definition line :: "nat \<Rightarrow> string \<Rightarrow> string" where
  "line tabs t = replicate tabs (CHR 0x09) @ t"

definition UserInfoQuery :: string where
  "UserInfoQuery = join [CHR 0x0A]
     [line 0 ''query {'',
      line 4 ''  user {'',
      line 5 ''id'',
      line 5 ''name'',
      line 5 ''email'',
      line 5 ''namespaces {'',
      line 5 ''  ...NamespaceFragment'',
      line 5 ''}'',
      line 5 ''accessTokens {'',
      line 5 ''  id'',
      line 5 ''  name'',
      line 5 ''  createdAt'',
      line 5 ''}'',
      line 4 ''  }'',
      line 4 ''}'',
      line 4 ''fragment ApiFragment on Api {'',
      line 4 ''  id'',
      line 4 ''  name'',
      line 4 ''  visibility'',
      line 4 ''  markdownDescription'',
      line 4 ''  deployments {'',
      line 5 ''id'',
      line 5 ''name'',
      line 5 ''config'',
      line 5 ''environments {'',
      line 4 (''  '' @ line 2 ''id''),
      line 6 ''name'',
      line 5 ''}'',
      line 4 ''  }'',
      line 4 ''}'',
      line 4 '''',
      line 4 ''fragment EnvFragment on Environment {'',
      line 4 ''  id'',
      line 4 ''  name'',
      line 4 ''  primaryHostName'',
      line 4 ''  hostNames'',
      line 4 ''  primary'',
      line 4 ''  edges {'',
      line 5 ''id'',
      line 5 ''name'',
      line 5 ''location'',
      line 4 ''  }'',
      line 4 ''}'',
      line 4 '''',
      line 4 ''fragment NamespaceFragment on Namespace {'',
      line 4 ''  id'',
      line 4 ''  name'',
      line 4 ''  members {'',
      line 5 ''membership'',
      line 5 ''user {'',
      line 5 ''  id'',
      line 5 ''  name'',
      line 5 ''  email'',
      line 5 ''}'',
      line 4 ''  }'',
      line 4 ''  environments {'',
      line 5 ''...EnvFragment'',
      line 4 ''  }'',
      line 4 ''  apis {'',
      line 5 ''...ApiFragment'',
      line 4 ''  }'',
      line 4 ''}'']"

record v1_member =
  vm_membership :: string
  vm_id :: string
  vm_name :: string
  vm_email :: string

record v1_environment =
  ve_id :: string
  ve_name :: string
  ve_primary_host :: string
  ve_primary :: bool

record v1_namespace =
  vn_id :: string
  vn_name :: string
  vn_members :: "v1_member list option"
  vn_environments :: "v1_environment list option"

record v1_user =
  vu_id :: string
  vu_name :: string
  vu_email :: string
  vu_namespaces :: "v1_namespace list option"

record user_info_response =
  ur_data_user :: "v1_user option"

text \<open>The answer is returned beside the error; \<open>unmarshal\<close> is what decoding leaves in it, with its error.\<close>

definition UserInfo ::
    "cli_env \<Rightarrow> v1_lib \<Rightarrow> api_client \<Rightarrow> (bytes \<Rightarrow> user_info_response \<times> go_error option) \<Rightarrow> 'v cli
      \<Rightarrow> (user_info_response \<times> go_error option) \<times> 'v cli" where
  "UserInfo env lib c unmarshal s =
     (case v1_do env lib c \<lparr>gq_query = UserInfoQuery, gq_variables = NoVariables\<rparr> (\<lambda>data. Inr (unmarshal data)) s of
        (Inl err, s) \<Rightarrow> ((\<lparr>ur_data_user = None\<rparr>, Some err), s)
      | (Inr (info, err), s) \<Rightarrow> ((info, err), s))"

section \<open>Deployments\<close>

definition DeploymentMutation :: string where
  "DeploymentMutation = join [CHR 0x0A]
     [line 0 ''mutation ($input: CreateOrUpdateDeployment!) {'',
      line 4 ''  deploymentCreateOrUpdate('',
      line 5 ''input: $input'',
      line 4 ''  ) {'',
      line 5 ''... on DeploymentCreated {'',
      line 5 ''  created: deployment {'',
      line 6 ''...DeploymentFragment'',
      line 5 ''  }'',
      line 5 ''}'',
      line 5 ''... on DeploymentUpdated {'',
      line 5 ''  updated: deployment {'',
      line 6 ''...DeploymentFragment'',
      line 5 ''  }'',
      line 5 ''}'',
      line 5 ''... on Error {'',
      line 5 ''  code'',
      line 5 ''  message'',
      line 5 ''}'',
      line 4 ''  }'',
      line 4 ''}'',
      line 4 ''fragment DeploymentFragment on Deployment {'',
      line 4 ''  id'',
      line 4 ''  name'',
      line 4 ''  environments {'',
      line 5 ''id'',
      line 5 ''name'',
      line 5 ''primaryHostName'',
      line 4 ''  }'',
      line 4 ''}'']"

record v1_deployed =
  vd_id :: string
  vd_name :: string
  vd_environments :: "(string \<times> string \<times> string) list"

record deployment_response =
  dr_created :: v1_deployed
  dr_updated :: v1_deployed
  dr_error_code :: string
  dr_error_message :: string

definition CreateOrUpdateDeployment ::
    "cli_env \<Rightarrow> v1_lib \<Rightarrow> api_client \<Rightarrow> (bytes \<Rightarrow> deployment_response res) \<Rightarrow> wg_config option \<Rightarrow> 'v cli
      \<Rightarrow> deployment_response res \<times> 'v cli" where
  "CreateOrUpdateDeployment env lib c unmarshal input s =
     (case input of
        None \<Rightarrow> (Inl (Err ''WunderGraphConfiguration must not be nil''), s)
      | Some config \<Rightarrow>
          (if wg_api_id config = [] then (Inl (Err ''ApiID must not be empty''), s)
           else if length (wg_environment_ids config) = 0 then (Inl (Err ''environment IDs must not be nil''), s)
           else if wg_api config = None then (Inl (Err ''api must not be nil''), s)
           else
             (case vl_marshal_config lib config of
                Inl err \<Rightarrow> (Inl (Err ''unable to marshal api config''), s)
              | Inr configData \<Rightarrow>
                  v1_do env lib c
                    \<lparr>gq_query = DeploymentMutation,
                     gq_variables = DeploymentVariables (wg_api_id config) (wg_deployment_name config) configData
                       (wg_environment_ids config)\<rparr> unmarshal s)))"

section \<open>Analytics\<close>

text \<open>The result is what is logged.\<close>

definition SendWunderNodeAnalytics ::
    "cli_env \<Rightarrow> v1_lib \<Rightarrow> api_client \<Rightarrow> bytes \<Rightarrow> 'v cli \<Rightarrow> go_error option \<times> 'v cli" where
  "SendWunderNodeAnalytics env lib c data s =
     (case vl_brotli lib data of
        Inl err \<Rightarrow> (Some err, s)
      | Inr buf \<Rightarrow>
          (case vl_request lib (ac_base c @ ''/wundernode/analytics'') of
             Some err \<Rightarrow> (Some err, s)
           | None \<Rightarrow>
               (let req = v1_post (ac_base c @ ''/wundernode/analytics'')
                      [(''Content-Encoding'', ''br''), (''Authorization'', ''Bearer '' @ ac_token c)] buf;
                    res = ce_api env (ci_calls s) req;
                    s = note_call (ApiCall req) s in
                case res of
                  Inl err \<Rightarrow> (Some err, s)
                | Inr (status, _) \<Rightarrow> (if status \<noteq> 200 then (Some (Err (itoa status)), s) else (None, s)))))"

section \<open>Facts\<close>

text \<open>A deployment that is refused by its checks sends nothing; every other one sends at most one request.\<close>

definition complete_deployment :: "wg_config option \<Rightarrow> bool" where
  "complete_deployment input =
     (case input of
        None \<Rightarrow> False
      | Some config \<Rightarrow> wg_api_id config \<noteq> [] \<and> wg_environment_ids config \<noteq> [] \<and> wg_api config \<noteq> None)"

lemma v1_do_calls:
  assumes "v1_do env lib c q unmarshal s = (r, s')"
  shows "ci_calls s' = ci_calls s \<or> (\<exists>req. ci_calls s' = ci_calls s @ [ApiCall req] \<and> ar_url req = ac_base c)"
    and "r = Inr x \<Longrightarrow> ci_calls s' \<noteq> ci_calls s"
  using assms
  by (auto simp: v1_do_def v1_post_def note_call_def Let_def split: sum.splits option.splits prod.splits if_splits)

lemma deployment_sends_once:
  assumes "CreateOrUpdateDeployment env lib c unmarshal input s = (r, s')"
  shows "\<not> complete_deployment input \<Longrightarrow> ci_calls s' = ci_calls s \<and> (\<exists>err. r = Inl err)"
    and "ci_calls s' = ci_calls s \<or> (\<exists>req. ci_calls s' = ci_calls s @ [ApiCall req] \<and> ar_url req = ac_base c)"
    and "r = Inr x \<Longrightarrow> complete_deployment input \<and> ci_calls s' \<noteq> ci_calls s"
  using assms
  by (auto simp: CreateOrUpdateDeployment_def complete_deployment_def split: option.splits sum.splits if_splits
      dest: v1_do_calls)

text \<open>The two kinds of requests authorize differently: only the analytics name the scheme of the token.\<close>

lemma graphql_token_without_scheme:
  assumes "v1_do env lib c q unmarshal s = (r, s')" "ci_calls s' = ci_calls s @ [ApiCall req]"
  shows "(''Authorization'', ac_token c) \<in> set (ar_headers req)"
  using assms
  by (auto simp: v1_do_def v1_post_def note_call_def Let_def split: sum.splits option.splits prod.splits if_splits)

text \<open>An answer that is an error of the API is no error of the deployment: its caller must look at the code.\<close>

lemma api_error_is_success:
  assumes "complete_deployment (Some config)" "vl_marshal_config lib config = Inr data" "vl_request lib (ac_base c) = None"
    and "\<And>q. vl_marshal lib q = Inr (b q)" "\<And>calls req. ce_api env calls req = Inr (200, Inr answer)"
    and "vl_errors lib answer = None" "unmarshal answer = Inr response" "dr_error_code response \<noteq> []"
  shows "fst (CreateOrUpdateDeployment env lib c unmarshal (Some config) s) = Inr response"
  using assms by (auto simp: CreateOrUpdateDeployment_def complete_deployment_def v1_do_def Let_def)

end
