(* ===== verification/Spec2Isabelle.thy ===== *)
theory Spec2Isabelle
  imports Manifest ApiBuilder RequestContext IdleTimeout DatabaseSource Interpolate RestSource
    DatabasePlanner LoadOperations CliStart ApiCache ApiClientV1
begin

text \<open>
  A model of the server side of the WunderGraph SDK (Go, src/pkg).

  \<^bold>\<open>The program.\<close> A node (pkg/node) reads a WunderGraph configuration (the messages of pkg/wgpb,
  whose values are configuration variables read by pkg/loadvariable), derives from it the
  description of an API (pkg/apihandler/api.go), validates it (pkg/validate) and lets a builder
  (pkg/apihandler/apihandler.go) mount a router: middlewares, login providers and user endpoints
  (pkg/authentication), one handler per operation, webhooks (pkg/webhookhandler), uploads
  (pkg/s3uploadclient) and the GraphQL endpoint. A handler resolves its operation through data
  sources: HTTP requests over a transport with hooks (apitransport.go), or an engine process per
  database (pkg/datasources/database). Hooks (pkg/hooks) are HTTP calls to the hooks server at
  fixed points of the life of a request. The node stops when it was idle for some time
  (pkg/httpidletimeout). Beside the server stands the dependency manifest of a project
  (pkg/manifest).

  \<^bold>\<open>Foundations.\<close>
  \<^item> Prelude: byte strings as lists of characters and the functions of Go's packages strings,
    strconv and errors; Go errors as a datatype, results as sums with the error on the left; and
    the combinator of stages in which handlers are written: a stage goes on with a state or
    returns a final one, so that an early return of the code is the left case.
  \<^item> GoHttp: requests, cookies, and response writers whose head is sent once, by the first
    WriteHeader or Write; the authenticated user, which handlers find in the context of a request.
  \<^item> Wgpb: the fields of the configuration messages as records and datatypes; Api: the record of
    an API. A pointer is an option, an int64 an integer with its wrap-around where the code
    computes with it, a port a 16-bit word.
  \<^item> Transition: executions of a step relation under a scheduling discipline, and the locale
    \<open>step_invariant\<close>, the contract of an inductive invariant.

  \<^bold>\<open>Configuration.\<close>
  \<^item> LoadVariable: pkg/loadvariable with strconv.Atoi, which clamps, and ParseBool.
  \<^item> Validate: the validator and \<open>ApiConfig\<close> of pkg/validate; a nil dereference is the result
    \<open>None\<close>.
  \<^item> NodeConfig: the options, \<open>CreateConfig\<close>, the development defaults, host filter, listeners,
    and the polling of a configuration file (pkg/node).
  \<^item> Manifest: pkg/manifest; its lemmas show the round trip of adding, saving and loading, and
    that grouping for the template loses nothing.

  \<^bold>\<open>Authentication\<close> (pkg/authentication).
  \<^item> AccessControl: role rules (\<open>NewRBACEnforcer\<close>, \<open>Enforce\<close>), redirect URIs, CSRF, hosts.
  \<^item> UserLoad: \<open>User.Load\<close> from a bearer token or from cookies, the hooks around a login, JWT
    payloads, \<open>Save\<close>. UserHandlers: the user endpoints and the logout.
  \<^item> LoginProviders: the authorization and callback handlers of github.go and oidc.go.

  \<^bold>\<open>Operations\<close> (pkg/apihandler).
  \<^item> Hooks: the client of pkg/hooks. HandlerBase: variables, injected claims, hook data, error
    answers and the stages common to all handlers. A handler runs on a state with a trace of
    its calls to the outside, and the answers of the outside are functions of that trace: a
    property about calls is a property of the trace.
  \<^item> QueryHandler (with live queries and the cache), MutationHandler, SubscriptionHandler (with
    the flush writer): the \<open>ServeHTTP\<close> methods, stage by stage in the order of the code.
  \<^item> OperationProps: the locale \<open>guarded_handler\<close> with its three interpretations (a refused
    request calls nothing), and the order of hooks along the life cycle of each operation.
  \<^item> Endpoints: internal API, GraphQL with its plan cache, playground, webhooks, uploads.
  \<^item> Pool (pkg/pool): contexts and planning objects as pointers into a store, taken and given back by many
    users. The locale \<open>object_pool\<close>, interpreted for both pools, shows that users see what they would see
    with objects of their own. Its last section says which client request a context names.
  \<^item> RequestContext: the values the transport finds in a context; the revalidation of a stale cache entry
    loses them, so that its requests bypass the hooks.
  \<^item> ApiTransport: \<open>RoundTrip\<close> with its hooks and tokens, as a trace of what goes out.
  \<^item> ApiBuilder: \<open>BuildAndMountApiHandler\<close> and the registration of operations and of the
    login routes, with the middlewares and routes as data.

  \<^bold>\<open>Processes.\<close>
  \<^item> IdleTimeout and LazyEngine are step relations over goroutines, channels, timers and the lock,
    every atomic action being one step; their properties quantify over all interleavings, and
    the executions that show a defect are written out step by step.
  \<^item> DatabaseSource: the clean-up of requests, the retry loop and the process client.

  \<^bold>\<open>The node.\<close>
  \<^item> NodeServer: \<open>startServer\<close>, the internal API it mounts beside the public one, and the health
    endpoints; a started node has one route for every operation.
  \<^item> NodeReload: the goroutines of a node that watches its configuration file, as a step
    relation; what serves when configurations come one at a time, and what goes wrong otherwise.

  \<^bold>\<open>Planning.\<close>
  \<^item> EngineConfig (pkg/engineconfigloader): the factories of the data sources with their HTTP
    clients, and \<open>Load\<close>, which makes the configuration of a plan.
  \<^item> DatabasePlanner: the visitor of datasource.go that builds the operation for the engine. A
    walk over a valid operation leaves its stack as it was; a JSON field stays a leaf; the
    textual inlining of variables is compared with the substitution it stands for.
  \<^item> RestSource: the planner and the source of pkg/datasources/oas with pkg/customhttpclient.
  \<^item> Interpolate (pkg/interpolate, pkg/inputvariables): values are written as strings where the
    schema of the variables wants strings.
  \<^item> PostResolve (pkg/postresolvetransform): the paths of a transformation and its steps.

  \<^bold>\<open>Development tools.\<close>
  \<^item> Watcher (pkg/watcher): the initial walk, compared with the paths that no ignored directory
    hides, and the loop over file events; no change of a watched file is lost.
  \<^item> DevTools: the bundler (pkg/bundler) with the plugin that collects files to watch, and the
    script runner (pkg/scriptrunner), whose commands never overlap.
  \<^item> LoadOperations (pkg/loadoperations): the operations of a project and its fragments.

  \<^bold>\<open>Command line.\<close>
  \<^item> CliAuth (pkg/cli/auth, pkg/v2wundergraphapi, pkg/config): the login by the device flow, with
    the polling for a token, which may go on for ever, the API client and the saved settings.
  \<^item> CliCommands (cli/commands, cli/helpers, pkg/files, pkg/templates): generate, up, start and the
    commands on the manifest, composed of the bundler, the script runner, the manifest and the node.
  \<^item> CliIntrospect: the introspection of databases (introspection.go, engine.go and the commands
    introspect), the configuration of the user (pkg/config) and what runs before every command (root.go).
  \<^item> CliStart: the production process of start and node start as a step relation over the goroutines of
    the node and of the hooks server, the signals and the main goroutine, whose exit code is a property; a
    shutdown that comes too early is lost. Then the whole command up, and main.
  \<^item> ApiClientV1 (pkg/wundergraphapi): the GraphQL client of the API, which no package uses.
  \<^item> ApiCache (pkg/apicache): the caches of the handlers, and what they promise.

  \<^bold>\<open>Bounds.\<close> All recursions are total: loops over a list are structural; \<open>unNullRequest\<close>
  decreases the length of its text; the retry loop of the database source counts its attempts
  down; the loops that poll (live queries, files, engine start-up) consume the finite list of
  events or answers they are given, and say what they do when it ends. No fuel is used. The
  recursion of Interpolate over a schema need not end, nor need the polling of CliAuth; they are partial functions
  whose value \<open>None\<close> is a call that does not return, and their theorems say when they return.

  \<^bold>\<open>Parameters.\<close> Code that is not in the repository is an argument of the definitions: JSON,
  JWT, key set, OAuth2, secure cookie and cache libraries, the GraphQL engine, regular
  expressions, HMAC, object store, multipart reader, the network, processes and clocks. A
  property that needs a law of one of them states it as a hypothesis and has a witness.

  \<^bold>\<open>Not modelled.\<close> The generated accessors and descriptors of wundernode_config.pb.go; logging and
  the dump of requests for debugging; the pool of byte buffers and the conversions of unsafebytes, which keep
  the text; constructors that only copy their arguments; the parsing of flags and the texts of the command
  line; the native engine behind the build tag prisma_cgo; the installation of the engine
  binaries, which is a download; examples and tests.
\<close>

end
